(* ===== verification/GoPrelude.thy ===== *)
theory GoPrelude
  imports Complex_Main "HOL-Library.Char_ord" "HOL-Library.List_Lexorder" "HOL-Library.Multiset"
    "HOL-Library.Sublist"
begin

text \<open>
  The shared vocabulary of the development: Go's machine integers and strings, as far as the modelled
  services use them, with the lemmas every component theory needs about them.

  \<^item> \<open>i64\<close> is two's complement wrap-around at 64 bits: the model computes on \<open>int\<close> and writes
    \<open>i64\<close> around each operation of the source that could leave the range.
  \<^item> A Go string is the list of its bytes (\<open>string\<close>); comparison is byte-wise lexicographic.
\<close>

section \<open>Rule collections\<close>

named_theorems i64_simps \<open>arithmetic on 64-bit integers that stays in range\<close>
named_theorems eff_intros \<open>compositional rules of the effect combinators\<close>

section \<open>Signed 64-bit integers\<close>

definition i64_max :: int where
  "i64_max = 9223372036854775807"

definition i64_min :: int where
  "i64_min = - 9223372036854775808"

definition in_i64 :: "int \<Rightarrow> bool" where
  "in_i64 x \<longleftrightarrow> i64_min \<le> x \<and> x \<le> i64_max"

definition i64 :: "int \<Rightarrow> int" where
  "i64 x = (x + 9223372036854775808) mod 18446744073709551616 - 9223372036854775808"

lemma i64_id [i64_simps]: "in_i64 x \<Longrightarrow> i64 x = x"
  by (simp add: in_i64_def i64_def i64_min_def i64_max_def)

lemma i64_range [simp]: "in_i64 (i64 x)"
proof -
  have "0 \<le> (x + 9223372036854775808) mod 18446744073709551616"
    and "(x + 9223372036854775808) mod 18446744073709551616 < 18446744073709551616"
    by simp_all
  then show ?thesis
    unfolding in_i64_def i64_def i64_min_def i64_max_def by linarith
qed

lemma in_i64_between: "in_i64 a \<Longrightarrow> in_i64 b \<Longrightarrow> a \<le> x \<Longrightarrow> x \<le> b \<Longrightarrow> in_i64 x"
  by (simp add: in_i64_def)

lemma in_i64_max [simp]: "in_i64 i64_max" and in_i64_zero [simp]: "in_i64 0"
  by (simp_all add: in_i64_def i64_max_def i64_min_def)

lemma i64_max_nonneg [simp]: "0 \<le> i64_max"
  by (simp add: i64_max_def)

lemma in_i64_diff: "0 \<le> a \<Longrightarrow> 0 \<le> b \<Longrightarrow> in_i64 a \<Longrightarrow> in_i64 b \<Longrightarrow> in_i64 (a - b)"
  by (simp add: in_i64_def i64_max_def i64_min_def)

section \<open>Strings\<close>

text \<open>
  \<open>strings.TrimSpace\<close> removes Unicode white space at both ends. On the bytes of UTF-8 text these
  are the six ASCII ones, two of two bytes (U+0085, U+00A0) and seventeen of three bytes.
  \<open>skip_space\<close> takes one white-space character off the front of a byte string,
  \<open>skip_space_rev\<close> one off the front of a reversed byte string.
\<close>

definition ascii_space :: "char \<Rightarrow> bool" where
  "ascii_space c \<longleftrightarrow> c \<in> {CHR 0x09, CHR 0x0A, CHR 0x0B, CHR 0x0C, CHR 0x0D, CHR 0x20}"

definition wide_space2 :: "char \<Rightarrow> char \<Rightarrow> bool" where
  "wide_space2 a b \<longleftrightarrow> a = CHR 0xC2 \<and> b \<in> {CHR 0x85, CHR 0xA0}"

definition wide_space3 :: "char \<Rightarrow> char \<Rightarrow> char \<Rightarrow> bool" where
  "wide_space3 a b c \<longleftrightarrow>
     (a = CHR 0xE1 \<and> b = CHR 0x9A \<and> c = CHR 0x80) \<or>
     (a = CHR 0xE2 \<and> b = CHR 0x80 \<and>
       c \<in> {CHR 0x80, CHR 0x81, CHR 0x82, CHR 0x83, CHR 0x84, CHR 0x85, CHR 0x86, CHR 0x87,
            CHR 0x88, CHR 0x89, CHR 0x8A, CHR 0xA8, CHR 0xA9, CHR 0xAF}) \<or>
     (a = CHR 0xE2 \<and> b = CHR 0x81 \<and> c = CHR 0x9F) \<or>
     (a = CHR 0xE3 \<and> b = CHR 0x80 \<and> c = CHR 0x80)"

fun skip_space :: "string \<Rightarrow> string option" where
  "skip_space (a # b # c # s) =
     (if ascii_space a then Some (b # c # s)
      else if wide_space2 a b then Some (c # s)
      else if wide_space3 a b c then Some s else None)"
| "skip_space [a, b] =
     (if ascii_space a then Some [b] else if wide_space2 a b then Some [] else None)"
| "skip_space [a] = (if ascii_space a then Some [] else None)"
| "skip_space [] = None"

fun skip_space_rev :: "string \<Rightarrow> string option" where
  "skip_space_rev (c # b # a # s) =
     (if ascii_space c then Some (b # a # s)
      else if wide_space2 b c then Some (a # s)
      else if wide_space3 a b c then Some s else None)"
| "skip_space_rev [c, b] =
     (if ascii_space c then Some [b] else if wide_space2 b c then Some [] else None)"
| "skip_space_rev [c] = (if ascii_space c then Some [] else None)"
| "skip_space_rev [] = None"

lemma skip_space_length: "skip_space s = Some t \<Longrightarrow> length t < length s"
  by (cases s rule: skip_space.cases) (auto split: if_splits)

lemma skip_space_rev_length: "skip_space_rev s = Some t \<Longrightarrow> length t < length s"
  by (cases s rule: skip_space_rev.cases) (auto split: if_splits)

function trim_left :: "string \<Rightarrow> string" where
  "trim_left s = (case skip_space s of None \<Rightarrow> s | Some t \<Rightarrow> trim_left t)"
  by pat_completeness auto
termination
  by (relation "measure length") (auto dest: skip_space_length)

function trim_left_rev :: "string \<Rightarrow> string" where
  "trim_left_rev s = (case skip_space_rev s of None \<Rightarrow> s | Some t \<Rightarrow> trim_left_rev t)"
  by pat_completeness auto
termination
  by (relation "measure length") (auto dest: skip_space_rev_length)

declare trim_left.simps [simp del] trim_left_rev.simps [simp del]

definition trim_space :: "string \<Rightarrow> string" where
  "trim_space s = rev (trim_left_rev (rev (trim_left s)))"

text \<open>A string that starts and ends with a printable ASCII character is not changed by trimming.\<close>

definition plain_char :: "char \<Rightarrow> bool" where
  "plain_char c \<longleftrightarrow> CHR 0x20 < c \<and> c < CHR 0x7F"

lemma plain_charD:
  assumes "plain_char c"
  shows "\<not> ascii_space c" "\<not> wide_space2 c b" "\<not> wide_space2 b c"
    "\<not> wide_space3 c d e" "\<not> wide_space3 d e c"
  using assms
  by (auto simp: plain_char_def ascii_space_def wide_space2_def wide_space3_def less_char_def)

lemma skip_space_plain: "plain_char c \<Longrightarrow> skip_space (c # s) = None"
  by (cases "c # s" rule: skip_space.cases) (auto simp: plain_charD)

lemma skip_space_rev_plain: "plain_char c \<Longrightarrow> skip_space_rev (c # s) = None"
  by (cases "c # s" rule: skip_space_rev.cases) (auto simp: plain_charD)

lemma trim_space_plain:
  "s \<noteq> [] \<Longrightarrow> plain_char (hd s) \<Longrightarrow> plain_char (last s) \<Longrightarrow> trim_space s = s"
proof -
  assume ne: "s \<noteq> []" and h: "plain_char (hd s)" and l: "plain_char (last s)"
  have "skip_space s = None"
    using ne h by (cases s) (simp_all add: skip_space_plain)
  moreover have "skip_space_rev (rev s) = None"
    using ne l by (cases s rule: rev_cases) (simp_all add: skip_space_rev_plain)
  ultimately show ?thesis
    by (simp add: trim_space_def trim_left.simps [of s] trim_left_rev.simps [of "rev s"])
qed

lemma trim_space_Nil [simp]: "trim_space [] = []"
  by (simp add: trim_space_def trim_left.simps trim_left_rev.simps)

lemma trim_left_suffix: "suffix (trim_left s) s"
proof (induction s rule: trim_left.induct)
  case (1 s)
  show ?case
  proof (cases "skip_space s")
    case None
    then show ?thesis by (simp add: trim_left.simps [of s])
  next
    case (Some t)
    have "suffix t s"
      using Some by (cases s rule: skip_space.cases) (auto simp: suffix_def split: if_splits)
    with 1 [OF Some] Some show ?thesis
      by (simp add: trim_left.simps [of s])
  qed
qed

lemma trim_left_rev_suffix: "suffix (trim_left_rev s) s"
proof (induction s rule: trim_left_rev.induct)
  case (1 s)
  show ?case
  proof (cases "skip_space_rev s")
    case None
    then show ?thesis by (simp add: trim_left_rev.simps [of s])
  next
    case (Some t)
    have "suffix t s"
      using Some by (cases s rule: skip_space_rev.cases) (auto simp: suffix_def split: if_splits)
    with 1 [OF Some] Some show ?thesis
      by (simp add: trim_left_rev.simps [of s])
  qed
qed

text \<open>Trimming twice is trimming once.\<close>

lemma skip_space_prefix:
  assumes "skip_space (p @ q) = None"
  shows "skip_space p = None"
proof (cases p rule: skip_space.cases)
  case (1 a b c s)
  then show ?thesis using assms by (simp split: if_splits)
next
  case (2 a b)
  then show ?thesis using assms by (cases q) (simp_all split: if_splits)
next
  case (3 a)
  show ?thesis
  proof (cases q)
    case (Cons b q')
    then show ?thesis using assms 3 by (cases q') (simp_all split: if_splits)
  qed (use assms 3 in simp)
qed simp

lemma trim_left_skip: "skip_space (trim_left s) = None"
proof (induction s rule: trim_left.induct)
  case (1 s)
  then show ?case by (cases "skip_space s") (simp_all add: trim_left.simps [of s])
qed

lemma trim_left_rev_skip: "skip_space_rev (trim_left_rev s) = None"
proof (induction s rule: trim_left_rev.induct)
  case (1 s)
  then show ?case by (cases "skip_space_rev s") (simp_all add: trim_left_rev.simps [of s])
qed

lemma trim_space_idem [simp]: "trim_space (trim_space s) = trim_space s"
proof -
  let ?l = "trim_left s" and ?r = "trim_left_rev (rev (trim_left s))"
  obtain zs where "rev ?l = zs @ ?r"
    using trim_left_rev_suffix by (auto simp: suffix_def)
  then have "?l = rev ?r @ rev zs"
    by (metis rev_append rev_rev_ident)
  then have "skip_space (rev ?r) = None"
    using skip_space_prefix trim_left_skip by metis
  then have "trim_left (rev ?r) = rev ?r"
    by (simp add: trim_left.simps [of "rev ?r"])
  moreover have "trim_left_rev ?r = ?r"
    using trim_left_rev_skip [of "rev ?l"] by (simp add: trim_left_rev.simps [of ?r])
  ultimately show ?thesis by (simp add: trim_space_def)
qed

lemma trim_space_sublist: "set (trim_space s) \<subseteq> set s"
proof -
  have "set (trim_left_rev (rev (trim_left s))) \<subseteq> set (rev (trim_left s))"
    by (rule set_mono_suffix) (rule trim_left_rev_suffix)
  also have "\<dots> \<subseteq> set s"
    using set_mono_suffix [OF trim_left_suffix [of s]] by simp
  finally show ?thesis by (simp add: trim_space_def)
qed

text \<open>Trimming keeps every printable ASCII character.\<close>

lemma space_not_plain:
  "ascii_space a \<Longrightarrow> \<not> plain_char a" "wide_space2 a b \<Longrightarrow> \<not> plain_char a \<and> \<not> plain_char b"
  "wide_space3 a b c \<Longrightarrow> \<not> plain_char a \<and> \<not> plain_char b \<and> \<not> plain_char c"
  by (auto simp: ascii_space_def wide_space2_def wide_space3_def plain_char_def less_char_def)

lemma skip_space_plain_filter: "skip_space s = Some t \<Longrightarrow> filter plain_char t = filter plain_char s"
  by (cases s rule: skip_space.cases) (auto split: if_splits dest: space_not_plain)

lemma skip_space_rev_plain_filter: "skip_space_rev s = Some t \<Longrightarrow> filter plain_char t = filter plain_char s"
  by (cases s rule: skip_space_rev.cases) (auto split: if_splits dest: space_not_plain)

lemma trim_left_plain_filter: "filter plain_char (trim_left s) = filter plain_char s"
proof (induction s rule: trim_left.induct)
  case (1 s)
  then show ?case
    by (cases "skip_space s") (simp_all add: trim_left.simps [of s] skip_space_plain_filter)
qed

lemma trim_left_rev_plain_filter: "filter plain_char (trim_left_rev s) = filter plain_char s"
proof (induction s rule: trim_left_rev.induct)
  case (1 s)
  then show ?case
    by (cases "skip_space_rev s") (simp_all add: trim_left_rev.simps [of s] skip_space_rev_plain_filter)
qed

lemma trim_space_plain_filter: "filter plain_char (trim_space s) = filter plain_char s"
  by (simp add: trim_space_def rev_filter [symmetric] trim_left_rev_plain_filter trim_left_plain_filter)

lemma trim_space_nonempty: "c \<in> set s \<Longrightarrow> plain_char c \<Longrightarrow> trim_space s \<noteq> []"
  using trim_space_plain_filter [of s] by (auto simp: filter_empty_conv dest!: sym [of "[]"])

text \<open>
  \<open>strings.ToLower\<close>: ASCII letters, and the two other characters whose lower case is an ASCII
  letter (U+212A and U+0130). Every other character of Unicode keeps a non-ASCII lower case; it is
  left as it is, which no comparison with an ASCII constant can tell.
\<close>

definition lower_char :: "char \<Rightarrow> char" where
  "lower_char c = (if CHR ''A'' \<le> c \<and> c \<le> CHR ''Z'' then char_of (of_char c + 32 :: nat) else c)"

fun to_lower :: "string \<Rightarrow> string" where
  "to_lower (a # b # c # s) =
     (if a = CHR 0xE2 \<and> b = CHR 0x84 \<and> c = CHR 0xAA then CHR ''k'' # to_lower s
      else if a = CHR 0xC4 \<and> b = CHR 0xB0 then CHR ''i'' # to_lower (c # s)
      else lower_char a # to_lower (b # c # s))"
| "to_lower [a, b] =
     (if a = CHR 0xC4 \<and> b = CHR 0xB0 then ''i'' else [lower_char a, lower_char b])"
| "to_lower [a] = [lower_char a]"
| "to_lower [] = []"

declare to_lower.simps [simp del]

lemma to_lower_lower:
  "\<forall>c \<in> set s. CHR ''a'' \<le> c \<and> c \<le> CHR ''z'' \<Longrightarrow> to_lower s = s"
  by (induction s rule: to_lower.induct)
     (auto simp: to_lower.simps lower_char_def less_eq_char_def)

text \<open>\<open>strings.Split\<close> with a one-byte separator, \<open>strings.Join\<close>, \<open>strings.HasPrefix\<close>.\<close>

fun split_on :: "char \<Rightarrow> string \<Rightarrow> string list" where
  "split_on d [] = [[]]"
| "split_on d (c # s) =
     (if c = d then [] # split_on d s
      else case split_on d s of [] \<Rightarrow> [[c]] | w # ws \<Rightarrow> (c # w) # ws)"

fun join_with :: "string \<Rightarrow> string list \<Rightarrow> string" where
  "join_with d [] = []"
| "join_with d [w] = w"
| "join_with d (w # ws) = w @ d @ join_with d ws"

lemma split_on_nonempty [simp]: "split_on d s \<noteq> []"
  by (induction s) (auto split: list.splits)

lemma join_with_Cons: "ws \<noteq> [] \<Longrightarrow> join_with d (w # ws) = w @ d @ join_with d ws"
  by (cases ws) auto

lemma join_with_head: "join_with d ((c # w) # ws) = c # join_with d (w # ws)"
  by (cases ws) auto

lemma join_split: "join_with [d] (split_on d s) = s"
proof (induction s)
  case (Cons c s)
  then show ?case
    by (cases "split_on d s") (auto simp: join_with_head join_with_Cons)
qed simp

lemma split_on_no_sep: "w \<in> set (split_on d s) \<Longrightarrow> d \<notin> set w"
  by (induction s arbitrary: w) (auto split: if_splits list.splits)

lemma split_on_append_sep:
  "d \<notin> set w \<Longrightarrow> split_on d (w @ d # s) = w # split_on d s"
  by (induction w) auto

lemma split_on_single: "d \<notin> set w \<Longrightarrow> split_on d w = [w]"
  by (induction w) auto

lemma split_join:
  "ws \<noteq> [] \<Longrightarrow> \<forall>w \<in> set ws. d \<notin> set w \<Longrightarrow> split_on d (join_with [d] ws) = ws"
proof (induction ws)
  case (Cons w ws)
  then show ?case
    by (cases ws) (simp_all add: split_on_append_sep split_on_single)
qed simp

lemma length_filter_mono:
  "(\<And>x. x \<in> set xs \<Longrightarrow> P x \<Longrightarrow> Q x) \<Longrightarrow> length (filter P xs) \<le> length (filter Q xs)"
  by (induction xs) (auto simp: le_SucI)

end
