(* ===== verification/GoLib.thy ===== *)
theory GoLib
  imports GoPrelude
begin

text \<open>
  The parts of Go's library the services compute with: \<open>path.Clean\<close>, instants and durations
  (\<open>time\<close>), 64-bit floats, and \<open>sort.Slice\<close> / \<open>sort.SliceStable\<close> with a comparison function. The
  locale \<open>strict_weak\<close> is the contract a comparison function owes to the sort; each comparison of
  the program is an interpretation of it.

  \<^item> An instant (\<open>time.Time\<close>) is the number of nanoseconds since the Unix epoch; Go's zero
    \<open>Time\<close> is \<open>zero_time\<close>. A \<open>time.Duration\<close> is its number of nanoseconds.
  \<^item> A finite \<open>float64\<close> is the rational number it denotes; NaN and the infinities are
    constructors of their own.
\<close>

section \<open>Cleaned paths\<close>

text \<open>
  \<open>path.Clean\<close>: empty and \<open>.\<close> components are dropped, \<open>..\<close> removes the component before it, a
  rooted path never leaves its root. The stack of components is kept reversed.
\<close>

fun clean_step :: "bool \<Rightarrow> string list \<Rightarrow> string \<Rightarrow> string list" where
  "clean_step rooted st c =
     (if c = [] \<or> c = ''.'' then st
      else if c = ''..'' then
        (case st of
           [] \<Rightarrow> (if rooted then [] else [''..''])
         | x # xs \<Rightarrow> (if x = ''..'' then ''..'' # st else xs))
      else c # st)"

definition path_rooted :: "string \<Rightarrow> bool" where
  "path_rooted p \<longleftrightarrow> (case p of [] \<Rightarrow> False | c # _ \<Rightarrow> c = CHR ''/'')"

definition path_comps :: "string \<Rightarrow> string list" where
  "path_comps p = rev (foldl (clean_step (path_rooted p)) [] (split_on (CHR ''/'') p))"

definition path_clean :: "string \<Rightarrow> string" where
  "path_clean p =
     (if p = [] then ''.''
      else if path_rooted p then CHR ''/'' # join_with ''/'' (path_comps p)
      else if path_comps p = [] then ''.''
      else join_with ''/'' (path_comps p))"

definition path_is_abs :: "string \<Rightarrow> bool" where
  "path_is_abs p \<longleftrightarrow> prefix ''/'' p"

definition plain_comp :: "string \<Rightarrow> bool" where
  "plain_comp c \<longleftrightarrow> c \<noteq> [] \<and> CHR ''/'' \<notin> set c"

lemma clean_step_set: "x \<in> set (clean_step r st c) \<Longrightarrow> x \<in> set st \<or> (x = c \<and> c \<noteq> [])"
  by (simp only: clean_step.simps split: if_splits list.splits) auto

declare clean_step.simps [simp del]

lemma foldl_clean_step_plain:
  "\<forall>c \<in> set st. plain_comp c \<Longrightarrow> \<forall>c \<in> set cs. CHR ''/'' \<notin> set c \<Longrightarrow>
   \<forall>c \<in> set (foldl (clean_step r) st cs). plain_comp c"
proof (induction cs arbitrary: st)
  case (Cons c cs)
  have "\<forall>x \<in> set (clean_step r st c). plain_comp x"
    using Cons.prems clean_step_set [of _ r st c] by (fastforce simp: plain_comp_def)
  then show ?case
    using Cons.IH [of "clean_step r st c"] Cons.prems by simp
qed simp

lemma path_comps_plain: "c \<in> set (path_comps p) \<Longrightarrow> plain_comp c"
proof -
  assume c: "c \<in> set (path_comps p)"
  have "\<forall>w \<in> set (split_on (CHR ''/'') p). CHR ''/'' \<notin> set w"
    using split_on_no_sep by blast
  then have "\<forall>w \<in> set (foldl (clean_step (path_rooted p)) [] (split_on (CHR ''/'') p)). plain_comp w"
    by (intro foldl_clean_step_plain) simp_all
  with c show ?thesis by (simp add: path_comps_def)
qed

lemma path_clean_rooted: "path_rooted p \<Longrightarrow> path_clean p = CHR ''/'' # join_with ''/'' (path_comps p)"
  by (auto simp: path_clean_def path_rooted_def)

lemma join_with_hd:
  "ws \<noteq> [] \<Longrightarrow> \<forall>w \<in> set ws. plain_comp w \<Longrightarrow>
   join_with ''/'' ws \<noteq> [] \<and> hd (join_with ''/'' ws) \<noteq> CHR ''/''"
proof (induction ws)
  case (Cons w ws)
  then show ?case by (cases w; cases ws) (auto simp: plain_comp_def)
qed simp

lemma path_clean_abs_iff: "path_is_abs (path_clean p) \<longleftrightarrow> path_rooted p"
proof -
  have "\<not> path_is_abs (path_clean p)" if r: "\<not> path_rooted p"
  proof (cases "p = [] \<or> path_comps p = []")
    case False
    then have "hd (join_with ''/'' (path_comps p)) \<noteq> CHR ''/''"
      and "join_with ''/'' (path_comps p) \<noteq> []"
      using join_with_hd [of "path_comps p"] path_comps_plain by blast+
    with False r show ?thesis
      by (cases "join_with ''/'' (path_comps p)") (auto simp: path_clean_def path_is_abs_def)
  qed (use r in \<open>auto simp: path_clean_def path_is_abs_def\<close>)
  then show ?thesis
    by (auto simp: path_clean_rooted path_is_abs_def)
qed

lemma split_on_append:
  "split_on d (a @ d # b) = split_on d a @ split_on d b"
  by (induction a) (auto split: list.splits)

lemma join_with_append:
  "xs \<noteq> [] \<Longrightarrow> ys \<noteq> [] \<Longrightarrow> join_with d (xs @ ys) = join_with d xs @ d @ join_with d ys"
proof (induction xs)
  case (Cons x xs)
  then show ?case by (cases xs) (auto simp: join_with_Cons)
qed simp

lemma split_join_plain:
  "ws \<noteq> [] \<Longrightarrow> \<forall>w \<in> set ws. plain_comp w \<Longrightarrow> split_on (CHR ''/'') (join_with ''/'' ws) = ws"
  by (rule split_join) (auto simp: plain_comp_def)

lemma join_plain_inj:
  assumes "\<forall>w \<in> set xs. plain_comp w" "\<forall>w \<in> set ys. plain_comp w"
    and eq: "join_with ''/'' xs = join_with ''/'' ys"
  shows "xs = ys"
proof (cases "xs = [] \<or> ys = []")
  case True
  then show ?thesis
    using join_with_hd [of xs] join_with_hd [of ys] assms by fastforce
next
  case False
  then have "split_on (CHR ''/'') (join_with ''/'' xs) = xs"
    and "split_on (CHR ''/'') (join_with ''/'' ys) = ys"
    using assms(1,2) by (simp_all add: split_join_plain)
  with eq show ?thesis by metis
qed

text \<open>
  The test \<open>clean == root || HasPrefix(clean, root + "/")\<close> is the prefix order on components.
\<close>

lemma clean_prefix_iff:
  assumes p: "path_rooted p" and r: "path_rooted r" and ne: "path_comps r \<noteq> []"
  shows "path_clean p = path_clean r \<or> prefix (path_clean r @ ''/'') (path_clean p)
    \<longleftrightarrow> prefix (path_comps r) (path_comps p)"
proof -
  let ?j = "join_with ''/''" and ?P = "path_comps p" and ?R = "path_comps r"
  have plain: "\<forall>w \<in> set ?P. plain_comp w" "\<forall>w \<in> set ?R. plain_comp w"
    by (simp_all add: path_comps_plain)
  have splitR: "split_on (CHR ''/'') (?j ?R) = ?R"
    using ne plain(2) by (rule split_join_plain)
  have 1: "?P = ?R @ split_on (CHR ''/'') t" if eq: "?j ?P = ?j ?R @ CHR ''/'' # t" for t
  proof -
    have "?P \<noteq> []" using eq by auto
    then have "?P = split_on (CHR ''/'') (?j ?P)"
      using plain(1) by (simp add: split_join_plain)
    then show ?thesis by (simp add: eq split_on_append splitR)
  qed
  have 2: "?j ?P = ?j ?R \<or> (\<exists>t. ?j ?P = ?j ?R @ CHR ''/'' # t)" if "prefix ?R ?P"
  proof -
    from that obtain zs where "?P = ?R @ zs" by (auto simp: prefix_def)
    then show ?thesis using ne by (cases "zs = []") (auto simp: join_with_append)
  qed
  show ?thesis
    using 1 2 join_plain_inj [OF plain] by (auto simp: path_clean_rooted p r prefix_def)
qed

section \<open>Instants and durations\<close>

definition second :: int where "second = 1000000000"
definition minute :: int where "minute = 60 * second"
definition hour :: int where "hour = 60 * minute"
definition millisecond :: int where "millisecond = 1000000"

lemmas duration_defs = second_def minute_def hour_def millisecond_def

text \<open>Go's zero \<open>time.Time\<close>: the start of year 1.\<close>

definition zero_time :: int where
  "zero_time = - 62135596800 * second"

text \<open>\<open>time.Unix(sec, 0)\<close>: the seconds are kept as a 64-bit count from year 1, with wrap-around.\<close>

definition time_unix :: "int \<Rightarrow> int" where
  "time_unix sec = (i64 (sec + 62135596800) - 62135596800) * second"

text \<open>\<open>t.Sub(u)\<close> saturates at the range of a duration.\<close>

definition time_sub :: "int \<Rightarrow> int \<Rightarrow> int" where
  "time_sub t u = max i64_min (min i64_max (t - u))"

lemma time_unix_small [i64_simps]:
  "0 \<le> s \<Longrightarrow> s \<le> 9223371974719179007 \<Longrightarrow> time_unix s = s * second"
  by (simp add: time_unix_def i64_id in_i64_def i64_max_def i64_min_def)

lemma time_sub_small [i64_simps]: "in_i64 (t - u) \<Longrightarrow> time_sub t u = t - u"
  by (auto simp: time_sub_def in_i64_def)

lemma time_sub_ge_iff: "i64_min < d \<Longrightarrow> d \<le> i64_max \<Longrightarrow> d \<le> time_sub t u \<longleftrightarrow> d \<le> t - u"
  by (auto simp: time_sub_def)

section \<open>64-bit floats\<close>

datatype f64 = NaN | PInf | NInf | Fin rat

fun f_is_nan :: "f64 \<Rightarrow> bool" where
  "f_is_nan NaN = True" | "f_is_nan _ = False"

fun f_is_inf :: "f64 \<Rightarrow> bool" where
  "f_is_inf PInf = True" | "f_is_inf NInf = True" | "f_is_inf _ = False"

fun f_lt :: "f64 \<Rightarrow> f64 \<Rightarrow> bool" where
  "f_lt NaN _ = False"
| "f_lt _ NaN = False"
| "f_lt (Fin a) (Fin b) = (a < b)"
| "f_lt NInf NInf = False"
| "f_lt NInf _ = True"
| "f_lt _ NInf = False"
| "f_lt PInf _ = False"
| "f_lt _ PInf = True"

fun f_eq :: "f64 \<Rightarrow> f64 \<Rightarrow> bool" where
  "f_eq (Fin a) (Fin b) = (a = b)"
| "f_eq PInf PInf = True"
| "f_eq NInf NInf = True"
| "f_eq _ _ = False"

text \<open>
  Rounding a rational to the nearest \<open>float64\<close>, ties to even. \<open>flog2\<close> is the binary exponent;
  a result has 53 significant bits, or a multiple of \<open>2 ^ - 1074\<close> when it is subnormal. The
  services only round quotients and differences far below the overflow threshold, so the model
  has no overflow to infinity.
\<close>

fun ilog2 :: "nat \<Rightarrow> int" where
  "ilog2 n = (if n < 2 then 0 else 1 + ilog2 (n div 2))"

declare ilog2.simps [simp del]

definition pow2r :: "int \<Rightarrow> rat" where
  "pow2r e = (if 0 \<le> e then 2 ^ nat e else 1 / 2 ^ nat (- e))"

definition flog2 :: "rat \<Rightarrow> int" where
  "flog2 x =
     (let (p, q) = quotient_of x; n = ilog2 (nat p) - ilog2 (nat q)
      in if x < pow2r n then n - 1 else n)"

definition round_half_even :: "rat \<Rightarrow> int" where
  "round_half_even r =
     (let f = \<lfloor>r\<rfloor>; d = r - of_int f
      in if d < 1 / 2 then f else if 1 / 2 < d then f + 1 else if even f then f else f + 1)"

definition round_f64 :: "rat \<Rightarrow> rat" where
  "round_f64 x =
     (if x = 0 then 0
      else let q = max (flog2 \<bar>x\<bar> - 52) (- 1074)
           in of_int (round_half_even (x / pow2r q)) * pow2r q)"

lemma round_f64_0 [simp]: "round_f64 0 = 0"
  by (simp add: round_f64_def)

lemma pow2r_pos: "0 < pow2r e"
  by (simp add: pow2r_def)

lemma round_half_even_nonneg: "0 \<le> r \<Longrightarrow> 0 \<le> round_half_even r"
  by (simp add: round_half_even_def Let_def)

lemma round_f64_nonneg: "0 \<le> x \<Longrightarrow> 0 \<le> round_f64 x"
  by (simp add: round_f64_def Let_def round_half_even_nonneg pow2r_pos less_imp_le)

lemma f_lt_irrefl [simp]: "\<not> f_lt x x"
  by (cases x) auto

section \<open>Sorting with a comparison function\<close>

text \<open>
  \<open>sort.SliceStable(xs, less)\<close>, as an insertion sort: an element goes before the first one that
  is not less than it. \<open>sort.Slice\<close> may order elements that compare equal in any way; where no
  two elements do, \<open>sort_by_unique\<close> says its result is this one.
\<close>

fun insort_by :: "('a \<Rightarrow> 'a \<Rightarrow> bool) \<Rightarrow> 'a \<Rightarrow> 'a list \<Rightarrow> 'a list" where
  "insort_by lt x [] = [x]"
| "insort_by lt x (y # ys) = (if lt y x then y # insort_by lt x ys else x # y # ys)"

definition sort_by :: "('a \<Rightarrow> 'a \<Rightarrow> bool) \<Rightarrow> 'a list \<Rightarrow> 'a list" where
  "sort_by lt xs = foldr (insort_by lt) xs []"

lemma sort_by_simps [simp]:
  "sort_by lt [] = []" "sort_by lt (x # xs) = insort_by lt x (sort_by lt xs)"
  by (simp_all add: sort_by_def)

lemma mset_insort_by [simp]: "mset (insort_by lt x xs) = add_mset x (mset xs)"
  by (induction xs) auto

lemma mset_sort_by [simp]: "mset (sort_by lt xs) = mset xs"
  by (induction xs) auto

lemma set_sort_by [simp]: "set (sort_by lt xs) = set xs"
  by (metis mset_sort_by set_mset_mset)

lemma set_insort_by [simp]: "set (insort_by lt x xs) = insert x (set xs)"
  by (metis mset_insort_by set_mset_add_mset_insert set_mset_mset)

lemma length_sort_by [simp]: "length (sort_by lt xs) = length xs"
  by (metis mset_sort_by size_mset)

lemma distinct_sort_by [simp]: "distinct (sort_by lt xs) = distinct xs"
  by (rule mset_eq_imp_distinct_iff) simp

locale strict_weak =
  fixes lt :: "'a \<Rightarrow> 'a \<Rightarrow> bool"
  assumes asym: "lt a b \<Longrightarrow> \<not> lt b a"
    and cotrans: "lt a c \<Longrightarrow> lt a b \<or> lt b c"
begin

lemma trans: "lt a b \<Longrightarrow> lt b c \<Longrightarrow> lt a c"
  using asym cotrans by blast

lemma irrefl: "\<not> lt a a"
  using asym by blast

lemma insort_sorted:
  "sorted_wrt (\<lambda>a b. \<not> lt b a) xs \<Longrightarrow> sorted_wrt (\<lambda>a b. \<not> lt b a) (insort_by lt x xs)"
proof (induction xs)
  case (Cons y ys)
  show ?case
  proof (cases "lt y x")
    case True
    with Cons asym show ?thesis by auto
  next
    case False
    have "\<not> lt z x" if "z \<in> set ys" for z
      using cotrans [of z x y] False Cons.prems that by auto
    with False Cons.prems show ?thesis by auto
  qed
qed simp

lemma sort_sorted: "sorted_wrt (\<lambda>a b. \<not> lt b a) (sort_by lt xs)"
  by (induction xs) (auto intro: insort_sorted)

lemma sorted_unique:
  assumes "sorted_wrt (\<lambda>a b. \<not> lt b a) xs" "sorted_wrt (\<lambda>a b. \<not> lt b a) ys" "mset xs = mset ys"
    and tie: "\<And>a b. a \<in> set xs \<Longrightarrow> b \<in> set xs \<Longrightarrow> \<not> lt a b \<Longrightarrow> \<not> lt b a \<Longrightarrow> a = b"
  shows "xs = ys"
  using assms
proof (induction xs arbitrary: ys)
  case (Cons x xs)
  then obtain y ys' where ys: "ys = y # ys'" by (cases ys) auto
  have y_in: "y \<in> set (x # xs)" and x_in: "x \<in> set (y # ys')"
    using Cons.prems(3) ys by (metis list.set_intros(1) set_mset_mset)+
  have "\<not> lt y x" using Cons.prems(1) y_in irrefl by auto
  moreover have "\<not> lt x y" using Cons.prems(2) x_in irrefl ys by auto
  ultimately have xy: "x = y" using Cons.prems(4) y_in by simp
  with Cons.prems ys have "xs = ys'"
    by (intro Cons.IH) auto
  with xy ys show ?case by simp
qed simp

lemma sort_by_unique:
  assumes "sorted_wrt (\<lambda>a b. \<not> lt b a) ys" "mset ys = mset xs"
    and "\<And>a b. a \<in> set xs \<Longrightarrow> b \<in> set xs \<Longrightarrow> \<not> lt a b \<Longrightarrow> \<not> lt b a \<Longrightarrow> a = b"
  shows "ys = sort_by lt xs"
  using assms
  by (intro sorted_unique) (auto simp: sort_sorted dest!: mset_eq_setD)

end

text \<open>A comparison of images under a key is again a contract-abiding comparison.\<close>

lemma strict_weak_key:
  assumes "strict_weak lt"
  shows "strict_weak (\<lambda>a b. lt (f a) (f b))"
proof -

  show ?thesis
    using strict_weak.asym [OF assms] strict_weak.cotrans [OF assms]
    by unfold_locales blast+
qed

end
