(* ===== verification/HkTypes.thy ===== *)
theory HkTypes
  imports GoLib
begin

text \<open>
  qBittorrent housekeeper, data and pure rules
  (workloads/qbittorrent-housekeeper/internal/housekeeper/engine.go, internal/qbit/client.go):
  the torrent as the Web API lists it, the retention policy and its validation, policy tags,
  the completeness, path and ordering rules. Sizes are 64-bit integers read as \<open>int\<close>.
\<close>

section \<open>Torrents and the policy\<close>

record torrent =
  t_hash :: string
  t_name :: string
  t_size :: int
  t_completed :: int
  t_amount_left :: int
  t_progress :: f64
  t_ratio :: f64
  t_state :: string
  t_tags :: string
  t_save_path :: string
  t_download_path :: string
  t_added_on :: int
  t_completion_on :: int

record policy =
  soft_cap_bytes :: int
  min_age :: int
  min_ratio :: f64
  admitted_tag :: string
  waiting_tag :: string
  rejected_tag :: string
  keep_tag :: string
  download_root :: string

definition default_policy :: "int \<Rightarrow> int \<Rightarrow> f64 \<Rightarrow> policy" where
  "default_policy cap age ratio =
     \<lparr>soft_cap_bytes = cap, min_age = age, min_ratio = ratio,
      admitted_tag = ''retention-admitted'', waiting_tag = ''retention-waiting'',
      rejected_tag = ''retention-rejected'', keep_tag = ''retention-keep'',
      download_root = ''/downloads''\<rparr>"

fun validate_tags :: "string list \<Rightarrow> string list \<Rightarrow> string option" where
  "validate_tags seen [] = None"
| "validate_tags seen (tag # tags) =
     (if trim_space tag = [] \<or> CHR '','' \<in> set tag
        then Some ''policy tags must be non-empty and must not contain commas''
      else if tag \<in> set seen then Some ''policy tags must be unique''
      else validate_tags (tag # seen) tags)"

definition policy_validate :: "policy \<Rightarrow> string option" where
  "policy_validate p =
     (if soft_cap_bytes p \<le> 0 then Some ''soft cap must be positive''
      else if min_age p < 0 \<or> f_lt (min_ratio p) (Fin 0) \<or> f_is_nan (min_ratio p) \<or> f_is_inf (min_ratio p)
        then Some ''retention thresholds must not be negative''
      else let clean_root = path_clean (download_root p) in
        if \<not> path_is_abs clean_root \<or> clean_root = ''/''
          then Some ''download root must be an absolute dedicated directory, not the filesystem root''
        else validate_tags [] [admitted_tag p, waiting_tag p, rejected_tag p, keep_tag p])"

section \<open>Managed torrents\<close>

text \<open>
  \<open>managedTorrent\<close>: the torrent with the local copy of its tag set. The engine's slices of pointers
  to managed torrents are lists of positions in the list of items.
\<close>

record managed =
  tor :: torrent
  tagset :: "string set"
  block_admission :: bool

definition new_managed :: "torrent \<Rightarrow> managed" where
  "new_managed t =
     \<lparr>tor = t,
      tagset = set (filter (\<lambda>tag. tag \<noteq> []) (map trim_space (split_on (CHR '','') (t_tags t)))),
      block_admission = False\<rparr>"

definition has :: "managed \<Rightarrow> string \<Rightarrow> bool" where
  "has m tag \<longleftrightarrow> tag \<in> tagset m"

definition add_tag :: "string \<Rightarrow> managed \<Rightarrow> managed" where
  "add_tag tag m = m\<lparr>tagset := insert tag (tagset m)\<rparr>"

definition remove_tag :: "string \<Rightarrow> managed \<Rightarrow> managed" where
  "remove_tag tag m = m\<lparr>tagset := tagset m - {tag}\<rparr>"

definition set_state :: "string \<Rightarrow> managed \<Rightarrow> managed" where
  "set_state st m = m\<lparr>tor := (tor m)\<lparr>t_state := st\<rparr>\<rparr>"

lemma new_managed_tor [simp]: "tor (new_managed t) = t"
  by (simp add: new_managed_def)

lemma has_simps [simp]:
  "has (add_tag x m) y \<longleftrightarrow> y = x \<or> has m y"
  "has (remove_tag x m) y \<longleftrightarrow> y \<noteq> x \<and> has m y"
  "has (set_state st m) y = has m y"
  "has (m\<lparr>block_admission := b\<rparr>) y = has m y"
  by (auto simp: has_def add_tag_def remove_tag_def set_state_def)

lemma tor_simps [simp]:
  "tor (add_tag x m) = tor m" "tor (remove_tag x m) = tor m"
  "tor (set_state st m) = (tor m)\<lparr>t_state := st\<rparr>"
  "block_admission (add_tag x m) = block_admission m"
  "block_admission (remove_tag x m) = block_admission m"
  "block_admission (set_state st m) = block_admission m"
  by (simp_all add: add_tag_def remove_tag_def set_state_def)

section \<open>Rules on one torrent\<close>

definition is_stopped :: "string \<Rightarrow> bool" where
  "is_stopped state \<longleftrightarrow> prefix ''stopped'' state \<or> prefix ''paused'' state"

definition metadata_ready :: "torrent \<Rightarrow> bool" where
  "metadata_ready t \<longleftrightarrow> 0 < t_size t \<and> t_state t \<noteq> ''metaDL'' \<and> t_state t \<noteq> ''checkingResumeData''"

definition complete_states :: "string list" where
  "complete_states = [''uploading'', ''pausedup'', ''queuedup'', ''stalledup'', ''forcedup'', ''stoppedup'']"

definition currently_complete :: "torrent \<Rightarrow> bool" where
  "currently_complete t =
     (let trimmed_hash = trim_space (t_hash t) in
      if trimmed_hash = [] \<or> t_hash t \<noteq> trimmed_hash \<or> t_size t \<le> 0 \<or>
         t_completed t \<noteq> t_size t \<or> t_amount_left t \<noteq> 0 \<or>
         f_is_nan (t_progress t) \<or> f_is_inf (t_progress t) \<or> \<not> f_eq (t_progress t) (Fin 1)
        then False
      else if t_state t \<noteq> trim_space (t_state t) then False
      else to_lower (t_state t) \<in> set complete_states)"

definition valid_ratio :: "f64 \<Rightarrow> bool" where
  "valid_ratio r \<longleftrightarrow> \<not> f_is_nan r \<and> \<not> f_is_inf r \<and> (f_lt (Fin 0) r \<or> f_eq r (Fin 0))"

definition pressure_eviction_state_allowed :: "string \<Rightarrow> bool" where
  "pressure_eviction_state_allowed state \<longleftrightarrow>
     to_lower state \<in> set [''downloading'', ''forceddl'', ''queueddl'', ''stalleddl'', ''pauseddl'', ''stoppeddl'',
       ''uploading'', ''forcedup'', ''queuedup'', ''stalledup'', ''pausedup'', ''stoppedup'']"

text \<open>
  \<open>math.Abs(t.Progress - float64(t.Completed)/float64(t.Size)) > 0.000001\<close>, each conversion and
  operation rounded, the constant too.
\<close>

definition progress_deviates :: "rat \<Rightarrow> int \<Rightarrow> int \<Rightarrow> bool" where
  "progress_deviates progress completed sz =
     (let expected = round_f64 (round_f64 (of_int completed) / round_f64 (of_int sz))
      in \<bar>round_f64 (progress - expected)\<bar> > round_f64 (1 / 1000000))"

definition valid_pressure_eviction_metadata :: "torrent \<Rightarrow> int \<Rightarrow> bool" where
  "valid_pressure_eviction_metadata t now =
     (let trimmed_hash = trim_space (t_hash t); trimmed_state = trim_space (t_state t) in
      if trimmed_hash = [] \<or> t_hash t \<noteq> trimmed_hash \<or>
         trimmed_state = [] \<or> t_state t \<noteq> trimmed_state \<or>
         t_size t \<le> 0 \<or>
         t_completed t < 0 \<or> t_size t < t_completed t \<or>
         t_amount_left t < 0 \<or> t_size t < t_amount_left t \<or>
         t_completed t \<noteq> i64 (t_size t - t_amount_left t) \<or>
         f_is_nan (t_progress t) \<or> f_is_inf (t_progress t) \<or>
         f_lt (t_progress t) (Fin 0) \<or> f_lt (Fin 1) (t_progress t) \<or>
         t_added_on t \<le> 0
        then False
      else case t_progress t of
        Fin pr \<Rightarrow>
          if progress_deviates pr (t_completed t) (t_size t) \<or> \<not> pressure_eviction_state_allowed trimmed_state
          then False else \<not> now < time_unix (t_added_on t)
      | _ \<Rightarrow> False)"

definition path_inside_root :: "string \<Rightarrow> string \<Rightarrow> bool" where
  "path_inside_root candidate base =
     (let clean_candidate = path_clean candidate; clean_root = path_clean base in
      if candidate = [] \<or> \<not> path_is_abs clean_candidate then False
      else clean_candidate = clean_root \<or> prefix (clean_root @ ''/'') clean_candidate)"

definition paths_inside_download_root :: "torrent \<Rightarrow> string \<Rightarrow> bool" where
  "paths_inside_download_root t base =
     (if \<not> path_inside_root (t_save_path t) base then False
      else t_download_path t = [] \<or> path_inside_root (t_download_path t) base)"

definition sort_time :: "torrent \<Rightarrow> int" where
  "sort_time t =
     (if 0 < t_completion_on t then t_completion_on t
      else if 0 < t_added_on t then t_added_on t else i64_max)"

definition older :: "torrent \<Rightarrow> torrent \<Rightarrow> bool" where
  "older a b =
     (let a_time = sort_time a; b_time = sort_time b in
      if a_time \<noteq> b_time then a_time < b_time else t_hash a < t_hash b)"

definition older_by_added_time :: "torrent \<Rightarrow> torrent \<Rightarrow> bool" where
  "older_by_added_time a b =
     (if t_added_on a \<noteq> t_added_on b then t_added_on a < t_added_on b else t_hash a < t_hash b)"

definition materialized_bytes :: "torrent \<Rightarrow> int" where
  "materialized_bytes t =
     (if t_completed t \<le> 0 \<or> t_size t \<le> 0 then 0
      else if t_size t < t_completed t then t_size t else t_completed t)"

definition saturating_add :: "int \<Rightarrow> int \<Rightarrow> int" where
  "saturating_add a b =
     (if b \<le> 0 then a else if a > i64 (i64_max - b) then i64_max else i64 (a + b))"

definition short_hash :: "string \<Rightarrow> string" where
  "short_hash h = (if length h \<le> 12 then h else take 12 h)"

section \<open>What the rules mean\<close>

text \<open>Every comparison the engine sorts with keeps the contract of the sort.\<close>

interpretation older_order: strict_weak older
  by unfold_locales (auto simp: older_def Let_def split: if_splits)

interpretation added_order: strict_weak older_by_added_time
  by unfold_locales (auto simp: older_by_added_time_def split: if_splits)

lemma set_state_same [simp]: "set_state (t_state (tor m)) m = m"
  by (simp add: set_state_def)

lemma is_stopped_stoppedDL [simp]: "is_stopped ''stoppedDL''"
  by (simp add: is_stopped_def)

lemma is_stopped_downloading [simp]: "\<not> is_stopped ''downloading''"
  by (simp add: is_stopped_def)

lemma materialized_bounds: "0 \<le> materialized_bytes t"
  by (simp add: materialized_bytes_def)

lemma materialized_le_size: "0 < t_size t \<Longrightarrow> materialized_bytes t \<le> t_size t"
  by (simp add: materialized_bytes_def)

lemma saturating_add_min:
  "0 \<le> a \<Longrightarrow> 0 \<le> b \<Longrightarrow> in_i64 a \<Longrightarrow> in_i64 b \<Longrightarrow> saturating_add a b = min (a + b) i64_max"
  by (auto simp: saturating_add_def i64_id in_i64_def i64_max_def i64_min_def)

text \<open>The code's accumulation loops, \<open>acc = saturatingAdd(acc, f(x))\<close>, compute the capped sum.\<close>

definition sat_sum :: "(managed \<Rightarrow> int) \<Rightarrow> managed list \<Rightarrow> int \<Rightarrow> int" where
  "sat_sum f ms acc = foldl (\<lambda>a m. saturating_add a (f m)) acc ms"

lemma sat_sum_min:
  assumes "0 \<le> acc" "in_i64 acc" "\<forall>m \<in> set ms. 0 \<le> f m \<and> in_i64 (f m)"
  shows "sat_sum f ms acc = min (acc + sum_list (map f ms)) i64_max"
  using assms
proof (induction ms arbitrary: acc)
  case Nil
  then show ?case by (simp add: sat_sum_def in_i64_def)
next
  case (Cons m ms)
  let ?a = "saturating_add acc (f m)"
  have a: "?a = min (acc + f m) i64_max"
    using Cons.prems by (simp add: saturating_add_min)
  have nn: "0 \<le> sum_list (map f ms)"
    using Cons.prems(3) by (intro sum_list_nonneg) auto
  have "sat_sum f (m # ms) acc = sat_sum f ms ?a" by (simp add: sat_sum_def)
  also have "\<dots> = min (?a + sum_list (map f ms)) i64_max"
    using Cons.prems a by (intro Cons.IH) (auto simp: in_i64_def i64_max_def i64_min_def)
  also have "\<dots> = min (acc + sum_list (map f (m # ms))) i64_max"
    using a nn by simp
  finally show ?case .
qed

end
