(* ===== verification/HkStatus.thy ===== *)
theory HkStatus
  imports HkTypes
begin

text \<open>
  qBittorrent housekeeper, status store and health endpoint
  (workloads/qbittorrent-housekeeper/internal/housekeeper/status.go): the last snapshot, how a
  successful and a failed poll change it, and what \<open>GET /healthz\<close> answers.
\<close>

record snapshot =
  s_healthy :: bool
  s_last_attempt :: int
  s_last_success :: int
  s_last_error :: string
  s_message :: string
  s_torrent_count :: int
  s_admitted :: int
  s_waiting :: int
  s_rejected :: int
  s_kept :: int
  s_unmanaged :: int
  s_admitted_this_poll :: int
  s_deletions_requested :: int
  s_used_bytes :: int
  s_reserved_bytes :: int
  s_committed_bytes :: int
  s_soft_cap_bytes :: int

definition new_status_store :: snapshot where
  "new_status_store =
     \<lparr>s_healthy = False, s_last_attempt = zero_time, s_last_success = zero_time, s_last_error = [],
      s_message = ''waiting for first reconciliation'', s_torrent_count = 0, s_admitted = 0,
      s_waiting = 0, s_rejected = 0, s_kept = 0, s_unmanaged = 0, s_admitted_this_poll = 0,
      s_deletions_requested = 0, s_used_bytes = 0, s_reserved_bytes = 0, s_committed_bytes = 0,
      s_soft_cap_bytes = 0\<rparr>"

definition record_success :: "snapshot \<Rightarrow> snapshot \<Rightarrow> snapshot" where
  "record_success snap _ = snap\<lparr>s_healthy := True, s_last_error := []\<rparr>"

definition record_failure :: "int \<Rightarrow> string \<Rightarrow> snapshot \<Rightarrow> snapshot" where
  "record_failure at_time err st =
     st\<lparr>s_healthy := False, s_last_attempt := at_time, s_last_error := err,
        s_message := ''reconciliation failed closed''\<rparr>"

record health_answer =
  h_status :: int
  h_healthy :: bool
  h_last_success :: int
  h_message :: string

text \<open>\<open>GET /healthz\<close> at instant \<open>now\<close>; status 200 is the default of the response writer.\<close>

definition healthz :: "int \<Rightarrow> int \<Rightarrow> snapshot \<Rightarrow> health_answer" where
  "healthz now max_age st =
     (let healthy = s_healthy st \<and> s_last_success st \<noteq> zero_time \<and>
                    time_sub now (s_last_success st) \<le> max_age
      in \<lparr>h_status = (if healthy then 200 else 503), h_healthy = healthy,
          h_last_success = s_last_success st, h_message = s_message st\<rparr>)"

lemma record_success_simps [simp]:
  "s_healthy (record_success snap st)" "s_last_error (record_success snap st) = []"
  "s_last_success (record_success snap st) = s_last_success snap"
  "s_message (record_success snap st) = s_message snap"
  "s_admitted_this_poll (record_success snap st) = s_admitted_this_poll snap"
  "s_deletions_requested (record_success snap st) = s_deletions_requested snap"
  by (simp_all add: record_success_def)

lemma record_failure_simps [simp]:
  "\<not> s_healthy (record_failure at_time err st)"
  "s_last_error (record_failure at_time err st) = err"
  "s_last_success (record_failure at_time err st) = s_last_success st"
  "s_last_attempt (record_failure at_time err st) = at_time"
  by (simp_all add: record_failure_def)

lemma healthz_failure: "h_status (healthz now max_age (record_failure at_time err st)) = 503"
  by (simp add: healthz_def)

end
