(* ===== verification/HkRules.thy ===== *)
theory HkRules
  imports HkStatus
begin

text \<open>
  qBittorrent housekeeper, the pure decisions of a poll
  (workloads/qbittorrent-housekeeper/internal/housekeeper/engine.go): which torrents routine
  retention deletes, whether a torrent fits the budget, which admitted torrents storage pressure
  evicts, which waiting torrents are candidates, and the published snapshot.
\<close>

section \<open>Budget\<close>

text \<open>
  \<open>fitsAfterPressureEvictions\<close>: first the usage predicted after the evictions, then the sizes and
  materialized bytes of the admitted torrents that stay, then the comparison with the cap.
\<close>

definition predicted_used :: "managed list \<Rightarrow> int \<Rightarrow> nat list \<Rightarrow> int" where
  "predicted_used items used evicted =
     foldl (\<lambda>u i. let reclaimed = materialized_bytes (tor (items ! i))
                   in if u \<le> reclaimed then 0 else i64 (u - reclaimed)) used evicted"

definition counted :: "policy \<Rightarrow> managed list \<Rightarrow> nat \<Rightarrow> nat list \<Rightarrow> managed list" where
  "counted p items candidate evicted =
     map (\<lambda>i. items ! i)
       (filter (\<lambda>i. \<not> (i = candidate \<or> \<not> has (items ! i) (admitted_tag p) \<or>
                       has (items ! i) (rejected_tag p)) \<and> i \<notin> set evicted)
          [0..<length items])"

definition fits_after_pressure_evictions ::
    "policy \<Rightarrow> managed list \<Rightarrow> nat \<Rightarrow> int \<Rightarrow> nat list \<Rightarrow> bool" where
  "fits_after_pressure_evictions p items candidate used evicted =
     (let predicted = predicted_used items used evicted;
          others = counted p items candidate evicted;
          cand = tor (items ! candidate);
          reserved = saturating_add (sat_sum (\<lambda>m. t_size (tor m)) others 0) (t_size cand);
          materialized = saturating_add (sat_sum (\<lambda>m. materialized_bytes (tor m)) others 0)
                           (materialized_bytes cand)
      in if reserved > soft_cap_bytes p \<or> predicted > soft_cap_bytes p then False
         else let untracked0 = i64 (predicted - materialized);
                  untracked = (if untracked0 < 0 then 0 else untracked0);
                  committed = saturating_add untracked reserved
              in committed \<le> soft_cap_bytes p)"

definition fits :: "policy \<Rightarrow> managed list \<Rightarrow> nat \<Rightarrow> int \<Rightarrow> bool" where
  "fits p items candidate used = fits_after_pressure_evictions p items candidate used []"

section \<open>Retention, pressure and candidates\<close>

definition retention_eligible :: "policy \<Rightarrow> int \<Rightarrow> managed \<Rightarrow> bool" where
  "retention_eligible p now m =
     (let t = tor m in
      if has m (keep_tag p) \<or> \<not> paths_inside_download_root t (download_root p) \<or>
         \<not> currently_complete t \<or> t_completion_on t \<le> 0 \<or> \<not> valid_ratio (t_ratio t) \<or>
         f_lt (t_ratio t) (min_ratio p)
        then False
      else let completed_at = time_unix (t_completion_on t) in
        \<not> (now < completed_at \<or> time_sub now completed_at < min_age p))"

definition eligible_for_deletion :: "policy \<Rightarrow> managed list \<Rightarrow> int \<Rightarrow> nat list" where
  "eligible_for_deletion p items now =
     sort_by (\<lambda>i j. older (tor (items ! i)) (tor (items ! j)))
       (filter (\<lambda>i. retention_eligible p now (items ! i)) [0..<length items])"

definition pressure_eligible :: "policy \<Rightarrow> int \<Rightarrow> managed \<Rightarrow> bool" where
  "pressure_eligible p now m \<longleftrightarrow>
     \<not> (\<not> has m (admitted_tag p) \<or> has m (waiting_tag p) \<or> has m (rejected_tag p) \<or>
        has m (keep_tag p) \<or> \<not> paths_inside_download_root (tor m) (download_root p) \<or>
        \<not> valid_pressure_eviction_metadata (tor m) now)"

text \<open>
  The selection loop: take eligible torrents one by one until the candidate is predicted to fit;
  \<open>None\<close> is the code's \<open>return nil, false\<close>.
\<close>

fun select_evictions ::
    "policy \<Rightarrow> managed list \<Rightarrow> nat \<Rightarrow> int \<Rightarrow> nat list \<Rightarrow> nat list \<Rightarrow> nat list option" where
  "select_evictions p items candidate used selected [] = None"
| "select_evictions p items candidate used selected (i # is) =
     (if fits_after_pressure_evictions p items candidate used (selected @ [i])
      then Some (selected @ [i])
      else select_evictions p items candidate used (selected @ [i]) is)"

definition pressure_order :: "policy \<Rightarrow> managed list \<Rightarrow> int \<Rightarrow> nat list" where
  "pressure_order p items now =
     sort_by (\<lambda>i j. older_by_added_time (tor (items ! i)) (tor (items ! j)))
       (filter (\<lambda>i. pressure_eligible p now (items ! i)) [0..<length items])"

definition pressure_evictions ::
    "policy \<Rightarrow> managed list \<Rightarrow> nat \<Rightarrow> int \<Rightarrow> int \<Rightarrow> nat list option" where
  "pressure_evictions p items candidate used now =
     select_evictions p items candidate used [] (pressure_order p items now)"

definition is_candidate :: "policy \<Rightarrow> managed \<Rightarrow> bool" where
  "is_candidate p m \<longleftrightarrow>
     \<not> (block_admission m \<or> \<not> metadata_ready (tor m) \<or> soft_cap_bytes p < t_size (tor m)) \<and>
     has m (waiting_tag p) \<and> \<not> has m (admitted_tag p) \<and> \<not> has m (rejected_tag p)"

definition waiting_candidates :: "policy \<Rightarrow> managed list \<Rightarrow> nat list" where
  "waiting_candidates p items = filter (\<lambda>i. is_candidate p (items ! i)) [0..<length items]"

section \<open>The published snapshot\<close>

text \<open>One turn of the counting loop: the four cases of the switch, then the keep tag.\<close>

definition snapshot_step :: "policy \<Rightarrow> snapshot \<times> int \<Rightarrow> managed \<Rightarrow> snapshot \<times> int" where
  "snapshot_step p acc m =
     (let (s, materialized) = acc;
          (s', materialized') =
            (if has m (rejected_tag p) then (s\<lparr>s_rejected := s_rejected s + 1\<rparr>, materialized)
             else if has m (admitted_tag p) then
               (s\<lparr>s_admitted := s_admitted s + 1,
                  s_reserved_bytes := saturating_add (s_reserved_bytes s) (t_size (tor m))\<rparr>,
                saturating_add materialized (materialized_bytes (tor m)))
             else if has m (waiting_tag p) then (s\<lparr>s_waiting := s_waiting s + 1\<rparr>, materialized)
             else (s\<lparr>s_unmanaged := s_unmanaged s + 1\<rparr>, materialized))
      in (if has m (keep_tag p) then s'\<lparr>s_kept := s_kept s' + 1\<rparr> else s', materialized'))"

definition snapshot_of :: "policy \<Rightarrow> int \<Rightarrow> managed list \<Rightarrow> int \<Rightarrow> snapshot" where
  "snapshot_of p now items used =
     (let s0 = new_status_store
                 \<lparr>s_last_attempt := now, s_last_success := now, s_healthy := True, s_message := [],
                  s_torrent_count := int (length items), s_used_bytes := used,
                  s_soft_cap_bytes := soft_cap_bytes p\<rparr>;
          (s, materialized) = foldl (snapshot_step p) (s0, 0) items;
          untracked0 = i64 (used - materialized);
          untracked = (if untracked0 < 0 then 0 else untracked0)
      in s\<lparr>s_committed_bytes := saturating_add untracked (s_reserved_bytes s)\<rparr>)"

section \<open>The budget test is sound\<close>

text \<open>The fields of a torrent are 64-bit values.\<close>

definition torrent_i64 :: "torrent \<Rightarrow> bool" where
  "torrent_i64 t \<longleftrightarrow> in_i64 (t_size t) \<and> in_i64 (t_completed t)"

lemma materialized_i64: "torrent_i64 t \<Longrightarrow> in_i64 (materialized_bytes t)"
  by (auto simp: torrent_i64_def materialized_bytes_def)

lemma in_i64_cap: "0 \<le> x \<Longrightarrow> in_i64 (min x i64_max)"
  by (auto simp: in_i64_def i64_max_def i64_min_def)

text \<open>Whatever signs the listed sizes have, an accumulated reservation under the cap is exact.\<close>

lemma saturating_add_mono_pos: "in_i64 a \<Longrightarrow> in_i64 b \<Longrightarrow> 0 \<le> a \<Longrightarrow>
   saturating_add a b = min (a + max 0 b) i64_max"
  by (auto simp: saturating_add_def i64_id in_i64_def i64_max_def i64_min_def)

lemma min_add_min: "0 \<le> (s::int) \<Longrightarrow> min (min x k + s) k = min (x + s) k"
  by auto

lemma sat_add_capped:
  assumes "0 \<le> s" "in_i64 b"
  shows "saturating_add (min s i64_max) b = min (s + max 0 b) i64_max"
proof -
  have "0 \<le> min s i64_max" using assms(1) by (simp add: i64_max_def)
  then show ?thesis
    using assms by (simp add: saturating_add_mono_pos in_i64_cap min_add_min)
qed

lemma sat_sum_pos:
  assumes "\<forall>m \<in> set ms. in_i64 (f m)"
  shows "0 \<le> acc \<Longrightarrow> in_i64 acc \<Longrightarrow>
    sat_sum f ms acc = min (acc + (\<Sum>m\<leftarrow>ms. max 0 (f m))) i64_max"
  using assms
proof (induction ms arbitrary: acc)
  case Nil
  then show ?case by (simp add: sat_sum_def in_i64_def)
next
  case (Cons m ms acc)
  let ?a = "saturating_add acc (f m)" and ?S = "\<Sum>m\<leftarrow>ms. max 0 (f m)"
  have a: "?a = min (acc + max 0 (f m)) i64_max"
    using Cons.prems by (simp add: saturating_add_mono_pos)
  have nn: "0 \<le> ?S" by (intro sum_list_nonneg) auto
  have "0 \<le> ?a" "in_i64 ?a"
    using a Cons.prems(1) by (auto simp: in_i64_def i64_max_def i64_min_def)
  then have "sat_sum f ms ?a = min (?a + ?S) i64_max"
    using Cons.prems(3) by (intro Cons.IH) simp_all
  then show ?case
    using a nn by (simp add: sat_sum_def min_add_min add.assoc)
qed

lemma predicted_used_bounds:
  "0 \<le> used \<Longrightarrow> in_i64 used \<Longrightarrow>
   0 \<le> predicted_used items used evicted \<and> predicted_used items used evicted \<le> used \<and>
   in_i64 (predicted_used items used evicted)"
proof (induction evicted arbitrary: used)
  case (Cons i evicted used)
  let ?r = "materialized_bytes (tor (items ! i))"
  let ?u = "if used \<le> ?r then 0 else i64 (used - ?r)"
  have "0 \<le> ?r" by (rule materialized_bounds)
  have sub: "\<not> used \<le> ?r \<Longrightarrow> i64 (used - ?r) = used - ?r"
    using Cons.prems \<open>0 \<le> ?r\<close>
    by (intro i64_id) (auto simp: in_i64_def i64_min_def)
  have "0 \<le> ?u" "?u \<le> used" "in_i64 ?u"
    using Cons.prems \<open>0 \<le> ?r\<close> sub by (auto simp: in_i64_def i64_max_def i64_min_def)
  with Cons.IH [of ?u] show ?case
    by (auto simp: predicted_used_def Let_def)
qed (simp add: predicted_used_def)

text \<open>
  Saturation never changes the verdict: below a cap that is not the largest integer itself, the
  test holds exactly when the unbounded sums respect the cap.
\<close>

definition reserved_sum :: "managed list \<Rightarrow> int" where
  "reserved_sum ms = (\<Sum>m\<leftarrow>ms. max 0 (t_size (tor m)))"

definition materialized_sum :: "managed list \<Rightarrow> int" where
  "materialized_sum ms = (\<Sum>m\<leftarrow>ms. materialized_bytes (tor m))"

lemma materialized_sum_le: "0 \<le> materialized_sum ms \<and> materialized_sum ms \<le> reserved_sum ms"
proof -
  have "materialized_bytes t \<le> max 0 (t_size t)" for t
    by (simp add: materialized_bytes_def)
  then show ?thesis
    unfolding materialized_sum_def reserved_sum_def
    by (auto intro!: sum_list_nonneg sum_list_mono simp: materialized_bounds)
qed

lemma fits_exact:
  assumes cap: "soft_cap_bytes p < i64_max"
    and items: "\<forall>m \<in> set items. torrent_i64 (tor m)" and cand: "candidate < length items"
    and used: "0 \<le> used" "in_i64 used"
  shows "fits_after_pressure_evictions p items candidate used evicted \<longleftrightarrow>
    (let others = counted p items candidate evicted @ [items ! candidate];
         predicted = predicted_used items used evicted
     in predicted \<le> soft_cap_bytes p \<and>
        max 0 (predicted - materialized_sum others) + reserved_sum others \<le> soft_cap_bytes p)"
proof -
  let ?os = "counted p items candidate evicted" and ?c = "tor (items ! candidate)"
  let ?R = "reserved_sum (?os @ [items ! candidate])"
  let ?M = "materialized_sum (?os @ [items ! candidate])"
  let ?P = "predicted_used items used evicted"
  let ?res = "saturating_add (sat_sum (\<lambda>m. t_size (tor m)) ?os 0) (t_size ?c)"
  let ?mat = "saturating_add (sat_sum (\<lambda>m. materialized_bytes (tor m)) ?os 0) (materialized_bytes ?c)"
  have os: "\<forall>m \<in> set (?os @ [items ! candidate]). torrent_i64 (tor m)"
    using items cand by (auto simp: counted_def)
  have nn: "0 \<le> reserved_sum ?os" "0 \<le> materialized_sum ?os"
    using materialized_sum_le [of ?os] by auto
  have "sat_sum (\<lambda>m. t_size (tor m)) ?os 0 = min (reserved_sum ?os) i64_max"
    using os sat_sum_pos [of ?os "\<lambda>m. t_size (tor m)" 0]
    by (auto simp: torrent_i64_def reserved_sum_def)
  then have res: "?res = min ?R i64_max"
    using os nn by (simp add: sat_add_capped torrent_i64_def reserved_sum_def)
  have "sat_sum (\<lambda>m. materialized_bytes (tor m)) ?os 0 = min (materialized_sum ?os) i64_max"
    using os sat_sum_min [of 0 ?os "\<lambda>m. materialized_bytes (tor m)"]
    by (simp add: materialized_bounds materialized_i64 materialized_sum_def)
  then have mat: "?mat = min ?M i64_max"
    using os nn materialized_bounds [of ?c]
    by (simp add: sat_add_capped materialized_i64 materialized_sum_def)
  have P: "0 \<le> ?P" "in_i64 ?P" using predicted_used_bounds [OF used] by auto
  have M: "0 \<le> ?M" "?M \<le> ?R" using materialized_sum_le by auto
  have "in_i64 (?P - ?mat)"
    using P M mat by (intro in_i64_diff) (auto simp: in_i64_cap)
  then have unt: "i64 (?P - ?mat) = ?P - ?mat" by (rule i64_id)
  have com: "saturating_add (max 0 (?P - ?M)) ?R = min (max 0 (?P - ?M) + ?R) i64_max"
    if "?R \<le> soft_cap_bytes p"
    using that cap M P by (intro saturating_add_min) (auto simp: in_i64_def i64_min_def)
  show ?thesis
  proof (cases "?R \<le> soft_cap_bytes p")
    case True
    then have "?res = ?R" "?mat = ?M" using res mat M cap by auto
    with True com [OF True] unt cap show ?thesis
      unfolding fits_after_pressure_evictions_def Let_def by (auto simp: max_def)
  next
    case False
    then have "?res > soft_cap_bytes p" using res cap by auto
    with False show ?thesis
      unfolding fits_after_pressure_evictions_def Let_def by auto
  qed
qed

end
