(* ===== verification/GoEffects.thy ===== *)
theory GoEffects
  imports GoLib
begin

text \<open>
  Go functions that call a remote service and stop at its first error, as state passing over the
  trace of the calls issued so far. The service is a parameter: \<open>env tr c\<close> is the error it answers
  call \<open>c\<close> with after the calls \<open>tr\<close>, or \<open>None\<close> for success.

  Three judgements are proved compositionally, one rule per combinator:
  \<^item> \<open>yields m R\<close>: every normal result of \<open>m\<close> satisfies \<open>R\<close>, whatever the service answers;
  \<^item> \<open>emits P m\<close>: \<open>m\<close> only appends calls that satisfy \<open>P\<close>;
  \<^item> \<open>fail_stop env m\<close>: \<open>m\<close> returns an error exactly when a call of its own failed, and that call
    is the last one it issued.
\<close>

type_synonym 'c service = "'c list \<Rightarrow> 'c \<Rightarrow> string option"
type_synonym ('c, 'a) act = "'c list \<Rightarrow> 'c list \<times> (string + 'a)"

definition eret :: "'a \<Rightarrow> ('c, 'a) act" where
  "eret x tr = (tr, Inr x)"

definition ebind :: "('c, 'a) act \<Rightarrow> ('a \<Rightarrow> ('c, 'b) act) \<Rightarrow> ('c, 'b) act" where
  "ebind m f tr = (case m tr of (tr', Inl e) \<Rightarrow> (tr', Inl e) | (tr', Inr x) \<Rightarrow> f x tr')"

definition ethen :: "('c, 'a) act \<Rightarrow> ('c, 'b) act \<Rightarrow> ('c, 'b) act" where
  "ethen m n = ebind m (\<lambda>_. n)"

text \<open>\<open>invoke\<close> issues one call; its error is wrapped by the caller (\<open>fmt.Errorf("...: %w", err)\<close>).\<close>

definition invoke :: "'c service \<Rightarrow> (string \<Rightarrow> string) \<Rightarrow> 'c \<Rightarrow> ('c, unit) act" where
  "invoke env wrap c tr =
     (case env tr c of None \<Rightarrow> (tr @ [c], Inr ()) | Some e \<Rightarrow> (tr @ [c], Inl (wrap e)))"

definition ewhen :: "bool \<Rightarrow> ('c, unit) act \<Rightarrow> ('c, unit) act" where
  "ewhen b m = (if b then m else eret ())"

text \<open>A loop whose body returns the updated element, and one that threads an accumulator.\<close>

fun emap :: "('a \<Rightarrow> ('c, 'b) act) \<Rightarrow> 'a list \<Rightarrow> ('c, 'b list) act" where
  "emap f [] = eret []"
| "emap f (x # xs) = ebind (f x) (\<lambda>y. ebind (emap f xs) (\<lambda>ys. eret (y # ys)))"

fun efold :: "('s \<Rightarrow> 'a \<Rightarrow> ('c, 's) act) \<Rightarrow> 's \<Rightarrow> 'a list \<Rightarrow> ('c, 's) act" where
  "efold f s [] = eret s"
| "efold f s (x # xs) = ebind (f s x) (\<lambda>s'. efold f s' xs)"

section \<open>Normal results\<close>

definition yields :: "('c, 'a) act \<Rightarrow> ('a \<Rightarrow> bool) \<Rightarrow> bool" where
  "yields m R \<longleftrightarrow> (\<forall>tr tr' x. m tr = (tr', Inr x) \<longrightarrow> R x)"

lemma yieldsD: "yields m R \<Longrightarrow> m tr = (tr', Inr x) \<Longrightarrow> R x"
  by (simp add: yields_def)

lemma yields_mono: "yields m R \<Longrightarrow> (\<And>x. R x \<Longrightarrow> S x) \<Longrightarrow> yields m S"
  by (simp add: yields_def)

lemma yields_conj: "yields m R \<Longrightarrow> yields m S \<Longrightarrow> yields m (\<lambda>x. R x \<and> S x)"
  by (simp add: yields_def)

lemma yields_eret [eff_intros]: "R x \<Longrightarrow> yields (eret x) R"
  by (simp add: yields_def eret_def)

lemma yields_ebind:
  "yields m R \<Longrightarrow> (\<And>x. R x \<Longrightarrow> yields (f x) S) \<Longrightarrow> yields (ebind m f) S"
  unfolding yields_def ebind_def by (fastforce split: prod.splits sum.splits)

lemma yields_ethen [eff_intros]: "yields n R \<Longrightarrow> yields (ethen m n) R"
  unfolding yields_def ethen_def ebind_def by (auto split: prod.splits sum.splits)

lemma yields_if [eff_intros]:
  "(b \<Longrightarrow> yields m R) \<Longrightarrow> (\<not> b \<Longrightarrow> yields n R) \<Longrightarrow> yields (if b then m else n) R"
  by simp

lemma yields_emap:
  "(\<And>x. x \<in> set xs \<Longrightarrow> yields (f x) (R x)) \<Longrightarrow> yields (emap f xs) (list_all2 R xs)"
proof (induction xs)
  case (Cons a xs)
  show ?case
    unfolding emap.simps
  proof (rule yields_ebind [where R = "R a"])
    show "yields (f a) (R a)" by (simp add: Cons.prems)
    fix y
    assume "R a y"
    moreover have "yields (emap f xs) (list_all2 R xs)"
      by (rule Cons.IH) (simp add: Cons.prems)
    ultimately show "yields (ebind (emap f xs) (\<lambda>ys. eret (y # ys))) (list_all2 R (a # xs))"
      by (auto intro: yields_ebind yields_eret)
  qed
qed (simp add: yields_eret)

text \<open>A fold keeps an invariant of its accumulator that every body keeps.\<close>

lemma yields_efold:
  "(\<And>s x. I s \<Longrightarrow> x \<in> set xs \<Longrightarrow> yields (f s x) I) \<Longrightarrow> I s \<Longrightarrow> yields (efold f s xs) I"
proof (induction xs arbitrary: s)
  case (Cons a xs)
  show ?case
    unfolding efold.simps
    by (rule yields_ebind [where R = I]) (use Cons in auto)
qed (simp add: yields_eret)

section \<open>The calls a program issues\<close>

definition emits :: "('c \<Rightarrow> bool) \<Rightarrow> ('c, 'a) act \<Rightarrow> bool" where
  "emits P m \<longleftrightarrow> (\<forall>tr. \<exists>cs. fst (m tr) = tr @ cs \<and> (\<forall>c \<in> set cs. P c))"

lemma emits_eret [eff_intros]: "emits P (eret x)"
  by (simp add: emits_def eret_def)

lemma emits_invoke [eff_intros]: "P c \<Longrightarrow> emits P (invoke env w c)"
  by (auto simp: emits_def invoke_def split: option.splits)

lemma emits_ebind [eff_intros]:
  assumes m: "emits P m" and f: "\<And>x. emits P (f x)"
  shows "emits P (ebind m f)"
  unfolding emits_def
proof
  fix tr
  obtain cs where cs: "fst (m tr) = tr @ cs" "\<forall>c \<in> set cs. P c"
    using m by (auto simp: emits_def)
  show "\<exists>cs. fst (ebind m f tr) = tr @ cs \<and> (\<forall>c \<in> set cs. P c)"
  proof (cases "snd (m tr)")
    case (Inl e)
    with cs show ?thesis by (auto simp: ebind_def split: prod.splits)
  next
    case (Inr x)
    obtain ds where "fst (f x (tr @ cs)) = (tr @ cs) @ ds" "\<forall>c \<in> set ds. P c"
      using f [of x] unfolding emits_def by blast
    with cs Inr show ?thesis
      by (intro exI [of _ "cs @ ds"]) (auto simp: ebind_def split: prod.splits)
  qed
qed

text \<open>The calls of a continuation may depend on what the first part is known to return.\<close>

lemma emits_ebind_yields:
  assumes m: "emits P m" and y: "yields m R" and f: "\<And>x. R x \<Longrightarrow> emits P (f x)"
  shows "emits P (ebind m f)"
proof -
  define g where "g x = (if R x then f x else eret undefined)" for x
  have "ebind m f = ebind m g"
  proof
    fix tr
    show "ebind m f tr = ebind m g tr"
      using yieldsD [OF y] by (auto simp: ebind_def g_def split: prod.splits sum.splits)
  qed
  moreover have "emits P (ebind m g)"
    by (rule emits_ebind [OF m]) (simp add: g_def f emits_eret)
  ultimately show ?thesis by simp
qed

lemma emits_efold_inv:
  "(\<And>s x. I s \<Longrightarrow> x \<in> set xs \<Longrightarrow> emits P (f s x)) \<Longrightarrow>
   (\<And>s x. I s \<Longrightarrow> x \<in> set xs \<Longrightarrow> yields (f s x) I) \<Longrightarrow> I s \<Longrightarrow> emits P (efold f s xs)"
proof (induction xs arbitrary: s)
  case (Cons a xs)
  show ?case
    unfolding efold.simps
    by (rule emits_ebind_yields [where R = I]) (use Cons in auto)
qed (simp add: emits_eret)

lemma emits_ethen [eff_intros]: "emits P m \<Longrightarrow> emits P n \<Longrightarrow> emits P (ethen m n)"
  by (simp add: ethen_def emits_ebind)

lemma emits_ewhen [eff_intros]: "(b \<Longrightarrow> emits P m) \<Longrightarrow> emits P (ewhen b m)"
  by (simp add: ewhen_def emits_eret)

lemma emits_if [eff_intros]: "(b \<Longrightarrow> emits P m) \<Longrightarrow> (\<not> b \<Longrightarrow> emits P n) \<Longrightarrow> emits P (if b then m else n)"
  by simp

lemma emits_emap [eff_intros]: "(\<And>x. x \<in> set xs \<Longrightarrow> emits P (f x)) \<Longrightarrow> emits P (emap f xs)"
  by (induction xs) (simp_all add: emits_eret emits_ebind)

lemma emits_efold [eff_intros]:
  "(\<And>s x. x \<in> set xs \<Longrightarrow> emits P (f s x)) \<Longrightarrow> emits P (efold f s xs)"
  by (induction xs arbitrary: s) (simp_all add: emits_eret emits_ebind)

lemma emits_mono: "emits P m \<Longrightarrow> (\<And>c. P c \<Longrightarrow> Q c) \<Longrightarrow> emits Q m"
  unfolding emits_def by metis

lemma emitsD: "emits P m \<Longrightarrow> c \<in> set (fst (m [])) \<Longrightarrow> P c"
  by (auto simp: emits_def dest: spec [of _ "[]"])

section \<open>Stopping at the first failed call\<close>

fun all_ok :: "'c service \<Rightarrow> 'c list \<Rightarrow> 'c list \<Rightarrow> bool" where
  "all_ok env tr [] = True"
| "all_ok env tr (c # cs) = (env tr c = None \<and> all_ok env (tr @ [c]) cs)"

lemma all_ok_append: "all_ok env tr (cs @ ds) = (all_ok env tr cs \<and> all_ok env (tr @ cs) ds)"
  by (induction cs arbitrary: tr) auto

inductive stops :: "'c service \<Rightarrow> 'c list \<Rightarrow> 'c list \<times> (string + 'a) \<Rightarrow> bool" for env tr where
  completed: "all_ok env tr cs \<Longrightarrow> stops env tr (tr @ cs, Inr x)"
| failed: "all_ok env tr cs \<Longrightarrow> env (tr @ cs) c \<noteq> None \<Longrightarrow> stops env tr (tr @ cs @ [c], Inl e)"

inductive_cases stops_okE: "stops env tr (tr', Inr x)"
inductive_cases stops_errE: "stops env tr (tr', Inl e)"

definition fail_stop :: "'c service \<Rightarrow> ('c, 'a) act \<Rightarrow> bool" where
  "fail_stop env m \<longleftrightarrow> (\<forall>tr. stops env tr (m tr))"

lemma stops_extend:
  assumes ok: "all_ok env tr cs" and r: "stops env (tr @ cs) r"
  shows "stops env tr r"
  using r
proof cases
  case (completed ds x)
  with ok have "stops env tr (tr @ (cs @ ds), Inr x)"
    by (intro stops.completed) (simp add: all_ok_append)
  with completed show ?thesis by simp
next
  case (failed ds c e)
  with ok have "stops env tr (tr @ (cs @ ds) @ [c], Inl e)"
    by (intro stops.failed) (simp_all add: all_ok_append)
  with failed show ?thesis by simp
qed

lemma fail_stop_eret [eff_intros]: "fail_stop env (eret x)"
  unfolding fail_stop_def eret_def
  using stops.completed [of env _ "[]" x] by simp

lemma fail_stop_invoke [eff_intros]: "fail_stop env (invoke env w c)"
  unfolding fail_stop_def
proof
  fix tr
  show "stops env tr (invoke env w c tr)"
  proof (cases "env tr c")
    case None
    then show ?thesis
      using stops.completed [of env tr "[c]" "()"] by (simp add: invoke_def)
  next
    case (Some e)
    then show ?thesis
      using stops.failed [of env tr "[]" c "w e"] by (simp add: invoke_def)
  qed
qed

lemma fail_stop_ebind [eff_intros]:
  assumes m: "fail_stop env m" and f: "\<And>x. fail_stop env (f x)"
  shows "fail_stop env (ebind m f)"
  unfolding fail_stop_def
proof
  fix tr
  have "stops env tr (m tr)" using m by (simp add: fail_stop_def)
  then show "stops env tr (ebind m f tr)"
  proof cases
    case (completed cs x)
    have "stops env (tr @ cs) (f x (tr @ cs))" using f [of x] by (simp add: fail_stop_def)
    then have "stops env tr (f x (tr @ cs))" by (rule stops_extend [OF completed(2)])
    with completed show ?thesis by (simp add: ebind_def)
  next
    case (failed cs c e)
    then show ?thesis by (simp add: ebind_def stops.failed)
  qed
qed

lemma fail_stop_ethen [eff_intros]: "fail_stop env m \<Longrightarrow> fail_stop env n \<Longrightarrow> fail_stop env (ethen m n)"
  by (simp add: ethen_def fail_stop_ebind)

lemma fail_stop_ewhen [eff_intros]: "fail_stop env m \<Longrightarrow> fail_stop env (ewhen b m)"
  by (simp add: ewhen_def fail_stop_eret)

lemma fail_stop_if [eff_intros]:
  "fail_stop env m \<Longrightarrow> fail_stop env n \<Longrightarrow> fail_stop env (if b then m else n)"
  by simp

lemma fail_stop_emap [eff_intros]: "(\<And>x. fail_stop env (f x)) \<Longrightarrow> fail_stop env (emap f xs)"
  by (induction xs) (simp_all add: fail_stop_eret fail_stop_ebind)

lemma fail_stop_efold [eff_intros]: "(\<And>s x. fail_stop env (f s x)) \<Longrightarrow> fail_stop env (efold f s xs)"
  by (induction xs arbitrary: s) (simp_all add: fail_stop_eret fail_stop_ebind)

lemma fail_stopD: "fail_stop env m \<Longrightarrow> stops env tr (m tr)"
  by (simp add: fail_stop_def)

end
