(* ===== verification/HkEngine.thy ===== *)
theory HkEngine
  imports HkRules GoEffects
begin

text \<open>
  qBittorrent housekeeper, the reconciliation engine
  (workloads/qbittorrent-housekeeper/internal/housekeeper/engine.go): \<open>normalize\<close>,
  \<open>finishInterruptedAdmissions\<close>, \<open>admit\<close> and \<open>Reconcile\<close> as effectful programs over the calls of
  \<open>qbit.API\<close>. The Web API is the service parameter of GoEffects.thy. An error ends the poll, so the
  items, which are local to it, are dropped there.
\<close>

datatype api_call =
    Stop string
  | Start string
  | AddTags string "string list"
  | RemoveTags string "string list"
  | Delete string bool

type_synonym api = "api_call service"

fun call_hash :: "api_call \<Rightarrow> string" where
  "call_hash (Stop h) = h"
| "call_hash (Start h) = h"
| "call_hash (AddTags h _) = h"
| "call_hash (RemoveTags h _) = h"
| "call_hash (Delete h _) = h"

definition wrap_err :: "string \<Rightarrow> string \<Rightarrow> string \<Rightarrow> string" where
  "wrap_err what hash err = what @ '' '' @ short_hash hash @ '': '' @ err"

definition remove_tags :: "api \<Rightarrow> managed \<Rightarrow> string list \<Rightarrow> (api_call, managed) act" where
  "remove_tags env m tags =
     (let hash = t_hash (tor m); present = filter (has m) tags in
      if present = [] then eret m
      else ethen (invoke env (wrap_err ''remove policy tags from torrent'' hash) (RemoveTags hash present))
             (eret (foldl (\<lambda>m tag. remove_tag tag m) m present)))"

section \<open>normalize\<close>

text \<open>
  The two rejecting branches share their shape: stop the torrent if it runs, tag it rejected, drop
  the other policy tags. \<open>t\<close> in the code is a copy taken before the item's state is updated, so
  every later test of \<open>t.State\<close> in one turn of the loop sees the state as it was listed.
\<close>

definition reject :: "api \<Rightarrow> policy \<Rightarrow> string \<Rightarrow> string \<Rightarrow> managed \<Rightarrow> (api_call, managed) act" where
  "reject env p stop_what tag_what m =
     (let hash = t_hash (tor m); running = \<not> is_stopped (t_state (tor m)); m1 = (if running then set_state ''stoppedDL'' m else m)
      in ethen (ewhen running (invoke env (wrap_err stop_what hash) (Stop hash)))
        (ethen (ewhen (\<not> has m1 (rejected_tag p))
                  (invoke env (wrap_err tag_what hash) (AddTags hash [rejected_tag p])))
          (let m2 = (if has m1 (rejected_tag p) then m1 else add_tag (rejected_tag p) m1)
           in remove_tags env m2 [waiting_tag p, admitted_tag p])))"

text \<open>A torrent that was rejected and is not any more goes back to the waiting ones.\<close>

definition unreject :: "api \<Rightarrow> policy \<Rightarrow> managed \<Rightarrow> (api_call, managed) act" where
  "unreject env p m =
     (let hash = t_hash (tor m); running = \<not> is_stopped (t_state (tor m));
          m1 = (if running then set_state ''stoppedDL'' m else m);
          m2 = add_tag (waiting_tag p) m1
      in ethen (ewhen running (invoke env (wrap_err ''stop previously rejected torrent'' hash) (Stop hash)))
        (ethen (invoke env (wrap_err ''mark resized torrent waiting'' hash) (AddTags hash [waiting_tag p]))
          (remove_tags env m2 [rejected_tag p])))"

text \<open>The last part of the turn, \<open>t\<close> being the torrent as listed and \<open>m\<close> the item as updated.\<close>

definition keep_waiting :: "api \<Rightarrow> policy \<Rightarrow> torrent \<Rightarrow> managed \<Rightarrow> (api_call, managed) act" where
  "keep_waiting env p t m =
     (let hash = t_hash t; running = \<not> is_stopped (t_state t);
          stopped = (if running then (set_state ''stoppedDL'' m)\<lparr>block_admission := True\<rparr> else m)
      in if has m (admitted_tag p) then eret m
         else if has m (waiting_tag p) then
           ethen (ewhen running (invoke env (wrap_err ''re-stop waiting torrent'' hash) (Stop hash)))
             (eret stopped)
         else
           ethen (ewhen running (invoke env (wrap_err ''stop unmanaged torrent'' hash) (Stop hash)))
             (ethen (invoke env (wrap_err ''mark torrent waiting'' hash) (AddTags hash [waiting_tag p]))
               (eret (add_tag (waiting_tag p) stopped))))"

definition normalize_item :: "api \<Rightarrow> policy \<Rightarrow> managed \<Rightarrow> (api_call, managed) act" where
  "normalize_item env p m =
     (let t = tor m in
      if \<not> paths_inside_download_root t (download_root p)
        then reject env p ''stop off-volume torrent'' ''reject off-volume torrent'' m
      else if \<not> metadata_ready t then eret m
      else if t_size t > soft_cap_bytes p
        then reject env p ''stop oversized torrent'' ''tag oversized torrent'' m
      else if has m (rejected_tag p) then ebind (unreject env p m) (keep_waiting env p t)
      else keep_waiting env p t m)"

definition normalize_all :: "api \<Rightarrow> policy \<Rightarrow> managed list \<Rightarrow> (api_call, managed list) act" where
  "normalize_all env p items = emap (normalize_item env p) items"

section \<open>finishInterruptedAdmissions and admit\<close>

definition finish_item :: "api \<Rightarrow> policy \<Rightarrow> int \<Rightarrow> managed list \<Rightarrow> nat \<Rightarrow> (api_call, managed list) act" where
  "finish_item env p used items i =
     (let m = items ! i; hash = t_hash (tor m) in
      if \<not> has m (admitted_tag p) \<or> \<not> has m (waiting_tag p) \<or> has m (rejected_tag p) then eret items
      else if \<not> fits p items i used then
        (let running = \<not> is_stopped (t_state (tor m)) in
         ethen (ewhen running
             (invoke env (wrap_err ''stop over-capacity interrupted admission'' hash) (Stop hash)))
           (eret (if running then items[i := set_state ''stoppedDL'' m] else items)))
      else
        (let stopped = is_stopped (t_state (tor m));
             m1 = (if stopped then set_state ''downloading'' m else m)
         in ethen (ewhen stopped (invoke env (wrap_err ''retry admission start'' hash) (Start hash)))
              (ebind (remove_tags env m1 [waiting_tag p]) (\<lambda>m2. eret (items[i := m2])))))"

definition finish_interrupted_admissions ::
    "api \<Rightarrow> policy \<Rightarrow> managed list \<Rightarrow> int \<Rightarrow> (api_call, managed list) act" where
  "finish_interrupted_admissions env p items used =
     efold (finish_item env p used) items [0..<length items]"

definition admit :: "api \<Rightarrow> policy \<Rightarrow> managed \<Rightarrow> (api_call, managed) act" where
  "admit env p m =
     (let hash = t_hash (tor m); m1 = set_state ''downloading'' (add_tag (admitted_tag p) m) in
      ethen (invoke env (wrap_err ''reserve torrent'' hash) (AddTags hash [admitted_tag p]))
        (ethen (invoke env (wrap_err ''start admitted torrent'' hash) (Start hash))
          (remove_tags env m1 [waiting_tag p, rejected_tag p])))"

section \<open>Reconcile\<close>

definition delete_all :: "api \<Rightarrow> string \<Rightarrow> managed list \<Rightarrow> nat list \<Rightarrow> (api_call, unit list) act" where
  "delete_all env what items is =
     emap (\<lambda>i. let hash = t_hash (tor (items ! i))
               in invoke env (wrap_err what hash) (Delete hash True)) is"

text \<open>
  The admission loop over the sorted candidates. The result is the items, the number admitted, and
  the evictions that ended the poll, if any.
\<close>

fun admission_loop ::
    "api \<Rightarrow> policy \<Rightarrow> int \<Rightarrow> int \<Rightarrow> managed list \<Rightarrow> int \<Rightarrow> nat list \<Rightarrow>
     (api_call, managed list \<times> int \<times> nat list option) act" where
  "admission_loop env p used now items n [] = eret (items, n, None)"
| "admission_loop env p used now items n (c # cs) =
     (if \<not> is_stopped (t_state (tor (items ! c))) then admission_loop env p used now items n cs
      else if fits p items c used then
        ebind (admit env p (items ! c))
          (\<lambda>m. admission_loop env p used now (items[c := m]) (n + 1) cs)
      else case pressure_evictions p items c used now of
          Some evictions \<Rightarrow>
            ethen (delete_all env ''delete pressure-eviction torrent'' items evictions)
              (eret (items, n, Some evictions))
        | None \<Rightarrow> eret (items, n, None))"

definition candidate_order :: "policy \<Rightarrow> managed list \<Rightarrow> nat list" where
  "candidate_order p items =
     sort_by (\<lambda>i j. older (tor (items ! i)) (tor (items ! j))) (waiting_candidates p items)"

datatype poll =
    Deleted "managed list" int
  | Evicted "managed list" int
  | Admitted "managed list" int

fun loop_poll :: "managed list \<times> int \<times> nat list option \<Rightarrow> poll" where
  "loop_poll (items, admitted, Some evictions) = Evicted items (int (length evictions))"
| "loop_poll (items, admitted, None) = Admitted items admitted"

definition poll_items :: "api \<Rightarrow> policy \<Rightarrow> int \<Rightarrow> int \<Rightarrow> managed list \<Rightarrow> (api_call, poll) act" where
  "poll_items env p used now items =
     (let eligible = eligible_for_deletion p items now in
      if eligible \<noteq> [] then
        ethen (delete_all env ''delete eligible torrent'' items eligible)
          (eret (Deleted items (int (length eligible))))
      else
        ebind (normalize_all env p items) (\<lambda>items1.
        ebind (finish_interrupted_admissions env p items1 used) (\<lambda>items2.
        ebind (admission_loop env p used now items2 0 (candidate_order p items2))
          (\<lambda>r. eret (loop_poll r)))))"

definition poll_snapshot :: "policy \<Rightarrow> int \<Rightarrow> int \<Rightarrow> poll \<Rightarrow> snapshot" where
  "poll_snapshot p used now r =
     (case r of
        Deleted items n \<Rightarrow>
          (snapshot_of p now items used)
            \<lparr>s_deletions_requested := n,
             s_message := ''eligible deletions submitted; admission deferred for a fresh storage measurement''\<rparr>
      | Evicted items n \<Rightarrow>
          (snapshot_of p now items used)
            \<lparr>s_deletions_requested := n,
             s_message := ''pressure evictions submitted; admission deferred for a fresh storage measurement''\<rparr>
      | Admitted items n \<Rightarrow>
          (let snap = (snapshot_of p now items used)\<lparr>s_admitted_this_poll := n\<rparr> in
           snap\<lparr>s_message := (if s_waiting snap > 0
                              then ''one or more torrents are waiting for capacity''
                              else ''policy reconciled'')\<rparr>))"

text \<open>
  \<open>Reconcile\<close>: the answers of \<open>List\<close> and \<open>UsedBytes\<close>, the instant the poll started and the status
  before it; the calls issued, the status after it and the error returned.
\<close>

definition reconcile ::
    "api \<Rightarrow> policy \<Rightarrow> string + torrent list \<Rightarrow> string + int \<Rightarrow> int \<Rightarrow> snapshot \<Rightarrow>
     api_call list \<times> snapshot \<times> string option" where
  "reconcile env p listed usage started status =
     (case listed of
        Inl err \<Rightarrow> let e = ''list torrents: '' @ err in ([], record_failure started e status, Some e)
      | Inr torrents \<Rightarrow>
        (case usage of
           Inl err \<Rightarrow> let e = ''measure storage: '' @ err in ([], record_failure started e status, Some e)
         | Inr used \<Rightarrow>
             if used < 0 then
               let e = ''measure storage: negative usage'' in ([], record_failure started e status, Some e)
             else (case poll_items env p used started (map new_managed torrents) [] of
                 (tr, Inl e) \<Rightarrow> (tr, record_failure started e status, Some e)
               | (tr, Inr r) \<Rightarrow> (tr, record_success (poll_snapshot p used started r) status, None))))"

end
