(* ===== verification/HkSafety.thy ===== *)
theory HkSafety
  imports HkEngine
begin

text \<open>
  qBittorrent housekeeper, what a poll does to torrents: the frame of every step (only the state
  and the three retention tags change), the calls each step can issue, and from them the safety
  of deletions and starts.
\<close>

definition policy_ok :: "policy \<Rightarrow> bool" where
  "policy_ok p \<longleftrightarrow> distinct [admitted_tag p, waiting_tag p, rejected_tag p, keep_tag p]"

lemma validate_tags_distinct:
  "validate_tags seen tags = None \<Longrightarrow> distinct tags \<and> set tags \<inter> set seen = {}"
  by (induction seen tags rule: validate_tags.induct) (auto split: if_splits)

lemma policy_validate_ok: "policy_validate p = None \<Longrightarrow> policy_ok p"
  unfolding policy_validate_def policy_ok_def Let_def
  by (auto split: if_splits dest!: validate_tags_distinct)

section \<open>The frame of every step\<close>

definition framed :: "policy \<Rightarrow> managed \<Rightarrow> managed \<Rightarrow> bool" where
  "framed p m m' \<longleftrightarrow>
     (\<exists>st. tor m' = (tor m)\<lparr>t_state := st\<rparr>) \<and> has m' (keep_tag p) = has m (keep_tag p)"

lemma framed_refl [simp]: "framed p m m"
  by (auto simp: framed_def intro: exI [of _ "t_state (tor m)"])

lemma framed_trans: "framed p a b \<Longrightarrow> framed p b c \<Longrightarrow> framed p a c"
  by (auto simp: framed_def)

lemma framed_torrent:
  assumes "framed p m m'"
  shows "t_hash (tor m') = t_hash (tor m)" "t_size (tor m') = t_size (tor m)"
    "t_completed (tor m') = t_completed (tor m)" "t_added_on (tor m') = t_added_on (tor m)"
    "t_completion_on (tor m') = t_completion_on (tor m)"
    "has m' (keep_tag p) = has m (keep_tag p)"
    "paths_inside_download_root (tor m') r = paths_inside_download_root (tor m) r"
    "materialized_bytes (tor m') = materialized_bytes (tor m)"
    "sort_time (tor m') = sort_time (tor m)"
    "torrent_i64 (tor m') = torrent_i64 (tor m)"
  using assms
  by (auto simp: framed_def paths_inside_download_root_def materialized_bytes_def sort_time_def
      torrent_i64_def)

lemma foldl_remove_tag:
  "foldl (\<lambda>m tag. remove_tag tag m) m tags = m\<lparr>tagset := tagset m - set tags\<rparr>"
proof (induction tags arbitrary: m)
  case (Cons t ts m)
  have "foldl (\<lambda>m tag. remove_tag tag m) (remove_tag t m) ts
      = (remove_tag t m)\<lparr>tagset := tagset (remove_tag t m) - set ts\<rparr>"
    by (rule Cons.IH)
  then show ?case
    by (simp add: remove_tag_def) (metis Diff_insert Diff_insert2)
qed simp

definition drop_tags :: "string list \<Rightarrow> managed \<Rightarrow> managed" where
  "drop_tags tags m = m\<lparr>tagset := tagset m - set tags\<rparr>"

lemma drop_tags_simps [simp]:
  "tor (drop_tags tags m) = tor m" "block_admission (drop_tags tags m) = block_admission m"
  "has (drop_tags tags m) x \<longleftrightarrow> has m x \<and> x \<notin> set tags"
  by (auto simp: drop_tags_def has_def)

lemma remove_tags_yields [eff_intros]:
  assumes "R (drop_tags tags m)"
  shows "yields (remove_tags env m tags) R"
proof -
  let ?ps = "filter (has m) tags"
  have eq: "tagset m - set ?ps = tagset m - set tags"
    by (auto simp: has_def)
  then have f: "foldl (\<lambda>m tag. remove_tag tag m) m ?ps = drop_tags tags m"
    by (simp add: foldl_remove_tag drop_tags_def)
  have n: "m = drop_tags tags m" if "?ps = []"
    using that f by simp
  show ?thesis
    unfolding remove_tags_def Let_def
    by (intro yields_if yields_ethen yields_eret) (use assms f n in auto)
qed

lemmas engine_steps =
  reject_def unreject_def keep_waiting_def normalize_item_def Let_def

text \<open>What one turn of \<open>normalize\<close> leaves behind.\<close>

definition normalized :: "policy \<Rightarrow> managed \<Rightarrow> managed \<Rightarrow> bool" where
  "normalized p m m' \<longleftrightarrow> framed p m m' \<and>
     (if \<not> paths_inside_download_root (tor m) (download_root p) \<or>
         metadata_ready (tor m) \<and> soft_cap_bytes p < t_size (tor m)
      then is_stopped (t_state (tor m')) \<and> has m' (rejected_tag p) \<and>
           \<not> has m' (waiting_tag p) \<and> \<not> has m' (admitted_tag p)
      else if \<not> metadata_ready (tor m) then m' = m
      else \<not> has m' (rejected_tag p) \<and>
           has m' (admitted_tag p) = has m (admitted_tag p) \<and>
           (has m' (admitted_tag p) \<or> has m' (waiting_tag p)) \<and>
           (has m' (admitted_tag p) \<or>
              is_stopped (t_state (tor m')) \<and>
              (block_admission m' \<longleftrightarrow> block_admission m \<or> \<not> is_stopped (t_state (tor m)))))"

lemma framed_set_state [simp]: "framed p m (set_state st m') \<longleftrightarrow> framed p m m'"
  by (cases "tor m"; cases "tor m'") (auto simp: framed_def)

lemma framed_block [simp]: "framed p m (m'\<lparr>block_admission := b\<rparr>) \<longleftrightarrow> framed p m m'"
  by (auto simp: framed_def)

lemma framed_add_tag [simp]: "x \<noteq> keep_tag p \<Longrightarrow> framed p m (add_tag x m') \<longleftrightarrow> framed p m m'"
  by (auto simp: framed_def)

lemma framed_drop_tags [simp]:
  "keep_tag p \<notin> set tags \<Longrightarrow> framed p m (drop_tags tags m') \<longleftrightarrow> framed p m m'"
  by (auto simp: framed_def)

lemma reject_yields:
  assumes "policy_ok p"
  shows "yields (reject env p w1 w2 m)
    (\<lambda>m'. framed p m m' \<and> is_stopped (t_state (tor m')) \<and> has m' (rejected_tag p) \<and>
       \<not> has m' (waiting_tag p) \<and> \<not> has m' (admitted_tag p))"
  unfolding reject_def Let_def
  by (intro yields_ethen remove_tags_yields) (use assms in \<open>auto simp: policy_ok_def\<close>)

lemma unreject_yields:
  assumes "policy_ok p"
  shows "yields (unreject env p m)
    (\<lambda>m'. framed p m m' \<and> is_stopped (t_state (tor m')) \<and> has m' (waiting_tag p) \<and>
       \<not> has m' (rejected_tag p) \<and> has m' (admitted_tag p) = has m (admitted_tag p) \<and>
       block_admission m' = block_admission m)"
  unfolding unreject_def Let_def
  by (intro yields_ethen remove_tags_yields) (use assms in \<open>auto simp: policy_ok_def\<close>)

lemma keep_waiting_yields:
  assumes "policy_ok p" "framed p m0 m" "\<not> has m (rejected_tag p)"
    "is_stopped (t_state t) \<Longrightarrow> is_stopped (t_state (tor m))"
  shows "yields (keep_waiting env p t m)
    (\<lambda>m'. framed p m0 m' \<and> \<not> has m' (rejected_tag p) \<and>
       has m' (admitted_tag p) = has m (admitted_tag p) \<and>
       (has m' (admitted_tag p) \<or> has m' (waiting_tag p) \<and> is_stopped (t_state (tor m')) \<and>
          (block_admission m' \<longleftrightarrow> block_admission m \<or> \<not> is_stopped (t_state t))))"
  unfolding keep_waiting_def Let_def
  by (intro yields_if yields_ethen yields_eret) (use assms in \<open>auto simp: policy_ok_def\<close>)

lemma normalize_item_yields:
  assumes ok: "policy_ok p"
  shows "yields (normalize_item env p m) (normalized p m)"
  unfolding normalize_item_def Let_def
proof (intro yields_if, goal_cases)
  case 1
  then show ?case
    by (intro yields_mono [OF reject_yields [OF ok]]) (auto simp: normalized_def)
next
  case 2
  then show ?case by (intro yields_eret) (auto simp: normalized_def)
next
  case 3
  then show ?case
    by (intro yields_mono [OF reject_yields [OF ok]]) (auto simp: normalized_def)
next
  case 4
  show ?case
    by (rule yields_ebind [OF unreject_yields [OF ok]],
        rule yields_mono [OF keep_waiting_yields [OF ok, of m]])
      (use 4 in \<open>auto simp: normalized_def\<close>)
next
  case 5
  then show ?case
    by (intro yields_mono [OF keep_waiting_yields [OF ok, of m]]) (auto simp: normalized_def)
qed

lemma normalize_all_yields:
  "policy_ok p \<Longrightarrow> yields (normalize_all env p items) (list_all2 (normalized p) items)"
  unfolding normalize_all_def by (rule yields_emap) (rule normalize_item_yields)

end
