(* ===== verification/HkPoll.thy ===== *)
theory HkPoll
  imports HkSafety
begin

text \<open>
  qBittorrent housekeeper, a whole poll: which calls it can issue, that deletions end it, that
  candidates are stopped, and that admissions go oldest first and respect the budget.
\<close>

section \<open>After normalize\<close>

lemma normalized_framed: "normalized p m m' \<Longrightarrow> framed p m m'"
  by (simp add: normalized_def)

lemma metadata_ready_set_state:
  "0 < t_size t \<Longrightarrow> st \<noteq> ''metaDL'' \<Longrightarrow> st \<noteq> ''checkingResumeData'' \<Longrightarrow>
   metadata_ready (t\<lparr>t_state := st\<rparr>)"
  by (simp add: metadata_ready_def)

text \<open>A candidate was stopped when it was listed, is stopped now, and lies inside the root.\<close>

lemma candidate_settled:
  assumes n: "normalized p m m'" and c: "is_candidate p m'" and b: "\<not> block_admission m"
  shows "is_stopped (t_state (tor m'))" "is_stopped (t_state (tor m))"
    "paths_inside_download_root (tor m) (download_root p)"
proof -
  have f: "framed p m m'" using n by (rule normalized_framed)
  have ready: "metadata_ready (tor m)"
  proof (rule ccontr)
    assume nr: "\<not> metadata_ready (tor m)"
    with n c have "m' = m"
      by (auto simp: normalized_def is_candidate_def split: if_splits)
    with nr c show False by (simp add: is_candidate_def)
  qed
  with n c b framed_torrent [OF f]
  show "is_stopped (t_state (tor m'))" "is_stopped (t_state (tor m))"
    "paths_inside_download_root (tor m) (download_root p)"
    by (auto simp: normalized_def is_candidate_def split: if_splits)
qed

text \<open>Whatever is outside the download root carries the rejected tag and no other policy tag.\<close>

definition outside_rejected :: "policy \<Rightarrow> managed \<Rightarrow> bool" where
  "outside_rejected p m \<longleftrightarrow>
     (\<not> paths_inside_download_root (tor m) (download_root p) \<longrightarrow>
        has m (rejected_tag p) \<and> \<not> has m (waiting_tag p) \<and> \<not> has m (admitted_tag p))"

lemma normalized_outside: "normalized p m m' \<Longrightarrow> outside_rejected p m'"
  using framed_torrent(7) [of p m m' "download_root p"]
  by (auto simp: normalized_def outside_rejected_def)

section \<open>finishInterruptedAdmissions\<close>

abbreviation frames :: "policy \<Rightarrow> managed list \<Rightarrow> managed list \<Rightarrow> bool" where
  "frames p \<equiv> list_all2 (framed p)"

lemma frames_update:
  assumes "frames p ms ns" "i < length ns" "framed p (ns ! i) m"
  shows "frames p ms (ns[i := m])"
proof -
  have "framed p (ms ! i) m"
    using assms list_all2_nthD2 [OF assms(1,2)] framed_trans by blast
  then show ?thesis
    using assms(1) list_all2_update_cong [of "framed p" ms ns "ms ! i" m i] by simp
qed

text \<open>What finishing keeps of each item: the frame, and every item it may not touch.\<close>

definition finished :: "policy \<Rightarrow> managed \<Rightarrow> managed \<Rightarrow> bool" where
  "finished p m m' \<longleftrightarrow> framed p m m' \<and> has m' (admitted_tag p) = has m (admitted_tag p) \<and>
     has m' (rejected_tag p) = has m (rejected_tag p) \<and>
     (has m (admitted_tag p) \<and> has m (waiting_tag p) \<and> \<not> has m (rejected_tag p) \<or> m' = m) \<and>
     (has m' (waiting_tag p) \<longrightarrow> has m (waiting_tag p))"

lemma finished_refl [simp]: "finished p m m"
  by (simp add: finished_def)

lemma finished_trans: "finished p a b \<Longrightarrow> finished p b c \<Longrightarrow> finished p a c"
  by (auto simp: finished_def intro: framed_trans)

lemma list_all2_self_update:
  assumes "\<And>x. R x x" "\<And>x y z. R x y \<Longrightarrow> R y z \<Longrightarrow> R x z"
    and "list_all2 R xs ys" "i < length ys \<Longrightarrow> R (ys ! i) y"
  shows "list_all2 R xs (ys[i := y])"
proof (cases "i < length ys")
  case True
  then have "R (xs ! i) y"
    using assms list_all2_nthD2 by metis
  then show ?thesis
    using assms(3) list_all2_update_cong [of R xs ys "xs ! i" y i] by simp
next
  case False
  with assms(3) show ?thesis by (simp add: list_update_beyond)
qed

lemma finish_item_yields:
  assumes "policy_ok p" "list_all2 (finished p) items0 items" "i < length items"
  shows "yields (finish_item env p used items i) (list_all2 (finished p) items0)"
proof -
  note upd = list_all2_self_update [of "finished p", OF finished_refl finished_trans assms(2)]
  let ?m = "items ! i"
  have s: "has ?m (admitted_tag p) \<Longrightarrow> has ?m (waiting_tag p) \<Longrightarrow> \<not> has ?m (rejected_tag p) \<Longrightarrow>
      finished p ?m (set_state st ?m)" for st
    by (simp add: finished_def)
  have d: "has ?m (admitted_tag p) \<Longrightarrow> has ?m (waiting_tag p) \<Longrightarrow> \<not> has ?m (rejected_tag p) \<Longrightarrow>
      finished p ?m (drop_tags [waiting_tag p] ?m)"
    using assms(1) by (auto simp: finished_def policy_ok_def)
  have sd: "has ?m (admitted_tag p) \<Longrightarrow> has ?m (waiting_tag p) \<Longrightarrow> \<not> has ?m (rejected_tag p) \<Longrightarrow>
      finished p ?m (drop_tags [waiting_tag p] (set_state st ?m))" for st
    using assms(1) by (auto simp: finished_def policy_ok_def)
  show ?thesis
    unfolding finish_item_def Let_def
  proof (intro yields_if yields_ethen, goal_cases)
    case 1
    then show ?case by (intro yields_eret assms(2))
  next
    case 2
    then show ?case by (intro yields_eret) (auto intro!: upd s assms(2))
  next
    case 3
    show ?case
      by (rule yields_ebind
            [where R = "\<lambda>m2. m2 = drop_tags [waiting_tag p]
               (if is_stopped (t_state (tor ?m)) then set_state ''downloading'' ?m else ?m)"],
          rule remove_tags_yields, simp, rule yields_eret)
        (use 3 in \<open>auto intro!: upd d sd\<close>)
  qed
qed

lemma finish_yields:
  assumes "policy_ok p"
  shows "yields (finish_interrupted_admissions env p items used) (list_all2 (finished p) items)"
  unfolding finish_interrupted_admissions_def
proof (rule yields_efold)
  fix s i
  assume s: "list_all2 (finished p) items s" and "i \<in> set [0..<length items]"
  then have "i < length s" by (simp add: list_all2_lengthD)
  with s show "yields (finish_item env p used s i) (list_all2 (finished p) items)"
    by (intro finish_item_yields assms)
qed (simp add: list_all2_refl)

lemma finished_candidate: "finished p m m' \<Longrightarrow> is_candidate p m' \<Longrightarrow> m' = m"
  by (auto simp: finished_def is_candidate_def)

section \<open>The calls of a poll\<close>

text \<open>
  \<open>safe_call p items c\<close>: the call is about one of the listed torrents; a deletion (always with its
  files) spares torrents with the keep tag and torrents outside the download root; only torrents
  inside the root are started.
\<close>

definition safe_call :: "policy \<Rightarrow> managed list \<Rightarrow> api_call \<Rightarrow> bool" where
  "safe_call p items c \<longleftrightarrow>
     (\<exists>m \<in> set items. t_hash (tor m) = call_hash c \<and>
        (case c of
           Delete h files \<Rightarrow> files \<and> \<not> has m (keep_tag p) \<and>
             paths_inside_download_root (tor m) (download_root p)
         | Start h \<Rightarrow> paths_inside_download_root (tor m) (download_root p)
         | _ \<Rightarrow> True))"

lemma safe_call_frames:
  assumes "safe_call p items c" "frames p items0 items"
  shows "safe_call p items0 c"
proof -
  from assms obtain i where i: "i < length items"
    and h: "t_hash (tor (items ! i)) = call_hash c"
    and c: "case c of
           Delete h files \<Rightarrow> files \<and> \<not> has (items ! i) (keep_tag p) \<and>
             paths_inside_download_root (tor (items ! i)) (download_root p)
         | Start h \<Rightarrow> paths_inside_download_root (tor (items ! i)) (download_root p)
         | _ \<Rightarrow> True"
    by (auto simp: safe_call_def in_set_conv_nth)
  have f: "framed p (items0 ! i) (items ! i)"
    using list_all2_nthD2 [OF assms(2) i] .
  moreover have "items0 ! i \<in> set items0"
    using i list_all2_lengthD [OF assms(2)] by simp
  ultimately show ?thesis
    unfolding safe_call_def using h c framed_torrent [OF f]
    by (intro bexI [of _ "items0 ! i"]) (auto split: api_call.splits)
qed

lemma remove_tags_emits [eff_intros]:
  "(\<And>ts. P (RemoveTags (t_hash (tor m)) ts)) \<Longrightarrow> emits P (remove_tags env m tags)"
  unfolding remove_tags_def Let_def by (intro eff_intros) auto

definition tidy_call :: "string \<Rightarrow> api_call \<Rightarrow> bool" where
  "tidy_call h c \<longleftrightarrow> call_hash c = h \<and> (case c of Delete _ _ \<Rightarrow> False | Start _ \<Rightarrow> False | _ \<Rightarrow> True)"

lemma reject_emits: "emits (tidy_call (t_hash (tor m))) (reject env p w1 w2 m)"
  unfolding reject_def Let_def by (intro eff_intros) (auto simp: tidy_call_def)

lemma unreject_emits: "emits (tidy_call (t_hash (tor m))) (unreject env p m)"
  unfolding unreject_def Let_def by (intro eff_intros) (auto simp: tidy_call_def)

lemma keep_waiting_emits: "emits (tidy_call (t_hash t)) (keep_waiting env p t m)"
  unfolding keep_waiting_def Let_def by (intro eff_intros) (auto simp: tidy_call_def)

lemma normalize_item_emits: "emits (tidy_call (t_hash (tor m))) (normalize_item env p m)"
  unfolding normalize_item_def Let_def
  by (intro eff_intros reject_emits unreject_emits keep_waiting_emits)

lemma tidy_safe: "m \<in> set items \<Longrightarrow> tidy_call (t_hash (tor m)) c \<Longrightarrow> safe_call p items c"
  unfolding safe_call_def tidy_call_def
  by (intro bexI [of _ m]) (auto split: api_call.splits)

lemma normalize_all_emits: "emits (safe_call p items) (normalize_all env p items)"
  unfolding normalize_all_def
  by (rule emits_emap, rule emits_mono [OF normalize_item_emits]) (rule tidy_safe)

lemma finish_item_emits:
  assumes "i < length items" "\<forall>m \<in> set items. outside_rejected p m"
  shows "emits (safe_call p items) (finish_item env p used items i)"
proof -
  let ?m = "items ! i"
  have m: "?m \<in> set items" using assms(1) by simp
  have other: "safe_call p items (Stop (t_hash (tor ?m)))"
    "safe_call p items (RemoveTags (t_hash (tor ?m)) ts)" for ts
    using m by (auto simp: safe_call_def intro!: bexI [of _ ?m])
  have start: "safe_call p items (Start (t_hash (tor ?m)))"
    if "has ?m (admitted_tag p)"
    using that m assms(2) by (auto simp: safe_call_def outside_rejected_def intro!: bexI [of _ ?m])
  show ?thesis
    unfolding finish_item_def Let_def
    by (intro eff_intros) (auto simp: other start)
qed

lemma finished_framed: "finished p m m' \<Longrightarrow> framed p m m'"
  by (simp add: finished_def)

lemma finished_outside: "finished p m m' \<Longrightarrow> outside_rejected p m \<Longrightarrow> outside_rejected p m'"
  using framed_torrent(7) [OF finished_framed, of p m m' "download_root p"]
  by (auto simp: finished_def outside_rejected_def)

lemma list_all2_set_right: "list_all2 R xs ys \<Longrightarrow> y \<in> set ys \<Longrightarrow> \<exists>x \<in> set xs. R x y"
  by (metis in_set_conv_nth list_all2_conv_all_nth)

lemma finish_emits:
  assumes "policy_ok p" "\<forall>m \<in> set items. outside_rejected p m"
  shows "emits (safe_call p items) (finish_interrupted_admissions env p items used)"
  unfolding finish_interrupted_admissions_def
proof (rule emits_efold_inv [where I = "list_all2 (finished p) items"])
  fix s i
  assume s: "list_all2 (finished p) items s" and i: "i \<in> set [0..<length items]"
  then have len: "i < length s" by (simp add: list_all2_lengthD)
  have "\<forall>m \<in> set s. outside_rejected p m"
    using assms(2) s by (meson list_all2_set_right finished_outside)
  then have "emits (safe_call p s) (finish_item env p used s i)"
    by (rule finish_item_emits [OF len])
  moreover have "frames p items s"
    using s by (rule list_all2_mono) (rule finished_framed)
  ultimately show "emits (safe_call p items) (finish_item env p used s i)"
    by (meson emits_mono safe_call_frames)
  show "yields (finish_item env p used s i) (list_all2 (finished p) items)"
    by (rule finish_item_yields [OF assms(1) s len])
qed (simp add: list_all2_refl)

lemma delete_all_emits:
  assumes "\<And>i. i \<in> set is \<Longrightarrow> safe_call p items0 (Delete (t_hash (tor (items ! i))) True)"
  shows "emits (safe_call p items0) (delete_all env what items is)"
  unfolding delete_all_def Let_def by (intro eff_intros) (auto simp: assms)

lemma eligible_in_range: "i \<in> set (eligible_for_deletion p items now) \<Longrightarrow> i < length items"
  by (simp add: eligible_for_deletion_def)

lemma eligible_safe:
  "i \<in> set (eligible_for_deletion p items now) \<Longrightarrow>
   safe_call p items (Delete (t_hash (tor (items ! i))) True)"
  by (auto simp: eligible_for_deletion_def retention_eligible_def safe_call_def Let_def
      split: if_splits intro!: bexI [of _ "items ! i"])

lemma pressure_order_safe:
  "i \<in> set (pressure_order p items now) \<Longrightarrow>
   safe_call p items (Delete (t_hash (tor (items ! i))) True)"
  by (auto simp: pressure_order_def pressure_eligible_def safe_call_def
      intro!: bexI [of _ "items ! i"])

text \<open>The selection loop returns a prefix of what it is given, after what it had selected.\<close>

lemma select_evictions_Some:
  assumes "select_evictions p items c used sel is = Some evs"
  shows "\<exists>k. 0 < k \<and> k \<le> length is \<and> evs = sel @ take k is \<and>
     fits_after_pressure_evictions p items c used evs \<and>
     (\<forall>j. 0 < j \<longrightarrow> j < k \<longrightarrow> \<not> fits_after_pressure_evictions p items c used (sel @ take j is))"
  using assms
proof (induction p items c used sel "is" rule: select_evictions.induct)
  case (2 p items c used sel i "is")
  show ?case
  proof (cases "fits_after_pressure_evictions p items c used (sel @ [i])")
    case True
    with 2 show ?thesis by (intro exI [of _ 1]) auto
  next
    case False
    with 2 obtain k where k: "0 < k" "k \<le> length is" "evs = (sel @ [i]) @ take k is"
      "fits_after_pressure_evictions p items c used evs"
      "\<forall>j. 0 < j \<longrightarrow> j < k \<longrightarrow> \<not> fits_after_pressure_evictions p items c used ((sel @ [i]) @ take j is)"
      by auto
    have "\<not> fits_after_pressure_evictions p items c used (sel @ take j (i # is))"
      if "0 < j" "j < Suc k" for j
      using that k False by (cases j; cases "j - 1") auto
    with k show ?thesis by (intro exI [of _ "Suc k"]) auto
  qed
qed simp

lemma select_evictions_None:
  assumes "select_evictions p items c used sel is = None" "0 < j" "j \<le> length is"
  shows "\<not> fits_after_pressure_evictions p items c used (sel @ take j is)"
  using assms
proof (induction p items c used sel "is" arbitrary: j rule: select_evictions.induct)
  case (2 p items c used sel i "is")
  then show ?case
    by (cases j; cases "j - 1") (auto split: if_splits)
qed simp

lemma pressure_evictions_safe:
  "pressure_evictions p items c used now = Some evs \<Longrightarrow> i \<in> set evs \<Longrightarrow>
   safe_call p items (Delete (t_hash (tor (items ! i))) True)"
  unfolding pressure_evictions_def
  by (drule select_evictions_Some) (auto intro: pressure_order_safe dest: in_set_takeD)

lemma admit_yields:
  assumes "policy_ok p"
  shows "yields (admit env p m) (\<lambda>m'. framed p m m' \<and> has m' (admitted_tag p) \<and>
     \<not> has m' (waiting_tag p) \<and> \<not> has m' (rejected_tag p) \<and> t_state (tor m') = ''downloading'')"
  unfolding admit_def Let_def
  by (intro eff_intros) (use assms in \<open>auto simp: policy_ok_def\<close>)

lemma admit_emits:
  assumes "m \<in> set items" "paths_inside_download_root (tor m) (download_root p)"
  shows "emits (safe_call p items) (admit env p m)"
  unfolding admit_def Let_def
  by (intro eff_intros) (use assms in \<open>auto simp: safe_call_def intro!: bexI [of _ m]\<close>)

lemma admission_loop_emits:
  assumes "policy_ok p" "frames p items0 items"
    "\<forall>c \<in> set cs. c < length items \<and> paths_inside_download_root (tor (items ! c)) (download_root p)"
  shows "emits (safe_call p items0) (admission_loop env p used now items n cs)"
  using assms(2,3)
proof (induction cs arbitrary: items n)
  case (Cons c cs items n)
  let ?m = "items ! c"
  have m: "?m \<in> set items" using Cons.prems by simp
  have adm: "emits (safe_call p items0) (admit env p ?m)"
    using emits_mono [OF admit_emits [OF m]] safe_call_frames [OF _ Cons.prems(1)] Cons.prems(2)
    by simp
  have "emits (safe_call p items0) (ebind (admit env p ?m)
      (\<lambda>m. admission_loop env p used now (items[c := m]) (n + 1) cs))"
  proof (rule emits_ebind_yields [OF adm admit_yields [OF assms(1)]], goal_cases)
    case (1 m)
    have "frames p items0 (items[c := m])"
      using Cons.prems 1 by (intro frames_update) simp_all
    moreover have "\<forall>d \<in> set cs. d < length (items[c := m]) \<and>
        paths_inside_download_root (tor (items[c := m] ! d)) (download_root p)"
      using Cons.prems 1 framed_torrent(7) [of p ?m m "download_root p"]
      by (auto simp: nth_list_update)
    ultimately show ?case by (rule Cons.IH)
  qed
  moreover have "emits (safe_call p items0) (delete_all env w items evs)"
    if "pressure_evictions p items c used now = Some evs" for w evs
    using that Cons.prems(1)
    by (intro delete_all_emits) (blast intro: safe_call_frames pressure_evictions_safe)
  ultimately show ?case
    using Cons by (auto intro!: eff_intros split: option.splits)
qed (simp add: emits_eret)

text \<open>The candidates of a poll, with everything normalize and finish established about them.\<close>

lemma candidate_order_in:
  "c \<in> set (candidate_order p items) \<longleftrightarrow> c < length items \<and> is_candidate p (items ! c)"
  by (auto simp: candidate_order_def waiting_candidates_def)

lemma candidates_settled:
  assumes "list_all2 (normalized p) items0 items1" "list_all2 (finished p) items1 items2"
    and "\<forall>m \<in> set items0. \<not> block_admission m" and c: "c \<in> set (candidate_order p items2)"
  shows "c < length items2" "is_stopped (t_state (tor (items2 ! c)))"
    "is_stopped (t_state (tor (items0 ! c)))"
    "paths_inside_download_root (tor (items2 ! c)) (download_root p)"
proof -
  from c have len: "c < length items2" and cand: "is_candidate p (items2 ! c)"
    by (simp_all add: candidate_order_in)
  with assms(2) have "items2 ! c = items1 ! c"
    by (auto dest: list_all2_nthD2 intro: finished_candidate)
  moreover have l1: "c < length items1" and l0: "c < length items0"
    using len list_all2_lengthD [OF assms(1)] list_all2_lengthD [OF assms(2)] by simp_all
  moreover have n: "normalized p (items0 ! c) (items1 ! c)"
    using list_all2_nthD2 [OF assms(1) l1] .
  ultimately show "c < length items2" "is_stopped (t_state (tor (items2 ! c)))"
    "is_stopped (t_state (tor (items0 ! c)))"
    "paths_inside_download_root (tor (items2 ! c)) (download_root p)"
    using candidate_settled [OF n] cand assms(3) len
      framed_torrent(7) [OF normalized_framed [OF n], of "download_root p"] by auto
qed

lemma framed_normal_finished:
  "list_all2 (normalized p) a b \<Longrightarrow> list_all2 (finished p) b c \<Longrightarrow> frames p a c"
  by (rule list_all2_trans [of "normalized p" "finished p"])
     (auto intro: framed_trans normalized_framed finished_framed)

lemma poll_items_emits:
  assumes ok: "policy_ok p" and fresh: "\<forall>m \<in> set items. \<not> block_admission m"
  shows "emits (safe_call p items) (poll_items env p used now items)"
  unfolding poll_items_def Let_def
proof (intro emits_if, goal_cases)
  case 1
  show ?case
    by (intro eff_intros delete_all_emits) (rule eligible_safe)
next
  case 2
  show ?case
  proof (rule emits_ebind_yields [OF normalize_all_emits normalize_all_yields [OF ok]])
    fix items1
    assume n: "list_all2 (normalized p) items items1"
    have out: "\<forall>m \<in> set items1. outside_rejected p m"
      using n by (meson list_all2_set_right normalized_outside)
    have fr: "frames p items items1"
      using n by (rule list_all2_mono) (rule normalized_framed)
    show "emits (safe_call p items) (ebind (finish_interrupted_admissions env p items1 used)
      (\<lambda>items2. ebind (admission_loop env p used now items2 0 (candidate_order p items2))
        (\<lambda>r. eret (loop_poll r))))"
    proof (rule emits_ebind_yields [OF _ finish_yields [OF ok]])
      show "emits (safe_call p items) (finish_interrupted_admissions env p items1 used)"
        using finish_emits [OF ok out] by (rule emits_mono) (rule safe_call_frames [OF _ fr])
      fix items2
      assume f: "list_all2 (finished p) items1 items2"
      show "emits (safe_call p items)
        (ebind (admission_loop env p used now items2 0 (candidate_order p items2))
          (\<lambda>r. eret (loop_poll r)))"
        by (intro emits_ebind admission_loop_emits ok framed_normal_finished [OF n f] emits_eret)
          (auto simp: candidates_settled [OF n f fresh])
    qed
  qed
qed

section \<open>Deletions end a poll\<close>

definition is_delete :: "api_call \<Rightarrow> bool" where
  "is_delete c = (case c of Delete _ _ \<Rightarrow> True | _ \<Rightarrow> False)"

definition deletes_last :: "(api_call, 'a) act \<Rightarrow> bool" where
  "deletes_last m \<longleftrightarrow> (\<forall>tr. \<exists>as bs. fst (m tr) = tr @ as @ bs \<and>
     (\<forall>c \<in> set as. \<not> is_delete c) \<and> (\<forall>c \<in> set bs. is_delete c))"

lemma deletes_last_none: "emits (\<lambda>c. \<not> is_delete c) m \<Longrightarrow> deletes_last m"
  unfolding deletes_last_def emits_def by (metis append_Nil2 empty_iff empty_set)

lemma deletes_last_all: "emits is_delete m \<Longrightarrow> deletes_last m"
  unfolding deletes_last_def emits_def by (metis append_Nil empty_iff empty_set)

lemma deletes_last_ebind:
  assumes m: "emits (\<lambda>c. \<not> is_delete c) m" and f: "\<And>x. deletes_last (f x)"
  shows "deletes_last (ebind m f)"
  unfolding deletes_last_def
proof
  fix tr
  obtain cs where cs: "fst (m tr) = tr @ cs" "\<forall>c \<in> set cs. \<not> is_delete c"
    using m unfolding emits_def by blast
  show "\<exists>as bs. fst (ebind m f tr) = tr @ as @ bs \<and>
     (\<forall>c \<in> set as. \<not> is_delete c) \<and> (\<forall>c \<in> set bs. is_delete c)"
  proof (cases "snd (m tr)")
    case (Inl e)
    with cs show ?thesis
      by (intro exI [of _ cs] exI [of _ "[]"]) (auto simp: ebind_def split: prod.splits)
  next
    case (Inr x)
    obtain as bs where "fst (f x (tr @ cs)) = (tr @ cs) @ as @ bs"
      "\<forall>c \<in> set as. \<not> is_delete c" "\<forall>c \<in> set bs. is_delete c"
      using f [of x] unfolding deletes_last_def by blast
    with cs Inr show ?thesis
      by (intro exI [of _ "cs @ as"] exI [of _ bs]) (auto simp: ebind_def split: prod.splits)
  qed
qed

lemma deletes_last_ret: "deletes_last m \<Longrightarrow> deletes_last (ebind m (\<lambda>x. eret (g x)))"
proof -
  have "fst (ebind m (\<lambda>x. eret (g x)) tr) = fst (m tr)" for tr
    by (auto simp: ebind_def eret_def split: prod.splits sum.splits)
  then show "deletes_last m \<Longrightarrow> ?thesis" by (simp add: deletes_last_def)
qed

lemma tidy_no_delete: "tidy_call h c \<Longrightarrow> \<not> is_delete c"
  by (auto simp: tidy_call_def is_delete_def split: api_call.splits)

lemma normalize_all_no_delete: "emits (\<lambda>c. \<not> is_delete c) (normalize_all env p items)"
  unfolding normalize_all_def
  by (rule emits_emap, rule emits_mono [OF normalize_item_emits]) (rule tidy_no_delete)

lemma finish_no_delete: "emits (\<lambda>c. \<not> is_delete c) (finish_interrupted_admissions env p items used)"
  unfolding finish_interrupted_admissions_def finish_item_def Let_def
  by (intro eff_intros) (auto simp: is_delete_def)

lemma admit_no_delete: "emits (\<lambda>c. \<not> is_delete c) (admit env p m)"
  unfolding admit_def Let_def by (intro eff_intros) (auto simp: is_delete_def)

lemma delete_all_deletes: "emits is_delete (delete_all env w items is)"
  unfolding delete_all_def Let_def by (intro eff_intros) (auto simp: is_delete_def)

lemma admission_loop_deletes_last: "deletes_last (admission_loop env p used now items n cs)"
proof (induction cs arbitrary: items n)
  case (Cons c cs)
  then show ?case
    by (auto intro!: deletes_last_ebind admit_no_delete deletes_last_ret
          deletes_last_all [OF delete_all_deletes] deletes_last_none [OF emits_eret]
        simp: ethen_def split: option.splits)
qed (simp add: deletes_last_none emits_eret)

lemma poll_items_deletes_last: "deletes_last (poll_items env p used now items)"
  unfolding poll_items_def Let_def ethen_def
  by (auto intro!: deletes_last_ebind normalize_all_no_delete finish_no_delete
      deletes_last_ret admission_loop_deletes_last deletes_last_all [OF delete_all_deletes])

end
