(* ===== verification/HkBudget.thy ===== *)
theory HkBudget
  imports HkPoll
begin

text \<open>
  qBittorrent housekeeper, the admission loop: the stopped candidates are admitted in their order,
  each only when it fits, up to the first that does not; after an admission the reserved sizes of
  all admitted torrents respect the cap. The published snapshot agrees with the items.
\<close>

section \<open>Sums over the admitted torrents\<close>

definition is_admitted :: "policy \<Rightarrow> managed \<Rightarrow> bool" where
  "is_admitted p m \<longleftrightarrow> has m (admitted_tag p) \<and> \<not> has m (rejected_tag p)"

definition admitted_items :: "policy \<Rightarrow> managed list \<Rightarrow> managed list" where
  "admitted_items p items = filter (is_admitted p) items"

lemma sum_filter_nth:
  "sum_list (map f (filter P xs)) = (\<Sum>i<length xs. if P (xs ! i) then f (xs ! i) else (0::int))"
proof -
  have "sum_list (map f (filter P xs)) = sum_list (map (\<lambda>x. if P x then f x else 0) xs)"
    by (rule sum_list_map_filter')
  then show ?thesis by (simp add: sum_list_sum_nth atLeast0LessThan)
qed

lemma sum_counted:
  "sum_list (map f (counted p items c [])) =
     (\<Sum>i<length items. if i \<noteq> c \<and> is_admitted p (items ! i) then f (items ! i) else (0::int))"
proof -
  let ?P = "\<lambda>i. i \<noteq> c \<and> is_admitted p (items ! i)"
  have "sum_list (map f (counted p items c [])) =
      sum_list (map (\<lambda>i. f (items ! i)) (filter ?P [0..<length items]))"
    by (simp add: counted_def comp_def is_admitted_def conj_ac)
  also have "\<dots> = (\<Sum>i<length [0..<length items].
      if ?P ([0..<length items] ! i) then f (items ! ([0..<length items] ! i)) else 0)"
    by (rule sum_filter_nth)
  also have "\<dots> = (\<Sum>i<length items. if ?P i then f (items ! i) else 0)"
    by (rule sum.cong) auto
  finally show ?thesis .
qed

lemma sum_admitted_update:
  assumes "c < length items" "is_admitted p m"
  shows "sum_list (map f (admitted_items p (items[c := m]))) =
    sum_list (map f (counted p items c [])) + (f m :: int)"
proof -
  let ?g = "\<lambda>i. if is_admitted p (items[c := m] ! i) then f (items[c := m] ! i) else 0"
  let ?h = "\<lambda>i. if i \<noteq> c \<and> is_admitted p (items ! i) then f (items ! i) else 0"
  have "sum_list (map f (admitted_items p (items[c := m]))) = (\<Sum>i<length items. ?g i)"
    by (simp add: admitted_items_def sum_filter_nth)
  also have "\<dots> = ?g c + (\<Sum>i\<in>{..<length items} - {c}. ?g i)"
    using assms(1) by (intro sum.remove) auto
  also have "(\<Sum>i\<in>{..<length items} - {c}. ?g i) = (\<Sum>i\<in>{..<length items} - {c}. ?h i)"
    by (rule sum.cong) auto
  also have "\<dots> = (\<Sum>i<length items. ?h i)"
    using assms(1) by (subst (2) sum.remove [of _ c]) auto
  finally show ?thesis
    using assms by (simp add: sum_counted)
qed

definition within_budget :: "policy \<Rightarrow> int \<Rightarrow> managed list \<Rightarrow> bool" where
  "within_budget p used items \<longleftrightarrow>
     used \<le> soft_cap_bytes p \<and>
     max 0 (used - materialized_sum (admitted_items p items)) + reserved_sum (admitted_items p items)
       \<le> soft_cap_bytes p"

definition measured :: "policy \<Rightarrow> int \<Rightarrow> managed list \<Rightarrow> bool" where
  "measured p used items \<longleftrightarrow> soft_cap_bytes p < i64_max \<and> 0 \<le> used \<and> in_i64 used \<and>
     (\<forall>m \<in> set items. torrent_i64 (tor m))"

lemma frames_measured: "frames p items items' \<Longrightarrow> measured p used items \<Longrightarrow> measured p used items'"
  unfolding measured_def by (metis framed_torrent(10) list_all2_set_right)

lemma fits_within_budget:
  assumes m: "measured p used items" and c: "c < length items" and f: "fits p items c used"
    and adm: "framed p (items ! c) m" "is_admitted p m"
  shows "within_budget p used (items[c := m])"
proof -
  let ?os = "counted p items c [] @ [items ! c]" and ?as = "admitted_items p (items[c := m])"
  have "predicted_used items used [] = used" by (simp add: predicted_used_def)
  moreover have "soft_cap_bytes p < i64_max" "\<forall>m \<in> set items. torrent_i64 (tor m)"
    "0 \<le> used" "in_i64 used"
    using m by (simp_all add: measured_def)
  ultimately have "used \<le> soft_cap_bytes p"
    "max 0 (used - materialized_sum ?os) + reserved_sum ?os \<le> soft_cap_bytes p"
    using fits_exact [of p items c used "[]"] f c by (simp_all add: fits_def Let_def)
  moreover have "reserved_sum ?as = reserved_sum ?os"
    using sum_admitted_update [OF c adm(2), of "\<lambda>m. max 0 (t_size (tor m))"]
      framed_torrent [OF adm(1)] by (simp add: reserved_sum_def)
  moreover have "materialized_sum ?as = materialized_sum ?os"
    using sum_admitted_update [OF c adm(2), of "\<lambda>m. materialized_bytes (tor m)"]
      framed_torrent [OF adm(1)] by (simp add: materialized_sum_def)
  ultimately show ?thesis by (simp add: within_budget_def)
qed

section \<open>The admission loop\<close>

text \<open>The torrents as the loop has them when it comes to the candidate \<open>j\<close>: those before it are admitted.\<close>

definition at_turn :: "managed list \<Rightarrow> managed list \<Rightarrow> nat list \<Rightarrow> nat \<Rightarrow> managed list" where
  "at_turn items items' cs j =
     map (\<lambda>i. if i \<in> set (take j cs) then items' ! i else items ! i) [0..<length items]"

lemma at_turn_0 [simp]: "at_turn items items' cs 0 = items"
  by (simp add: at_turn_def map_nth)

lemma at_turn_Suc:
  assumes "c < length items" "c \<notin> set cs" "items' ! c = m"
  shows "at_turn items items' (c # cs) (Suc j) = at_turn (items[c := m]) items' cs j"
  using assms by (auto simp: at_turn_def nth_list_update dest: in_set_takeD)

definition loop_spec ::
    "policy \<Rightarrow> int \<Rightarrow> int \<Rightarrow> managed list \<Rightarrow> int \<Rightarrow> nat list \<Rightarrow> managed list \<times> int \<times> nat list option \<Rightarrow> bool" where
  "loop_spec p used now items n cs r \<longleftrightarrow>
     (\<exists>k \<le> length cs. case r of (items', n', ev) \<Rightarrow>
        n' = n + int k \<and> frames p items items' \<and>
        (\<forall>c \<in> set (take k cs). is_admitted p (items' ! c)) \<and>
        (\<forall>i. i \<notin> set (take k cs) \<longrightarrow> items' ! i = items ! i) \<and>
        (\<forall>j < k. fits p (at_turn items items' cs j) (cs ! j) used) \<and>
        (0 < k \<longrightarrow> within_budget p used items') \<and>
        (k < length cs \<longrightarrow> \<not> fits p items' (cs ! k) used \<and>
           pressure_evictions p items' (cs ! k) used now = ev) \<and>
        (k = length cs \<longrightarrow> ev = None))"

lemma loop_spec_stop:
  "cs = [] \<and> ev = None \<or>
   cs \<noteq> [] \<and> \<not> fits p items (hd cs) used \<and> pressure_evictions p items (hd cs) used now = ev \<Longrightarrow>
   loop_spec p used now items n cs (items, n, ev)"
  unfolding loop_spec_def
  by (intro exI [of _ 0]) (auto simp: hd_conv_nth list_all2_refl)

lemma loop_spec_step:
  assumes m: "framed p (items ! c) m" "is_admitted p m" and c: "c < length items" "c \<notin> set cs"
    and meas: "measured p used items" and f: "fits p items c used"
    and spec: "loop_spec p used now (items[c := m]) (n + 1) cs r"
  shows "loop_spec p used now items n (c # cs) r"
proof -
  obtain items' n' ev where r: "r = (items', n', ev)" by (cases r) auto
  from spec r obtain k where k: "k \<le> length cs" "n' = n + 1 + int k"
    "frames p (items[c := m]) items'"
    "\<forall>d \<in> set (take k cs). is_admitted p (items' ! d)"
    "\<forall>i. i \<notin> set (take k cs) \<longrightarrow> items' ! i = items[c := m] ! i"
    "\<forall>j < k. fits p (at_turn (items[c := m]) items' cs j) (cs ! j) used"
    "0 < k \<longrightarrow> within_budget p used items'"
    "k < length cs \<longrightarrow> \<not> fits p items' (cs ! k) used \<and>
       pressure_evictions p items' (cs ! k) used now = ev"
    "k = length cs \<longrightarrow> ev = None"
    by (auto simp: loop_spec_def)
  have fr: "frames p items (items[c := m])"
    using c(1) m(1) by (intro frames_update) (auto simp: list_all2_refl)
  have "frames p items items'"
    using list_all2_trans [OF framed_trans fr k(3)] .
  moreover have "c \<notin> set (take k cs)"
    using c(2) by (meson in_set_takeD)
  then have cm: "items' ! c = m"
    using k(5) c(1) by simp
  moreover have "within_budget p used items'" if "k = 0"
  proof -
    have "items' = items[c := m]"
      using k(3,5) that by (intro nth_equalityI) (auto dest: list_all2_lengthD)
    then show ?thesis
      using fits_within_budget [OF meas c(1) f m] by simp
  qed
  moreover have "fits p (at_turn items items' (c # cs) j) ((c # cs) ! j) used" if "j < Suc k" for j
    using that k(6) f at_turn_Suc [OF c cm] by (cases j) simp_all
  ultimately show ?thesis
    unfolding loop_spec_def r prod.case
    by (intro exI [of _ "Suc k"] conjI)
      (use k c(1) m(2) cm in \<open>auto simp: nth_list_update\<close>)
qed

lemma admission_loop_spec:
  assumes ok: "policy_ok p"
  shows "measured p used items \<Longrightarrow> distinct cs \<Longrightarrow>
    \<forall>c \<in> set cs. c < length items \<and> is_stopped (t_state (tor (items ! c))) \<Longrightarrow>
    yields (admission_loop env p used now items n cs) (loop_spec p used now items n cs)"
proof (induction cs arbitrary: items n)
  case Nil
  then show ?case by (simp add: yields_eret loop_spec_stop)
next
  case (Cons c cs items n)
  have c: "c < length items" "c \<notin> set cs" "is_stopped (t_state (tor (items ! c)))"
    using Cons.prems by simp_all
  have step: "yields (ebind (admit env p (items ! c))
      (\<lambda>m. admission_loop env p used now (items[c := m]) (n + 1) cs))
      (loop_spec p used now items n (c # cs))" if f: "fits p items c used"
  proof (rule yields_ebind [OF admit_yields [OF ok]], goal_cases)
    case (1 m)
    then have m: "framed p (items ! c) m" "is_admitted p m" by (simp_all add: is_admitted_def)
    have "frames p items (items[c := m])"
      using c(1) m(1) by (intro frames_update) (auto simp: list_all2_refl)
    then have "measured p used (items[c := m])"
      using Cons.prems(1) by (rule frames_measured)
    then have "yields (admission_loop env p used now (items[c := m]) (n + 1) cs)
        (loop_spec p used now (items[c := m]) (n + 1) cs)"
      using Cons.prems(2,3) c(2) by (intro Cons.IH) (auto simp: nth_list_update)
    then show ?case
      by (rule yields_mono) (rule loop_spec_step [OF m c(1,2) Cons.prems(1) f])
  qed
  have stop: "loop_spec p used now items n (c # cs) (items, n, ev)"
    if "\<not> fits p items c used" "pressure_evictions p items c used now = ev" for ev
    using that by (intro loop_spec_stop) simp
  show ?case
    using c(3) step
    by (auto intro!: yields_ethen yields_eret stop split: option.splits)
qed

text \<open>Candidates that are not stopped are passed over: the loop runs over the others.\<close>

lemma admission_loop_stopped:
  "distinct cs \<Longrightarrow> admission_loop env p used now items n cs =
     admission_loop env p used now items n (filter (\<lambda>c. is_stopped (t_state (tor (items ! c)))) cs)"
proof (induction cs arbitrary: items n)
  case (Cons c cs)
  have same: "items[c := m] ! d = items ! d" if "d \<in> set cs" for d m
    using that Cons.prems by (metis distinct.simps(2) nth_list_update_neq)
  then have "filter (\<lambda>d. is_stopped (t_state (tor (items[c := m] ! d)))) cs =
      filter (\<lambda>d. is_stopped (t_state (tor (items ! d)))) cs" for m
    by (intro filter_cong) simp_all
  then have "admission_loop env p used now (items[c := m]) (n + 1) cs =
      admission_loop env p used now (items[c := m]) (n + 1) (filter (\<lambda>d. is_stopped (t_state (tor (items ! d)))) cs)" for m
    using Cons.IH [of "items[c := m]" "n + 1"] Cons.prems by simp
  with Cons show ?case by simp
qed simp

section \<open>Stopping at the first failure\<close>

lemma poll_items_fail_stop: "fail_stop env (poll_items env p used now items)"
proof -
  have loop: "fail_stop env (admission_loop env p used now items n cs)" for items n cs
    by (induction cs arbitrary: items n)
      (auto intro!: eff_intros simp: admit_def remove_tags_def delete_all_def Let_def
        split: option.splits)
  have rm: "fail_stop env (remove_tags env m tags)" for m tags
    unfolding remove_tags_def Let_def by (intro eff_intros)
  have "fail_stop env (normalize_item env p m)" for m
    unfolding normalize_item_def reject_def unreject_def keep_waiting_def Let_def
    by (intro eff_intros rm)
  moreover have "fail_stop env (finish_item env p used items i)" for items i
    unfolding finish_item_def Let_def by (intro eff_intros rm)
  ultimately show ?thesis
    unfolding poll_items_def normalize_all_def finish_interrupted_admissions_def delete_all_def Let_def
    by (intro eff_intros loop)
qed

end
