(* ===== verification/HkExample.thy ===== *)
theory HkExample
  imports HkBudget
begin

text \<open>
  qBittorrent housekeeper, worked examples: a policy with a cap of 10 bytes, torrents waiting for
  admission and a torrent past its retention, and what the rules say about them. The witnesses of
  the housekeeper's properties are polls over these torrents.
\<close>

definition sample_policy :: policy where
  "sample_policy = default_policy 10 (7 * 24 * hour) (Fin 1)"

definition waiting_torrent :: "string \<Rightarrow> int \<Rightarrow> int \<Rightarrow> torrent" where
  "waiting_torrent h sz added =
     \<lparr>t_hash = h, t_name = [], t_size = sz, t_completed = 0, t_amount_left = sz,
      t_progress = Fin 0, t_ratio = Fin 0, t_state = ''stoppedDL'', t_tags = ''retention-waiting'',
      t_save_path = ''/downloads/x'', t_download_path = [], t_added_on = added,
      t_completion_on = 0\<rparr>"

definition seeded_torrent :: torrent where
  "seeded_torrent =
     \<lparr>t_hash = ''s'', t_name = [], t_size = 4, t_completed = 4, t_amount_left = 0,
      t_progress = Fin 1, t_ratio = Fin 2, t_state = ''uploading'', t_tags = ''retention-admitted'',
      t_save_path = ''/downloads'', t_download_path = [], t_added_on = 50,
      t_completion_on = 100\<rparr>"

definition quiet :: api where
  "quiet tr c = None"

lemma plain_letters:
  "plain_char CHR ''a''" "plain_char CHR ''b''" "plain_char CHR ''d''" "plain_char CHR ''g''"
  "plain_char CHR ''L''" "plain_char CHR ''r''" "plain_char CHR ''s''" "plain_char CHR ''u''"
  "plain_char CHR ''k''" "plain_char CHR ''p''"
  by (simp_all add: plain_char_def less_char_def)

lemma sample_inside:
  "path_inside_root ''/downloads/x'' ''/downloads''" "path_inside_root ''/downloads'' ''/downloads''"
  by (simp_all add: path_inside_root_def path_clean_def path_comps_def path_rooted_def
      clean_step.simps path_is_abs_def)

lemma sample_lower:
  "to_lower ''stoppedDL'' = ''stoppeddl''" "to_lower ''uploading'' = ''uploading''"
  "to_lower ''downloading'' = ''downloading''"
  by code_simp+

lemma sample_policy_ok: "policy_validate sample_policy = None"
  by (simp add: policy_validate_def sample_policy_def default_policy_def path_clean_def
      path_comps_def path_rooted_def clean_step.simps path_is_abs_def trim_space_plain plain_letters hour_def
      minute_def second_def)

lemma sample_policy_simps [simp]:
  "soft_cap_bytes sample_policy = 10" "min_age sample_policy = 604800000000000"
  "min_ratio sample_policy = Fin 1" "admitted_tag sample_policy = ''retention-admitted''"
  "waiting_tag sample_policy = ''retention-waiting''"
  "rejected_tag sample_policy = ''retention-rejected''" "keep_tag sample_policy = ''retention-keep''"
  "download_root sample_policy = ''/downloads''"
  by (simp_all add: sample_policy_def default_policy_def duration_defs)

lemma new_managed_waiting:
  "new_managed (waiting_torrent h sz added) =
     \<lparr>tor = waiting_torrent h sz added, tagset = {''retention-waiting''}, block_admission = False\<rparr>"
  by (simp add: new_managed_def waiting_torrent_def trim_space_plain plain_letters)

lemma new_managed_seeded:
  "new_managed seeded_torrent =
     \<lparr>tor = seeded_torrent, tagset = {''retention-admitted''}, block_admission = False\<rparr>"
  by (simp add: new_managed_def seeded_torrent_def trim_space_plain plain_letters)

lemma waiting_simps [simp]:
  "t_hash (waiting_torrent h sz added) = h" "t_size (waiting_torrent h sz added) = sz"
  "t_completed (waiting_torrent h sz added) = 0" "t_state (waiting_torrent h sz added) = ''stoppedDL''"
  "paths_inside_download_root (waiting_torrent h sz added) ''/downloads''"
  "sort_time (waiting_torrent h sz added) = (if 0 < added then added else i64_max)"
  "t_added_on (waiting_torrent h sz added) = added"
  "metadata_ready (waiting_torrent h sz added) = (0 < sz)"
  "materialized_bytes (waiting_torrent h sz added) = 0"
  "\<not> currently_complete (waiting_torrent h sz added)" if "0 < sz"
  using that by (simp_all add: waiting_torrent_def paths_inside_download_root_def sample_inside sort_time_def
      metadata_ready_def materialized_bytes_def currently_complete_def Let_def)

lemma tolerance_nonneg: "\<not> round_f64 (1 / 1000000) < 0"
  using round_f64_nonneg [of "1 / 1000000"] by linarith

lemma waiting_evictable:
  assumes "0 < sz" "sz \<le> 100" "0 < added" "added \<le> 100" "h = ''a'' \<or> h = ''b''"
  shows "valid_pressure_eviction_metadata
    ((waiting_torrent h sz added)\<lparr>t_state := ''downloading''\<rparr>) (1000 * second)"
  using assms(1-4) assms(5)
  by (auto simp: valid_pressure_eviction_metadata_def waiting_torrent_def trim_space_plain plain_letters
      progress_deviates_def pressure_eviction_state_allowed_def sample_lower time_unix_small second_def i64_def
     Let_def tolerance_nonneg)

section \<open>Two waiting torrents, room for one\<close>

text \<open>
  Torrents \<open>a\<close> (added first) and \<open>b\<close> of 6 bytes each wait under a cap of 10. The poll admits \<open>a\<close>,
  then finds no room for \<open>b\<close> and evicts \<open>a\<close>.
\<close>

definition item_a :: managed where
  "item_a = \<lparr>tor = waiting_torrent ''a'' 6 100, tagset = {''retention-waiting''}, block_admission = False\<rparr>"

definition item_b :: managed where
  "item_b = \<lparr>tor = waiting_torrent ''b'' 6 200, tagset = {''retention-waiting''}, block_admission = False\<rparr>"

definition item_a_started :: managed where
  "item_a_started = \<lparr>tor = (waiting_torrent ''a'' 6 100)\<lparr>t_state := ''downloading''\<rparr>,
     tagset = {''retention-admitted''}, block_admission = False\<rparr>"

lemma item_simps [simp]:
  "tor item_a = waiting_torrent ''a'' 6 100" "tor item_b = waiting_torrent ''b'' 6 200"
  "tor item_a_started = (waiting_torrent ''a'' 6 100)\<lparr>t_state := ''downloading''\<rparr>"
  "has item_a x \<longleftrightarrow> x = ''retention-waiting''" "has item_b x \<longleftrightarrow> x = ''retention-waiting''"
  "has item_a_started x \<longleftrightarrow> x = ''retention-admitted''"
  "\<not> block_admission item_a" "\<not> block_admission item_b"
  by (simp_all add: item_a_def item_b_def item_a_started_def has_def)

lemma stopped_states [simp]: "is_stopped ''stoppedDL''" "\<not> is_stopped ''downloading''" "\<not> is_stopped ''uploading''"
  by (simp_all add: is_stopped_def)

lemma sample_started [simp]:
  "t_size ((waiting_torrent h sz added)\<lparr>t_state := st\<rparr>) = sz"
  "t_hash ((waiting_torrent h sz added)\<lparr>t_state := st\<rparr>) = h"
  "t_added_on ((waiting_torrent h sz added)\<lparr>t_state := st\<rparr>) = added"
  "materialized_bytes ((waiting_torrent h sz added)\<lparr>t_state := st\<rparr>) = 0"
  "paths_inside_download_root ((waiting_torrent h sz added)\<lparr>t_state := st\<rparr>) ''/downloads''"
  by (simp_all add: waiting_torrent_def materialized_bytes_def paths_inside_download_root_def sample_inside)

lemma sample_no_retention: "eligible_for_deletion sample_policy [item_a, item_b] now = []"
  by (simp add: eligible_for_deletion_def retention_eligible_def Let_def)

lemma sample_normalize: "normalize_all quiet sample_policy [item_a, item_b] tr = (tr, Inr [item_a, item_b])"
  by (simp add: normalize_all_def normalize_item_def keep_waiting_def Let_def eret_def ebind_def ethen_def ewhen_def)

lemma sample_finish: "finish_interrupted_admissions quiet sample_policy [item_a, item_b] 0 tr = (tr, Inr [item_a, item_b])"
  by (simp add: finish_interrupted_admissions_def finish_item_def Let_def eret_def ebind_def)

lemma sample_candidates: "candidate_order sample_policy [item_a, item_b] = [0, 1]"
  by (simp add: candidate_order_def waiting_candidates_def is_candidate_def older_def)

lemma sample_admit: "admit quiet sample_policy item_a [] =
   ([AddTags ''a'' [''retention-admitted''], Start ''a'', RemoveTags ''a'' [''retention-waiting'']], Inr item_a_started)"
  by (simp add: admit_def Let_def ethen_def ebind_def invoke_def quiet_def remove_tags_def eret_def
     foldl_remove_tag) (auto simp: item_a_def item_a_started_def set_state_def add_tag_def)

lemma sample_fits: "fits sample_policy [item_a, item_b] 0 0" "\<not> fits sample_policy [item_a_started, item_b] 1 0" 
  "fits_after_pressure_evictions sample_policy [item_a_started, item_b] 1 0 [0]"
  by (simp_all add: fits_def fits_after_pressure_evictions_def counted_def predicted_used_def sat_sum_def saturating_add_def i64_def i64_max_def Let_def)

lemma sample_pressure: "pressure_evictions sample_policy [item_a_started, item_b] 1 0 (1000 * second) = Some [0]"
  using sample_fits(3) waiting_evictable [of 6 100 "''a''"]
  by (simp add: pressure_evictions_def pressure_order_def pressure_eligible_def)

lemma sample_poll: "poll_items quiet sample_policy 0 (1000 * second) [item_a, item_b] [] =
  ([AddTags ''a'' [''retention-admitted''], Start ''a'', RemoveTags ''a'' [''retention-waiting''], Delete ''a'' True],
   Inr (Evicted [item_a_started, item_b] 1))"
  by (simp add: poll_items_def Let_def sample_no_retention sample_normalize sample_finish sample_candidates sample_admit sample_fits sample_pressure ebind_def ethen_def
      delete_all_def invoke_def eret_def quiet_def del: One_nat_def)

lemma sample_reconcile:
  "reconcile quiet sample_policy (Inr [waiting_torrent ''a'' 6 100, waiting_torrent ''b'' 6 200])
     (Inr 0) (1000 * second) st =
   ([AddTags ''a'' [''retention-admitted''], Start ''a'', RemoveTags ''a'' [''retention-waiting''],
     Delete ''a'' True],
    record_success (poll_snapshot sample_policy 0 (1000 * second) (Evicted [item_a_started, item_b] 1)) st,
    None)"
  by (simp add: reconcile_def new_managed_waiting item_a_def [symmetric] item_b_def [symmetric] sample_poll)

section \<open>One waiting torrent, and one past its retention\<close>

lemma sample_poll_one:
  "poll_items quiet sample_policy 0 now [item_a] [] =
   ([AddTags ''a'' [''retention-admitted''], Start ''a'', RemoveTags ''a'' [''retention-waiting'']],
    Inr (Admitted [item_a_started] 1))"
proof -
  have "eligible_for_deletion sample_policy [item_a] now = []"
    by (simp add: eligible_for_deletion_def retention_eligible_def Let_def)
  moreover have "normalize_all quiet sample_policy [item_a] tr = (tr, Inr [item_a])" for tr
    by (simp add: normalize_all_def normalize_item_def keep_waiting_def Let_def eret_def ebind_def
        ethen_def ewhen_def)
  moreover have "finish_interrupted_admissions quiet sample_policy [item_a] 0 tr = (tr, Inr [item_a])" for tr
    by (simp add: finish_interrupted_admissions_def finish_item_def Let_def eret_def ebind_def)
  moreover have "candidate_order sample_policy [item_a] = [0]"
    by (simp add: candidate_order_def waiting_candidates_def is_candidate_def)
  moreover have "fits sample_policy [item_a] 0 0"
    by (simp add: fits_def fits_after_pressure_evictions_def counted_def predicted_used_def sat_sum_def
        saturating_add_def i64_def i64_max_def Let_def)
  ultimately show ?thesis
    by (simp add: poll_items_def Let_def ebind_def eret_def sample_admit)
qed

lemma sample_reconcile_one:
  "reconcile quiet sample_policy (Inr [waiting_torrent ''a'' 6 100]) (Inr 0) now st =
   ([AddTags ''a'' [''retention-admitted''], Start ''a'', RemoveTags ''a'' [''retention-waiting'']],
    record_success (poll_snapshot sample_policy 0 now (Admitted [item_a_started] 1)) st, None)"
  by (simp add: reconcile_def new_managed_waiting item_a_def [symmetric] sample_poll_one)

lemma seeded_eligible:
  "eligible_for_deletion sample_policy (map new_managed [seeded_torrent]) (1000000 * second) = [0]"
proof -
  have c: "currently_complete seeded_torrent"
    by (simp add: currently_complete_def seeded_torrent_def trim_space_plain plain_letters complete_states_def
        sample_lower f_eq.simps)
  have i: "paths_inside_download_root seeded_torrent ''/downloads''"
    by (simp add: paths_inside_download_root_def seeded_torrent_def sample_inside)
  have h: "\<not> has (new_managed seeded_torrent) ''retention-keep''"
    unfolding new_managed_seeded by (simp add: has_def)
  have "t_completion_on seeded_torrent = 100" "t_ratio seeded_torrent = Fin 2"
    by (simp_all add: seeded_torrent_def)
  with c i h have r: "retention_eligible sample_policy (1000000 * second) (new_managed seeded_torrent)"
    by (simp add: retention_eligible_def Let_def valid_ratio_def
        time_unix_small second_def time_sub_def i64_max_def i64_min_def)
  then show ?thesis by (simp add: eligible_for_deletion_def)
qed

definition offline :: api where
  "offline tr c = (case c of Start _ \<Rightarrow> Some ''connection refused'' | _ \<Rightarrow> None)"

end
