(* ===== verification/HkClaims.thy ===== *)
theory HkClaims
  imports HkExample
begin

text \<open>
  qBittorrent housekeeper, the properties of a poll: what it may delete and start, that deletions
  end it, that it never overbooks the budget, admits oldest first, evicts no more than needed, and
  fails closed.
\<close>

section \<open>The snapshot counts the items\<close>

definition is_rejected :: "policy \<Rightarrow> managed \<Rightarrow> bool" where
  "is_rejected p m \<longleftrightarrow> has m (rejected_tag p)"

definition is_waiting :: "policy \<Rightarrow> managed \<Rightarrow> bool" where
  "is_waiting p m \<longleftrightarrow> has m (waiting_tag p) \<and> \<not> has m (admitted_tag p) \<and> \<not> has m (rejected_tag p)"

definition is_unmanaged :: "policy \<Rightarrow> managed \<Rightarrow> bool" where
  "is_unmanaged p m \<longleftrightarrow> \<not> has m (waiting_tag p) \<and> \<not> has m (admitted_tag p) \<and> \<not> has m (rejected_tag p)"

definition tally :: "('a \<Rightarrow> bool) \<Rightarrow> 'a list \<Rightarrow> int" where
  "tally P xs = int (length (filter P xs))"

lemma tally_simps [simp]:
  "tally P [] = 0" "tally P (x # xs) = (if P x then 1 else 0) + tally P xs"
  by (simp_all add: tally_def)

lemma tally_partition:
  "tally (is_rejected p) items + tally (is_admitted p) items + tally (is_waiting p) items +
   tally (is_unmanaged p) items = int (length items)"
  by (induction items)
    (auto simp: is_rejected_def is_admitted_def is_waiting_def is_unmanaged_def)

lemma snapshot_step_eq:
  "snapshot_step p (s, mat) m =
    (s\<lparr>s_rejected := s_rejected s + (if is_rejected p m then 1 else 0),
       s_admitted := s_admitted s + (if is_admitted p m then 1 else 0),
       s_waiting := s_waiting s + (if is_waiting p m then 1 else 0),
       s_unmanaged := s_unmanaged s + (if is_unmanaged p m then 1 else 0),
       s_kept := s_kept s + (if has m (keep_tag p) then 1 else 0),
       s_reserved_bytes := (if is_admitted p m then saturating_add (s_reserved_bytes s) (t_size (tor m))
                            else s_reserved_bytes s)\<rparr>,
     if is_admitted p m then saturating_add mat (materialized_bytes (tor m)) else mat)"
  by (simp add: snapshot_step_def is_rejected_def is_admitted_def is_waiting_def is_unmanaged_def)

lemma snapshot_fold:
  "foldl (snapshot_step p) (s, mat) items =
    (s\<lparr>s_rejected := s_rejected s + tally (is_rejected p) items,
       s_admitted := s_admitted s + tally (is_admitted p) items,
       s_waiting := s_waiting s + tally (is_waiting p) items,
       s_unmanaged := s_unmanaged s + tally (is_unmanaged p) items,
       s_kept := s_kept s + tally (\<lambda>m. has m (keep_tag p)) items,
       s_reserved_bytes := sat_sum (\<lambda>m. t_size (tor m)) (admitted_items p items) (s_reserved_bytes s)\<rparr>,
     sat_sum (\<lambda>m. materialized_bytes (tor m)) (admitted_items p items) mat)"
proof (induction items arbitrary: s mat)
  case Nil
  then show ?case by (simp add: sat_sum_def admitted_items_def)
next
  case (Cons m items)
  show ?case
    by (cases "is_admitted p m") (simp_all add: snapshot_step_eq Cons.IH sat_sum_def admitted_items_def)
qed

lemma snapshot_counts:
  "s_torrent_count (snapshot_of p now items used) = int (length items)"
  "s_rejected (snapshot_of p now items used) = tally (is_rejected p) items"
  "s_admitted (snapshot_of p now items used) = tally (is_admitted p) items"
  "s_waiting (snapshot_of p now items used) = tally (is_waiting p) items"
  "s_unmanaged (snapshot_of p now items used) = tally (is_unmanaged p) items"
  "s_soft_cap_bytes (snapshot_of p now items used) = soft_cap_bytes p"
  "s_admitted_this_poll (snapshot_of p now items used) = 0"
  by (simp_all add: snapshot_of_def snapshot_fold new_status_store_def Let_def)

lemma min_add_min_right: "0 \<le> (x::int) \<Longrightarrow> min (x + min y k) k = min (x + y) k"
  by auto

lemma if_neg_max: "(if x < 0 then 0 else x) = max 0 (x::int)"
  by auto

lemma snapshot_committed:
  assumes m: "measured p used items"
  shows "s_committed_bytes (snapshot_of p now items used) =
    min (max 0 (used - min (materialized_sum (admitted_items p items)) i64_max) +
         reserved_sum (admitted_items p items)) i64_max"
proof -
  let ?as = "admitted_items p items"
  have as: "\<forall>m \<in> set ?as. torrent_i64 (tor m)"
    using m by (auto simp: measured_def admitted_items_def)
  have used: "0 \<le> used" "in_i64 used" using m by (simp_all add: measured_def)
  have "sat_sum (\<lambda>m. t_size (tor m)) ?as 0 = min (reserved_sum ?as) i64_max"
    using as sat_sum_pos [of ?as "\<lambda>m. t_size (tor m)" 0]
    by (auto simp: torrent_i64_def reserved_sum_def)
  moreover have "sat_sum (\<lambda>m. materialized_bytes (tor m)) ?as 0 = min (materialized_sum ?as) i64_max"
    using as sat_sum_min [of 0 ?as "\<lambda>m. materialized_bytes (tor m)"]
    by (simp add: materialized_bounds materialized_i64 materialized_sum_def)
  moreover have mat: "0 \<le> min (materialized_sum ?as) i64_max"
    using materialized_sum_le [of ?as] by simp
  moreover have "i64 (used - min (materialized_sum ?as) i64_max) = used - min (materialized_sum ?as) i64_max"
    using used mat materialized_sum_le [of ?as] by (intro i64_id in_i64_diff) (auto intro: in_i64_cap)
  moreover have "saturating_add (max 0 (used - min (materialized_sum ?as) i64_max)) (min (reserved_sum ?as) i64_max)
      = min (max 0 (used - min (materialized_sum ?as) i64_max) + min (reserved_sum ?as) i64_max) i64_max"
    using used mat materialized_sum_le [of ?as]
    by (intro saturating_add_min) (auto simp: in_i64_cap in_i64_def i64_min_def)
  ultimately have "s_committed_bytes (snapshot_of p now items used) =
      min (max 0 (used - min (materialized_sum ?as) i64_max) + min (reserved_sum ?as) i64_max) i64_max"
    by (simp add: snapshot_of_def snapshot_fold new_status_store_def Let_def if_neg_max)
  then show ?thesis by (simp add: min_add_min_right)
qed

section \<open>From a poll to Reconcile\<close>

text \<open>Every way \<open>Reconcile\<close> can end.\<close>

text \<open>What a poll reads before it acts: the torrents, and a usage that is not negative.\<close>

definition readable :: "string + torrent list \<Rightarrow> string + int \<Rightarrow> bool" where
  "readable listed usage \<longleftrightarrow> (case (listed, usage) of (Inr _, Inr used) \<Rightarrow> 0 \<le> used | _ \<Rightarrow> False)"

lemma reconcile_cases:
  obtains (no_list) e where "reconcile env p listed usage started st = ([], record_failure started e st, Some e)" "\<not> readable listed usage"
  | (failed) torrents used tr e where "listed = Inr torrents" "usage = Inr used" "0 \<le> used"
      "poll_items env p used started (map new_managed torrents) [] = (tr, Inl e)"
      "reconcile env p listed usage started st = (tr, record_failure started e st, Some e)"
  | (success) torrents used tr r where "listed = Inr torrents" "usage = Inr used" "0 \<le> used"
      "poll_items env p used started (map new_managed torrents) [] = (tr, Inr r)"
      "reconcile env p listed usage started st =
         (tr, record_success (poll_snapshot p used started r) st, None)"
proof (cases "\<exists>torrents used. listed = Inr torrents \<and> usage = Inr used \<and> 0 \<le> used")
  case False
  then have "\<exists>e. reconcile env p listed usage started st = ([], record_failure started e st, Some e)"
    by (cases listed; cases usage) (auto simp: reconcile_def Let_def)
  moreover have "\<not> readable listed usage" using False by (auto simp: readable_def split: sum.splits)
  ultimately show ?thesis using no_list by blast
next
  case True
  then obtain torrents used where in_use: "listed = Inr torrents" "usage = Inr used" "0 \<le> used"
    by blast
  obtain tr r where "poll_items env p used started (map new_managed torrents) [] = (tr, r)"
    by (meson surj_pair)
  with in_use failed success show ?thesis
    by (cases r) (simp_all add: reconcile_def)
qed

lemma new_managed_unblocked: "\<forall>m \<in> set (map new_managed torrents). \<not> block_admission m"
  by (auto simp: new_managed_def)

lemma reconcile_trace:
  assumes "reconcile env p (Inr torrents) usage started st = (tr, st', err)" "tr \<noteq> []"
  obtains used where "usage = Inr used" "0 \<le> used"
    "tr = fst (poll_items env p used started (map new_managed torrents) [])"
  using assms by (cases rule: reconcile_cases [of env p "Inr torrents" usage started st]) auto

lemma reconcile_safe_calls:
  assumes "policy_validate p = None"
    and "reconcile env p (Inr torrents) usage started st = (tr, st', err)" and "c \<in> set tr"
  shows "safe_call p (map new_managed torrents) c"
proof -
  obtain used where "tr = fst (poll_items env p used started (map new_managed torrents) [])"
    using assms(2,3) by (elim reconcile_trace) auto
  with assms(3) show ?thesis
    using emitsD [OF poll_items_emits [OF policy_validate_ok [OF assms(1)] new_managed_unblocked]]
    by blast
qed

text \<open>What a poll that completes did, from the specification of its admission loop.\<close>

lemma poll_items_yields:
  assumes ok: "policy_ok p" and fresh: "\<forall>m \<in> set items. \<not> block_admission m"
    and meas: "measured p used items"
  shows "yields (poll_items env p used now items) (\<lambda>r.
    r = Deleted items (int (length (eligible_for_deletion p items now))) \<or>
    (\<exists>items2 x. frames p items items2 \<and> measured p used items2 \<and>
       loop_spec p used now items2 0 (candidate_order p items2) x \<and> r = loop_poll x))"
  unfolding poll_items_def Let_def
proof (intro yields_if, goal_cases)
  case 1
  show ?case by (intro yields_ethen yields_eret) simp
next
  case 2
  show ?case
  proof (rule yields_ebind [OF normalize_all_yields [OF ok]], rule yields_ebind [OF finish_yields [OF ok]])
    fix items1 items2
    assume n: "list_all2 (normalized p) items items1" and f: "list_all2 (finished p) items1 items2"
    have fr: "frames p items items2" using framed_normal_finished [OF n f] .
    have me: "measured p used items2" using frames_measured [OF fr meas] .
    have "distinct (candidate_order p items2)"
      by (simp add: candidate_order_def waiting_candidates_def)
    then have "yields (admission_loop env p used now items2 0 (candidate_order p items2))
        (loop_spec p used now items2 0 (candidate_order p items2))"
      by (intro admission_loop_spec [OF ok me]) (auto simp: candidates_settled [OF n f fresh])
    then show "yields (ebind (admission_loop env p used now items2 0 (candidate_order p items2))
        (\<lambda>r. eret (loop_poll r)))
      (\<lambda>r. r = Deleted items (int (length (eligible_for_deletion p items now))) \<or>
        (\<exists>items2 x. frames p items items2 \<and> measured p used items2 \<and>
          loop_spec p used now items2 0 (candidate_order p items2) x \<and> r = loop_poll x))"
      by (rule yields_ebind) (use fr me in \<open>auto intro!: yields_eret\<close>)
  qed
qed

lemma measured_new: "soft_cap_bytes p < i64_max \<Longrightarrow> 0 \<le> used \<Longrightarrow> in_i64 used \<Longrightarrow>
   \<forall>t \<in> set torrents. torrent_i64 t \<Longrightarrow> measured p used (map new_managed torrents)"
  by (auto simp: measured_def)

lemma poll_snapshot_admitted:
  "0 < s_admitted_this_poll (poll_snapshot p used now r) \<Longrightarrow> \<exists>items n. r = Admitted items n \<and> 0 < n"
  by (cases r) (auto simp: poll_snapshot_def snapshot_counts)

lemma poll_snapshot_fields:
  "s_committed_bytes (poll_snapshot p used now (Admitted items n)) = s_committed_bytes (snapshot_of p now items used)"
  "s_used_bytes (poll_snapshot p used now r) = used"
  by (auto simp: poll_snapshot_def Let_def snapshot_of_def snapshot_fold new_status_store_def split: poll.splits)

lemma within_budget_committed:
  assumes "measured p used items" "within_budget p used items"
  shows "s_committed_bytes (snapshot_of p now items used) \<le> soft_cap_bytes p"
proof -
  let ?as = "admitted_items p items"
  have m: "0 \<le> materialized_sum ?as" "materialized_sum ?as \<le> reserved_sum ?as"
    using materialized_sum_le by auto
  have b: "max 0 (used - materialized_sum ?as) + reserved_sum ?as \<le> soft_cap_bytes p"
    using assms(2) by (simp add: within_budget_def)
  have "soft_cap_bytes p < i64_max" using assms(1) by (simp add: measured_def)
  with m b have "min (materialized_sum ?as) i64_max = materialized_sum ?as" by auto
  with b show ?thesis by (simp add: snapshot_committed [OF assms(1)])
qed

lemma poll_items_stops: "stops env [] (poll_items env p used now items [])"
  by (rule fail_stopD [OF poll_items_fail_stop])

text \<open>The calls of a loop of deletions.\<close>

lemma delete_all_Nil: "delete_all env w items [] tr = (tr, Inr [])"
  by (simp add: delete_all_def eret_def)

lemma delete_all_Cons:
  "delete_all env w items (i # is) tr =
     (let h = t_hash (tor (items ! i)); d = Delete h True in
      case env tr d of
        Some e \<Rightarrow> (tr @ [d], Inl (wrap_err w h e))
      | None \<Rightarrow> (case delete_all env w items is (tr @ [d]) of
          (tr', Inl e) \<Rightarrow> (tr', Inl e) | (tr', Inr ys) \<Rightarrow> (tr', Inr (() # ys))))"
  by (auto simp: delete_all_def ebind_def eret_def invoke_def Let_def split: option.splits sum.splits prod.splits)

lemma delete_all_trace:
  "(\<exists>k. fst (delete_all env w items is tr) = tr @ take k (map (\<lambda>i. Delete (t_hash (tor (items ! i))) True) is)) \<and>
   (\<forall>x. snd (delete_all env w items is tr) = Inr x \<longrightarrow>
      fst (delete_all env w items is tr) = tr @ map (\<lambda>i. Delete (t_hash (tor (items ! i))) True) is)"
proof (induction "is" arbitrary: tr)
  case Nil
  then show ?case by (simp add: delete_all_Nil)
next
  case (Cons i "is" tr)
  let ?d = "Delete (t_hash (tor (items ! i))) True" and ?ds = "map (\<lambda>i. Delete (t_hash (tor (items ! i))) True) is"
  obtain tr1 r1 where r1: "delete_all env w items is (tr @ [?d]) = (tr1, r1)" by (meson surj_pair)
  with Cons.IH [of "tr @ [?d]"] obtain k where
    k: "tr1 = tr @ ?d # take k ?ds" "\<forall>x. r1 = Inr x \<longrightarrow> tr1 = tr @ ?d # ?ds"
    by (fastforce simp: r1)
  show ?case
  proof (cases "env tr ?d")
    case (Some e)
    then show ?thesis by (auto simp: delete_all_Cons Let_def intro: exI [of _ 1])
  next
    case None
    have tk: "\<exists>ka. tr1 = tr @ take ka (?d # ?ds)" using k(1) by (intro exI [of _ "Suc k"]) simp
    show ?thesis
    proof (cases r1)
      case (Inl e)
      then have "delete_all env w items (i # is) tr = (tr1, Inl e)"
        using None r1 by (simp add: delete_all_Cons Let_def)
      with tk show ?thesis by simp
    next
      case (Inr ys)
      then have "delete_all env w items (i # is) tr = (tr1, Inr (() # ys))"
        using None r1 by (simp add: delete_all_Cons Let_def)
      with tk k(2) Inr show ?thesis by simp
    qed
  qed
qed

section \<open>Properties\<close>

text \<open>
  C1. Deletion safety. Whatever the Web API answers, every deletion a poll requests is for a
  torrent of the listing that does not carry the keep tag and whose save path (and temporary path,
  if any) lie inside the download root.
\<close>

theorem reconcile_deletes_safely:
  assumes "policy_validate p = None"
    and "reconcile env p (Inr torrents) usage started st = (tr, st', err)"
    and "Delete h files \<in> set tr"
  shows "\<exists>t \<in> set torrents. t_hash t = h \<and> \<not> has (new_managed t) (keep_tag p) \<and>
    paths_inside_download_root t (download_root p)"
  using reconcile_safe_calls [OF assms] by (auto simp: safe_call_def)

theorem reconcile_deletes_safely_witness:
  "\<exists>t \<in> set [waiting_torrent ''a'' 6 100, waiting_torrent ''b'' 6 200]. t_hash t = ''a'' \<and>
     \<not> has (new_managed t) (keep_tag sample_policy) \<and>
     paths_inside_download_root t (download_root sample_policy)"
  by (rule reconcile_deletes_safely [OF sample_policy_ok sample_reconcile, where files = True]) simp

text \<open>
  C9. Off-volume torrents are never started: every start a poll requests is for a listed torrent
  inside the download root.
\<close>

theorem reconcile_starts_inside_root:
  assumes "policy_validate p = None"
    and "reconcile env p (Inr torrents) usage started st = (tr, st', err)"
    and "Start h \<in> set tr"
  shows "\<exists>t \<in> set torrents. t_hash t = h \<and> paths_inside_download_root t (download_root p)"
  using reconcile_safe_calls [OF assms] by (auto simp: safe_call_def)

theorem reconcile_starts_inside_root_witness:
  "\<exists>t \<in> set [waiting_torrent ''a'' 6 100]. t_hash t = ''a'' \<and>
     paths_inside_download_root t (download_root sample_policy)"
  by (rule reconcile_starts_inside_root [OF sample_policy_ok sample_reconcile_one]) simp

text \<open>
  C7. Deletions end a poll: after the first deletion a poll issues nothing but deletions, so no
  torrent is admitted on space that a deletion has not been seen to free.
\<close>

theorem reconcile_deletes_last:
  "case reconcile env p listed usage started st of (tr, st', err) \<Rightarrow>
     \<exists>as bs. tr = as @ bs \<and> filter is_delete as = [] \<and> filter is_delete bs = bs"
proof -
  have poll: "\<exists>as bs. fst (poll_items env p used started items []) = as @ bs \<and>
      filter is_delete as = [] \<and> filter is_delete bs = bs" for used items
  proof -
    obtain as bs where "fst (poll_items env p used started items []) = [] @ as @ bs"
      "\<forall>c \<in> set as. \<not> is_delete c" "\<forall>c \<in> set bs. is_delete c"
      using poll_items_deletes_last [of env p used started items] unfolding deletes_last_def by blast
    then show ?thesis
      by (intro exI [of _ as] exI [of _ bs]) (simp add: filter_empty_conv filter_id_conv)
  qed
  show ?thesis
  proof (cases rule: reconcile_cases [of env p listed usage started st])
    case no_list
    then show ?thesis by (auto intro: exI [of _ "[]"])
  next
    case (failed torrents used tr e)
    then show ?thesis using poll [of used "map new_managed torrents"] by simp
  next
    case (success torrents used tr r)
    then show ?thesis using poll [of used "map new_managed torrents"] by simp
  qed
qed

text \<open>
  C2. The budget holds. When a poll reports admissions, the committed bytes it publishes (the
  bytes on disk that belong to no admitted torrent plus the full sizes of all admitted ones) and the
  bytes in use are within the cap.
\<close>

theorem reconcile_admissions_within_budget:
  assumes "policy_validate p = None" "soft_cap_bytes p < i64_max" "in_i64 used"
    and "\<forall>t \<in> set torrents. torrent_i64 t"
    and run: "reconcile env p (Inr torrents) (Inr used) started st = (tr, st', None)"
    and adm: "0 < s_admitted_this_poll st'"
  shows "s_committed_bytes st' \<le> soft_cap_bytes p \<and> s_used_bytes st' \<le> soft_cap_bytes p"
  using run
proof (cases rule: reconcile_cases [of env p "Inr torrents" "Inr used" started st])
  case (success torrents' used' tr' r)
  have eq: "torrents' = torrents" "used' = used" using success(1,2) by simp_all
  have st': "st' = record_success (poll_snapshot p used started r) st"
    using run success(5) eq by (metis prod.inject)
  obtain items n where r: "r = Admitted items n" "0 < n"
    using adm st' poll_snapshot_admitted by force
  have used: "0 \<le> used" using success(3) eq by simp
  note meas = measured_new [OF assms(2) used assms(3,4)]
  obtain items2 x where x: "measured p used items2" "frames p (map new_managed torrents) items2"
    "loop_spec p used started items2 0 (candidate_order p items2) x" "r = loop_poll x"
    using yieldsD [OF poll_items_yields [OF policy_validate_ok [OF assms(1)] new_managed_unblocked meas]
        success(4) [unfolded eq]] r by auto
  with r have xe: "x = (items, n, None)" by (cases x rule: loop_poll.cases) auto
  with x(3) r(2) have "frames p items2 items" "within_budget p used items"
    by (auto simp: loop_spec_def)
  moreover from this(1) x(1) have "measured p used items" by (rule frames_measured)
  ultimately show ?thesis
    using within_budget_committed [of p used items started]
    by (simp add: st' r poll_snapshot_fields record_success_def within_budget_def)
qed simp_all

theorem reconcile_admissions_within_budget_witness:
  "s_committed_bytes (record_success (poll_snapshot sample_policy 0 0 (Admitted [item_a_started] 1)) new_status_store)
     \<le> soft_cap_bytes sample_policy"
proof -
  have "torrent_i64 (waiting_torrent ''a'' 6 100)" "in_i64 0" "soft_cap_bytes sample_policy < i64_max"
    by (simp_all add: torrent_i64_def in_i64_def i64_max_def i64_min_def)
  moreover have "0 < s_admitted_this_poll
      (record_success (poll_snapshot sample_policy 0 0 (Admitted [item_a_started] 1)) new_status_store)"
    by (simp add: poll_snapshot_def Let_def)
  ultimately show ?thesis
    using reconcile_admissions_within_budget
      [OF sample_policy_ok _ _ _ sample_reconcile_one [of 0 new_status_store]] by simp
qed

text \<open>
  C15. A poll fails closed. It succeeds exactly when the torrents were listed, the disk was measured and
  every call was accepted; it then publishes itself as healthy. Otherwise it has issued nothing, when
  listing or measuring failed, or has stopped at the first refused call, and the published status keeps
  the last success, carries the error and makes the health endpoint answer 503.
\<close>

theorem reconcile_fails_closed:
  "case reconcile env p listed usage started st of
     (tr, st', None) \<Rightarrow> readable listed usage \<and> all_ok env [] tr \<and>
       s_healthy st' \<and> s_last_success st' = started \<and> s_last_error st' = []
   | (tr, st', Some e) \<Rightarrow>
       (if readable listed usage then \<exists>cs c. tr = cs @ [c] \<and> all_ok env [] cs \<and> env cs c \<noteq> None else tr = []) \<and>
       s_last_error st' = e \<and> s_last_success st' = s_last_success st \<and>
       h_status (healthz now max_age st') = 503"
proof (cases rule: reconcile_cases [of env p listed usage started st])
  case (no_list e)
  then show ?thesis by (simp add: healthz_failure)
next
  case (failed torrents used tr e)
  have "stops env [] (tr, Inl e :: string + poll)"
    using poll_items_stops [of env p used started "map new_managed torrents"] failed by simp
  then have "\<exists>cs c. tr = cs @ [c] \<and> all_ok env [] cs \<and> env cs c \<noteq> None"
    by (auto elim: stops_errE)
  then show ?thesis using failed by (simp add: healthz_failure readable_def)
next
  case (success torrents used tr r)
  have "stops env [] (tr, Inr r)"
    using poll_items_stops [of env p used started "map new_managed torrents"] success by simp
  then have "all_ok env [] tr" by (auto elim: stops_okE)
  moreover have "s_last_success (poll_snapshot p used started r) = started"
    by (auto simp: poll_snapshot_def Let_def snapshot_of_def snapshot_fold new_status_store_def split: poll.splits)
  ultimately show ?thesis using success by (simp add: readable_def)
qed

text \<open>
  C21. Oldest first, each only when it fits, no overtaking. A completed admission loop admits exactly the
  first stopped candidates of the order, each of which fits the budget when its turn comes, up to the
  first that does not fit, and touches no other torrent; none of those left waiting is older than an
  admitted one. Sizes and usage are 64-bit integers and the soft cap is below the largest of them.
\<close>

theorem admissions_go_oldest_first:
  assumes "policy_validate p = None" "measured p used items"
    and "admission_loop env p used now items 0 (candidate_order p items) [] = (tr, Inr (items', n, ev))"
  shows "\<exists>admitted rest.
    filter (\<lambda>c. is_stopped (t_state (tor (items ! c)))) (candidate_order p items) = admitted @ rest \<and>
    n = int (length admitted) \<and>
    (\<forall>c \<in> set admitted. is_admitted p (items' ! c)) \<and>
    (\<forall>j < length admitted. fits p (at_turn items items' admitted j) (admitted ! j) used) \<and>
    (\<forall>i. i \<notin> set admitted \<longrightarrow> items' ! i = items ! i) \<and>
    (rest \<noteq> [] \<longrightarrow> \<not> fits p items' (hd rest) used) \<and>
    (\<forall>a \<in> set admitted. \<forall>r \<in> set rest. \<not> older (tor (items ! r)) (tor (items ! a)))"
proof -
  let ?o = "filter (\<lambda>c. is_stopped (t_state (tor (items ! c)))) (candidate_order p items)"
  have in_order: "sorted_wrt (\<lambda>a b. \<not> older (tor (items ! b)) (tor (items ! a))) ?o"
    unfolding candidate_order_def
    by (intro sorted_wrt_filter strict_weak.sort_sorted [OF strict_weak_key [OF older_order.strict_weak_axioms]])
  have once: "distinct (candidate_order p items)" by (simp add: candidate_order_def waiting_candidates_def)
  have "loop_spec p used now items 0 ?o (items', n, ev)"
    using assms(2) once assms(3) [unfolded admission_loop_stopped [OF once]]
    by (intro yieldsD [OF admission_loop_spec [OF policy_validate_ok [OF assms(1)]]])
      (auto simp: candidate_order_in)
  then obtain k where k: "k \<le> length ?o" "n = int k" "\<forall>c \<in> set (take k ?o). is_admitted p (items' ! c)"
    "\<forall>i. i \<notin> set (take k ?o) \<longrightarrow> items' ! i = items ! i" "\<forall>j < k. fits p (at_turn items items' ?o j) (?o ! j) used"
    "k < length ?o \<longrightarrow> \<not> fits p items' (?o ! k) used"
    by (auto simp: loop_spec_def)
  have "at_turn items items' (take k ?o) j = at_turn items items' ?o j" if "j < k" for j
    using that by (simp add: at_turn_def min_absorb1)
  moreover have "\<forall>a \<in> set (take k ?o). \<forall>r \<in> set (drop k ?o). \<not> older (tor (items ! r)) (tor (items ! a))"
    using in_order by (metis append_take_drop_id sorted_wrt_append)
  ultimately show ?thesis
    using k by (intro exI [of _ "take k ?o"] exI [of _ "drop k ?o"]) (auto simp: hd_drop_conv_nth)
qed

theorem admissions_go_oldest_first_witness:
  "\<exists>admitted rest. [0] = admitted @ rest \<and> 1 = int (length admitted) \<and>
    (\<forall>c \<in> set admitted. is_admitted sample_policy ([item_a_started] ! c)) \<and> fits sample_policy [item_a] 0 0"
proof -
  have o: "candidate_order sample_policy [item_a] = [0]"
    by (simp add: candidate_order_def waiting_candidates_def is_candidate_def)
  have m: "measured sample_policy 0 [item_a]"
    by (simp add: measured_def torrent_i64_def in_i64_def i64_max_def i64_min_def)
  have f: "fits sample_policy [item_a] 0 0"
    by (simp add: fits_def fits_after_pressure_evictions_def counted_def predicted_used_def sat_sum_def
        saturating_add_def i64_def i64_max_def Let_def)
  have "admission_loop quiet sample_policy 0 0 [item_a] 0 (candidate_order sample_policy [item_a]) [] =
     ([AddTags ''a'' [''retention-admitted''], Start ''a'', RemoveTags ''a'' [''retention-waiting'']],
      Inr ([item_a_started], 1, None))"
    by (simp add: o f ebind_def eret_def sample_admit)
  from admissions_go_oldest_first [OF sample_policy_ok m this] f show ?thesis
    by (auto simp: o)
qed

text \<open>
  C25. Pressure evictions are the smallest sufficient choice: the torrents considered are the
  eligible ones, oldest added first; when evictions are chosen they are a prefix of that order, the
  candidate is predicted to fit after them and not after any shorter prefix; when none are chosen,
  no prefix suffices.
\<close>

theorem pressure_evictions_minimal:
  "set (pressure_order p items now) = {i. i < length items \<and> pressure_eligible p now (items ! i)} \<and>
   sorted_wrt (\<lambda>i j. \<not> older_by_added_time (tor (items ! j)) (tor (items ! i))) (pressure_order p items now) \<and>
   (case pressure_evictions p items c used now of
      None \<Rightarrow> \<forall>k \<in> {1..length (pressure_order p items now)}.
        \<not> fits_after_pressure_evictions p items c used (take k (pressure_order p items now))
    | Some evs \<Rightarrow> \<exists>k \<in> {1..length (pressure_order p items now)}. evs = take k (pressure_order p items now) \<and>
        fits_after_pressure_evictions p items c used evs \<and>
        (\<forall>j \<in> {1..<k}. \<not> fits_after_pressure_evictions p items c used (take j (pressure_order p items now))))"
proof (intro conjI)
  show "set (pressure_order p items now) = {i. i < length items \<and> pressure_eligible p now (items ! i)}"
    by (auto simp: pressure_order_def)
  show "sorted_wrt (\<lambda>i j. \<not> older_by_added_time (tor (items ! j)) (tor (items ! i))) (pressure_order p items now)"
    unfolding pressure_order_def
    by (rule strict_weak.sort_sorted [OF strict_weak_key [OF added_order.strict_weak_axioms]])
  show "case pressure_evictions p items c used now of
      None \<Rightarrow> \<forall>k \<in> {1..length (pressure_order p items now)}.
        \<not> fits_after_pressure_evictions p items c used (take k (pressure_order p items now))
    | Some evs \<Rightarrow> \<exists>k \<in> {1..length (pressure_order p items now)}. evs = take k (pressure_order p items now) \<and>
        fits_after_pressure_evictions p items c used evs \<and>
        (\<forall>j \<in> {1..<k}. \<not> fits_after_pressure_evictions p items c used (take j (pressure_order p items now)))"
  proof (cases "pressure_evictions p items c used now")
    case None
    then show ?thesis
      using select_evictions_None [of p items c used "[]" "pressure_order p items now"]
      by (auto simp: pressure_evictions_def)
  next
    case (Some evs)
    then show ?thesis
      using select_evictions_Some [of p items c used "[]" "pressure_order p items now" evs]
      unfolding pressure_evictions_def by (simp, elim exE conjE) (intro bexI, auto)
  qed
qed

theorem pressure_evictions_minimal_witness:
  "\<exists>k \<in> {1..length (pressure_order sample_policy [item_a_started, item_b] (1000 * second))}.
     [0] = take k (pressure_order sample_policy [item_a_started, item_b] (1000 * second)) \<and>
     fits_after_pressure_evictions sample_policy [item_a_started, item_b] 1 0 [0]"
  using pressure_evictions_minimal [of sample_policy "[item_a_started, item_b]" "1000 * second" 1 0,
      THEN conjunct2, THEN conjunct2, unfolded sample_pressure option.case]
  by blast

text \<open>
  Routine retention deletes exactly what its rule names: torrents without the keep tag, inside
  the root, complete, with a valid ratio of at least the minimum, completed at a known instant at
  least the minimum age ago.
\<close>

theorem retention_exact:
  assumes "policy_validate p = None" "min_age p \<le> i64_max"
    and "\<forall>m \<in> set items. t_completion_on (tor m) \<le> 9223371974719179007"
  shows "i \<in> set (eligible_for_deletion p items now) \<longleftrightarrow>
    i < length items \<and> (let m = items ! i; t = tor m in
      \<not> has m (keep_tag p) \<and> paths_inside_download_root t (download_root p) \<and> currently_complete t \<and>
      valid_ratio (t_ratio t) \<and> \<not> f_lt (t_ratio t) (min_ratio p) \<and>
      0 < t_completion_on t \<and> t_completion_on t * second + min_age p \<le> now)"
proof (cases "i < length items")
  case True
  then have c: "t_completion_on (tor (items ! i)) \<le> 9223371974719179007" using assms(3) by simp
  have a: "0 \<le> min_age p" using assms(1) by (auto simp: policy_validate_def split: if_splits)
  have "min_age p \<le> time_sub now (t_completion_on (tor (items ! i)) * second) \<longleftrightarrow>
      min_age p \<le> now - t_completion_on (tor (items ! i)) * second"
    using a assms(2) by (intro time_sub_ge_iff) (auto simp: i64_min_def)
  then show ?thesis
    using True c a by (auto simp: eligible_for_deletion_def retention_eligible_def Let_def time_unix_small)
qed (auto simp: eligible_for_deletion_def)

theorem retention_exact_witness:
  "(0 \<in> set (eligible_for_deletion sample_policy [item_a] 5)) = False"
  using retention_exact [OF sample_policy_ok, of "[item_a]" 0 5]
  by (simp add: i64_max_def waiting_torrent_def Let_def currently_complete_def)

text \<open>
  Retention comes first and alone: when some torrent is eligible, the poll requests the deletion
  of the eligible ones, oldest first and with their files, up to the first failure, and does nothing
  else; a poll without failure requests all of them.
\<close>

theorem retention_first:
  assumes "eligible_for_deletion p (map new_managed torrents) started \<noteq> []" "0 \<le> used"
    and "reconcile env p (Inr torrents) (Inr used) started st = (tr, st', err)"
  shows "let dels = map (\<lambda>i. Delete (t_hash (torrents ! i)) True)
                      (eligible_for_deletion p (map new_managed torrents) started)
    in (\<exists>k. tr = take k dels) \<and> (err = None \<longrightarrow> tr = dels \<and> s_deletions_requested st' = int (length dels))"
proof -
  let ?items = "map new_managed torrents" and ?is = "eligible_for_deletion p (map new_managed torrents) started"
  let ?dels = "map (\<lambda>i. Delete (t_hash (torrents ! i)) True) ?is"
  have dels: "?dels = map (\<lambda>i. Delete (t_hash (tor (?items ! i))) True) ?is"
    by (simp add: eligible_in_range [of _ p ?items started, simplified])
  obtain tr1 r where da: "delete_all env ''delete eligible torrent'' ?items ?is [] = (tr1, r)"
    by (meson surj_pair)
  then have tr1: "\<exists>k. tr1 = take k ?dels" "\<And>x. r = Inr x \<Longrightarrow> tr1 = ?dels"
    using delete_all_trace [of env "''delete eligible torrent''" ?items ?is "[]"] unfolding da dels by simp_all
  show ?thesis
    using assms(3) assms(1,2) tr1 da
    by (cases r) (auto simp: reconcile_def poll_items_def Let_def ethen_def ebind_def eret_def
      poll_snapshot_def record_success_def)
qed

theorem retention_first_witness:
  "fst (reconcile quiet sample_policy (Inr [seeded_torrent]) (Inr 4) (1000000 * second) new_status_store) =
     [Delete ''s'' True]"
proof -
  let ?run = "reconcile quiet sample_policy (Inr [seeded_torrent]) (Inr 4) (1000000 * second) new_status_store"
  have e: "eligible_for_deletion sample_policy (map new_managed [seeded_torrent]) (1000000 * second) = [0]"
    by (rule seeded_eligible)
  obtain tr st' err where run: "?run = (tr, st', err)" by (metis surj_pair)
  have "err = None"
    using run e by (auto simp: reconcile_def poll_items_def Let_def ethen_def ebind_def eret_def delete_all_def
        invoke_def quiet_def)
  with retention_first [OF _ _ run] e run show ?thesis by (simp add: seeded_torrent_def Let_def)
qed

text \<open>
  The budget test is exact: although its sums saturate at 64 bits, its verdict is that of the
  unbounded sums. The predicted usage must respect the cap, and so must the bytes that belong to
  no counted torrent plus the full sizes of the counted torrents and the candidate.
\<close>

theorem fits_is_exact:
  assumes "soft_cap_bytes p < i64_max" "\<forall>m \<in> set items. torrent_i64 (tor m)"
    and "candidate < length items" "0 \<le> used" "in_i64 used"
  shows "fits_after_pressure_evictions p items candidate used evicted \<longleftrightarrow>
    (let others = counted p items candidate evicted @ [items ! candidate];
         predicted = predicted_used items used evicted
     in predicted \<le> soft_cap_bytes p \<and>
        max 0 (predicted - materialized_sum others) + reserved_sum others \<le> soft_cap_bytes p)"
  using assms by (rule fits_exact)

theorem fits_is_exact_witness:
  "fits_after_pressure_evictions sample_policy [item_a] 0 0 [] \<longleftrightarrow> (6::int) \<le> 10"
  using fits_is_exact [of sample_policy "[item_a]" 0 0 "[]"]
  by (simp add: in_i64_def i64_max_def i64_min_def torrent_i64_def counted_def Let_def
      predicted_used_def materialized_sum_def reserved_sum_def)

text \<open>
  The published snapshot accounts for every torrent once, and its committed bytes are the
  exact bytes that belong to no admitted torrent plus the sizes of the admitted ones, capped at the
  largest integer.
\<close>

theorem snapshot_accounts_exactly:
  assumes "measured p used items"
  shows "let s = snapshot_of p now items used; as = admitted_items p items in
    s_rejected s + s_admitted s + s_waiting s + s_unmanaged s = s_torrent_count s \<and>
    s_admitted s = int (length as) \<and>
    s_committed_bytes s =
      min (max 0 (used - min (materialized_sum as) i64_max) + reserved_sum as) i64_max"
  using snapshot_committed [OF assms] tally_partition [of p items]
  by (simp add: Let_def snapshot_counts admitted_items_def tally_def)

theorem snapshot_accounts_exactly_witness:
  "let s = snapshot_of sample_policy 0 [item_a_started] 3 in
     s_rejected s + s_admitted s + s_waiting s + s_unmanaged s = s_torrent_count s"
proof -
  have "measured sample_policy 3 [item_a_started]"
    by (simp add: measured_def torrent_i64_def in_i64_def i64_max_def i64_min_def waiting_torrent_def)
  then show ?thesis using snapshot_accounts_exactly [of sample_policy 3 "[item_a_started]" 0] by (simp add: Let_def)
qed

text \<open>
  Path containment is containment of components: below an absolute root other than \<open>/\<close>, a path
  counts as inside exactly when it is absolute and the components of the cleaned root are the
  first components of the cleaned path. So \<open>/downloads2\<close> and \<open>/downloads/../etc\<close> are outside
  \<open>/downloads\<close>.
\<close>

theorem path_inside_root_components:
  assumes "path_is_abs (path_clean base)" "path_clean base \<noteq> ''/''"
  shows "path_inside_root candidate base \<longleftrightarrow>
    path_rooted candidate \<and> prefix (path_comps base) (path_comps candidate)"
proof -
  have r: "path_rooted base" using assms(1) by (simp add: path_clean_abs_iff)
  then have ne: "path_comps base \<noteq> []" using assms(2) by (auto simp: path_clean_rooted)
  show ?thesis
    using clean_prefix_iff [OF _ r ne, of candidate]
    by (auto simp: path_inside_root_def Let_def path_clean_abs_iff path_rooted_def)
qed

theorem path_inside_root_components_witness:
  "\<not> path_inside_root ''/downloads/../etc'' ''/downloads''"
  using path_inside_root_components [of "''/downloads''" "''/downloads/../etc''"]
  by (simp add: path_clean_def path_comps_def path_rooted_def clean_step.simps path_is_abs_def)

text \<open>
  What normalization leaves: every torrent keeps its identity, size and keep tag; torrents
  outside the root or over the cap end stopped with only the rejected tag; any other torrent whose
  metadata is known loses the rejected tag, keeps its admission, and if it is not admitted ends
  stopped and waiting, blocked for this poll when it had to be stopped.
\<close>

theorem normalize_settles:
  assumes "policy_validate p = None" "normalize_all env p items tr = (tr', Inr items')" "i < length items"
  shows "length items' = length items \<and> (let m = items ! i; m' = items' ! i in
    t_hash (tor m') = t_hash (tor m) \<and> t_size (tor m') = t_size (tor m) \<and>
    has m' (keep_tag p) = has m (keep_tag p) \<and>
    (if \<not> paths_inside_download_root (tor m) (download_root p) \<or>
        metadata_ready (tor m) \<and> soft_cap_bytes p < t_size (tor m)
     then is_stopped (t_state (tor m')) \<and> has m' (rejected_tag p) \<and>
          \<not> has m' (waiting_tag p) \<and> \<not> has m' (admitted_tag p)
     else if \<not> metadata_ready (tor m) then m' = m
     else \<not> has m' (rejected_tag p) \<and> has m' (admitted_tag p) = has m (admitted_tag p) \<and>
          (has m' (admitted_tag p) \<or>
           has m' (waiting_tag p) \<and> is_stopped (t_state (tor m')) \<and>
           (block_admission m' \<longleftrightarrow> block_admission m \<or> \<not> is_stopped (t_state (tor m))))))"
proof -
  have n: "list_all2 (normalized p) items items'"
    using yieldsD [OF normalize_all_yields [OF policy_validate_ok [OF assms(1)]] assms(2)] .
  then have "normalized p (items ! i) (items' ! i)" using assms(3) by (rule list_all2_nthD)
  then show ?thesis
    using framed_torrent [of p "items ! i" "items' ! i"] list_all2_lengthD [OF n]
    unfolding normalized_def Let_def by auto
qed

theorem normalize_settles_witness:
  "has ([item_a, item_b] ! 1) (waiting_tag sample_policy) \<and> is_stopped (t_state (tor ([item_a, item_b] ! 1)))"
  using normalize_settles [OF sample_policy_ok sample_normalize [of "[]"], of 1] by (simp add: Let_def)

text \<open>
  A defect: a torrent admitted and started for its turn can be chosen to make room for the next
  candidate, and is then deleted with its files in the same poll; the published snapshot reports no
  admission. Two torrents of 6 bytes under a cap of 10 show it.
\<close>

theorem same_poll_admission_evicted:
  "let (tr, st', err) = reconcile quiet sample_policy
        (Inr [waiting_torrent ''a'' 6 100, waiting_torrent ''b'' 6 200]) (Inr 0) (1000 * second) new_status_store
   in err = None \<and> tr = [AddTags ''a'' [''retention-admitted''], Start ''a'',
        RemoveTags ''a'' [''retention-waiting''], Delete ''a'' True] \<and> s_admitted_this_poll st' = 0"
  by (simp add: sample_reconcile poll_snapshot_def snapshot_counts)

text \<open>
  A defect: a running torrent that was rejected and no longer is gets stopped twice in one turn
  and is blocked from admission, because the second test sees the state as it was listed.
\<close>

theorem unrejected_torrent_stopped_twice:
  assumes "paths_inside_download_root (tor m) (download_root p)" "metadata_ready (tor m)"
    and "t_size (tor m) \<le> soft_cap_bytes p" "policy_validate p = None"
    and "has m (rejected_tag p)" "\<not> has m (admitted_tag p)" "\<not> is_stopped (t_state (tor m))"
  shows "let h = t_hash (tor m) in
    fst (normalize_item quiet p m []) =
      [Stop h, AddTags h [waiting_tag p], RemoveTags h [rejected_tag p], Stop h] \<and>
    (\<exists>m'. snd (normalize_item quiet p m []) = Inr m' \<and> block_admission m')"
  using assms policy_validate_ok [OF assms(4)]
  by (simp add: normalize_item_def unreject_def keep_waiting_def remove_tags_def Let_def ethen_def ebind_def
      eret_def ewhen_def invoke_def quiet_def policy_ok_def)

definition item_r :: managed where
  "item_r = \<lparr>tor = (waiting_torrent ''r'' 6 100)\<lparr>t_state := ''downloading''\<rparr>,
     tagset = {''retention-rejected''}, block_admission = False\<rparr>"

theorem unrejected_torrent_stopped_twice_witness:
  "fst (normalize_item quiet sample_policy item_r []) =
     [Stop ''r'', AddTags ''r'' [''retention-waiting''], RemoveTags ''r'' [''retention-rejected''], Stop ''r'']"
  using unrejected_torrent_stopped_twice [of item_r sample_policy] sample_policy_ok
  by (simp add: item_r_def has_def metadata_ready_def Let_def)

end
