(* ===== verification/HkConfig.thy ===== *)
theory HkConfig
  imports HkExample "HOL-Library.Word"
begin

text \<open>
  qBittorrent housekeeper, the edges of the service: the used bytes of the download filesystem
  (internal/storage/statfs.go), the validation of the configuration and the password file
  (internal/config/config.go), and the Web API client (internal/qbit/client.go) with its single
  retry after a login. The operating system's answers (statfs, files, environment) and the HTTP
  server's replies are arguments.
\<close>

section \<open>Used bytes\<close>

datatype usage_error = StatfsFailed string | InvalidBlockCounts | UsageOverflow

record statfs_t =
  st_blocks :: "64 word"
  st_bfree :: "64 word"
  st_bsize :: "64 word"

definition used_bytes :: "string + statfs_t \<Rightarrow> usage_error + int" where
  "used_bytes answer =
     (case answer of
        Inl e \<Rightarrow> Inl (StatfsFailed e)
      | Inr stats \<Rightarrow>
          (let blocks = st_blocks stats; free = st_bfree stats in
           if free > blocks then Inl InvalidBlockCounts
           else let block_size = st_bsize stats; used = blocks - free in
             if block_size \<noteq> 0 \<and> used > 0x7FFFFFFFFFFFFFFF div block_size then Inl UsageOverflow
             else Inr (sint (used * block_size))))"

lemma word_mult_small:
  assumes "uint a * uint b < 2 ^ 64"
  shows "uint (a * b :: 64 word) = uint a * uint b"
  using assms by (simp add: uint_word_ariths(3))

lemma sint_small:
  assumes "uint (x :: 64 word) \<le> i64_max"
  shows "sint x = uint x"
proof -
  have "- (2 ^ 63) \<le> uint x" "uint x < 2 ^ 63"
    using assms uint_ge_0 [of x] unfolding i64_max_def by (simp_all, linarith)
  then have "signed_take_bit 63 (uint x) = uint x" by (rule signed_take_bit_int_eq_self)
  then show ?thesis by (simp add: sint_uint)
qed

lemma div_less_iff_mult: "0 < (b::int) \<Longrightarrow> m div b < u \<longleftrightarrow> m < u * b"
proof -
  assume b: "0 < b"
  have "u \<le> m div b \<longleftrightarrow> u * b \<le> m"
  proof
    assume "u \<le> m div b"
    then have "u * b \<le> m div b * b" using b by (simp add: mult_right_mono)
    also have "\<dots> \<le> m" using b div_mult_mod_eq [of m b] pos_mod_sign [OF b, of m] by linarith
    finally show "u * b \<le> m" .
  next
    assume "u * b \<le> m"
    then have "u * b div b \<le> m div b" using b by (rule zdiv_mono1)
    then show "u \<le> m div b" using b by simp
  qed
  then show ?thesis by linarith
qed

lemma overflow_guard_iff:
  assumes "b \<noteq> 0"
  shows "(0x7FFFFFFFFFFFFFFF :: 64 word) div b < u \<longleftrightarrow> i64_max < uint u * uint b"
proof -
  have "0 < uint b" using assms by (simp add: word_neq_0_conv word_less_def)
  then show ?thesis
    by (simp add: word_less_def uint_div i64_max_def div_less_iff_mult)
qed

lemma used_bytes_exact:
  "used_bytes (Inr stats) =
    (let blocks = uint (st_blocks stats); free = uint (st_bfree stats); sz = uint (st_bsize stats) in
     if blocks < free then Inl InvalidBlockCounts
     else if i64_max < (blocks - free) * sz then Inl UsageOverflow
     else Inr ((blocks - free) * sz))"
proof -
  let ?b = "st_blocks stats" and ?f = "st_bfree stats" and ?s = "st_bsize stats"
  show ?thesis
  proof (cases "?b < ?f")
    case True
    then show ?thesis by (simp add: used_bytes_def Let_def word_less_def)
  next
    case False
    then have le: "uint ?f \<le> uint ?b" by (simp add: word_less_def not_less)
    then have u: "uint (?b - ?f) = uint ?b - uint ?f"
      by (metis uint_sub_lem)
    have guard: "?s \<noteq> 0 \<and> ?b - ?f > 0x7FFFFFFFFFFFFFFF div ?s \<longleftrightarrow> i64_max < (uint ?b - uint ?f) * uint ?s"
      using overflow_guard_iff [of ?s "?b - ?f"] u by (cases "?s = 0") (auto simp: i64_max_def)
    have "sint ((?b - ?f) * ?s) = (uint ?b - uint ?f) * uint ?s"
      if "\<not> i64_max < (uint ?b - uint ?f) * uint ?s"
    proof -
      have "uint ((?b - ?f) * ?s) = (uint ?b - uint ?f) * uint ?s"
        using that u by (simp add: word_mult_small i64_max_def)
      with that show ?thesis by (simp add: sint_small)
    qed
    then show ?thesis
      using False le guard by (auto simp: used_bytes_def Let_def)
  qed
qed

section \<open>Configuration\<close>

record config =
  qbit_url :: string
  username :: string
  password_file :: string
  download_path :: string
  cfg_soft_cap :: int
  cfg_min_age :: int
  cfg_min_ratio :: f64
  poll_interval :: int
  request_timeout :: int
  health_addr :: string
  health_max_age :: int

definition env_or :: "(string \<Rightarrow> string) \<Rightarrow> string \<Rightarrow> string \<Rightarrow> string" where
  "env_or getenv key fallback = (let value = trim_space (getenv key) in if value \<noteq> [] then value else fallback)"

definition config_validate :: "config \<Rightarrow> string option" where
  "config_validate c =
     (if trim_space (qbit_url c) = [] then Some ''QBITTORRENT_URL is required''
      else if trim_space (download_path c) = [] then Some ''DOWNLOAD_PATH is required''
      else let clean_download_path = path_clean (download_path c) in
        if \<not> path_is_abs clean_download_path \<or> clean_download_path = ''/''
          then Some ''DOWNLOAD_PATH must be an absolute dedicated directory, not the filesystem root''
        else if cfg_soft_cap c \<le> 0 then Some ''SOFT_CAP_BYTES must be positive''
        else if cfg_min_age c < 0 then Some ''MIN_COMPLETED_AGE must not be negative''
        else if f_lt (cfg_min_ratio c) (Fin 0) \<or> f_is_nan (cfg_min_ratio c) \<or> f_is_inf (cfg_min_ratio c)
          then Some ''MIN_RATIO must be a finite non-negative number''
        else if poll_interval c \<le> 0 then Some ''POLL_INTERVAL must be positive''
        else if request_timeout c \<le> 0 then Some ''REQUEST_TIMEOUT must be positive''
        else if trim_space (health_addr c) = [] then Some ''HEALTH_ADDR is required''
        else if health_max_age c \<le> 0 then Some ''HEALTH_MAX_AGE must be positive''
        else if (username c = []) \<noteq> (password_file c = [])
          then Some ''QBITTORRENT_USERNAME and QBITTORRENT_PASSWORD_FILE must be configured together''
        else None)"

text \<open>\<open>strings.TrimRight(value, "\r\n")\<close>.\<close>

definition trim_newlines :: "string \<Rightarrow> string" where
  "trim_newlines s = rev (dropWhile (\<lambda>c. c = CHR 0x0D \<or> c = CHR 0x0A) (rev s))"

definition read_password :: "(string \<Rightarrow> string + string) \<Rightarrow> config \<Rightarrow> string + string" where
  "read_password read_file c =
     (if username c = [] then Inr []
      else case read_file (password_file c) of
          Inl err \<Rightarrow> Inl (''read qBittorrent password file: '' @ err)
        | Inr value \<Rightarrow>
            (let password = trim_newlines value in
             if password = [] then Inl ''qBittorrent password file is empty'' else Inr password))"

text \<open>The policy \<open>run\<close> hands to the engine.\<close>

definition run_policy :: "config \<Rightarrow> policy" where
  "run_policy c =
     (default_policy (cfg_soft_cap c) (cfg_min_age c) (cfg_min_ratio c))\<lparr>download_root := download_path c\<rparr>"

lemma default_tags_valid:
  "validate_tags [] [''retention-admitted'', ''retention-waiting'', ''retention-rejected'', ''retention-keep''] = None"
  by (simp add: trim_space_plain plain_letters)

end
