(* ===== verification/HkClient.thy ===== *)
theory HkClient
  imports HkConfig
begin

text \<open>
  qBittorrent housekeeper, the Web API client
  (workloads/qbittorrent-housekeeper/internal/qbit/client.go): the requests each call makes, the
  classification of the server's reply, and the single login and retry after 401 or 403. The server
  is a parameter: its reply to a request may depend on every request before it. A reply is the
  status, the bytes of the body that could be read, and the error that ended the reading, if any.
\<close>

record client =
  cl_username :: string
  cl_password :: string

datatype request =
    Get string
  | Post string "(string \<times> string) list"

datatype reply =
    NoReply string
  | Reply int string "string option"

type_synonym server = "request list \<Rightarrow> request \<Rightarrow> reply"

datatype client_error =
    RequestFailed string string
  | StatusError int string
  | ReadFailed string string
  | DecodeFailed string string
  | LoginRequestFailed string
  | LoginReadFailed string
  | LoginFailed int

definition max_error_body :: nat where
  "max_error_body = 512"

definition auth_enabled :: "client \<Rightarrow> bool" where
  "auth_enabled cl \<longleftrightarrow> cl_username cl \<noteq> []"

fun is_authentication_error :: "client_error \<Rightarrow> bool" where
  "is_authentication_error (StatusError st _) = (st = 401 \<or> st = 403)"
| "is_authentication_error _ = False"

text \<open>\<open>do\<close>: with an output the body is decoded (\<open>out\<close>), without one it is read and discarded.\<close>

definition do_request ::
    "server \<Rightarrow> string \<Rightarrow> request \<Rightarrow> (string \<Rightarrow> string option \<Rightarrow> client_error + 'a) \<Rightarrow> request list \<Rightarrow>
     request list \<times> (client_error + 'a)" where
  "do_request srv path req out sent =
     (let sent' = sent @ [req] in
      case srv sent req of
        NoReply e \<Rightarrow> (sent', Inl (RequestFailed path e))
      | Reply st body rerr \<Rightarrow>
          if st < 200 \<or> 300 \<le> st then (sent', Inl (StatusError st (trim_space (take max_error_body body))))
          else (sent', out body rerr))"

definition discard :: "string \<Rightarrow> string \<Rightarrow> string option \<Rightarrow> client_error + unit" where
  "discard path body rerr = (case rerr of None \<Rightarrow> Inr () | Some e \<Rightarrow> Inl (ReadFailed path e))"

definition login :: "server \<Rightarrow> client \<Rightarrow> request list \<Rightarrow> request list \<times> client_error option" where
  "login srv cl sent =
     (if \<not> auth_enabled cl then (sent, None)
      else let req = Post ''/api/v2/auth/login'' [(''username'', cl_username cl), (''password'', cl_password cl)];
               sent' = sent @ [req]
        in case srv sent req of
             NoReply e \<Rightarrow> (sent', Some (LoginRequestFailed e))
           | Reply st body rerr \<Rightarrow>
               (case (if length body < max_error_body + 1 then rerr else None) of
                  Some e \<Rightarrow> (sent', Some (LoginReadFailed e))
                | None \<Rightarrow>
                    if st \<noteq> 200 \<or> trim_space (take (max_error_body + 1) body) \<noteq> ''Ok.''
                      then (sent', Some (LoginFailed st)) else (sent', None)))"

text \<open>
  The shape \<open>List\<close> and \<open>mutate\<close> share: the request, and after an authentication error one login and
  the request again.
\<close>

definition with_retry ::
    "server \<Rightarrow> client \<Rightarrow> string \<Rightarrow> request \<Rightarrow> (string \<Rightarrow> string option \<Rightarrow> client_error + 'a) \<Rightarrow> request list \<Rightarrow>
     request list \<times> (client_error + 'a)" where
  "with_retry srv cl path req out sent =
     (case do_request srv path req out sent of
        (sent1, Inr x) \<Rightarrow> (sent1, Inr x)
      | (sent1, Inl e) \<Rightarrow>
          if \<not> auth_enabled cl \<or> \<not> is_authentication_error e then (sent1, Inl e)
          else (case login srv cl sent1 of
                  (sent2, Some e2) \<Rightarrow> (sent2, Inl e2)
                | (sent2, None) \<Rightarrow> do_request srv path req out sent2))"

definition list_torrents ::
    "(string \<Rightarrow> string option \<Rightarrow> string + torrent list) \<Rightarrow> server \<Rightarrow> client \<Rightarrow> request list \<Rightarrow>
     request list \<times> (client_error + torrent list)" where
  "list_torrents decode srv cl sent =
     with_retry srv cl ''/api/v2/torrents/info'' (Get ''/api/v2/torrents/info'')
       (\<lambda>body rerr. case decode body rerr of
          Inl e \<Rightarrow> Inl (DecodeFailed ''/api/v2/torrents/info'' e) | Inr ts \<Rightarrow> Inr ts) sent"

definition mutate ::
    "server \<Rightarrow> client \<Rightarrow> string \<Rightarrow> (string \<times> string) list \<Rightarrow> request list \<Rightarrow>
     request list \<times> (client_error + unit)" where
  "mutate srv cl path values sent = with_retry srv cl path (Post path values) (discard path) sent"

text \<open>The five changes of \<open>qbit.API\<close> as requests; no tags, no request.\<close>

fun client_call :: "server \<Rightarrow> client \<Rightarrow> api_call \<Rightarrow> request list \<Rightarrow> request list \<times> (client_error + unit)" where
  "client_call srv cl (Stop h) sent = mutate srv cl ''/api/v2/torrents/stop'' [(''hashes'', h)] sent"
| "client_call srv cl (Start h) sent = mutate srv cl ''/api/v2/torrents/start'' [(''hashes'', h)] sent"
| "client_call srv cl (AddTags h tags) sent =
     (if tags = [] then (sent, Inr ())
      else mutate srv cl ''/api/v2/torrents/addTags'' [(''hashes'', h), (''tags'', join_with '','' tags)] sent)"
| "client_call srv cl (RemoveTags h tags) sent =
     (if tags = [] then (sent, Inr ())
      else mutate srv cl ''/api/v2/torrents/removeTags'' [(''hashes'', h), (''tags'', join_with '','' tags)] sent)"
| "client_call srv cl (Delete h files) sent =
     mutate srv cl ''/api/v2/torrents/delete''
       [(''hashes'', h), (''deleteFiles'', if files then ''true'' else ''false'')] sent"

section \<open>One retry, after one login\<close>

definition login_request :: "client \<Rightarrow> request" where
  "login_request cl = Post ''/api/v2/auth/login'' [(''username'', cl_username cl), (''password'', cl_password cl)]"

fun unauthorized :: "reply \<Rightarrow> bool" where
  "unauthorized (Reply st _ _) = (st = 401 \<or> st = 403)"
| "unauthorized _ = False"

fun accepted :: "reply \<Rightarrow> bool" where
  "accepted (Reply st _ rerr) = (200 \<le> st \<and> st < 300 \<and> rerr = None)"
| "accepted _ = False"

lemma do_request_sent: "fst (do_request srv path req out sent) = sent @ [req]"
  by (auto simp: do_request_def Let_def split: reply.splits)

lemma do_request_auth:
  assumes "\<And>b r e. out b r = Inl e \<Longrightarrow> \<not> is_authentication_error e"
    and "snd (do_request srv path req out sent) = Inl e"
  shows "is_authentication_error e \<longleftrightarrow> unauthorized (srv sent req)"
  using assms by (auto simp: do_request_def Let_def split: reply.splits if_splits)

lemma login_sent: "auth_enabled cl \<Longrightarrow> fst (login srv cl sent) = sent @ [login_request cl]"
  by (auto simp: login_def login_request_def Let_def split: reply.splits option.splits if_splits)

lemma with_retry_cases:
  assumes out: "\<And>b r e. out b r = Inl e \<Longrightarrow> \<not> is_authentication_error e"
  obtains "with_retry srv cl path req out sent = do_request srv path req out sent"
      "auth_enabled cl \<longrightarrow> \<not> unauthorized (srv sent req)"
  | e where "auth_enabled cl" "unauthorized (srv sent req)"
      "login srv cl (sent @ [req]) = (sent @ [req, login_request cl], Some e)"
      "with_retry srv cl path req out sent = (sent @ [req, login_request cl], Inl e)"
  | "auth_enabled cl" "unauthorized (srv sent req)"
      "login srv cl (sent @ [req]) = (sent @ [req, login_request cl], None)"
      "with_retry srv cl path req out sent = do_request srv path req out (sent @ [req, login_request cl])"
proof (cases "snd (do_request srv path req out sent)")
  case (Inr x)
  then have eq: "do_request srv path req out sent = (sent @ [req], Inr x)"
    using do_request_sent [of srv path req out sent] by (metis prod.collapse)
  then have "\<not> unauthorized (srv sent req)"
    by (auto simp: do_request_def Let_def split: reply.splits if_splits)
  with eq that(1) show ?thesis by (simp add: with_retry_def)
next
  case (Inl e)
  then have eq: "do_request srv path req out sent = (sent @ [req], Inl e)"
    using do_request_sent [of srv path req out sent] by (metis prod.collapse)
  have un: "is_authentication_error e \<longleftrightarrow> unauthorized (srv sent req)"
    using do_request_auth [OF out Inl] .
  show ?thesis
  proof (cases "auth_enabled cl \<and> unauthorized (srv sent req)")
    case False
    then show ?thesis using eq un by (intro that(1)) (auto simp: with_retry_def)
  next
    case True
    obtain e2 where "login srv cl (sent @ [req]) = (sent @ [req, login_request cl], e2)"
      using login_sent [of cl srv "sent @ [req]"] True by (metis append.assoc append_Cons append_Nil prod.collapse)
    then show ?thesis
      using True eq un that(2,3) by (cases e2) (simp_all add: with_retry_def)
  qed
qed

lemma discard_no_auth: "discard path b r = Inl e \<Longrightarrow> \<not> is_authentication_error e"
  by (auto simp: discard_def split: option.splits)

lemma do_request_accepted:
  "snd (do_request srv path req (discard path) sent) = Inr () \<longleftrightarrow> accepted (srv sent req)"
  by (auto simp: do_request_def discard_def Let_def split: reply.splits option.splits)

section \<open>Properties\<close>

text \<open>
  The used bytes are exact or refused: with more free blocks than blocks, or a product that
  does not fit 63 bits, the measurement fails; otherwise it is the product of the used blocks and
  the block size, with no wrap-around.
\<close>

theorem used_bytes_is_exact:
  "used_bytes (Inr stats) =
    (let blocks = uint (st_blocks stats); free = uint (st_bfree stats); sz = uint (st_bsize stats) in
     if blocks < free then Inl InvalidBlockCounts
     else if i64_max < (blocks - free) * sz then Inl UsageOverflow
     else Inr ((blocks - free) * sz))"
  by (rule used_bytes_exact)

text \<open>
  A configuration that loads starts: the policy \<open>run\<close> builds from a valid configuration passes the
  engine's own validation, so the two checks of paths and thresholds agree.
\<close>

theorem valid_config_starts:
  assumes "config_validate c = None"
  shows "policy_validate (run_policy c) = None"
  using assms default_tags_valid
  by (auto simp: config_validate_def policy_validate_def run_policy_def default_policy_def Let_def split: if_splits)

definition sample_config :: config where
  "sample_config =
     \<lparr>qbit_url = ''u'', username = [], password_file = [], download_path = ''/downloads'', cfg_soft_cap = 10,
      cfg_min_age = 5, cfg_min_ratio = Fin 1, poll_interval = 1, request_timeout = 1, health_addr = ''a'',
      health_max_age = 1\<rparr>"

lemma slash_path_plain: "trim_space ''/downloads'' = ''/downloads''" "trim_space ''u'' = ''u''" "trim_space ''a'' = ''a''"
  by (simp_all add: trim_space_plain plain_char_def less_char_def)

theorem valid_config_starts_witness:
  "policy_validate (run_policy sample_config) = None"
  by (rule valid_config_starts)
    (simp add: config_validate_def sample_config_def slash_path_plain path_clean_def path_comps_def
      path_rooted_def clean_step.simps path_is_abs_def)

text \<open>
  One retry. A change sends its request; only when credentials are configured and the reply is
  401 or 403 does it log in once, and only after a successful login does it send the same request
  once more. It succeeds exactly when the last request it sent is its own and was accepted.
\<close>

theorem mutate_retries_once:
  "let a = Post path values; l = login_request cl; un = auth_enabled cl \<and> unauthorized (srv sent a) in
   case mutate srv cl path values sent of (sent', r) \<Rightarrow>
     sent' = sent @ (if \<not> un then [a]
                     else if snd (login srv cl (sent @ [a])) \<noteq> None then [a, l] else [a, l, a]) \<and>
     (r = Inr () \<longleftrightarrow>
        (if \<not> un then accepted (srv sent a)
         else snd (login srv cl (sent @ [a])) = None \<and> accepted (srv (sent @ [a, l]) a)))"
proof -
  let ?a = "Post path values"
  have sent: "do_request srv path ?a (discard path) tr = (tr @ [?a], snd (do_request srv path ?a (discard path) tr))" for tr
    using do_request_sent [of srv path ?a "discard path" tr] by (metis prod.collapse)
  note acc = do_request_accepted [of srv path ?a]
  show ?thesis
  proof (rule with_retry_cases [of "discard path" srv cl path ?a sent])
    show "\<not> is_authentication_error e" if "discard path b r = Inl e" for b r e
      using that by (rule discard_no_auth)
  next
    assume "with_retry srv cl path ?a (discard path) sent = do_request srv path ?a (discard path) sent"
      "auth_enabled cl \<longrightarrow> \<not> unauthorized (srv sent ?a)"
    moreover from this(1) have "mutate srv cl path values sent =
        (sent @ [?a], snd (do_request srv path ?a (discard path) sent))"
      using sent [of sent] by (simp add: mutate_def)
    ultimately show ?thesis using acc [of sent] by (auto simp: Let_def)
  next
    fix e
    assume "auth_enabled cl" "unauthorized (srv sent ?a)"
      "login srv cl (sent @ [?a]) = (sent @ [?a, login_request cl], Some e)"
      "with_retry srv cl path ?a (discard path) sent = (sent @ [?a, login_request cl], Inl e)"
    then show ?thesis by (simp add: mutate_def Let_def)
  next
    assume *: "auth_enabled cl" "unauthorized (srv sent ?a)"
      "login srv cl (sent @ [?a]) = (sent @ [?a, login_request cl], None)"
      "with_retry srv cl path ?a (discard path) sent =
         do_request srv path ?a (discard path) (sent @ [?a, login_request cl])"
    then have "mutate srv cl path values sent = (sent @ [?a, login_request cl, ?a],
        snd (do_request srv path ?a (discard path) (sent @ [?a, login_request cl])))"
      using sent [of "sent @ [?a, login_request cl]"] by (simp add: mutate_def)
    with * show ?thesis using acc [of "sent @ [?a, login_request cl]"] by (simp add: Let_def)
  qed
qed

end
