(* ===== verification/TrFrames.thy ===== *)
theory TrFrames
  imports GoLib "HOL-Library.Word" "HOL-Library.Signed_Division"
begin

text \<open>
  ticket-remote, the direct stream hub (workloads/ticket-remote/internal/web/direct_stream.go):
  the TSF3 frame header, the mapping of the phone's monotonic clock to wall time, the admission of
  frames for broadcast, the warm start and the published verdict. A frame is a list of bytes, a
  \<open>uint64\<close> a 64-bit word, an \<open>int64\<close> an \<open>int\<close> with its wrap-around written out; an instant is
  nanoseconds since the Unix epoch.
\<close>

unbundle bit_operations_syntax

type_synonym bytes = "8 word list"

section \<open>Big-endian numbers\<close>

definition be_uint :: "bytes \<Rightarrow> 64 word" where
  "be_uint bs = foldl (\<lambda>acc b. push_bit 8 acc OR ucast b) 0 bs"

definition put_be64 :: "64 word \<Rightarrow> bytes" where
  "put_be64 w = map (\<lambda>i. ucast (drop_bit (8 * i) w)) [7, 6, 5, 4, 3, 2, 1, 0]"

lemma put_be64_length [simp]: "length (put_be64 w) = 8"
  by (simp add: put_be64_def)

lemma be_uint_put [simp]: "be_uint (put_be64 w) = w"
proof (rule bit_word_eqI)
  fix n
  assume n: "n < LENGTH(64)"
  then have "n < 8 \<or> 8 \<le> n \<and> n < 16 \<or> 16 \<le> n \<and> n < 24 \<or> 24 \<le> n \<and> n < 32 \<or> 32 \<le> n \<and> n < 40 \<or>
      40 \<le> n \<and> n < 48 \<or> 48 \<le> n \<and> n < 56 \<or> 56 \<le> n \<and> n < 64" by auto
  then show "bit (be_uint (put_be64 w)) n \<longleftrightarrow> bit w n"
    by (elim disjE conjE; simp add: be_uint_def put_be64_def bit_simps less_diff_conv2)
qed

text \<open>\<open>binary.BigEndian.PutUint64(out[at:at+8], w)\<close>.\<close>

definition put_at :: "nat \<Rightarrow> 64 word \<Rightarrow> bytes \<Rightarrow> bytes" where
  "put_at at_pos w out = take at_pos out @ put_be64 w @ drop (at_pos + 8) out"

definition slice :: "nat \<Rightarrow> nat \<Rightarrow> bytes \<Rightarrow> bytes" where
  "slice lo hi bs = take (hi - lo) (drop lo bs)"

section \<open>The TSF3 header\<close>

record tsf3 =
  m_ok :: bool
  m_key_frame :: bool
  m_version :: int
  m_header_bytes :: nat
  m_epoch :: "64 word"
  m_sequence :: "64 word"
  m_timestamp :: "64 word"
  m_capture_attempt :: "64 word"
  m_codec_generation :: "64 word"
  m_capture_start :: "64 word"
  m_capture_complete :: "64 word"
  m_codec_input :: "64 word"
  m_codec_output :: "64 word"
  m_record_emission :: "64 word"
  m_calibration_generation :: "64 word"
  m_uncertainty :: "64 word"

definition no_meta :: tsf3 where
  "no_meta =
     \<lparr>m_ok = False, m_key_frame = False, m_version = 0, m_header_bytes = 0, m_epoch = 0, m_sequence = 0,
      m_timestamp = 0, m_capture_attempt = 0, m_codec_generation = 0, m_capture_start = 0,
      m_capture_complete = 0, m_codec_input = 0, m_codec_output = 0, m_record_emission = 0,
      m_calibration_generation = 0, m_uncertainty = 0\<rparr>"

definition tsf3_magic :: "64 word" where
  "tsf3_magic = 0x54534633"

definition tsf3_header_bytes :: nat where
  "tsf3_header_bytes = 93"

text \<open>A 32-bit big-endian number is read zero-extended to 64 bits.\<close>

definition parse_tsf3 :: "bytes \<Rightarrow> tsf3" where
  "parse_tsf3 frame =
     (if length frame < 4 then no_meta
      else if be_uint (slice 0 4 frame) = tsf3_magic then
        (if length frame < tsf3_header_bytes then no_meta
         else \<lparr>m_ok = True, m_key_frame = (frame ! 4 AND 1 = 1), m_version = 3,
                m_header_bytes = tsf3_header_bytes,
                m_epoch = be_uint (slice 5 13 frame), m_sequence = be_uint (slice 13 21 frame),
                m_timestamp = be_uint (slice 37 45 frame),
                m_capture_attempt = be_uint (slice 21 29 frame),
                m_codec_generation = be_uint (slice 29 37 frame),
                m_capture_start = be_uint (slice 37 45 frame),
                m_capture_complete = be_uint (slice 45 53 frame),
                m_codec_input = be_uint (slice 53 61 frame),
                m_codec_output = be_uint (slice 61 69 frame),
                m_record_emission = be_uint (slice 69 77 frame),
                m_calibration_generation = be_uint (slice 77 85 frame),
                m_uncertainty = be_uint (slice 85 93 frame)\<rparr>)
      else no_meta)"

record timing =
  w_capture_start :: "64 word"
  w_capture_complete :: "64 word"
  w_codec_input :: "64 word"
  w_codec_output :: "64 word"
  w_record_emission :: "64 word"
  w_calibration_generation :: "64 word"
  w_uncertainty :: "64 word"

definition rewrite_frame_timestamps :: "bytes \<Rightarrow> tsf3 \<Rightarrow> timing \<Rightarrow> bytes" where
  "rewrite_frame_timestamps frame meta t =
     (if m_version meta = 3 \<and> tsf3_header_bytes \<le> length frame \<and> be_uint (slice 0 4 frame) = tsf3_magic
      then put_at 85 (w_uncertainty t) (put_at 77 (w_calibration_generation t)
            (put_at 69 (w_record_emission t) (put_at 61 (w_codec_output t)
             (put_at 53 (w_codec_input t) (put_at 45 (w_capture_complete t)
              (put_at 37 (w_capture_start t) frame))))))
      else frame)"

lemma put_at_length [simp]: "i + 8 \<le> length out \<Longrightarrow> length (put_at i w out) = length out"
  by (simp add: put_at_def)

lemma slice_put_at_same [simp]: "i + 8 \<le> length out \<Longrightarrow> slice i (i + 8) (put_at i w out) = put_be64 w"
  by (simp add: slice_def put_at_def)

lemma slice_put_at_before: "hi \<le> i \<Longrightarrow> i \<le> length out \<Longrightarrow> slice lo hi (put_at i w out) = slice lo hi out"
  by (cases "lo \<le> hi") (simp_all add: slice_def put_at_def take_drop take_append)

lemma slice_put_at_after:
  assumes "i + 8 \<le> lo" "lo \<le> length out"
  shows "slice lo hi (put_at i w out) = slice lo hi out"
proof -
  have "drop lo (put_at i w out) = drop lo out"
    using assms by (simp add: put_at_def)
  then show ?thesis by (simp add: slice_def)
qed

lemma nth_put_at_before: "k < i \<Longrightarrow> i \<le> length out \<Longrightarrow> put_at i w out ! k = out ! k"
  by (simp add: put_at_def nth_append)

text \<open>Writing the stamps back and parsing again yields the stamps, and nothing else changes.\<close>

definition with_timing :: "timing \<Rightarrow> tsf3 \<Rightarrow> tsf3" where
  "with_timing t m = m\<lparr>m_timestamp := w_capture_start t, m_capture_start := w_capture_start t,
     m_capture_complete := w_capture_complete t, m_codec_input := w_codec_input t,
     m_codec_output := w_codec_output t, m_record_emission := w_record_emission t,
     m_calibration_generation := w_calibration_generation t, m_uncertainty := w_uncertainty t\<rparr>"

lemma parse_ok_iff: "m_ok (parse_tsf3 frame) \<longleftrightarrow>
   tsf3_header_bytes \<le> length frame \<and> be_uint (slice 0 4 frame) = tsf3_magic"
  by (auto simp: parse_tsf3_def no_meta_def tsf3_header_bytes_def)

lemma parse_rewrite:
  assumes "m_ok (parse_tsf3 frame)"
  shows "parse_tsf3 (rewrite_frame_timestamps frame (parse_tsf3 frame) t) = with_timing t (parse_tsf3 frame)"
proof -
  have len: "93 \<le> length frame" and magic: "be_uint (slice 0 4 frame) = tsf3_magic"
    using assms by (simp_all add: parse_ok_iff tsf3_header_bytes_def)
  have same: "slice i j (put_at i w out) = put_be64 w" if "j = i + 8" "j \<le> length out" for i j w out
    using that by simp
  show ?thesis
    using len magic
    by (simp add: rewrite_frame_timestamps_def parse_tsf3_def with_timing_def tsf3_header_bytes_def
        slice_put_at_before slice_put_at_after same nth_put_at_before)
qed

lemma rewrite_keeps:
  assumes "m_ok (parse_tsf3 frame)"
  shows "length (rewrite_frame_timestamps frame (parse_tsf3 frame) t) = length frame"
    "take 37 (rewrite_frame_timestamps frame (parse_tsf3 frame) t) = take 37 frame"
    "drop 93 (rewrite_frame_timestamps frame (parse_tsf3 frame) t) = drop 93 frame"
proof -
  have len: "93 \<le> length frame" and magic: "be_uint (slice 0 4 frame) = tsf3_magic"
    using assms by (simp_all add: parse_ok_iff tsf3_header_bytes_def)
  have tk: "take 37 (put_at i w out) = take 37 out" if "37 \<le> i" "i + 8 \<le> length out" for i w out
    using that by (simp add: put_at_def)
  have dr: "drop 93 (put_at i w out) = drop 93 out" if "i + 8 \<le> 93" "93 \<le> length out" for i w out
    using that by (simp add: put_at_def)
  show "length (rewrite_frame_timestamps frame (parse_tsf3 frame) t) = length frame"
    "take 37 (rewrite_frame_timestamps frame (parse_tsf3 frame) t) = take 37 frame"
    "drop 93 (rewrite_frame_timestamps frame (parse_tsf3 frame) t) = drop 93 frame"
    using len magic
    by (simp_all add: rewrite_frame_timestamps_def tk dr)
qed

section \<open>The phone's clock\<close>

record clock_probe =
  cp_server_send :: int
  cp_phone_receive :: int
  cp_phone_send :: int
  cp_server_receive :: int

definition unix_micro :: "int \<Rightarrow> int" where
  "unix_micro t = t div 1000"

definition time_unix_micro :: "int \<Rightarrow> int" where
  "time_unix_micro us = us * 1000"

text \<open>
  \<open>boundedPhoneClockMapping\<close>: the midpoint of the offsets a four-timestamp exchange allows, and
  half the width of their interval, rounded up. \<open>None\<close> is the code's \<open>0, 0, false\<close>.
\<close>

definition bounded_phone_clock_mapping :: "clock_probe \<Rightarrow> (int \<times> 64 word) option" where
  "bounded_phone_clock_mapping probe =
     (if cp_server_send probe \<le> 0 \<or> cp_server_receive probe < cp_server_send probe \<or>
         cp_phone_receive probe \<le> 0 \<or> cp_phone_send probe < cp_phone_receive probe
      then None
      else let lower = i64 (cp_server_send probe - cp_phone_receive probe);
               upper = i64 (cp_server_receive probe - cp_phone_send probe)
        in if lower \<le> 0 \<or> upper < lower then None
           else let width = word_of_int (i64 (upper - lower)) :: 64 word;
                    uncertainty = (width + 1) div 2;
                    midpoint = i64 (lower + sint (width div 2))
             in Some (midpoint, uncertainty))"

section \<open>The hub\<close>

record hub =
  h_active_video_clients :: int
  h_codec :: string
  h_transport :: string
  h_capture_mode :: string
  h_width :: int
  h_height :: int
  h_root_capture :: bool
  h_stream_epoch :: "64 word"
  h_dependency_mode :: string
  h_fps :: int
  h_source_fps :: int
  h_keyframe_interval :: int
  h_frame_envelope :: string
  h_all_intra_valid :: bool
  h_last_config :: bytes
  h_dropped_frames :: "string \<Rightarrow> nat"
  h_frames_forwarded :: nat
  h_source_frames_received :: nat
  h_regressed_configs :: nat
  h_config_mismatches :: nat
  h_last_config_at :: int
  h_last_frame_at :: int
  h_last_frame_received_at :: int
  h_last_frame_source_estimate_at :: int
  h_last_frame_uncertainty :: "64 word"
  h_last_frame_epoch :: "64 word"
  h_last_frame_sequence :: "64 word"
  h_last_admitted_epoch :: "64 word"
  h_last_admitted_sequence :: "64 word"
  h_last_frame :: bytes
  h_last_visual_age :: int
  h_last_visual_known :: bool
  h_last_phone_uptime :: int
  h_last_bounded_at :: int
  h_clock_offset :: int
  h_clock_bounded :: bool
  h_probe_rejections :: nat
  h_calibration_generation :: "64 word"
  h_uncertainty :: "64 word"

definition clear_frame_cache :: "hub \<Rightarrow> hub" where
  "clear_frame_cache h = h\<lparr>h_last_frame := [], h_last_frame_at := zero_time,
     h_last_frame_received_at := zero_time, h_last_frame_source_estimate_at := zero_time,
     h_last_frame_uncertainty := 0, h_last_frame_epoch := 0, h_last_frame_sequence := 0,
     h_last_visual_age := 0, h_last_visual_known := False\<rparr>"

definition current_stream_epoch :: "hub \<Rightarrow> 64 word" where
  "current_stream_epoch h = (if \<not> h_all_intra_valid h then 0 else h_stream_epoch h)"

text \<open>One-way uptime samples can only revoke the mapping; the probe below establishes it.\<close>

definition record_phone_clock_locked :: "int \<Rightarrow> int \<Rightarrow> hub \<Rightarrow> hub" where
  "record_phone_clock_locked uptime received_at h =
     (if uptime \<le> 0 \<or> received_at = zero_time \<or> uptime > i64_max div 1000 \<or>
         i64 (uptime * 1000) \<ge> unix_micro received_at
      then h
      else let h1 = (if 0 < h_last_phone_uptime h \<and> uptime < h_last_phone_uptime h
                     then h\<lparr>h_clock_bounded := False, h_last_bounded_at := zero_time\<rparr> else h)
        in h1\<lparr>h_last_phone_uptime := uptime\<rparr>)"

definition uncertainty_max :: "64 word" where
  "uncertainty_max = 2000000"

definition record_bounded_phone_clock :: "clock_probe \<Rightarrow> hub \<Rightarrow> hub \<times> bool" where
  "record_bounded_phone_clock probe h =
     (let rejected = (h\<lparr>h_probe_rejections := h_probe_rejections h + 1\<rparr>, False) in
      case bounded_phone_clock_mapping probe of
        None \<Rightarrow> rejected
      | Some (offset, uncertainty) \<Rightarrow>
          if uncertainty > uncertainty_max then rejected
          else let uptime = cp_phone_send probe sdiv 1000 in
            if uptime \<le> 0 \<or> offset > i64 (i64_max - cp_phone_send probe) then rejected
            else let h1 = (if 0 < h_last_phone_uptime h \<and> uptime < h_last_phone_uptime h
                           then h\<lparr>h_clock_bounded := False, h_last_bounded_at := zero_time\<rparr> else h)
              in (h1\<lparr>h_clock_offset := offset, h_clock_bounded := True, h_last_phone_uptime := uptime,
                     h_last_bounded_at := time_unix_micro (cp_server_receive probe),
                     h_uncertainty := uncertainty,
                     h_calibration_generation := h_calibration_generation h1 + 1\<rparr>, True))"

definition clock_calibrated :: "hub \<Rightarrow> int \<Rightarrow> bool" where
  "clock_calibrated h now \<longleftrightarrow>
     h_clock_bounded h \<and> h_last_bounded_at h \<noteq> zero_time \<and>
     0 \<le> time_sub now (h_last_bounded_at h) \<and> time_sub now (h_last_bounded_at h) \<le> 5 * second"

definition phone_timestamp_wall :: "hub \<Rightarrow> 64 word \<Rightarrow> int option" where
  "phone_timestamp_wall h ts =
     (if ts = 0 \<or> ts > 0x7FFFFFFFFFFFFFFF \<or> \<not> h_clock_bounded h then None
      else let offset = h_clock_offset h; v = sint ts in
        if 0 < offset \<and> v > i64 (i64_max - offset) \<or> offset < 0 \<and> v < i64 (- offset) then None
        else Some (time_unix_micro (i64 (v + offset))))"

definition valid_tsf3_stages :: "tsf3 \<Rightarrow> bool" where
  "valid_tsf3_stages m \<longleftrightarrow>
     m_capture_attempt m > 0 \<and> m_codec_generation m > 0 \<and> m_capture_start m > 0 \<and>
     m_capture_start m \<le> m_capture_complete m \<and> m_capture_complete m \<le> m_codec_input m \<and>
     m_codec_input m \<le> m_codec_output m \<and> m_codec_output m \<le> m_record_emission m"

text \<open>The loop over the five stages; \<open>None\<close> when one of them has no wall time.\<close>

fun stage_walls :: "hub \<Rightarrow> 64 word list \<Rightarrow> 64 word list option" where
  "stage_walls h [] = Some []"
| "stage_walls h (ts # rest) =
     (case phone_timestamp_wall h ts of
        None \<Rightarrow> None
      | Some wall \<Rightarrow>
          if unix_micro wall \<le> 0 then None
          else (case stage_walls h rest of None \<Rightarrow> None | Some ws \<Rightarrow> Some (word_of_int (unix_micro wall) # ws)))"

definition future_tolerance :: int where
  "future_tolerance = 250 * millisecond"

definition estimate_frame_timing :: "hub \<Rightarrow> tsf3 \<Rightarrow> int \<Rightarrow> string + timing \<times> int" where
  "estimate_frame_timing h m now =
     (if \<not> m_ok m \<or> m_version m \<noteq> 3 \<or> \<not> valid_tsf3_stages m then Inl ''timestamp''
      else if \<not> clock_calibrated h now then Inl ''uncalibrated''
      else case stage_walls h [m_capture_start m, m_capture_complete m, m_codec_input m,
                                m_codec_output m, m_record_emission m] of
          Some [w1, w2, w3, w4, w5] \<Rightarrow>
            (let t = \<lparr>w_capture_start = w1, w_capture_complete = w2, w_codec_input = w3, w_codec_output = w4,
                      w_record_emission = w5, w_calibration_generation = h_calibration_generation h,
                      w_uncertainty = h_uncertainty h\<rparr>;
                 uncertainty = i64 (sint (w_uncertainty t) * 1000)
             in if time_sub now (time_unix_micro (sint w5)) < i64 (- (i64 (future_tolerance + uncertainty)))
                then Inl ''future_clock''
                else let age = i64 (max 0 (time_sub now (time_unix_micro (sint w1))) + uncertainty)
                  in Inr (t, age sdiv millisecond))
        | _ \<Rightarrow> Inl ''timestamp'')"

section \<open>Admission of a frame\<close>

definition drop_frame :: "string \<Rightarrow> hub \<Rightarrow> hub \<times> bytes option" where
  "drop_frame reason h = (h\<lparr>h_dropped_frames := (h_dropped_frames h)(reason := h_dropped_frames h reason + 1)\<rparr>, None)"

definition max_video_payload :: int where
  "max_video_payload = 2 * 1024 * 1024"

definition forward_frame_max_age :: int where
  "forward_frame_max_age = 3000 * millisecond"

definition admit_frame :: "bytes \<Rightarrow> tsf3 \<Rightarrow> timing \<Rightarrow> int \<Rightarrow> int \<Rightarrow> hub \<Rightarrow> hub \<times> bytes option" where
  "admit_frame frame m t age now h =
     (let forwarded = rewrite_frame_timestamps frame m t;
          estimate = time_unix_micro (sint (w_capture_start t))
      in (h\<lparr>h_frames_forwarded := h_frames_forwarded h + 1, h_last_frame_received_at := now,
            h_last_frame_source_estimate_at := estimate, h_last_frame_uncertainty := w_uncertainty t,
            h_last_frame_at := estimate + i64 (i64 (- sint (w_uncertainty t)) * 1000),
            h_last_frame_epoch := m_epoch m, h_last_frame_sequence := m_sequence m,
            h_last_admitted_epoch := m_epoch m, h_last_admitted_sequence := m_sequence m,
            h_last_visual_age := age, h_last_visual_known := True, h_last_frame := forwarded\<rparr>,
          Some forwarded))"

definition record_frame_for_broadcast :: "bytes \<Rightarrow> int \<Rightarrow> hub \<Rightarrow> hub \<times> bytes option" where
  "record_frame_for_broadcast frame now h0 =
     (if frame = [] then (h0, None)
      else let m = parse_tsf3 frame;
               h = h0\<lparr>h_source_frames_received := h_source_frames_received h0 + 1\<rparr>
        in if \<not> m_ok m then drop_frame ''invalid'' h
           else if int (length frame) - int (m_header_bytes m) > max_video_payload then drop_frame ''oversize'' h
           else if m_ok m \<and> h_stream_epoch h \<noteq> 0 \<and> m_epoch m \<noteq> h_stream_epoch h
             then drop_frame ''wrong_epoch'' h
           else if \<not> h_all_intra_valid h then drop_frame ''all_intra_config_mismatch'' h
           else if m_version m \<noteq> 3 \<or> m_epoch m = 0 \<or> m_sequence m = 0 \<or> length frame \<le> m_header_bytes m
             then drop_frame ''invalid'' h
           else if \<not> m_key_frame m then drop_frame ''unexpected_delta'' h
           else if h_last_admitted_epoch h = m_epoch m \<and> m_sequence m \<le> h_last_admitted_sequence h
             then drop_frame ''non_monotonic'' h
           else case estimate_frame_timing h m now of
               Inl reason \<Rightarrow> drop_frame reason h
             | Inr (t, age) \<Rightarrow>
                 if i64 (age * millisecond) > forward_frame_max_age then drop_frame ''forward_age'' h
                 else admit_frame frame m t age now h)"

section \<open>The source configuration\<close>

record stream_config =
  sc_type :: string
  sc_codec :: string
  sc_transport :: string
  sc_capture_mode :: string
  sc_capture_source :: string
  sc_capture_method :: string
  sc_width :: int
  sc_height :: int
  sc_root_capture :: bool
  sc_source_width :: int
  sc_source_height :: int
  sc_left_crop :: int
  sc_top_crop :: int
  sc_right_crop :: int
  sc_bottom_crop :: int
  sc_visible_width :: int
  sc_visible_height :: int
  sc_bitrate :: int
  sc_quality_profile :: string
  sc_color_correction :: string
  sc_color_standard :: string
  sc_stream_epoch :: "64 word"
  sc_phone_uptime :: int
  sc_frame_envelope :: string
  sc_dependency_mode :: string
  sc_fps :: int
  sc_source_fps :: int
  sc_keyframe_interval :: int

definition canonical_config :: "stream_config \<Rightarrow> bool" where
  "canonical_config c \<longleftrightarrow>
     sc_codec c = ''avc1.42C028'' \<and> sc_transport c = ''hardware-h264-annexb'' \<and>
     sc_capture_mode c = ''root_hardware_h264'' \<and> sc_capture_source c = ''root_display_capture'' \<and>
     sc_capture_method c = ''app_process_mediacodec_surface_secure_screen_capture'' \<and> sc_root_capture c \<and>
     sc_width c = 994 \<and> sc_height c = 2046 \<and> sc_source_width c = 1080 \<and> sc_source_height c = 2424 \<and>
     sc_left_crop c = 4 \<and> sc_top_crop c = 200 \<and> sc_right_crop c = 3 \<and> sc_bottom_crop c = 3 \<and>
     sc_visible_width c = 1073 \<and> sc_visible_height c = 2221 \<and> sc_bitrate c = 8000000 \<and>
     sc_quality_profile c = ''hardware_h264_crisp_all_intra_1fps'' \<and>
     sc_color_correction c = ''red_blue_swap_high_brightness_sdr_gpu_paint_r1.08_g1.05_b1.03'' \<and>
     sc_color_standard c = ''bt709_limited_sdr'' \<and>
     to_lower (trim_space (sc_dependency_mode c)) = ''all_intra'' \<and>
     sc_fps c = 1 \<and> sc_source_fps c = 1 \<and> sc_keyframe_interval c = 1 \<and>
     sc_stream_epoch c \<noteq> 0 \<and> to_lower (trim_space (sc_frame_envelope c)) = ''tsf3''"

text \<open>The fields a configuration sets, before its clock sample and its validity are acted on.\<close>

definition apply_config :: "stream_config \<Rightarrow> int \<Rightarrow> hub \<Rightarrow> hub" where
  "apply_config c now h =
     (let h1 = h\<lparr>h_codec := sc_codec c, h_transport := sc_transport c,
                h_capture_mode := sc_capture_mode c, h_width := sc_width c, h_height := sc_height c,
                h_root_capture := sc_root_capture c, h_stream_epoch := sc_stream_epoch c,
                h_dependency_mode := to_lower (trim_space (sc_dependency_mode c)),
                h_fps := sc_fps c, h_source_fps := sc_source_fps c,
                h_keyframe_interval := sc_keyframe_interval c,
                h_frame_envelope := to_lower (trim_space (sc_frame_envelope c)),
                h_all_intra_valid := canonical_config c, h_last_config_at := now\<rparr>
      in if 0 < sc_phone_uptime c then record_phone_clock_locked (sc_phone_uptime c) now h1 else h1)"

text \<open>
  \<open>setConfig\<close>: \<open>decoded\<close> is the result of decoding the raw message, \<open>None\<close> when it is not such an object.
\<close>

definition set_config :: "bytes \<Rightarrow> stream_config option \<Rightarrow> int \<Rightarrow> hub \<Rightarrow> hub \<times> bool" where
  "set_config raw decoded now h =
     (case decoded of
        None \<Rightarrow> (h, False)
      | Some c \<Rightarrow>
        if sc_type c \<noteq> ''config'' then (h, False)
        else let previous_epoch = h_stream_epoch h;
                 previous_envelope = h_frame_envelope h;
                 phone_restarted = (0 < sc_phone_uptime c \<and> 0 < h_last_phone_uptime h \<and>
                                    sc_phone_uptime c < h_last_phone_uptime h)
          in if previous_epoch \<noteq> 0 \<and> sc_stream_epoch c \<noteq> 0 \<and> sc_stream_epoch c < previous_epoch \<and>
                \<not> phone_restarted
             then (h\<lparr>h_regressed_configs := h_regressed_configs h + 1\<rparr>, False)
             else let h2 = apply_config c now h
               in if \<not> h_all_intra_valid h2
                  then (clear_frame_cache (h2\<lparr>h_config_mismatches := h_config_mismatches h2 + 1,
                                              h_last_config := []\<rparr>), False)
                  else let h3 = (if previous_epoch \<noteq> 0 \<and>
                                    (sc_stream_epoch c \<noteq> previous_epoch \<or> h_frame_envelope h2 \<noteq> previous_envelope)
                                 then clear_frame_cache h2 else h2)
                    in (h3\<lparr>h_last_config := raw\<rparr>, True))"

section \<open>Warm start and verdict\<close>

text \<open>\<open>None\<close> is the code's \<open>-1, false\<close>.\<close>

definition current_visual_age :: "int \<Rightarrow> int \<Rightarrow> int \<Rightarrow> bool \<Rightarrow> int option" where
  "current_visual_age now observed_at observed_age known =
     (if \<not> known \<or> observed_at = zero_time \<or> observed_age < 0 then None
      else let elapsed = time_sub now observed_at sdiv millisecond
        in Some (i64 (observed_age + (if elapsed < 0 then 0 else elapsed))))"

definition frame_visual_age :: "hub \<Rightarrow> int \<Rightarrow> int option" where
  "frame_visual_age h now =
     current_visual_age now (h_last_frame_received_at h) (h_last_visual_age h) (h_last_visual_known h)"

definition live_frame_max_age :: int where
  "live_frame_max_age = 3000 * millisecond"

definition visually_fresh :: "hub \<Rightarrow> int \<Rightarrow> bool" where
  "visually_fresh h now \<longleftrightarrow>
     (case frame_visual_age h now of None \<Rightarrow> False | Some age \<Rightarrow> i64 (age * millisecond) \<le> live_frame_max_age)"

definition warm_key_frame_allowed :: "hub \<Rightarrow> int \<Rightarrow> bool" where
  "warm_key_frame_allowed h now =
     (let received_at = h_last_frame_received_at h in
      if h_stream_epoch h = 0 \<or> h_last_config h = [] \<or> received_at = zero_time then False
      else time_sub now received_at \<le> live_frame_max_age \<and> visually_fresh h now \<and>
           h_last_frame h \<noteq> [] \<and> h_last_frame_epoch h = h_stream_epoch h)"

definition warm_start :: "hub \<Rightarrow> int \<Rightarrow> bytes \<times> bytes" where
  "warm_start h now =
     (if h_stream_epoch h = 0 \<or> h_last_config h = [] then ([], [])
      else if \<not> warm_key_frame_allowed h now then (h_last_config h, [])
      else (h_last_config h, h_last_frame h))"

record phone_health =
  ph_viewers :: int
  ph_connected :: bool
  ph_desired :: bool
  ph_stream_state :: string

definition warm_encoder_reusable :: "hub \<Rightarrow> phone_health \<Rightarrow> bool" where
  "warm_encoder_reusable h ph =
     (if \<not> ph_desired ph \<or> \<not> ph_connected ph \<or> ph_stream_state ph \<noteq> ''streaming'' then False
      else if h_stream_epoch h = 0 \<or> h_last_frame_epoch h \<noteq> h_stream_epoch h then False
      else h_last_config h \<noteq> [])"

definition age_since_millis :: "int \<Rightarrow> int \<Rightarrow> int" where
  "age_since_millis now t = (if t = zero_time then -1 else time_sub now t sdiv millisecond)"

definition stream_verdict :: "hub \<Rightarrow> int \<Rightarrow> phone_health \<Rightarrow> string" where
  "stream_verdict h now ph =
     (let frame_age = age_since_millis now (h_last_frame_received_at h);
          known = (frame_visual_age h now \<noteq> None);
          has_fresh_visual = (h_stream_epoch h \<noteq> 0 \<and> h_last_frame_epoch h = h_stream_epoch h \<and>
                              visually_fresh h now)
      in if \<not> h_all_intra_valid h then ''invalid_source_config''
         else if h_active_video_clients h = 0 \<and> has_fresh_visual \<and> ph_desired ph \<and> ph_connected ph \<and>
                 ph_stream_state ph = ''streaming'' then ''live''
         else if h_active_video_clients h = 0 then ''idle''
         else if \<not> ph_desired ph \<or> \<not> ph_connected ph then ''preparing_phone''
         else if has_fresh_visual then ''live''
         else if 0 \<le> frame_age \<and> \<not> known then ''timing_uncertain''
         else if frame_age < 0 then ''waiting_keyframe''
         else if known \<and> \<not> visually_fresh h now then ''stale_recovering''
         else ''waiting_keyframe'')"

definition freshness_state :: "int option \<Rightarrow> string" where
  "freshness_state age =
     (case age of None \<Rightarrow> ''STALE'' | Some a \<Rightarrow> if 0 \<le> a \<and> a \<le> 3000 then ''LIVE_FRESH'' else ''STALE'')"

text \<open>The verdict, continuity and live fields of the status payload.\<close>

definition status_live :: "hub \<Rightarrow> int \<Rightarrow> phone_health \<Rightarrow> string \<times> bool \<times> bool" where
  "status_live h now ph =
     (let verdict = stream_verdict h now ph;
          age = frame_visual_age h now;
          freshness = freshness_state age;
          continuity = (verdict = ''live'' \<and> age \<noteq> None \<and> freshness \<noteq> ''STALE'');
          live = (continuity \<and> freshness = ''LIVE_FRESH'' \<and> h_frame_envelope h = ''tsf3'' \<and>
                  clock_calibrated h now)
      in (if verdict = ''live'' \<and> \<not> live then ''stale_recovering'' else verdict, continuity, live))"

end
