(* ===== verification/TrHub.thy ===== *)
theory TrHub
  imports TrFrames
begin

text \<open>
  ticket-remote, the direct stream hub as a component: its events in any order, the invariant they
  keep, and the bounds that make the published timing trustworthy. The phone's clock runs at wall
  time minus an offset; the offset is unknown, and what the hub may rely on is that each completed
  probe is consistent with it.
\<close>

section \<open>Events\<close>

definition hub_init :: hub where
  "hub_init =
     \<lparr>h_active_video_clients = 0, h_codec = [], h_transport = [], h_capture_mode = [], h_width = 0, h_height = 0,
      h_root_capture = False, h_stream_epoch = 0, h_dependency_mode = [], h_fps = 0, h_source_fps = 0,
      h_keyframe_interval = 0, h_frame_envelope = [], h_all_intra_valid = False, h_last_config = [],
      h_dropped_frames = (\<lambda>_. 0), h_frames_forwarded = 0, h_source_frames_received = 0,
      h_regressed_configs = 0, h_config_mismatches = 0, h_last_config_at = zero_time,
      h_last_frame_at = zero_time, h_last_frame_received_at = zero_time,
      h_last_frame_source_estimate_at = zero_time, h_last_frame_uncertainty = 0, h_last_frame_epoch = 0,
      h_last_frame_sequence = 0, h_last_admitted_epoch = 0, h_last_admitted_sequence = 0,
      h_last_frame = [], h_last_visual_age = 0, h_last_visual_known = False, h_last_phone_uptime = 0,
      h_last_bounded_at = zero_time, h_clock_offset = 0, h_clock_bounded = False, h_probe_rejections = 0,
      h_calibration_generation = 0, h_uncertainty = 0\<rparr>"

definition add_video_client :: "hub \<Rightarrow> hub" where
  "add_video_client h = h\<lparr>h_active_video_clients := h_active_video_clients h + 1\<rparr>"

definition remove_video_client :: "hub \<Rightarrow> hub" where
  "remove_video_client h =
     (if 0 < h_active_video_clients h then h\<lparr>h_active_video_clients := h_active_video_clients h - 1\<rparr> else h)"

text \<open>The hub's part of \<open>quiesceForColdRestart\<close>.\<close>

definition hub_quiesce :: "hub \<Rightarrow> hub" where
  "hub_quiesce h = (clear_frame_cache h)\<lparr>h_last_config := [], h_stream_epoch := 0, h_all_intra_valid := False\<rparr>"

datatype hub_event =
    Probe clock_probe
  | Uptime int int
  | Config bytes "stream_config option" int
  | Frame bytes int
  | ClientAdded
  | ClientRemoved
  | Quiesced

definition record_phone_clock :: "int \<Rightarrow> int \<Rightarrow> hub \<Rightarrow> hub" where
  "record_phone_clock uptime received_at h =
     (if uptime \<le> 0 then h else record_phone_clock_locked uptime received_at h)"

fun hub_step :: "hub \<Rightarrow> hub_event \<Rightarrow> hub \<times> bytes option" where
  "hub_step h (Probe p) = (fst (record_bounded_phone_clock p h), None)"
| "hub_step h (Uptime u t) = (record_phone_clock u t h, None)"
| "hub_step h (Config raw c t) = (fst (set_config raw c t h), None)"
| "hub_step h (Frame f t) = record_frame_for_broadcast f t h"
| "hub_step h ClientAdded = (add_video_client h, None)"
| "hub_step h ClientRemoved = (remove_video_client h, None)"
| "hub_step h Quiesced = (hub_quiesce h, None)"

text \<open>The state after a sequence of events, and the frames broadcast on the way.\<close>

fun hub_run :: "hub \<Rightarrow> hub_event list \<Rightarrow> hub \<times> bytes list" where
  "hub_run h [] = (h, [])"
| "hub_run h (e # es) =
     (case hub_step h e of (h', out) \<Rightarrow>
        case hub_run h' es of (h'', outs) \<Rightarrow>
          (h'', case out of None \<Rightarrow> outs | Some f \<Rightarrow> f # outs))"

section \<open>The clock mapping\<close>

text \<open>
  \<open>consistent o probe\<close>: with the phone clock at offset \<open>o\<close> the request arrived after it was sent
  and the reply was sent before it arrived.
\<close>

definition consistent :: "int \<Rightarrow> clock_probe \<Rightarrow> bool" where
  "consistent o_true p \<longleftrightarrow>
     cp_server_send p \<le> cp_phone_receive p + o_true \<and> cp_phone_send p + o_true \<le> cp_server_receive p"

definition probe_i64 :: "clock_probe \<Rightarrow> bool" where
  "probe_i64 p \<longleftrightarrow> in_i64 (cp_server_send p) \<and> in_i64 (cp_phone_receive p) \<and>
     in_i64 (cp_phone_send p) \<and> in_i64 (cp_server_receive p)"

lemma uint_word_of_int_small: "0 \<le> x \<Longrightarrow> x \<le> i64_max \<Longrightarrow> uint (word_of_int x :: 64 word) = x"
  by (simp add: uint_word_of_int i64_max_def)

lemma sint_uint_small:
  assumes "uint (x :: 64 word) \<le> i64_max"
  shows "sint x = uint x"
proof -
  have "- (2 ^ 63) \<le> uint x" "uint x < 2 ^ 63"
    using assms uint_ge_0 [of x] unfolding i64_max_def by (simp_all, linarith)
  then have "signed_take_bit 63 (uint x) = uint x" by (rule signed_take_bit_int_eq_self)
  then show ?thesis by (simp add: sint_uint)
qed

lemma half_word:
  assumes "uint (w :: 64 word) \<le> i64_max"
  shows "sint (w div 2) = uint w div 2" "uint ((w + 1) div 2) = (uint w + 1) div 2"
proof -
  have "uint (w div 2) = uint w div 2" by (simp add: uint_div)
  moreover have "uint w div 2 \<le> i64_max" using assms uint_ge_0 [of w] by linarith
  ultimately show "sint (w div 2) = uint w div 2" by (simp add: sint_uint_small)
  have "uint (w + 1) = uint w + 1"
    using assms by (simp add: uint_word_ariths i64_max_def)
  then show "uint ((w + 1) div 2) = (uint w + 1) div 2" by (simp add: uint_div)
qed

lemma mapping_sound:
  assumes p: "probe_i64 p" and m: "bounded_phone_clock_mapping p = Some (mid, unc)"
  shows "0 < mid \<and> mid \<le> i64_max \<and> (consistent o_true p \<longrightarrow> \<bar>o_true - mid\<bar> \<le> uint unc)"
proof -
  let ?lo = "cp_server_send p - cp_phone_receive p" and ?up = "cp_server_receive p - cp_phone_send p"
  have pos: "0 < cp_server_send p" "cp_server_send p \<le> cp_server_receive p" "0 < cp_phone_receive p"
    "cp_phone_receive p \<le> cp_phone_send p"
    using m by (auto simp: bounded_phone_clock_mapping_def split: if_splits)
  have lo: "i64 ?lo = ?lo" and up: "i64 ?up = ?up"
    using p pos by (auto intro!: i64_id simp: probe_i64_def in_i64_def i64_min_def i64_max_def)
  have le: "0 < ?lo" "?lo \<le> ?up"
    using m pos by (auto simp: bounded_phone_clock_mapping_def Let_def lo up split: if_splits)
  have w: "i64 (?up - ?lo) = ?up - ?lo" "?up - ?lo \<le> i64_max" "?up \<le> i64_max"
    using p pos le by (auto intro!: i64_id simp: probe_i64_def in_i64_def i64_min_def i64_max_def)
  define d where "d = ?up - ?lo"
  have d: "i64 (?up - ?lo) = d" "0 \<le> d" "d \<le> i64_max" using w(1,2) le by (simp_all add: d_def)
  have ud: "uint (word_of_int d :: 64 word) = d"
    using d by (intro uint_word_of_int_small) auto
  have "mid = i64 (?lo + sint ((word_of_int d :: 64 word) div 2))" "unc = (word_of_int d + 1) div 2"
    using m pos le by (auto simp: bounded_phone_clock_mapping_def Let_def lo up d(1) split: if_splits)
  then have mid: "mid = i64 (?lo + d div 2)" and unc: "uint unc = (d + 1) div 2"
    using half_word [of "word_of_int d"] d(3) by (simp_all add: ud)
  have "i64 (?lo + d div 2) = ?lo + d div 2"
    using le w d_def d(2) by (intro i64_id) (auto simp: in_i64_def i64_min_def)
  with mid have mid': "mid = ?lo + d div 2" by simp
  have "\<bar>o_true - mid\<bar> \<le> uint unc" if "consistent o_true p"
    using that mid' unc d_def unfolding consistent_def by linarith
  then show ?thesis
    using mid' le w(3) d_def d(2) by auto
qed

section \<open>The estimated age bounds the true age\<close>

definition clock_ok :: "hub \<Rightarrow> bool" where
  "clock_ok h \<longleftrightarrow> (h_clock_bounded h \<longrightarrow>
     uint (h_uncertainty h) \<le> 2000000 \<and> 0 < h_clock_offset h \<and> h_clock_offset h \<le> i64_max)"

text \<open>Instants the service can meet: after the epoch and before the year 2255.\<close>

definition instant_ok :: "int \<Rightarrow> bool" where
  "instant_ok t \<longleftrightarrow> 0 < t \<and> t \<le> 9000000000000000000"

lemma phone_timestamp_wall_Some:
  assumes "phone_timestamp_wall h ts = Some wall" "clock_ok h"
  shows "wall = (uint ts + h_clock_offset h) * 1000 \<and> 0 < uint ts \<and>
    uint ts + h_clock_offset h \<le> i64_max \<and> 0 < h_clock_offset h"
proof -
  have b: "h_clock_bounded h" and ts: "ts \<noteq> 0" "\<not> ts > 0x7FFFFFFFFFFFFFFF"
    using assms(1) by (auto simp: phone_timestamp_wall_def split: if_splits)
  have off: "0 < h_clock_offset h" "h_clock_offset h \<le> i64_max"
    using b assms(2) by (simp_all add: clock_ok_def)
  have "uint ts \<le> i64_max" using ts(2) by (simp add: word_less_def i64_max_def not_less)
  then have st: "sint ts = uint ts" by (rule sint_uint_small)
  have pos: "0 < uint ts" using ts(1) by (simp add: word_neq_0_conv word_less_def)
  have "i64 (i64_max - h_clock_offset h) = i64_max - h_clock_offset h"
    using off by (intro i64_id) (simp add: in_i64_def i64_min_def i64_max_def)
  then have le: "uint ts + h_clock_offset h \<le> i64_max"
    and w: "wall = time_unix_micro (i64 (uint ts + h_clock_offset h))"
    using assms(1) off st by (auto simp: phone_timestamp_wall_def Let_def split: if_splits)
  have "i64 (uint ts + h_clock_offset h) = uint ts + h_clock_offset h"
    using le pos off by (intro i64_id) (simp add: in_i64_def i64_min_def)
  with w le pos off show ?thesis by (simp add: time_unix_micro_def)
qed

lemma unix_micro_of [simp]: "unix_micro (k * 1000) = k"
  by (simp add: unix_micro_def)

lemma stage_walls_Some:
  assumes "stage_walls h tss = Some ws" "clock_ok h"
  shows "list_all2 (\<lambda>ts w. uint w = uint ts + h_clock_offset h \<and> uint w \<le> i64_max \<and> 0 < uint w) tss ws"
  using assms(1)
proof (induction tss arbitrary: ws)
  case (Cons ts tss ws)
  then obtain wall ws' where w: "phone_timestamp_wall h ts = Some wall" "stage_walls h tss = Some ws'"
    "ws = word_of_int (unix_micro wall) # ws'"
    by (auto split: option.splits if_splits)
  have p: "wall = (uint ts + h_clock_offset h) * 1000" "0 < uint ts" "uint ts + h_clock_offset h \<le> i64_max"
    "0 < h_clock_offset h"
    using phone_timestamp_wall_Some [OF w(1) assms(2)] by auto
  then have "uint (word_of_int (uint ts + h_clock_offset h) :: 64 word) = uint ts + h_clock_offset h"
    by (intro uint_word_of_int_small) auto
  moreover have "unix_micro wall = uint ts + h_clock_offset h" unfolding p(1) by (rule unix_micro_of)
  ultimately show ?case using Cons.IH [OF w(2)] w(3) p(2-4) by simp
qed simp

lemma sdiv_nonneg: "0 \<le> a \<Longrightarrow> 0 < b \<Longrightarrow> (a::int) sdiv b = a div b"
  by (cases "a = 0") (simp_all add: signed_divide_int_def)

lemma floor_bounds: "0 < (b::int) \<Longrightarrow> a < (a div b + 1) * b" "0 < (b::int) \<Longrightarrow> a div b * b \<le> a"
  using div_mult_mod_eq [of a b] pos_mod_bound [of b a] pos_mod_sign [of b a]
  unfolding distrib_right mult_1 by linarith+

lemma estimate_Inr:
  assumes e: "estimate_frame_timing h m now = Inr (t, age)" and c: "clock_ok h" and now: "instant_ok now"
  shows "uint (w_capture_start t) = uint (m_capture_start m) + h_clock_offset h"
    "uint (w_capture_start t) \<le> i64_max" "w_uncertainty t = h_uncertainty h"
    "0 \<le> age" "i64 (age * millisecond) = age * millisecond"
    "now - uint (w_capture_start t) * 1000 + uint (w_uncertainty t) * 1000 < (age + 1) * millisecond"
    "h_clock_bounded h"
proof -
  obtain w1 w2 w3 w4 w5 where ws: "stage_walls h [m_capture_start m, m_capture_complete m, m_codec_input m,
      m_codec_output m, m_record_emission m] = Some [w1, w2, w3, w4, w5]"
    and t: "t = \<lparr>w_capture_start = w1, w_capture_complete = w2, w_codec_input = w3, w_codec_output = w4,
                      w_record_emission = w5, w_calibration_generation = h_calibration_generation h,
                      w_uncertainty = h_uncertainty h\<rparr>"
    and age: "age = i64 (max 0 (time_sub now (time_unix_micro (sint w1))) + i64 (sint (h_uncertainty h) * 1000))
        sdiv millisecond"
    and b: "clock_calibrated h now"
    using e unfolding estimate_frame_timing_def
    by (auto simp: Let_def split: if_splits option.splits list.splits)
  show bounded: "h_clock_bounded h" using b by (simp add: clock_calibrated_def)
  then have unc: "uint (h_uncertainty h) \<le> 2000000" using c by (simp add: clock_ok_def)
  have w1: "uint w1 = uint (m_capture_start m) + h_clock_offset h" "uint w1 \<le> i64_max" "0 < uint w1"
    using stage_walls_Some [OF ws c] by auto
  show "uint (w_capture_start t) = uint (m_capture_start m) + h_clock_offset h"
    "uint (w_capture_start t) \<le> i64_max" "w_uncertainty t = h_uncertainty h"
    using w1 t by simp_all
  have su: "sint (h_uncertainty h) = uint (h_uncertainty h)"
    using unc by (intro sint_uint_small) (simp add: i64_max_def)
  have u0: "0 \<le> uint (h_uncertainty h)" by simp
  have iu: "i64 (uint (h_uncertainty h) * 1000) = uint (h_uncertainty h) * 1000"
    using unc u0 by (intro i64_id) (unfold in_i64_def i64_min_def i64_max_def, linarith)
  have sub: "max 0 (time_sub now (time_unix_micro (sint w1))) = max 0 (now - uint w1 * 1000)"
    using now w1 by (auto simp: sint_uint_small time_unix_micro_def time_sub_def instant_ok_def i64_max_def i64_min_def)
  let ?a = "max 0 (now - uint w1 * 1000) + uint (h_uncertainty h) * 1000"
  have a: "0 \<le> ?a" "?a \<le> 9000000002000000000"
    using now w1 unc u0 by (auto simp: instant_ok_def)
  then have "i64 ?a = ?a" by (intro i64_id) (unfold in_i64_def i64_min_def i64_max_def, linarith)
  then have age': "age = ?a div millisecond"
    using age a by (simp add: sub su iu sdiv_nonneg millisecond_def)
  show "0 \<le> age" using age' a by (simp add: millisecond_def pos_imp_zdiv_nonneg_iff)
  have lt: "?a < (age + 1) * millisecond" "age * millisecond \<le> ?a"
    unfolding age' by (rule floor_bounds, simp add: millisecond_def)+
  then show "now - uint (w_capture_start t) * 1000 + uint (w_uncertainty t) * 1000 < (age + 1) * millisecond"
    using t by (simp add: max_def split: if_splits)
  show "i64 (age * millisecond) = age * millisecond"
    using lt(2) a \<open>0 \<le> age\<close>
    by (intro i64_id) (unfold in_i64_def i64_min_def i64_max_def millisecond_def, linarith)
qed

text \<open>What the admission of a frame established.\<close>

lemma record_frame_Some:
  assumes "record_frame_for_broadcast frame now h = (h', Some out)"
  obtains t age where "estimate_frame_timing (h\<lparr>h_source_frames_received := h_source_frames_received h + 1\<rparr>)
        (parse_tsf3 frame) now = Inr (t, age)"
    "i64 (age * millisecond) \<le> forward_frame_max_age"
    "(h', Some out) = admit_frame frame (parse_tsf3 frame) t age now
       (h\<lparr>h_source_frames_received := h_source_frames_received h + 1\<rparr>)"
    "m_ok (parse_tsf3 frame)" "m_key_frame (parse_tsf3 frame)" "h_all_intra_valid h"
    "m_epoch (parse_tsf3 frame) \<noteq> 0" "m_sequence (parse_tsf3 frame) \<noteq> 0"
    "h_stream_epoch h \<noteq> 0 \<longrightarrow> m_epoch (parse_tsf3 frame) = h_stream_epoch h"
    "h_last_admitted_epoch h = m_epoch (parse_tsf3 frame) \<longrightarrow>
       h_last_admitted_sequence h < m_sequence (parse_tsf3 frame)"
    "int (length frame) - 93 \<le> max_video_payload" "93 < length frame"
  using assms
  unfolding record_frame_for_broadcast_def drop_frame_def Let_def
  by (auto simp: not_le parse_tsf3_def no_meta_def tsf3_header_bytes_def split: if_splits sum.splits prod.splits)

section \<open>The invariant of the hub\<close>

text \<open>
  The cached frame is one that was admitted: a keyframe whose header carries the cached epoch,
  sequence and wall times, and whose age when it was received is bounded by the stored age.
\<close>

definition cache_ok :: "hub \<Rightarrow> bool" where
  "cache_ok h \<longleftrightarrow> (h_last_frame h \<noteq> [] \<longrightarrow>
     (let m = parse_tsf3 (h_last_frame h) in
      m_ok m \<and> m_key_frame m \<and> m_epoch m = h_last_frame_epoch h \<and> m_sequence m = h_last_frame_sequence h \<and>
      h_last_visual_known h \<and> 0 \<le> h_last_visual_age h \<and> h_last_visual_age h \<le> 3000 \<and>
      instant_ok (h_last_frame_received_at h) \<and>
      h_last_frame_received_at h - uint (m_capture_start m) * 1000 + uint (m_uncertainty m) * 1000
        < (h_last_visual_age h + 1) * millisecond))"

definition hub_ok :: "hub \<Rightarrow> bool" where
  "hub_ok h \<longleftrightarrow> clock_ok h \<and> cache_ok h \<and> (h_all_intra_valid h \<longrightarrow> h_stream_epoch h \<noteq> 0)"

text \<open>The instants of the events are ones the service can meet, and probes are 64-bit values.\<close>

fun event_ok :: "hub_event \<Rightarrow> bool" where
  "event_ok (Frame f t) = instant_ok t"
| "event_ok (Probe p) = probe_i64 p"
| "event_ok _ = True"

lemma hub_init_ok: "hub_ok hub_init"
  by (simp add: hub_ok_def clock_ok_def cache_ok_def hub_init_def)

lemma clear_frame_cache_ok: "clock_ok h \<Longrightarrow> h_all_intra_valid h \<longrightarrow> h_stream_epoch h \<noteq> 0 \<Longrightarrow> hub_ok (clear_frame_cache h)"
  by (simp add: hub_ok_def clock_ok_def cache_ok_def clear_frame_cache_def)

lemma record_phone_clock_locked_ok: "hub_ok h \<Longrightarrow> hub_ok (record_phone_clock_locked u t h)"
  by (simp add: hub_ok_def clock_ok_def cache_ok_def record_phone_clock_locked_def Let_def)

lemma record_phone_clock_locked_frame [simp]:
  "h_stream_epoch (record_phone_clock_locked u t h) = h_stream_epoch h"
  "h_all_intra_valid (record_phone_clock_locked u t h) = h_all_intra_valid h"
  "h_last_admitted_epoch (record_phone_clock_locked u t h) = h_last_admitted_epoch h"
  "h_last_admitted_sequence (record_phone_clock_locked u t h) = h_last_admitted_sequence h"
  by (simp_all add: record_phone_clock_locked_def Let_def)

lemma record_bounded_ok:
  assumes "probe_i64 p" "hub_ok h"
  shows "hub_ok (fst (record_bounded_phone_clock p h))"
proof (cases "snd (record_bounded_phone_clock p h)")
  case False
  then show ?thesis
    using assms(2)
    by (auto simp: record_bounded_phone_clock_def hub_ok_def clock_ok_def cache_ok_def Let_def
        split: option.splits prod.splits if_splits)
next
  case True
  then obtain mid unc where m: "bounded_phone_clock_mapping p = Some (mid, unc)" "\<not> unc > uncertainty_max"
    by (auto simp: record_bounded_phone_clock_def Let_def split: option.splits prod.splits if_splits)
  have "uint unc \<le> 2000000" using m(2) by (simp add: word_less_def uncertainty_max_def)
  moreover have "0 < mid" "mid \<le> i64_max" using mapping_sound [OF assms(1) m(1)] by auto
  ultimately show ?thesis
    using True m assms(2)
    by (auto simp: record_bounded_phone_clock_def hub_ok_def clock_ok_def cache_ok_def Let_def)
qed

lemma apply_config_ok: "hub_ok h \<Longrightarrow> hub_ok (apply_config c t h)"
  unfolding apply_config_def Let_def
  by (rule if_split [THEN iffD2], intro conjI impI record_phone_clock_locked_ok)
    (simp_all add: hub_ok_def clock_ok_def cache_ok_def canonical_config_def)

lemma set_config_ok: "hub_ok h \<Longrightarrow> hub_ok (fst (set_config raw c t h))"
proof -
  assume h: "hub_ok h"
  have clear: "hub_ok ((clear_frame_cache (h'\<lparr>h_config_mismatches := k, h_last_config := r\<rparr>)))"
    "hub_ok ((clear_frame_cache h')\<lparr>h_last_config := r\<rparr>)" "hub_ok (h'\<lparr>h_last_config := r\<rparr>)"
    if "hub_ok h'" for h' k r
    using that by (simp_all add: hub_ok_def clock_ok_def cache_ok_def clear_frame_cache_def)
  have reg: "hub_ok (h\<lparr>h_regressed_configs := k\<rparr>)" for k
    using h by (simp add: hub_ok_def clock_ok_def cache_ok_def)
  show ?thesis
    unfolding set_config_def Let_def
    by (auto simp: h reg clear [OF apply_config_ok [OF h]] split: option.splits)
qed

lemma record_frame_ok:
  assumes h: "hub_ok h" and now: "instant_ok now"
  shows "hub_ok (fst (record_frame_for_broadcast frame now h))"
proof (cases "snd (record_frame_for_broadcast frame now h)")
  case None
  have d: "hub_ok (fst (drop_frame r (h\<lparr>h_source_frames_received := k\<rparr>)))" for r k
    using h by (simp add: drop_frame_def hub_ok_def clock_ok_def cache_ok_def)
  from None show ?thesis
    unfolding record_frame_for_broadcast_def Let_def
    by (auto simp: h d admit_frame_def Let_def split: sum.splits prod.splits if_splits)
next
  case (Some out)
  then obtain h' where run: "record_frame_for_broadcast frame now h = (h', Some out)"
    by (metis prod.collapse)
  let ?h = "h\<lparr>h_source_frames_received := h_source_frames_received h + 1\<rparr>"
  from run obtain t age where est: "estimate_frame_timing ?h (parse_tsf3 frame) now = Inr (t, age)"
    and le: "i64 (age * millisecond) \<le> forward_frame_max_age"
    and adm: "(h', Some out) = admit_frame frame (parse_tsf3 frame) t age now ?h"
    and m: "m_ok (parse_tsf3 frame)" "m_key_frame (parse_tsf3 frame)"
    by (rule record_frame_Some)
  have c: "clock_ok ?h" using h by (simp add: hub_ok_def clock_ok_def)
  note e = estimate_Inr [OF est c now]
  have "age \<le> 3000" using le e(5) by (simp add: forward_frame_max_age_def millisecond_def)
  with e now m adm c h parse_rewrite [OF m(1), of t] run show ?thesis
    by (simp add: admit_frame_def Let_def hub_ok_def cache_ok_def clock_ok_def with_timing_def)
qed

lemma client_count_ok:
  "hub_ok h \<Longrightarrow> hub_ok (add_video_client h)" "hub_ok h \<Longrightarrow> hub_ok (remove_video_client h)"
  "hub_ok h \<Longrightarrow> hub_ok (hub_quiesce h)"
  by (simp_all add: add_video_client_def remove_video_client_def hub_quiesce_def hub_ok_def clock_ok_def
      cache_ok_def clear_frame_cache_def)

lemma hub_step_ok: "hub_ok h \<Longrightarrow> event_ok e \<Longrightarrow> hub_ok (fst (hub_step h e))"
  by (cases e) (simp_all add: record_frame_ok set_config_ok record_bounded_ok record_phone_clock_locked_ok
      record_phone_clock_def client_count_ok)

lemma hub_run_ok: "hub_ok h \<Longrightarrow> \<forall>e \<in> set es. event_ok e \<Longrightarrow> hub_ok (fst (hub_run h es))"
proof (induction es arbitrary: h)
  case (Cons e es h)
  obtain h1 out where s: "hub_step h e = (h1, out)" by (meson surj_pair)
  obtain h2 outs where r: "hub_run h1 es = (h2, outs)" by (meson surj_pair)
  have "hub_ok h1" using hub_step_ok [of h e] s Cons.prems by simp
  with Cons.IH [of h1] Cons.prems(2) r s show ?case by simp
qed simp

end
