(* ===== verification/TrHubClaims.thy ===== *)
theory TrHubClaims
  imports TrHub
begin

text \<open>
  ticket-remote, properties of the direct stream hub: what a forwarded frame is, how old the
  picture it carries can be, and what the warm start and the live verdict promise.
\<close>

section \<open>The mapping follows the true offset\<close>

definition clock_true :: "int \<Rightarrow> hub \<Rightarrow> bool" where
  "clock_true o_true h \<longleftrightarrow> (h_clock_bounded h \<longrightarrow> \<bar>o_true - h_clock_offset h\<bar> \<le> uint (h_uncertainty h))"

fun event_consistent :: "int \<Rightarrow> hub_event \<Rightarrow> bool" where
  "event_consistent o_true (Probe p) = consistent o_true p"
| "event_consistent o_true _ = True"

lemma clock_true_step:
  assumes "clock_true o_true h" "event_ok e" "event_consistent o_true e"
  shows "clock_true o_true (fst (hub_step h e))"
proof (cases e)
  case (Probe p)
  show ?thesis
  proof (cases "snd (record_bounded_phone_clock p h)")
    case False
    then show ?thesis
      using assms(1) Probe
      by (auto simp: record_bounded_phone_clock_def clock_true_def Let_def split: option.splits prod.splits if_splits)
  next
    case True
    then obtain mid unc where m: "bounded_phone_clock_mapping p = Some (mid, unc)"
      by (auto simp: record_bounded_phone_clock_def Let_def split: option.splits)
    have "\<bar>o_true - mid\<bar> \<le> uint unc"
      using mapping_sound [OF _ m, of o_true] assms(2,3) Probe by simp
    then show ?thesis
      using True m Probe
      by (auto simp: record_bounded_phone_clock_def clock_true_def Let_def split: if_splits)
  qed
next
  case (Config raw c t)
  have lk: "clock_true o_true (record_phone_clock_locked u t' h')" if "clock_true o_true h'" for u t' h'
    using that by (simp add: clock_true_def record_phone_clock_locked_def Let_def)
  have "clock_true o_true (apply_config c' t h)" for c'
    unfolding apply_config_def Let_def
    by (rule if_split [THEN iffD2], intro conjI impI lk) (use assms(1) in \<open>simp_all add: clock_true_def\<close>)
  then show ?thesis
    using assms(1) Config
    by (auto simp: set_config_def Let_def clock_true_def clear_frame_cache_def split: option.splits)
next
  case (Frame f t)
  then show ?thesis
    using assms(1)
    by (auto simp: record_frame_for_broadcast_def drop_frame_def admit_frame_def Let_def clock_true_def
        split: sum.splits prod.splits)
qed (use assms(1) in \<open>simp_all add: clock_true_def record_phone_clock_def record_phone_clock_locked_def Let_def
  add_video_client_def remove_video_client_def hub_quiesce_def clear_frame_cache_def\<close>)

lemma clock_true_run:
  "clock_true o_true h \<Longrightarrow> \<forall>e \<in> set es. event_ok e \<and> event_consistent o_true e \<Longrightarrow>
   clock_true o_true (fst (hub_run h es))"
proof (induction es arbitrary: h)
  case (Cons e es h)
  obtain h1 out where s: "hub_step h e = (h1, out)" by (meson surj_pair)
  obtain h2 outs where r: "hub_run h1 es = (h2, outs)" by (meson surj_pair)
  have "clock_true o_true h1" using clock_true_step [of o_true h e] s Cons.prems by simp
  with Cons.IH [of h1] Cons.prems(2) r s show ?case by simp
qed simp

section \<open>Broadcast sequence numbers\<close>

definition follows :: "bytes \<Rightarrow> bytes \<Rightarrow> bool" where
  "follows a b \<longleftrightarrow> (m_epoch (parse_tsf3 a) = m_epoch (parse_tsf3 b) \<longrightarrow>
     m_sequence (parse_tsf3 a) < m_sequence (parse_tsf3 b))"

definition after_admitted :: "hub \<Rightarrow> bytes \<Rightarrow> bool" where
  "after_admitted h f \<longleftrightarrow> (h_last_admitted_epoch h = m_epoch (parse_tsf3 f) \<longrightarrow>
     h_last_admitted_sequence h < m_sequence (parse_tsf3 f))"

lemma record_frame_forwards:
  assumes "record_frame_for_broadcast f t h = (h', Some out)"
  shows "after_admitted h out \<and> h_last_admitted_epoch h' = m_epoch (parse_tsf3 out) \<and>
    h_last_admitted_sequence h' = m_sequence (parse_tsf3 out)"
proof -
  obtain tm age where adm: "(h', Some out) = admit_frame f (parse_tsf3 f) tm age t
       (h\<lparr>h_source_frames_received := h_source_frames_received h + 1\<rparr>)"
    and m: "m_ok (parse_tsf3 f)"
    and mono: "h_last_admitted_epoch h = m_epoch (parse_tsf3 f) \<longrightarrow>
       h_last_admitted_sequence h < m_sequence (parse_tsf3 f)"
    by (rule record_frame_Some [OF assms])
  show ?thesis
    using adm mono parse_rewrite [OF m, of tm]
    by (simp add: admit_frame_def Let_def after_admitted_def with_timing_def)
qed

lemma hub_step_admitted:
  "hub_step h e = (h', None) \<Longrightarrow> h_last_admitted_epoch h' = h_last_admitted_epoch h \<and>
     h_last_admitted_sequence h' = h_last_admitted_sequence h"
  by (cases e)
    (auto simp: record_bounded_phone_clock_def record_phone_clock_def set_config_def apply_config_def
      clear_frame_cache_def record_frame_for_broadcast_def drop_frame_def admit_frame_def Let_def
      add_video_client_def remove_video_client_def hub_quiesce_def
      split: option.splits prod.splits sum.splits if_splits)

lemma hub_run_follows:
  "successively follows (snd (hub_run h es)) \<and>
   (snd (hub_run h es) \<noteq> [] \<longrightarrow> after_admitted h (hd (snd (hub_run h es))))"
proof (induction es arbitrary: h)
  case (Cons e es h)
  obtain h1 out where s: "hub_step h e = (h1, out)" by (meson surj_pair)
  obtain h2 outs where r: "hub_run h1 es = (h2, outs)" by (meson surj_pair)
  have ih: "successively follows outs" "outs \<noteq> [] \<longrightarrow> after_admitted h1 (hd outs)"
    using Cons.IH [of h1] r by simp_all
  show ?case
  proof (cases out)
    case None
    then show ?thesis
      using hub_step_admitted [of h e h1] ih r s by (simp add: after_admitted_def)
  next
    case (Some f)
    then obtain fr t where "e = Frame fr t" using s by (cases e) auto
    then have "after_admitted h f \<and> h_last_admitted_epoch h1 = m_epoch (parse_tsf3 f) \<and>
        h_last_admitted_sequence h1 = m_sequence (parse_tsf3 f)"
      using s Some by (intro record_frame_forwards) simp
    then show ?thesis
      using ih r s Some by (cases outs) (auto simp: follows_def after_admitted_def)
  qed
qed simp

end
