(* ===== verification/TrHubExample.thy ===== *)
theory TrHubExample
  imports TrHubClaims
begin

text \<open>
  ticket-remote, a worked example of the hub: a canonical configuration, one clock probe and one
  keyframe captured a tenth of a second before it arrives.
\<close>

definition sample_stream_config :: stream_config where
  "sample_stream_config =
     \<lparr>sc_type = ''config'', sc_codec = ''avc1.42C028'', sc_transport = ''hardware-h264-annexb'',
      sc_capture_mode = ''root_hardware_h264'', sc_capture_source = ''root_display_capture'',
      sc_capture_method = ''app_process_mediacodec_surface_secure_screen_capture'', sc_width = 994,
      sc_height = 2046, sc_root_capture = True, sc_source_width = 1080, sc_source_height = 2424,
      sc_left_crop = 4, sc_top_crop = 200, sc_right_crop = 3, sc_bottom_crop = 3, sc_visible_width = 1073,
      sc_visible_height = 2221, sc_bitrate = 8000000, sc_quality_profile = ''hardware_h264_crisp_all_intra_1fps'',
      sc_color_correction = ''red_blue_swap_high_brightness_sdr_gpu_paint_r1.08_g1.05_b1.03'',
      sc_color_standard = ''bt709_limited_sdr'', sc_stream_epoch = 7, sc_phone_uptime = 0,
      sc_frame_envelope = ''tsf3'', sc_dependency_mode = ''all_intra'', sc_fps = 1, sc_source_fps = 1,
      sc_keyframe_interval = 1\<rparr>"

definition sample_probe :: clock_probe where
  "sample_probe = \<lparr>cp_server_send = 2000000, cp_phone_receive = 1000000, cp_phone_send = 1000000,
     cp_server_receive = 2000100\<rparr>"

definition sample_events :: "hub_event list" where
  "sample_events = [Config [1] (Some sample_stream_config) 1, Probe sample_probe]"

definition sample_frame :: bytes where
  "sample_frame = [0x54, 0x53, 0x46, 0x33, 1] @ put_be64 7 @ put_be64 1 @ put_be64 1 @ put_be64 1 @
     put_be64 1000100 @ put_be64 1000100 @ put_be64 1000100 @ put_be64 1000100 @ put_be64 1000100 @
     put_be64 0 @ put_be64 0 @ [0xAA]"

lemma sample_magic: "be_uint [0x54, 0x53, 0x46, 0x33] = tsf3_magic"
  by (simp add: be_uint_def tsf3_magic_def push_bit_eq_mult)

lemma sample_canonical: "canonical_config sample_stream_config"
proof -
  have "to_lower (trim_space ''all_intra'') = ''all_intra''" "to_lower (trim_space ''tsf3'') = ''tsf3''"
    by code_simp+
  then show ?thesis by (simp add: canonical_config_def sample_stream_config_def)
qed

lemma sample_parse:
  "parse_tsf3 sample_frame =
     \<lparr>m_ok = True, m_key_frame = True, m_version = 3, m_header_bytes = 93, m_epoch = 7, m_sequence = 1,
      m_timestamp = 1000100, m_capture_attempt = 1, m_codec_generation = 1, m_capture_start = 1000100,
      m_capture_complete = 1000100, m_codec_input = 1000100, m_codec_output = 1000100,
      m_record_emission = 1000100, m_calibration_generation = 0, m_uncertainty = 0\<rparr>"
  by (simp add: parse_tsf3_def slice_def sample_frame_def sample_magic tsf3_header_bytes_def)

lemma sample_length: "length sample_frame = 94"
  by (simp add: sample_frame_def)

lemma sample_mapping: "bounded_phone_clock_mapping sample_probe = Some (1000050, 50)"
  by (simp add: bounded_phone_clock_mapping_def sample_probe_def i64_def)

definition sample_hub :: hub where
  "sample_hub = fst (hub_run hub_init sample_events)"

lemma sample_hub_fields:
  "h_all_intra_valid sample_hub" "h_stream_epoch sample_hub = 7" "h_clock_bounded sample_hub"
  "h_clock_offset sample_hub = 1000050" "h_uncertainty sample_hub = 50"
  "h_last_bounded_at sample_hub = 2000100000" "h_last_admitted_epoch sample_hub = 0"
  "h_last_config sample_hub = [1]" "h_frame_envelope sample_hub = ''tsf3''"
  "h_active_video_clients sample_hub = 0"
proof -
  have e: "to_lower (trim_space (sc_frame_envelope sample_stream_config)) = ''tsf3''"
    by (simp add: sample_stream_config_def) code_simp
  have t: "sc_type sample_stream_config = ''config''" "sc_stream_epoch sample_stream_config = 7"
    "sc_phone_uptime sample_stream_config = 0"
    by (simp_all add: sample_stream_config_def)
  have c: "cp_phone_send sample_probe = 1000000" "cp_server_receive sample_probe = 2000100"
    by (simp_all add: sample_probe_def)
  show "h_all_intra_valid sample_hub" "h_stream_epoch sample_hub = 7" "h_clock_bounded sample_hub"
    "h_clock_offset sample_hub = 1000050" "h_uncertainty sample_hub = 50"
    "h_last_bounded_at sample_hub = 2000100000" "h_last_admitted_epoch sample_hub = 0"
    "h_last_config sample_hub = [1]" "h_frame_envelope sample_hub = ''tsf3''"
    "h_active_video_clients sample_hub = 0"
    by (simp_all add: sample_hub_def sample_events_def set_config_def t apply_config_def e sample_canonical
        hub_init_def Let_def record_bounded_phone_clock_def sample_mapping uncertainty_max_def
        c i64_def i64_max_def time_unix_micro_def signed_divide_int_def)
qed

lemma sample_wall:
  "phone_timestamp_wall (sample_hub\<lparr>h_source_frames_received := k\<rparr>) 1000100 = Some 2000150000"
  by (simp add: phone_timestamp_wall_def sample_hub_fields i64_def i64_max_def time_unix_micro_def)

lemma sample_estimate:
  "\<exists>t. estimate_frame_timing (sample_hub\<lparr>h_source_frames_received := k\<rparr>) (parse_tsf3 sample_frame) 2100000000
     = Inr (t, 99) \<and> w_capture_start t = 2000150"
  by (simp add: estimate_frame_timing_def sample_parse valid_tsf3_stages_def clock_calibrated_def sample_hub_fields
      zero_time_def second_def time_sub_def i64_max_def i64_min_def sample_wall unix_micro_def Let_def
      i64_def future_tolerance_def millisecond_def time_unix_micro_def signed_divide_int_def)

lemma sample_forwarded:
  "\<exists>h' out. record_frame_for_broadcast sample_frame 2100000000 sample_hub = (h', Some out)"
proof -
  obtain t where t: "estimate_frame_timing (sample_hub\<lparr>h_source_frames_received := h_source_frames_received sample_hub + 1\<rparr>)
      (parse_tsf3 sample_frame) 2100000000 = Inr (t, 99)"
    using sample_estimate by blast
  have "length sample_frame = 94" by (simp add: sample_frame_def)
  then show ?thesis
    using t by (simp add: record_frame_for_broadcast_def sample_parse sample_hub_fields Let_def max_video_payload_def
        admit_frame_def i64_def millisecond_def forward_frame_max_age_def split: if_splits) (auto simp: sample_frame_def)
qed

lemma sample_events_ok: "e \<in> set sample_events \<Longrightarrow> event_ok e \<and> event_consistent 1000050 e"
  by (auto simp: sample_events_def probe_i64_def sample_probe_def in_i64_def i64_max_def i64_min_def consistent_def)

section \<open>Elapsed milliseconds\<close>

lemma elapsed_bounds:
  assumes "instant_ok now" "instant_ok r"
  shows "now - r < ((if (now - r) sdiv millisecond < 0 then 0 else (now - r) sdiv millisecond) + 1) * millisecond"
    "(now - r) sdiv millisecond \<le> 9000000000000"
proof -
  show "now - r < ((if (now - r) sdiv millisecond < 0 then 0 else (now - r) sdiv millisecond) + 1) * millisecond"
  proof (cases "0 \<le> now - r")
    case True
    then have "(now - r) sdiv millisecond = (now - r) div millisecond"
      by (intro sdiv_nonneg) (simp_all add: millisecond_def)
    moreover have "0 \<le> (now - r) div millisecond"
      using True by (simp add: millisecond_def pos_imp_zdiv_nonneg_iff)
    ultimately show ?thesis
      using floor_bounds(1) [of millisecond "now - r"] by (simp add: millisecond_def)
  next
    case False
    then show ?thesis by (simp add: millisecond_def)
  qed
  show "(now - r) sdiv millisecond \<le> 9000000000000"
  proof (cases "0 \<le> now - r")
    case True
    then have "(now - r) sdiv millisecond = (now - r) div millisecond"
      by (intro sdiv_nonneg) (simp_all add: millisecond_def)
    then show ?thesis using assms True by (simp add: instant_ok_def millisecond_def)
  next
    case False
    then have "(now - r) sdiv millisecond \<le> 0"
      by (simp add: signed_divide_int_def millisecond_def sgn_if)
    then show ?thesis by simp
  qed
qed

lemma small_millis: "0 \<le> x \<Longrightarrow> x \<le> 9000000003000 \<Longrightarrow> in_i64 (x * millisecond)"
  by (simp add: in_i64_def i64_min_def i64_max_def millisecond_def)

section \<open>Properties\<close>

text \<open>
  C39. Restamping is exact: parsing a forwarded frame yields the stamps written into it and otherwise
  the header of the source frame; length, the bytes before the stamps and the encoded picture are
  those of the source.
\<close>

theorem tsf3_restamp_roundtrip:
  assumes "m_ok (parse_tsf3 frame)"
  shows "let out = rewrite_frame_timestamps frame (parse_tsf3 frame) t in
    parse_tsf3 out = with_timing t (parse_tsf3 frame) \<and> length out = length frame \<and>
    take 37 out = take 37 frame \<and> drop 93 out = drop 93 frame"
  using parse_rewrite [OF assms] rewrite_keeps [OF assms] by (simp add: Let_def)

definition sample_timing :: timing where
  "sample_timing = \<lparr>w_capture_start = 5, w_capture_complete = 6, w_codec_input = 7, w_codec_output = 8,
     w_record_emission = 9, w_calibration_generation = 1, w_uncertainty = 50\<rparr>"

theorem tsf3_restamp_roundtrip_witness:
  "m_record_emission (parse_tsf3 (rewrite_frame_timestamps sample_frame (parse_tsf3 sample_frame) sample_timing)) = 9"
  using tsf3_restamp_roundtrip [of sample_frame sample_timing]
  by (simp add: sample_parse Let_def with_timing_def sample_timing_def)

text \<open>
  C36. The clock mapping is a sound interval: for any offset of the phone's clock that the
  four-timestamp exchange allows, the midpoint is within the published uncertainty of it, and no
  64-bit operation wraps around.
\<close>

theorem clock_mapping_sound:
  assumes "probe_i64 p" "bounded_phone_clock_mapping p = Some (mid, unc)" "consistent o_true p"
  shows "0 < mid \<and> mid \<le> i64_max \<and> \<bar>o_true - mid\<bar> \<le> uint unc"
  using mapping_sound [OF assms(1,2)] assms(3) by blast

theorem clock_mapping_sound_witness:
  "\<bar>1000001 - (1000050 :: int)\<bar> \<le> uint (50 :: 64 word)"
  using clock_mapping_sound [OF _ sample_mapping, of 1000001]
  by (simp add: probe_i64_def sample_probe_def in_i64_def i64_max_def i64_min_def consistent_def)

text \<open>
  C3. No old picture is forwarded: after any events in which every probe was consistent with the
  phone clock's true offset, a forwarded frame was captured less than 3.001 seconds ago in true time.
\<close>

theorem forwarded_frame_is_fresh:
  assumes "\<forall>e \<in> set es. event_ok e \<and> event_consistent o_true e" "instant_ok now"
    and "record_frame_for_broadcast frame now (fst (hub_run hub_init es)) = (h', Some out)"
  shows "now - (uint (m_capture_start (parse_tsf3 frame)) + o_true) * 1000 < 3001 * millisecond"
proof -
  let ?h = "fst (hub_run hub_init es)"
  let ?h1 = "?h\<lparr>h_source_frames_received := h_source_frames_received ?h + 1\<rparr>"
  have ok: "hub_ok ?h" using assms(1) by (intro hub_run_ok hub_init_ok) auto
  have "clock_true o_true ?h"
    using assms(1) by (intro clock_true_run) (auto simp: clock_true_def hub_init_def)
  then have tr: "h_clock_bounded ?h \<Longrightarrow> \<bar>o_true - h_clock_offset ?h\<bar> \<le> uint (h_uncertainty ?h)"
    by (simp add: clock_true_def)
  obtain t age where est: "estimate_frame_timing ?h1 (parse_tsf3 frame) now = Inr (t, age)"
    and le: "i64 (age * millisecond) \<le> forward_frame_max_age"
    by (rule record_frame_Some [OF assms(3)])
  have c: "clock_ok ?h1" using ok by (simp add: hub_ok_def clock_ok_def)
  note e = estimate_Inr [OF est c assms(2)]
  have age: "(age + 1) * millisecond \<le> 3001 * millisecond"
    using le e(5) by (simp add: forward_frame_max_age_def millisecond_def)
  have "o_true \<ge> h_clock_offset ?h - uint (h_uncertainty ?h)"
    using tr e(7) by simp
  with e(1,3,6) age show ?thesis by simp
qed

theorem forwarded_frame_is_fresh_witness:
  "2100000000 - (uint (m_capture_start (parse_tsf3 sample_frame)) + 1000050) * 1000 < 3001 * millisecond"
  using sample_forwarded sample_events_ok forwarded_frame_is_fresh [of sample_events 1000050 2100000000 sample_frame]
  by (auto simp: sample_hub_def instant_ok_def)

text \<open>
  C4. Only admissible frames are forwarded: a keyframe of the current, canonically configured epoch
  with at most 2 MiB of encoded picture, newer than the last frame admitted in that epoch, and
  changed in its time stamps alone.
\<close>

theorem forwarded_frame_admissible:
  assumes "\<forall>e \<in> set es. event_ok e"
    and "record_frame_for_broadcast frame now (fst (hub_run hub_init es)) = (h', Some out)"
  shows "let h = fst (hub_run hub_init es); m = parse_tsf3 out in
    m_ok m \<and> m_key_frame m \<and> h_all_intra_valid h \<and> m_epoch m = h_stream_epoch h \<and> m_epoch m \<noteq> 0 \<and>
    (h_last_admitted_epoch h = m_epoch m \<longrightarrow> h_last_admitted_sequence h < m_sequence m) \<and>
    int (length out) - 93 \<le> 2 * 1024 * 1024 \<and> take 37 out = take 37 frame \<and> drop 93 out = drop 93 frame"
proof -
  let ?h = "fst (hub_run hub_init es)"
  have "hub_ok ?h" using assms(1) by (intro hub_run_ok hub_init_ok) auto
  then have ep: "h_all_intra_valid ?h \<longrightarrow> h_stream_epoch ?h \<noteq> 0" by (simp add: hub_ok_def)
  obtain t age where adm: "(h', Some out) = admit_frame frame (parse_tsf3 frame) t age now
       (?h\<lparr>h_source_frames_received := h_source_frames_received ?h + 1\<rparr>)"
    and m: "m_ok (parse_tsf3 frame)" "m_key_frame (parse_tsf3 frame)" "h_all_intra_valid ?h"
      "h_stream_epoch ?h \<noteq> 0 \<longrightarrow> m_epoch (parse_tsf3 frame) = h_stream_epoch ?h"
      "h_last_admitted_epoch ?h = m_epoch (parse_tsf3 frame) \<longrightarrow>
         h_last_admitted_sequence ?h < m_sequence (parse_tsf3 frame)"
      "int (length frame) - 93 \<le> max_video_payload"
    by (rule record_frame_Some [OF assms(2)])
  have out: "out = rewrite_frame_timestamps frame (parse_tsf3 frame) t"
    using adm by (simp add: admit_frame_def Let_def)
  show ?thesis
    using parse_rewrite [OF m(1), of t] rewrite_keeps [OF m(1), of t] m ep
    by (simp add: out Let_def with_timing_def max_video_payload_def)
qed

theorem forwarded_frame_admissible_witness:
  "h_all_intra_valid (fst (hub_run hub_init sample_events))"
proof -
  obtain h' out where "record_frame_for_broadcast sample_frame 2100000000 (fst (hub_run hub_init sample_events)) = (h', Some out)"
    using sample_forwarded by (auto simp: sample_hub_def)
  from forwarded_frame_admissible [OF _ this] show ?thesis
    using sample_events_ok by (simp add: Let_def)
qed

text \<open>
  Broadcast order: in any run of the hub, two frames broadcast in a row with the same epoch have
  strictly increasing sequence numbers.
\<close>

theorem broadcast_monotonic:
  "successively (\<lambda>a b. m_epoch (parse_tsf3 a) \<noteq> m_epoch (parse_tsf3 b) \<or>
     m_sequence (parse_tsf3 a) < m_sequence (parse_tsf3 b)) (snd (hub_run h es))"
proof -
  have eq: "(\<lambda>a b. m_epoch (parse_tsf3 a) \<noteq> m_epoch (parse_tsf3 b) \<or>
      m_sequence (parse_tsf3 a) < m_sequence (parse_tsf3 b)) = follows"
    by (auto simp: follows_def fun_eq_iff)
  show ?thesis unfolding eq using hub_run_follows [of h es] by blast
qed

theorem broadcast_monotonic_witness:
  "successively (\<lambda>a b. m_epoch (parse_tsf3 a) \<noteq> m_epoch (parse_tsf3 b) \<or>
     m_sequence (parse_tsf3 a) < m_sequence (parse_tsf3 b))
     (snd (hub_run hub_init (sample_events @ [Frame sample_frame 2100000000, Frame sample_frame 2200000000])))"
  by (rule broadcast_monotonic)

text \<open>
  A warm start replays only a current picture: the frame it hands to a new viewer is a keyframe of
  the current epoch whose stamped capture time, less its uncertainty, is under 3.002 seconds old.
\<close>

theorem warm_start_is_fresh:
  assumes "\<forall>e \<in> set es. event_ok e" "instant_ok now"
    and "warm_start (fst (hub_run hub_init es)) now = (config, frame)" "frame \<noteq> []"
  shows "let m = parse_tsf3 frame in
    m_ok m \<and> m_key_frame m \<and> m_epoch m = h_stream_epoch (fst (hub_run hub_init es)) \<and>
    now - (uint (m_capture_start m) - uint (m_uncertainty m)) * 1000 < 3002 * millisecond"
proof -
  let ?h = "fst (hub_run hub_init es)"
  have allowed: "warm_key_frame_allowed ?h now" and fr: "frame = h_last_frame ?h"
    using assms(3,4) by (auto simp: warm_start_def split: if_splits)
  have "cache_ok ?h" using hub_run_ok [OF hub_init_ok, of es] assms(1) by (simp add: hub_ok_def)
  then have c: "m_ok (parse_tsf3 frame)" "m_key_frame (parse_tsf3 frame)"
    "m_epoch (parse_tsf3 frame) = h_last_frame_epoch ?h" "h_last_visual_known ?h"
    "0 \<le> h_last_visual_age ?h" "h_last_visual_age ?h \<le> 3000" "instant_ok (h_last_frame_received_at ?h)"
    "h_last_frame_received_at ?h - uint (m_capture_start (parse_tsf3 frame)) * 1000 +
       uint (m_uncertainty (parse_tsf3 frame)) * 1000 < (h_last_visual_age ?h + 1) * millisecond"
    using assms(4) fr by (auto simp: cache_ok_def Let_def)
  let ?r = "h_last_frame_received_at ?h"
  have nz: "?r \<noteq> zero_time" using c(7) by (simp add: instant_ok_def zero_time_def second_def)
  have sub: "time_sub now ?r = now - ?r"
    using assms(2) c(7) by (intro time_sub_small) (simp add: instant_ok_def in_i64_def i64_max_def i64_min_def)
  let ?el = "if (now - ?r) sdiv millisecond < 0 then 0 else (now - ?r) sdiv millisecond"
  have el: "now - ?r < (?el + 1) * millisecond" "0 \<le> ?el" "?el \<le> 9000000000000"
    using elapsed_bounds [OF assms(2) c(7)] by auto
  have "frame_visual_age ?h now = Some (i64 (h_last_visual_age ?h + ?el))"
    using nz c(4,5) by (simp add: frame_visual_age_def current_visual_age_def sub Let_def)
  moreover have "i64 (h_last_visual_age ?h + ?el) = h_last_visual_age ?h + ?el"
    using c(5,6) el by (intro i64_id) (unfold in_i64_def i64_min_def i64_max_def, linarith)
  moreover have "i64 ((h_last_visual_age ?h + ?el) * millisecond) = (h_last_visual_age ?h + ?el) * millisecond"
    by (intro i64_id small_millis) (use c(5,6) el(2,3) in linarith)+
  ultimately have le: "h_last_visual_age ?h + ?el \<le> 3000"
    using allowed by (simp add: warm_key_frame_allowed_def visually_fresh_def Let_def live_frame_max_age_def
        millisecond_def split: if_splits)
  have "h_last_frame_epoch ?h = h_stream_epoch ?h"
    using allowed by (simp add: warm_key_frame_allowed_def Let_def split: if_splits)
  then show ?thesis
    using c(1-3) c(8) el(1) le unfolding Let_def millisecond_def by (simp add: algebra_simps)
qed

lemma hub_run_snoc: "fst (hub_run h (es @ [e])) = fst (hub_step (fst (hub_run h es)) e)"
  by (induction es arbitrary: h) (auto split: prod.splits, metis fst_conv)

definition sample_hub_after :: hub where
  "sample_hub_after = fst (hub_run hub_init (sample_events @ [Frame sample_frame 2100000000]))"

lemma sample_hub_after_fields:
  "h_last_frame sample_hub_after \<noteq> []" "h_last_frame_epoch sample_hub_after = 7"
  "h_stream_epoch sample_hub_after = 7" "h_last_config sample_hub_after = [1]"
  "h_last_frame_received_at sample_hub_after = 2100000000" "h_last_visual_age sample_hub_after = 99"
  "h_last_visual_known sample_hub_after" "h_all_intra_valid sample_hub_after"
  "h_clock_bounded sample_hub_after" "h_last_bounded_at sample_hub_after = 2000100000"
  "h_frame_envelope sample_hub_after = ''tsf3''" "h_active_video_clients sample_hub_after = 0"
proof -
  let ?h1 = "sample_hub\<lparr>h_source_frames_received := h_source_frames_received sample_hub + 1\<rparr>"
  obtain h' out where run: "record_frame_for_broadcast sample_frame 2100000000 sample_hub = (h', Some out)"
    using sample_forwarded by blast
  obtain t age where est: "estimate_frame_timing ?h1 (parse_tsf3 sample_frame) 2100000000 = Inr (t, age)"
    and adm: "(h', Some out) = admit_frame sample_frame (parse_tsf3 sample_frame) t age 2100000000 ?h1"
    by (rule record_frame_Some [OF run])
  have age: "age = 99" using est sample_estimate [of "h_source_frames_received sample_hub + 1"] by auto
  have h': "sample_hub_after = h'" by (simp add: sample_hub_after_def hub_run_snoc sample_hub_def [symmetric] run)
  have "length (rewrite_frame_timestamps sample_frame (parse_tsf3 sample_frame) t) = 94"
    using rewrite_keeps(1) [of sample_frame t] sample_length by (simp add: sample_parse)
  then show "h_last_frame sample_hub_after \<noteq> []" "h_last_frame_epoch sample_hub_after = 7"
    "h_stream_epoch sample_hub_after = 7" "h_last_config sample_hub_after = [1]"
    "h_last_frame_received_at sample_hub_after = 2100000000" "h_last_visual_age sample_hub_after = 99"
    "h_last_visual_known sample_hub_after" "h_all_intra_valid sample_hub_after"
    "h_clock_bounded sample_hub_after" "h_last_bounded_at sample_hub_after = 2000100000"
    "h_frame_envelope sample_hub_after = ''tsf3''" "h_active_video_clients sample_hub_after = 0"
    using adm age by (auto simp: h' admit_frame_def Let_def sample_hub_fields sample_parse)
qed

lemma sample_visual_age: "frame_visual_age sample_hub_after 2200000000 = Some 199"
  by (simp add: frame_visual_age_def current_visual_age_def sample_hub_after_fields time_sub_def i64_max_def
      i64_min_def millisecond_def signed_divide_int_def i64_def zero_time_def second_def Let_def)

lemma sample_warm:
  "\<exists>frame. warm_start sample_hub_after 2200000000 = ([1], frame) \<and> frame \<noteq> []"
  by (simp add: warm_start_def warm_key_frame_allowed_def visually_fresh_def sample_visual_age
        sample_hub_after_fields time_sub_def i64_max_def i64_min_def live_frame_max_age_def millisecond_def
        i64_def zero_time_def second_def Let_def)

theorem warm_start_is_fresh_witness:
  "\<exists>frame. m_epoch (parse_tsf3 frame) = h_stream_epoch (fst (hub_run hub_init (sample_events @ [Frame sample_frame 2100000000]))) \<and>
     2200000000 - (uint (m_capture_start (parse_tsf3 frame)) - uint (m_uncertainty (parse_tsf3 frame))) * 1000
       < 3002 * millisecond"
proof -
  obtain frame where "warm_start (fst (hub_run hub_init (sample_events @ [Frame sample_frame 2100000000]))) 2200000000 = ([1], frame)"
    "frame \<noteq> []"
    using sample_warm unfolding sample_hub_after_def by blast
  from warm_start_is_fresh [OF _ _ this] show ?thesis
    using sample_events_ok by (auto simp: instant_ok_def Let_def)
qed

text \<open>
  The status claims a live picture only on evidence: a canonical configuration, a current epoch, a
  cached frame of that epoch whose visual age is known and at most three seconds, and a phone clock
  calibrated within the last five seconds.
\<close>

theorem live_status_is_earned:
  assumes "snd (snd (status_live h now ph))"
  shows "fst (status_live h now ph) = ''live'' \<and> h_all_intra_valid h \<and> h_stream_epoch h \<noteq> 0 \<and>
    h_last_frame_epoch h = h_stream_epoch h \<and> h_frame_envelope h = ''tsf3'' \<and>
    (\<exists>age. frame_visual_age h now = Some age \<and> 0 \<le> age \<and> age \<le> 3000) \<and>
    h_clock_bounded h \<and> time_sub now (h_last_bounded_at h) \<le> 5 * second \<and>
    (0 < h_active_video_clients h \<or> ph_connected ph \<and> ph_desired ph)"
  using assms
  by (auto simp: status_live_def stream_verdict_def freshness_state_def clock_calibrated_def Let_def
      split: if_splits option.splits)

theorem live_status_is_earned_witness:
  "h_last_frame_epoch sample_hub_after = h_stream_epoch sample_hub_after \<and>
   fst (status_live sample_hub_after 2200000000
     \<lparr>ph_viewers = 1, ph_connected = True, ph_desired = True, ph_stream_state = ''streaming''\<rparr>) = ''live''"
proof -
  let ?ph = "\<lparr>ph_viewers = 1, ph_connected = True, ph_desired = True, ph_stream_state = ''streaming''\<rparr>"
  have "snd (snd (status_live sample_hub_after 2200000000 ?ph))"
    by (simp add: status_live_def stream_verdict_def visually_fresh_def sample_visual_age sample_hub_after_fields
        freshness_state_def clock_calibrated_def time_sub_def i64_max_def i64_min_def i64_def zero_time_def
        live_frame_max_age_def millisecond_def second_def Let_def)
  from live_status_is_earned [OF this] show ?thesis by simp
qed

end
