(* ===== verification/TrDemand.thy ===== *)
theory TrDemand
  imports GoLib
begin

text \<open>
  ticket-remote, ordinary capture demand (workloads/ticket-remote/internal/web/capture_demand.go):
  at most one outstanding capture opportunity for all viewers, fenced against stale sends, stale
  timers and replaced phone connections. The mutex makes each operation one step; the goroutine
  that sends a demand and the expiry timer are separate steps that may run at any later time. The
  fence only grows by one from zero, so the \<open>uint64\<close> counters are natural numbers. Cancelling the
  context of a send only changes what the send returns, which is arbitrary here.
\<close>

section \<open>State\<close>

record receipt =
  rc_stream_epoch :: nat
  rc_generation :: nat
  rc_connection :: nat
  rc_sent_at :: int
  rc_expires_at :: int

definition no_receipt :: receipt where
  "no_receipt = \<lparr>rc_stream_epoch = 0, rc_generation = 0, rc_connection = 0, rc_sent_at = zero_time,
     rc_expires_at = zero_time\<rparr>"

record demand =
  d_closed :: bool
  d_epoch :: nat
  d_fence :: nat
  d_sending :: bool
  d_cancel :: bool
  d_receipt :: receipt
  d_expiry :: "receipt option"
  d_connection :: nat

definition demand_init :: demand where
  "demand_init = \<lparr>d_closed = False, d_epoch = 0, d_fence = 0, d_sending = False, d_cancel = False,
     d_receipt = no_receipt, d_expiry = None, d_connection = 0\<rparr>"

text \<open>The fields of a viewer that decide whether it can use an ordinary capture.\<close>

record viewer =
  v_writer_closed :: bool
  v_config_generation :: nat
  v_config_written_epoch :: nat
  v_config_written_gen :: nat
  v_epoch :: nat
  v_visibility :: string
  v_in_flight :: "nat option"
  v_feedback_received :: nat
  v_pending :: bool
  v_receipt_sequence :: nat

definition can_use_ordinary_capture :: "nat \<Rightarrow> viewer \<Rightarrow> bool" where
  "can_use_ordinary_capture epoch v =
     (if epoch = 0 then False
      else let in_flight_receipt_observed =
             (case v_in_flight v of None \<Rightarrow> False | Some sq \<Rightarrow> v_feedback_received v = sq)
        in \<not> v_writer_closed v \<and> v_config_generation v \<noteq> 0 \<and>
           v_config_written_epoch v = epoch \<and> v_config_written_gen v = v_config_generation v \<and>
           v_epoch v = epoch \<and> v_visibility v \<noteq> ''hidden'' \<and>
           (v_in_flight v = None \<or> in_flight_receipt_observed) \<and> \<not> v_pending v \<and> v_receipt_sequence v = 0)"

definition has_useful_viewer :: "nat \<Rightarrow> viewer list \<Rightarrow> bool" where
  "has_useful_viewer epoch viewers = list_ex (can_use_ordinary_capture epoch) viewers"

section \<open>Operations\<close>

definition cancel_send :: "demand \<Rightarrow> demand" where
  "cancel_send d = d\<lparr>d_cancel := False, d_sending := False\<rparr>"

definition clear_receipt :: "demand \<Rightarrow> demand" where
  "clear_receipt d = d\<lparr>d_expiry := None, d_receipt := no_receipt\<rparr>"

definition bump_fence :: "demand \<Rightarrow> demand" where
  "bump_fence d = d\<lparr>d_fence := d_fence d + 1\<rparr>"

text \<open>
  The locked part of \<open>requestOrdinaryCaptureIfUseful\<close>; the second component is the fence of the send
  it starts, if it starts one.
\<close>

definition request_locked :: "bool \<Rightarrow> nat \<Rightarrow> int \<Rightarrow> demand \<Rightarrow> demand \<times> nat option" where
  "request_locked blocked epoch now d =
     (if d_closed d \<or> blocked then (d, None)
      else let d1 = (if d_epoch d \<noteq> 0 \<and> d_epoch d \<noteq> epoch
                     then clear_receipt (bump_fence (cancel_send d)) else d);
               d2 = d1\<lparr>d_epoch := epoch\<rparr>
        in if rc_generation (d_receipt d2) \<noteq> 0 \<and>
              (rc_expires_at (d_receipt d2) = zero_time \<or> now < rc_expires_at (d_receipt d2))
           then (d2, None)
           else let d3 = (if rc_generation (d_receipt d2) \<noteq> 0 then clear_receipt d2 else d2)
             in if d_sending d3 then (d3, None)
                else let d4 = bump_fence d3 in (d4\<lparr>d_sending := True, d_cancel := True\<rparr>, Some (d_fence d4)))"

definition request_ordinary_capture ::
    "nat \<Rightarrow> viewer list \<Rightarrow> bool \<Rightarrow> int \<Rightarrow> demand \<Rightarrow> demand \<times> nat option" where
  "request_ordinary_capture epoch viewers blocked now d =
     (if epoch = 0 \<or> \<not> has_useful_viewer epoch viewers then (d, None)
      else request_locked blocked epoch now d)"

text \<open>The goroutine: viewers are checked again before the sender runs; no sender counts as cancelled.\<close>

definition flight_outcome :: "nat \<Rightarrow> viewer list \<Rightarrow> (string + receipt) option \<Rightarrow> string + receipt" where
  "flight_outcome epoch viewers sender =
     (case sender of
        None \<Rightarrow> Inl ''context canceled''
      | Some r \<Rightarrow> if \<not> has_useful_viewer epoch viewers then Inl ''context canceled'' else r)"

definition capture_demand_ttl :: int where
  "capture_demand_ttl = 2500 * millisecond"

definition finish_send :: "nat \<Rightarrow> nat \<Rightarrow> string + receipt \<Rightarrow> int \<Rightarrow> demand \<Rightarrow> demand" where
  "finish_send fence epoch outcome now d =
     (if d_closed d \<or> fence \<noteq> d_fence d \<or> \<not> d_sending d \<or> d_epoch d \<noteq> epoch then d
      else let d1 = d\<lparr>d_sending := False, d_cancel := False\<rparr> in
        case outcome of
          Inl _ \<Rightarrow> d1
        | Inr r \<Rightarrow>
            if rc_stream_epoch r \<noteq> epoch \<or> rc_generation r = 0 \<or> rc_connection r = 0 then d1
            else if d_connection d1 \<noteq> 0 \<and> rc_connection r \<noteq> d_connection d1 then d1
            else let r1 = (if rc_sent_at r = zero_time then r\<lparr>rc_sent_at := now\<rparr> else r);
                     r2 = (if rc_expires_at r1 = zero_time \<or> \<not> rc_sent_at r1 < rc_expires_at r1
                           then r1\<lparr>rc_expires_at := rc_sent_at r1 + capture_demand_ttl\<rparr> else r1)
              in d1\<lparr>d_receipt := r2, d_expiry := Some r2\<rparr>)"

definition observe_connection :: "nat \<Rightarrow> demand \<Rightarrow> demand" where
  "observe_connection c d =
     (if c = 0 then d
      else let d1 = (if d_connection d \<noteq> 0 \<and> d_connection d \<noteq> c
                     then clear_receipt (bump_fence (cancel_send d)) else d)
        in d1\<lparr>d_connection := c\<rparr>)"

text \<open>The locked part of \<open>expireOrdinaryCaptureDemand\<close>; a request follows it as a step of its own.\<close>

definition expire_demand :: "receipt \<Rightarrow> demand \<Rightarrow> demand" where
  "expire_demand expected d =
     (let current = d_receipt d in
      if d_closed d \<or> rc_stream_epoch current \<noteq> rc_stream_epoch expected \<or>
         rc_generation current \<noteq> rc_generation expected \<or> rc_connection current \<noteq> rc_connection expected
      then d else clear_receipt d)"

definition complete_opportunity :: "demand \<Rightarrow> demand" where
  "complete_opportunity d =
     (if d_sending d \<or> rc_generation (d_receipt d) \<noteq> 0
      then clear_receipt (bump_fence (cancel_send d)) else d)"

definition fence_demand :: "nat \<Rightarrow> demand \<Rightarrow> demand" where
  "fence_demand epoch d = clear_receipt ((bump_fence (cancel_send d))\<lparr>d_epoch := epoch\<rparr>)"

definition close_demand :: "demand \<Rightarrow> demand" where
  "close_demand d = clear_receipt (bump_fence (cancel_send (d\<lparr>d_closed := True\<rparr>)))"

section \<open>Interleavings\<close>

text \<open>
  The demand state with the sends in flight (fence and epoch of each goroutine) and the timers that
  were armed and may still fire, stopped in time or not.
\<close>

record world =
  w_d :: demand
  w_flights :: "(nat \<times> nat) list"
  w_timers :: "receipt list"

definition world_init :: world where
  "world_init = \<lparr>w_d = demand_init, w_flights = [], w_timers = []\<rparr>"

text \<open>
  A request needs a nonzero stream epoch, which only a configuration message of the phone sets;
  \<open>handlePhoneMessage\<close> observes the connection of a message before it handles it, so a connection
  is known by then.
\<close>

inductive demand_step :: "world \<Rightarrow> world \<Rightarrow> bool" where
  requested: "epoch \<noteq> 0 \<Longrightarrow> d_connection (w_d w) \<noteq> 0 \<Longrightarrow>
    request_locked blocked epoch now (w_d w) = (d', started) \<Longrightarrow>
    demand_step w (w\<lparr>w_d := d', w_flights := w_flights w @ (case started of None \<Rightarrow> [] | Some f \<Rightarrow> [(f, epoch)])\<rparr>)"
| finished: "(f, epoch) \<in> set (w_flights w) \<Longrightarrow> finish_send f epoch outcome now (w_d w) = d' \<Longrightarrow>
    demand_step w (w\<lparr>w_d := d', w_flights := remove1 (f, epoch) (w_flights w),
      w_timers := (case (if d_sending (w_d w) then d_expiry d' else None) of
                     None \<Rightarrow> w_timers w | Some r \<Rightarrow> r # w_timers w)\<rparr>)"
| expired: "t \<in> set (w_timers w) \<Longrightarrow>
    demand_step w (w\<lparr>w_d := expire_demand t (w_d w), w_timers := removeAll t (w_timers w)\<rparr>)"
| observed: "demand_step w (w\<lparr>w_d := observe_connection c (w_d w)\<rparr>)"
| completed: "demand_step w (w\<lparr>w_d := complete_opportunity (w_d w)\<rparr>)"
| fenced: "demand_step w (w\<lparr>w_d := fence_demand epoch (w_d w)\<rparr>)"
| closed: "demand_step w (w\<lparr>w_d := close_demand (w_d w)\<rparr>)"

inductive demand_steps :: "world \<Rightarrow> world \<Rightarrow> bool" where
  refl: "demand_steps w w"
| step: "demand_steps w w' \<Longrightarrow> demand_step w' w'' \<Longrightarrow> demand_steps w w''"

inductive_cases demand_stepE: "demand_step w w'"

definition demand_reach :: "world \<Rightarrow> bool" where
  "demand_reach w = demand_steps world_init w"

section \<open>The invariant\<close>

definition demand_inv :: "world \<Rightarrow> bool" where
  "demand_inv w \<longleftrightarrow> (let d = w_d w; r = d_receipt d in
     distinct (map fst (w_flights w)) \<and> (\<forall>(f, e) \<in> set (w_flights w). f \<le> d_fence d) \<and>
     d_cancel d = d_sending d \<and>
     (d_sending d \<longrightarrow> (d_fence d, d_epoch d) \<in> set (w_flights w) \<and> rc_generation r = 0 \<and> d_epoch d \<noteq> 0) \<and>
     (rc_generation r \<noteq> 0 \<longrightarrow> rc_stream_epoch r = d_epoch d \<and> d_epoch d \<noteq> 0 \<and>
        rc_connection r = d_connection d \<and> d_connection d \<noteq> 0 \<and> rc_sent_at r < rc_expires_at r \<and>
        d_expiry d = Some r \<and> r \<in> set (w_timers w)) \<and>
     (rc_generation r = 0 \<longrightarrow> r = no_receipt \<and> d_expiry d = None) \<and>
     (d_closed d \<longrightarrow> \<not> d_sending d \<and> rc_generation r = 0) \<and>
     (d_sending d \<longrightarrow> d_connection d \<noteq> 0) \<and>
     (\<forall>t \<in> set (w_timers w). rc_generation t \<noteq> 0))"

lemmas demand_ops = cancel_send_def clear_receipt_def bump_fence_def observe_connection_def
  expire_demand_def complete_opportunity_def fence_demand_def close_demand_def Let_def

lemma no_receipt_simps [simp]: "rc_generation no_receipt = 0" "rc_stream_epoch no_receipt = 0"
  "rc_connection no_receipt = 0"
  by (simp_all add: no_receipt_def)

lemma demand_inv_init: "demand_inv world_init"
  by (simp add: demand_inv_def world_init_def demand_init_def Let_def)

text \<open>Each kind of step keeps the invariant.\<close>

lemma reset_inv: "demand_inv w \<Longrightarrow> demand_inv (w\<lparr>w_d := clear_receipt (bump_fence (cancel_send (w_d w)))\<rparr>)"
  by (auto simp: demand_inv_def demand_ops)

lemma clear_inv: "demand_inv w \<Longrightarrow> demand_inv (w\<lparr>w_d := clear_receipt (w_d w)\<rparr>)"
  by (auto simp: demand_inv_def demand_ops)

lemma set_epoch_inv:
  "demand_inv w \<Longrightarrow> d_epoch (w_d w) = epoch \<or> \<not> d_sending (w_d w) \<and> rc_generation (d_receipt (w_d w)) = 0 \<Longrightarrow>
   demand_inv (w\<lparr>w_d := (w_d w)\<lparr>d_epoch := epoch\<rparr>\<rparr>)"
  by (auto simp: demand_inv_def Let_def)

lemma start_inv:
  assumes inv: "demand_inv w" and d: "\<not> d_sending (w_d w)" "rc_generation (d_receipt (w_d w)) = 0"
    "\<not> d_closed (w_d w)" "d_epoch (w_d w) \<noteq> 0" "d_connection (w_d w) \<noteq> 0"
  shows "demand_inv (w\<lparr>w_d := (bump_fence (w_d w))\<lparr>d_sending := True, d_cancel := True\<rparr>,
    w_flights := w_flights w @ [(Suc (d_fence (w_d w)), d_epoch (w_d w))]\<rparr>)"
proof -
  have le: "\<forall>f \<in> set (map fst (w_flights w)). f \<le> d_fence (w_d w)"
    using inv by (auto simp: demand_inv_def Let_def)
  then have "Suc (d_fence (w_d w)) \<notin> set (map fst (w_flights w))" by force
  then have dist: "distinct (map fst (w_flights w @ [(Suc (d_fence (w_d w)), d_epoch (w_d w))]))"
    using inv by (auto simp: demand_inv_def Let_def)
  show ?thesis
    using inv d dist le unfolding demand_inv_def Let_def bump_fence_def
    by (simp del: map_append) auto
qed

lemma requested_inv:
  assumes inv: "demand_inv w" and e: "epoch \<noteq> 0" "d_connection (w_d w) \<noteq> 0"
    and r: "request_locked blocked epoch now (w_d w) = (d', started)"
  shows "demand_inv (w\<lparr>w_d := d', w_flights := w_flights w @ (case started of None \<Rightarrow> [] | Some f \<Rightarrow> [(f, epoch)])\<rparr>)"
proof (cases "d_closed (w_d w) \<or> blocked")
  case True
  then show ?thesis using r inv by (auto simp: request_locked_def)
next
  case False
  let ?with = "\<lambda>d. w\<lparr>w_d := d\<rparr>"
  define d1 where "d1 = (if d_epoch (w_d w) \<noteq> 0 \<and> d_epoch (w_d w) \<noteq> epoch
      then clear_receipt (bump_fence (cancel_send (w_d w))) else w_d w)"
  define d2 where "d2 = d1\<lparr>d_epoch := epoch\<rparr>"
  define d3 where "d3 = (if rc_generation (d_receipt d2) \<noteq> 0 then clear_receipt d2 else d2)"
  have i1: "demand_inv (?with d1)" using reset_inv [OF inv] inv by (simp add: d1_def)
  have "d_epoch d1 = epoch \<or> \<not> d_sending d1 \<and> rc_generation (d_receipt d1) = 0"
    using inv by (auto simp: d1_def demand_ops demand_inv_def)
  then have i2: "demand_inv (?with d2)"
    using set_epoch_inv [OF i1] by (simp add: d2_def)
  have i3: "demand_inv (?with d3)" using clear_inv [OF i2] i2 by (simp add: d3_def)
  have open3: "\<not> d_closed d3" "d_epoch d3 = epoch" "d_connection d3 \<noteq> 0"
    using False e(2) by (simp_all add: d3_def d2_def d1_def demand_ops)
  have eq: "(d', started) =
      (if rc_generation (d_receipt d2) \<noteq> 0 \<and>
          (rc_expires_at (d_receipt d2) = zero_time \<or> now < rc_expires_at (d_receipt d2)) then (d2, None)
       else if d_sending d3 then (d3, None)
       else ((bump_fence d3)\<lparr>d_sending := True, d_cancel := True\<rparr>, Some (d_fence (bump_fence d3))))"
    using r False unfolding request_locked_def Let_def d1_def [symmetric] d2_def [symmetric] d3_def [symmetric]
    by simp
  have g3: "rc_generation (d_receipt d3) = 0" by (simp add: d3_def clear_receipt_def)
  show ?thesis
    using eq i2 i3 start_inv [OF i3] open3 e g3 by (auto simp: bump_fence_def split: if_splits)
qed

text \<open>A send that ends takes its flight with it; a successful one installs a receipt and its timer.\<close>

lemma stale_flight_inv:
  assumes "demand_inv w" "f \<noteq> d_fence (w_d w) \<or> \<not> d_sending (w_d w) \<or> d_epoch (w_d w) \<noteq> epoch"
  shows "demand_inv (w\<lparr>w_flights := remove1 (f, epoch) (w_flights w)\<rparr>)"
proof -
  have "distinct (map fst (remove1 (f, epoch) (w_flights w)))"
    using assms(1) by (auto simp: demand_inv_def Let_def distinct_map intro: inj_on_subset)
  moreover have "set (remove1 (f, epoch) (w_flights w)) \<subseteq> set (w_flights w)"
    by (rule set_remove1_subset)
  moreover have "d_sending (w_d w) \<longrightarrow> (d_fence (w_d w), d_epoch (w_d w)) \<in> set (remove1 (f, epoch) (w_flights w))"
    using assms by (auto simp: demand_inv_def Let_def in_set_remove1)
  ultimately show ?thesis using assms(1) unfolding demand_inv_def Let_def by auto
qed

lemma landed_inv:
  assumes "demand_inv w" "d_sending (w_d w)"
  shows "demand_inv (w\<lparr>w_d := (w_d w)\<lparr>d_sending := False, d_cancel := False\<rparr>\<rparr>)"
  using assms unfolding demand_inv_def Let_def by auto

lemma install_inv:
  assumes "demand_inv w" "\<not> d_sending (w_d w)" "\<not> d_closed (w_d w)" "rc_generation r \<noteq> 0"
    "rc_stream_epoch r = d_epoch (w_d w)" "d_epoch (w_d w) \<noteq> 0" "rc_connection r = d_connection (w_d w)"
    "d_connection (w_d w) \<noteq> 0" "rc_sent_at r < rc_expires_at r"
  shows "demand_inv (w\<lparr>w_d := (w_d w)\<lparr>d_receipt := r, d_expiry := Some r\<rparr>, w_timers := r # w_timers w\<rparr>)"
  using assms unfolding demand_inv_def Let_def by auto

lemma finished_inv:
  assumes inv: "demand_inv w" and f: "(f, epoch) \<in> set (w_flights w)"
    and d': "finish_send f epoch outcome now (w_d w) = d'"
  shows "demand_inv (w\<lparr>w_d := d', w_flights := remove1 (f, epoch) (w_flights w),
      w_timers := (case (if d_sending (w_d w) then d_expiry d' else None) of
                     None \<Rightarrow> w_timers w | Some r \<Rightarrow> r # w_timers w)\<rparr>)"
proof (cases "d_closed (w_d w) \<or> f \<noteq> d_fence (w_d w) \<or> \<not> d_sending (w_d w) \<or> d_epoch (w_d w) \<noteq> epoch")
  case True
  then have d: "d' = w_d w" using d' by (simp add: finish_send_def)
  have "d_sending (w_d w) \<longrightarrow> d_expiry (w_d w) = None" "\<not> (d_closed (w_d w) \<and> d_sending (w_d w))"
    using inv by (auto simp: demand_inv_def Let_def)
  moreover have "demand_inv (w\<lparr>w_flights := remove1 (f, epoch) (w_flights w)\<rparr>)"
    using True inv calculation by (intro stale_flight_inv) auto
  ultimately show ?thesis by (simp add: d)
next
  case False
  let ?d1 = "(w_d w)\<lparr>d_sending := False, d_cancel := False\<rparr>"
  let ?w1 = "w\<lparr>w_d := ?d1, w_flights := remove1 (f, epoch) (w_flights w)\<rparr>"
  have none: "d_expiry (w_d w) = None" using False inv by (auto simp: demand_inv_def Let_def)
  have i1: "demand_inv ?w1"
    using stale_flight_inv [OF landed_inv [OF inv], of f epoch] False by simp
  have pos: "epoch \<noteq> 0" "d_connection (w_d w) \<noteq> 0"
    using False inv by (auto simp: demand_inv_def Let_def)
  show ?thesis
  proof (cases "d' = ?d1")
    case True
    then show ?thesis using i1 none False by simp
  next
    case other: False
    then obtain r where r: "d' = ?d1\<lparr>d_receipt := r, d_expiry := Some r\<rparr>" "rc_stream_epoch r = epoch"
      "rc_generation r \<noteq> 0" "rc_connection r = d_connection (w_d w)" "rc_sent_at r < rc_expires_at r"
      using d' False pos
      by (auto simp: finish_send_def Let_def capture_demand_ttl_def millisecond_def split: sum.splits if_splits)
    let ?w2 = "w\<lparr>w_d := d', w_flights := remove1 (f, epoch) (w_flights w), w_timers := r # w_timers w\<rparr>"
    have eq: "?w2 = ?w1\<lparr>w_d := (w_d ?w1)\<lparr>d_receipt := r, d_expiry := Some r\<rparr>, w_timers := r # w_timers ?w1\<rparr>"
      using r(1) by (intro world.equality) simp_all
    have "demand_inv ?w2"
      unfolding eq by (rule install_inv [OF i1]) (use r False pos in simp_all)
    then show ?thesis using r(1) False by simp
  qed
qed

lemma expired_inv:
  assumes inv: "demand_inv w" and t: "t \<in> set (w_timers w)"
  shows "demand_inv (w\<lparr>w_d := expire_demand t (w_d w), w_timers := removeAll t (w_timers w)\<rparr>)"
  using assms by (auto simp: demand_inv_def expire_demand_def clear_receipt_def Let_def)

lemma local_inv:
  "demand_inv w \<Longrightarrow> demand_inv (w\<lparr>w_d := observe_connection c (w_d w)\<rparr>)"
  "demand_inv w \<Longrightarrow> demand_inv (w\<lparr>w_d := complete_opportunity (w_d w)\<rparr>)"
  "demand_inv w \<Longrightarrow> demand_inv (w\<lparr>w_d := fence_demand epoch (w_d w)\<rparr>)"
  "demand_inv w \<Longrightarrow> demand_inv (w\<lparr>w_d := close_demand (w_d w)\<rparr>)"
  by (auto simp: demand_inv_def demand_ops)

lemma demand_step_inv: "demand_step w w' \<Longrightarrow> demand_inv w \<Longrightarrow> demand_inv w'"
  by (cases rule: demand_step.cases)
    (auto intro: requested_inv finished_inv expired_inv local_inv)

lemma demand_steps_inv: "demand_steps w w' \<Longrightarrow> demand_inv w \<Longrightarrow> demand_inv w'"
  by (induction rule: demand_steps.induct) (auto intro: demand_step_inv)

lemma demand_reach_inv: "demand_reach w \<Longrightarrow> demand_inv w"
  unfolding demand_reach_def by (rule demand_steps_inv [OF _ demand_inv_init])

section \<open>Fences only rise\<close>

lemma request_locked_fence: "d_fence d \<le> d_fence (fst (request_locked blocked epoch now d))"
  by (simp add: request_locked_def demand_ops)

lemma finish_send_fence [simp]: "d_fence (finish_send f epoch outcome now d) = d_fence d"
  by (simp add: finish_send_def Let_def split: sum.splits)

lemma op_fences:
  "d_fence d \<le> d_fence (observe_connection c d)" "d_fence (expire_demand t d) = d_fence d"
  "d_fence d \<le> d_fence (complete_opportunity d)" "d_fence d < d_fence (fence_demand epoch d)"
  "d_fence d < d_fence (close_demand d)"
  by (simp_all add: demand_ops)

lemma demand_step_fence: "demand_step w w' \<Longrightarrow> d_fence (w_d w) \<le> d_fence (w_d w')"
proof (induction rule: demand_step.induct)
  case (requested epoch w blocked now d' started)
  then show ?case using request_locked_fence [of "w_d w" blocked epoch now] by simp
qed (use op_fences in \<open>auto simp: less_imp_le\<close>)

lemma demand_steps_fence: "demand_steps w w' \<Longrightarrow> d_fence (w_d w) \<le> d_fence (w_d w')"
  by (induction rule: demand_steps.induct) (auto dest: demand_step_fence)

section \<open>A worked run\<close>

definition sample_receipt :: receipt where
  "sample_receipt = \<lparr>rc_stream_epoch = 7, rc_generation = 1, rc_connection = 3, rc_sent_at = 10, rc_expires_at = 20\<rparr>"

definition sample_sending :: world where
  "sample_sending = \<lparr>w_d = \<lparr>d_closed = False, d_epoch = 7, d_fence = 1, d_sending = True, d_cancel = True,
     d_receipt = no_receipt, d_expiry = None, d_connection = 3\<rparr>, w_flights = [(1, 7)], w_timers = []\<rparr>"

definition sample_installed :: world where
  "sample_installed = \<lparr>w_d = \<lparr>d_closed = False, d_epoch = 7, d_fence = 1, d_sending = False, d_cancel = False,
     d_receipt = sample_receipt, d_expiry = Some sample_receipt, d_connection = 3\<rparr>, w_flights = [],
     w_timers = [sample_receipt]\<rparr>"

lemma sample_sending_reach: "demand_reach sample_sending"
proof -
  let ?w1 = "world_init\<lparr>w_d := observe_connection 3 (w_d world_init)\<rparr>"
  have "demand_step world_init ?w1" by (rule demand_step.observed)
  moreover have "demand_step ?w1 sample_sending"
    using demand_step.requested [of 7 ?w1 False 5 "w_d sample_sending" "Some 1"]
    by (simp add: world_init_def demand_init_def request_locked_def sample_sending_def demand_ops)
  ultimately show ?thesis
    unfolding demand_reach_def by (meson demand_steps.intros)
qed

lemma sample_installed_reach: "demand_reach sample_installed"
proof -
  have "finish_send 1 7 (Inr sample_receipt) 12 (w_d sample_sending) = w_d sample_installed"
    by (simp add: finish_send_def sample_sending_def sample_installed_def sample_receipt_def zero_time_def
        second_def Let_def)
  then have "demand_step sample_sending sample_installed"
    using demand_step.finished [of 1 7 sample_sending "Inr sample_receipt" 12 "w_d sample_installed"]
    by (simp add: sample_sending_def sample_installed_def)
  then show ?thesis
    using sample_sending_reach unfolding demand_reach_def by (meson demand_steps.step)
qed

section \<open>Properties\<close>

text \<open>
  C22. One opportunity at a time: in every reachable state a send and a live receipt never coexist; a
  pending send is owned by a goroutine in flight with the current fence and epoch, so the slot
  cannot leak; a receipt belongs to the current epoch and phone connection, has its expiry timer,
  and never survives closing.
\<close>

theorem demand_single_opportunity:
  assumes "demand_reach w"
  shows "let d = w_d w; r = d_receipt d in
    (d_sending d \<longrightarrow> rc_generation r = 0 \<and> \<not> d_closed d \<and> (d_fence d, d_epoch d) \<in> set (w_flights w)) \<and>
    (rc_generation r \<noteq> 0 \<longrightarrow> \<not> d_closed d \<and> rc_stream_epoch r = d_epoch d \<and>
       rc_connection r = d_connection d \<and> rc_sent_at r < rc_expires_at r \<and> r \<in> set (w_timers w))"
  using demand_reach_inv [OF assms] unfolding demand_inv_def Let_def by auto

theorem demand_single_opportunity_witness:
  "rc_connection (d_receipt (w_d sample_installed)) = d_connection (w_d sample_installed)"
  using demand_single_opportunity [OF sample_installed_reach]
  by (simp add: Let_def) (simp add: sample_installed_def sample_receipt_def)

text \<open>
  Fencing is final: once the demand is fenced, a send that was in flight can do nothing when it
  ends, however much later and whatever it returns.
\<close>

theorem fenced_send_ignored:
  assumes "demand_reach w" "(f, e) \<in> set (w_flights w)"
    and "demand_steps (w\<lparr>w_d := fence_demand epoch (w_d w)\<rparr>) w'"
  shows "finish_send f e outcome now (w_d w') = w_d w'"
proof -
  have "f \<le> d_fence (w_d w)"
    using demand_reach_inv [OF assms(1)] assms(2) by (auto simp: demand_inv_def Let_def)
  also have "\<dots> < d_fence (fence_demand epoch (w_d w))" by (rule op_fences)
  also have "\<dots> \<le> d_fence (w_d w')" using demand_steps_fence [OF assms(3)] by simp
  finally show ?thesis by (simp add: finish_send_def)
qed

theorem fenced_send_ignored_witness:
  "finish_send 1 7 (Inr sample_receipt) 12 (fence_demand 8 (w_d sample_sending)) = fence_demand 8 (w_d sample_sending)"
  using fenced_send_ignored [OF sample_sending_reach _ demand_steps.refl, where f = 1 and e = 7 and epoch = 8 and
      outcome = "Inr sample_receipt" and now = 12]
  by (simp add: sample_sending_def)

text \<open>
  No lost wake-up and no burst: in a reachable open state with no send in flight, a request for a
  live epoch starts a send exactly when no unexpired receipt of that epoch is held.
\<close>

theorem demand_request_progress:
  assumes "demand_reach w" "w_flights w = []" "\<not> d_closed (w_d w)" "epoch \<noteq> 0"
  shows "snd (request_locked False epoch now (w_d w)) \<noteq> None \<longleftrightarrow>
    \<not> (rc_generation (d_receipt (w_d w)) \<noteq> 0 \<and> d_epoch (w_d w) = epoch \<and>
       (rc_expires_at (d_receipt (w_d w)) = zero_time \<or> now < rc_expires_at (d_receipt (w_d w))))"
proof -
  have "\<not> d_sending (w_d w)" "rc_generation (d_receipt (w_d w)) \<noteq> 0 \<longrightarrow> d_epoch (w_d w) \<noteq> 0"
    using demand_reach_inv [OF assms(1)] assms(2) by (auto simp: demand_inv_def Let_def)
  then show ?thesis
    using assms(3,4) by (auto simp: request_locked_def demand_ops)
qed

theorem demand_request_progress_witness:
  "snd (request_locked False 7 25 (w_d sample_installed)) \<noteq> None"
  using demand_request_progress [OF sample_installed_reach, of 7 25]
  by (simp add: sample_installed_def sample_receipt_def zero_time_def second_def)

end
