(* ===== verification/GoText.thy ===== *)
theory GoText
  imports GoLib "HOL-Library.Word"
begin

text \<open>
  Text formatting and hashing of the Go standard library that the services use: \<open>%x\<close> and \<open>%d\<close>,
  \<open>strings.Fields\<close>, \<open>strings.Trim\<close>, \<open>strings.NewReplacer\<close> on single characters, the number of
  runes, and the 32-bit FNV-1a hash.
\<close>

section \<open>Numbers\<close>

text \<open>\<open>%0<w>x\<close> of a number below \<open>16 ^ w\<close>.\<close>

definition hex_digit :: "nat \<Rightarrow> char" where
  "hex_digit n = ''0123456789abcdef'' ! n"

fun hex_digits :: "nat \<Rightarrow> nat \<Rightarrow> string" where
  "hex_digits 0 _ = []"
| "hex_digits (Suc w) n = hex_digits w (n div 16) @ [hex_digit (n mod 16)]"

lemma hex_digit_inj: "i < 16 \<Longrightarrow> j < 16 \<Longrightarrow> hex_digit i = hex_digit j \<longleftrightarrow> i = j"
  unfolding hex_digit_def by (rule nth_eq_iff_index_eq) simp_all

lemma length_hex_digits [simp]: "length (hex_digits w n) = w"
  by (induction w arbitrary: n) simp_all

lemma hex_digits_inj: "i < 16 ^ w \<Longrightarrow> j < 16 ^ w \<Longrightarrow> hex_digits w i = hex_digits w j \<Longrightarrow> i = j"
proof (induction w arbitrary: i j)
  case (Suc w)
  have "hex_digits w (i div 16) = hex_digits w (j div 16)" and "hex_digit (i mod 16) = hex_digit (j mod 16)"
    using Suc.prems(3) by simp_all
  moreover have "i div 16 < 16 ^ w" and "j div 16 < 16 ^ w"
    using Suc.prems(1,2) by (simp_all add: less_mult_imp_div_less mult.commute)
  ultimately have "i div 16 = j div 16" and "i mod 16 = j mod 16"
    using Suc.IH by (simp_all add: hex_digit_inj)
  then show ?case
    by (metis div_mult_mod_eq)
qed simp

text \<open>\<open>%d\<close>.\<close>

fun dec_digits :: "nat \<Rightarrow> string" where
  "dec_digits n = (if n < 10 then [char_of (48 + n)] else dec_digits (n div 10) @ [char_of (48 + n mod 10)])"

declare dec_digits.simps [simp del]

definition dec :: "int \<Rightarrow> string" where
  "dec i = (if i < 0 then CHR ''-'' # dec_digits (nat (- i)) else dec_digits (nat i))"

section \<open>Strings\<close>

text \<open>\<open>strings.Fields\<close>: the words between runs of white space; \<open>w\<close> is the word begun, reversed.\<close>

function fields_from :: "string \<Rightarrow> string \<Rightarrow> string list" where
  "fields_from w s =
     (case skip_space s of
        Some rest \<Rightarrow> (if w = [] then [] else [rev w]) @ fields_from [] rest
      | None \<Rightarrow> (case s of [] \<Rightarrow> (if w = [] then [] else [rev w]) | c # cs \<Rightarrow> fields_from (c # w) cs))"
  by pat_completeness auto
termination
  by (relation "measure (\<lambda>(_, s). length s)") (auto dest: skip_space_length)

declare fields_from.simps [simp del]

definition split_fields :: "string \<Rightarrow> string list" where
  "split_fields s = fields_from [] s"

text \<open>\<open>strings.Trim(s, c)\<close> for a single character, and the replacement of characters one by one.\<close>

definition trim_char :: "char \<Rightarrow> string \<Rightarrow> string" where
  "trim_char c s = rev (dropWhile (\<lambda>x. x = c) (rev (dropWhile (\<lambda>x. x = c) s)))"

definition replace_chars :: "string \<Rightarrow> char \<Rightarrow> string \<Rightarrow> string" where
  "replace_chars cs d s = map (\<lambda>c. if c \<in> set cs then d else c) s"

text \<open>\<open>len([]rune(s))\<close> of a valid UTF-8 text: continuation bytes do not begin a rune.\<close>

definition rune_count :: "string \<Rightarrow> nat" where
  "rune_count s = length (filter (\<lambda>c. \<not> (128 \<le> (of_char c :: nat) \<and> (of_char c :: nat) < 192)) s)"

lemma rune_count_le: "rune_count s \<le> length s"
  by (simp add: rune_count_def)

lemma set_trim_char: "set (trim_char c s) \<subseteq> set s"
proof -
  have "set (dropWhile P xs) \<subseteq> set xs" for P and xs :: string
    by (meson set_dropWhileD subsetI)
  then show ?thesis
    unfolding trim_char_def by (metis set_rev subset_trans)
qed

section \<open>FNV-1a\<close>

unbundle bit_operations_syntax

definition fnv32a_step :: "32 word \<Rightarrow> char \<Rightarrow> 32 word" where
  "fnv32a_step h c = (h XOR of_nat (of_char c)) * 16777619"

definition fnv32a :: "string \<Rightarrow> 32 word" where
  "fnv32a s = foldl fnv32a_step 2166136261 s"

end
