(* ===== verification/TrRelay.thy ===== *)
theory TrRelay
  imports TrHub GoText "HOL-Library.AList"
begin

text \<open>
  ticket-remote, the phone relay (workloads/ticket-remote/internal/phone/relay.go): who keeps the
  connection to the phone alive. Viewers are counted, the connect loop has one owner at a time,
  identified by its context, and an idle stop is delayed. Contexts and connections are numbered.
  The mutex makes each locked section one step; the interleavings of viewers, loops, timers, dials,
  probes and demands are sequences of steps. A goroutine that was started is in \<open>r_running\<close> until
  its \<open>finishConnectLoop\<close> has run.
\<close>

section \<open>State\<close>

record outstanding_probe =
  op_conn :: nat
  op_server_send :: int

record relay =
  r_backend_id :: string
  r_base_url :: string
  r_attach_name :: string
  r_viewers :: int
  r_desired :: bool
  r_connected :: bool
  r_last_error :: string
  r_last_config :: bytes
  r_last_seen_at :: int
  r_conn :: "nat option"
  r_dial_generation :: nat
  r_connection_generation :: nat
  r_demand_generation :: nat
  r_probe_counter :: nat
  r_probes :: "(string \<times> outstanding_probe) list"
  r_loop :: "nat option"
  r_idle_stop :: bool
  r_next_ctx :: nat
  r_running :: "nat list"
  r_cancelled :: "nat list"

text \<open>
  \<open>r_loop\<close> is the pair \<open>cancelLoop\<close>, \<open>loopContext\<close>, which the code sets and clears together;
  \<open>r_cancelled\<close> are the contexts whose cancel function was called. \<open>r_probes\<close> is the map
  \<open>outstandingClockProbes\<close>, as an association list with one entry for each key.
\<close>

definition relay_init :: relay where
  "relay_init = \<lparr>r_backend_id = [], r_base_url = [], r_attach_name = [], r_viewers = 0, r_desired = False,
     r_connected = False, r_last_error = [], r_last_config = [], r_last_seen_at = zero_time, r_conn = None,
     r_dial_generation = 0, r_connection_generation = 0, r_demand_generation = 0, r_probe_counter = 0,
     r_probes = [], r_loop = None, r_idle_stop = False, r_next_ctx = 0, r_running = [], r_cancelled = []\<rparr>"

section \<open>Operations\<close>

definition cancel_idle_stop :: "relay \<Rightarrow> relay" where
  "cancel_idle_stop r = r\<lparr>r_idle_stop := False\<rparr>"

text \<open>\<open>newConnectLoopLocked\<close>, and the goroutine its caller starts on it.\<close>

definition start_connect_loop :: "relay \<Rightarrow> relay" where
  "start_connect_loop r =
     r\<lparr>r_loop := Some (r_next_ctx r), r_next_ctx := r_next_ctx r + 1, r_running := r_next_ctx r # r_running r\<rparr>"

definition cancel_loop :: "relay \<Rightarrow> relay" where
  "cancel_loop r = (case r_loop r of None \<Rightarrow> r | Some c \<Rightarrow> r\<lparr>r_cancelled := c # r_cancelled r\<rparr>)"

definition detach_connection :: "relay \<Rightarrow> relay" where
  "detach_connection r = (cancel_loop r)\<lparr>r_loop := None, r_conn := None, r_connected := False\<rparr>"

definition relay_add_viewer :: "relay \<Rightarrow> relay" where
  "relay_add_viewer r =
     (let r1 = (cancel_idle_stop r)\<lparr>r_viewers := r_viewers r + 1, r_desired := True\<rparr>
      in if r_loop r1 = None then start_connect_loop r1 else r1)"

text \<open>\<open>RemoveViewer\<close> arms the delayed stop; with no delay the stop runs at once, as a step of its own.\<close>

definition relay_remove_viewer :: "relay \<Rightarrow> relay" where
  "relay_remove_viewer r =
     (let r1 = (if 0 < r_viewers r then r\<lparr>r_viewers := r_viewers r - 1\<rparr> else r)
      in if r_viewers r1 = 0 \<and> r_desired r1 then r1\<lparr>r_idle_stop := True\<rparr> else r1)"

definition stop_if_still_idle :: "relay \<Rightarrow> relay" where
  "stop_if_still_idle r =
     (let r1 = cancel_idle_stop r
      in if 0 < r_viewers r1 \<or> \<not> r_desired r1 then r1
         else detach_connection (r1\<lparr>r_desired := False\<rparr>))"

definition relay_close :: "relay \<Rightarrow> relay" where
  "relay_close r = detach_connection ((cancel_idle_stop r)\<lparr>r_desired := False, r_viewers := 0\<rparr>)"

definition trim_right_slash :: "string \<Rightarrow> string" where
  "trim_right_slash s = rev (dropWhile (\<lambda>c. c = CHR ''/'') (rev s))"

definition switch_backend :: "string \<Rightarrow> string \<Rightarrow> string \<Rightarrow> relay \<Rightarrow> relay" where
  "switch_backend bid attach url r =
     (let clean = trim_right_slash (trim_space url);
          same = (r_backend_id r = trim_space bid \<and> r_base_url r = clean);
          r1 = r\<lparr>r_attach_name := trim_space attach\<rparr>
      in if same then r1
         else let r2 = (detach_connection (cancel_idle_stop r1))
                    \<lparr>r_last_error := [], r_last_config := [], r_last_seen_at := zero_time,
                     r_backend_id := trim_space bid, r_base_url := clean\<rparr>
           in if r_desired r2 \<and> 0 < r_viewers r2 then start_connect_loop r2 else r2)"

definition should_run :: "relay \<Rightarrow> bool" where
  "should_run r \<longleftrightarrow> r_desired r \<and> 0 < r_viewers r"

text \<open>\<open>finishConnectLoop\<close>, run by the loop of \<open>ctx\<close> as it returns.\<close>

definition finish_connect_loop :: "nat \<Rightarrow> relay \<Rightarrow> relay" where
  "finish_connect_loop ctx r0 =
     (let r = r0\<lparr>r_running := removeAll ctx (r_running r0)\<rparr> in
      if r_loop r \<noteq> Some ctx then r
      else let r1 = (cancel_loop r)\<lparr>r_loop := None\<rparr>
        in if should_run r1 then start_connect_loop r1 else r1)"

text \<open>One dial of a loop: the attempt is numbered before it, the socket adopted after it.\<close>

definition begin_dial :: "relay \<Rightarrow> relay \<times> nat" where
  "begin_dial r = (r\<lparr>r_dial_generation := r_dial_generation r + 1\<rparr>, r_dial_generation r + 1)"

definition max_protocol_generation :: nat where
  "max_protocol_generation = 9007199254740991"

definition adopt_connection :: "nat \<Rightarrow> nat \<Rightarrow> nat \<Rightarrow> int \<Rightarrow> relay \<Rightarrow> relay" where
  "adopt_connection ctx attempt conn now r =
     (if \<not> r_desired r \<or> r_dial_generation r \<noteq> attempt \<or> ctx \<in> set (r_cancelled r) then r
      else let g = r_connection_generation r + 1
        in r\<lparr>r_conn := Some conn, r_connected := True, r_last_error := [],
             r_last_seen_at := now, r_probes := [],
             r_connection_generation := (if g = 0 \<or> g > max_protocol_generation then 1 else g),
             r_demand_generation := 0\<rparr>)"

definition drop_connection :: "nat \<Rightarrow> relay \<Rightarrow> relay" where
  "drop_connection conn r =
     (let r1 = (if r_conn r = Some conn then r\<lparr>r_conn := None, r_connected := False\<rparr> else r)
      in r1\<lparr>r_probes := filter (\<lambda>(_, p). op_conn p \<noteq> conn) (r_probes r1)\<rparr>)"

text \<open>The locked parts of \<open>readLoop\<close>, \<open>recordError\<close> and \<open>Snapshot\<close>.\<close>

definition note_message :: "nat \<Rightarrow> int \<Rightarrow> bytes option \<Rightarrow> relay \<Rightarrow> relay" where
  "note_message conn now config r =
     (if r_conn r \<noteq> Some conn then r
      else let r1 = r\<lparr>r_last_seen_at := now\<rparr>
        in case config of None \<Rightarrow> r1 | Some c \<Rightarrow> r1\<lparr>r_last_config := c\<rparr>)"

definition record_error :: "string option \<Rightarrow> relay \<Rightarrow> relay" where
  "record_error err r = (case err of None \<Rightarrow> r | Some e \<Rightarrow> r\<lparr>r_last_error := e\<rparr>)"

definition stream_state :: "relay \<Rightarrow> string" where
  "stream_state r =
     (if r_connected r then ''streaming'' else if r_desired r then ''connecting'' else ''idle'')"

text \<open>The delay of the reconnect loop, and its jitter: \<open>rand\<close> is the number drawn.\<close>

definition next_delay :: "int \<Rightarrow> int \<Rightarrow> int \<Rightarrow> int \<Rightarrow> int \<Rightarrow> int \<times> int" where
  "next_delay min_delay max_delay reset connected_for delay =
     (let d = (if connected_for \<ge> reset then min_delay else delay);
          doubled = i64 (d * 2)
      in (d, if doubled > max_delay then max_delay else doubled))"

definition jitter_reconnect_delay :: "int \<Rightarrow> int \<Rightarrow> int" where
  "jitter_reconnect_delay rand delay =
     (if delay \<le> 1 then delay else let half = delay sdiv 2 in half + rand mod (delay - half + 1))"

section \<open>Clock probes\<close>

text \<open>
  The identifier of a probe, and the identifiers the relay accepts. The counter is a
  \<open>uint64\<close> that only counts up from zero.
\<close>

definition probe_id :: "nat \<Rightarrow> string" where
  "probe_id n = ''p-'' @ hex_digits 16 n"

definition probe_id_char :: "char \<Rightarrow> bool" where
  "probe_id_char c \<longleftrightarrow>
     (CHR ''a'' \<le> c \<and> c \<le> CHR ''z'') \<or> (CHR ''A'' \<le> c \<and> c \<le> CHR ''Z'') \<or>
     (CHR ''0'' \<le> c \<and> c \<le> CHR ''9'') \<or> c \<in> set ''._:-''"

definition valid_clock_probe_id :: "string \<Rightarrow> bool" where
  "valid_clock_probe_id v \<longleftrightarrow> v \<noteq> [] \<and> length v \<le> 64 \<and> list_all probe_id_char v"

text \<open>
  The locked part of \<open>sendClockProbe\<close>; \<open>None\<close> is the cancelled error. A failed write forgets the
  probe.
\<close>

definition begin_probe :: "nat \<Rightarrow> int \<Rightarrow> relay \<Rightarrow> relay \<times> string option" where
  "begin_probe conn t0 r =
     (if t0 \<le> 0 \<or> r_conn r \<noteq> Some conn then (r, None)
      else let n = r_probe_counter r + 1;
               kept = (if 4 \<le> length (r_probes r) then filter (\<lambda>(_, p). op_conn p \<noteq> conn) (r_probes r)
                       else r_probes r)
        in (r\<lparr>r_probe_counter := n,
              r_probes := AList.update (probe_id n) \<lparr>op_conn = conn, op_server_send = t0\<rparr> kept\<rparr>,
            Some (probe_id n)))"

definition forget_probe :: "string \<Rightarrow> relay \<Rightarrow> relay" where
  "forget_probe k r = r\<lparr>r_probes := AList.delete k (r_probes r)\<rparr>"

record probe_payload =
  pp_probe_id :: string
  pp_server_send :: int
  pp_phone_receive :: int
  pp_phone_send :: int

text \<open>
  \<open>consumeClockProbeResult\<close>: the decoded payload, \<open>None\<close> where the strict decoder refuses the
  message. The result is the completed probe, as the hub receives it.
\<close>

definition consume_clock_probe ::
    "nat \<Rightarrow> probe_payload option \<Rightarrow> int \<Rightarrow> relay \<Rightarrow> relay \<times> clock_probe option" where
  "consume_clock_probe conn payload received r =
     (case payload of
        None \<Rightarrow> (r, None)
      | Some p \<Rightarrow>
          if \<not> valid_clock_probe_id (pp_probe_id p) \<or> pp_server_send p \<le> 0 \<or> pp_phone_receive p \<le> 0 \<or>
             pp_phone_send p < pp_phone_receive p \<or> received \<le> 0 then (r, None)
          else case map_of (r_probes r) (pp_probe_id p) of
              None \<Rightarrow> (r, None)
            | Some sent \<Rightarrow>
                let r1 = (if op_conn sent = conn then forget_probe (pp_probe_id p) r else r) in
                if op_conn sent \<noteq> conn \<or> op_server_send sent \<noteq> pp_server_send p then (r1, None)
                else (r1, Some \<lparr>cp_server_send = pp_server_send p,
                        cp_phone_receive = pp_phone_receive p, cp_phone_send = pp_phone_send p,
                        cp_server_receive = received\<rparr>))"

section \<open>Capture demands\<close>

record demand_receipt =
  dr_stream_epoch :: nat
  dr_generation :: nat
  dr_connection_generation :: nat
  dr_sent_at :: int
  dr_expires_at :: int

record demand_write =
  dw_conn :: nat
  dw_connection :: nat
  dw_generation :: nat
  dw_epoch :: nat

text \<open>\<open>SendCaptureDemand\<close> up to the write, and after it.\<close>

definition begin_demand :: "nat \<Rightarrow> relay \<Rightarrow> relay \<times> (string + demand_write)" where
  "begin_demand epoch r =
     (if epoch = 0 \<or> epoch > max_protocol_generation
      then (r, Inl ''capture demand stream epoch is invalid'')
      else case r_conn r of
          None \<Rightarrow> (r, Inl ''phone media socket is not current'')
        | Some c \<Rightarrow>
            if \<not> r_connected r \<or> \<not> r_desired r \<or> r_connection_generation r = 0
            then (r, Inl ''phone media socket is not current'')
            else if r_demand_generation r \<ge> max_protocol_generation
            then (r, Inl ''capture demand generation exhausted'')
            else (r\<lparr>r_demand_generation := r_demand_generation r + 1\<rparr>,
                  Inr \<lparr>dw_conn = c, dw_connection = r_connection_generation r,
                    dw_generation = r_demand_generation r + 1, dw_epoch = epoch\<rparr>))"

definition relay_demand_ttl :: int where
  "relay_demand_ttl = 2500 * millisecond"

definition demand_write_timeout :: "int \<Rightarrow> int" where
  "demand_write_timeout liveness =
     (if liveness \<le> 0 \<or> liveness > relay_demand_ttl then relay_demand_ttl else liveness)"

definition finish_demand ::
    "demand_write \<Rightarrow> int \<Rightarrow> string option \<Rightarrow> relay \<Rightarrow> string + demand_receipt" where
  "finish_demand w sent_at err r =
     (case err of
        Some e \<Rightarrow> Inl e
      | None \<Rightarrow>
          if \<not> (r_conn r = Some (dw_conn w) \<and> r_connected r \<and> r_desired r \<and>
                r_connection_generation r = dw_connection w)
          then Inl ''phone media socket changed during capture demand''
          else Inr \<lparr>dr_stream_epoch = dw_epoch w, dr_generation = dw_generation w,
                 dr_connection_generation = dw_connection w, dr_sent_at = sent_at,
                 dr_expires_at = sent_at + relay_demand_ttl\<rparr>)"

section \<open>Steps\<close>

inductive relay_step :: "relay \<Rightarrow> relay \<Rightarrow> bool" where
  viewer_added: "relay_step r (relay_add_viewer r)"
| viewer_removed: "relay_step r (relay_remove_viewer r)"
| idle_fired: "relay_step r (stop_if_still_idle r)"
| relay_closed: "relay_step r (relay_close r)"
| switched: "relay_step r (switch_backend bid attach url r)"
| loop_returned: "ctx \<in> set (r_running r) \<Longrightarrow> relay_step r (finish_connect_loop ctx r)"
| dial_begun: "ctx \<in> set (r_running r) \<Longrightarrow> relay_step r (fst (begin_dial r))"
| dial_done: "ctx \<in> set (r_running r) \<Longrightarrow> relay_step r (adopt_connection ctx attempt conn now r)"
| conn_ended: "relay_step r (drop_connection conn r)"
| message_read: "relay_step r (note_message conn now config r)"
| error_recorded: "relay_step r (record_error err r)"
| probe_begun: "relay_step r (fst (begin_probe conn t0 r))"
| probe_forgotten: "relay_step r (forget_probe k r)"
| probe_answered: "relay_step r (fst (consume_clock_probe conn payload received r))"
| demand_begun: "relay_step r (fst (begin_demand epoch r))"

inductive relay_reach :: "relay \<Rightarrow> bool" where
  init: "relay_reach relay_init"
| step: "relay_reach r \<Longrightarrow> relay_step r r' \<Longrightarrow> relay_reach r'"

end
