(* ===== verification/TrRelayInv.thy ===== *)
theory TrRelayInv
  imports TrRelay
begin

text \<open>
  The invariants of the phone relay: the ownership of the retry loop, and the outstanding clock
  probes. Each is proved for the building blocks first, then for every operation, then for every
  reachable state.
\<close>

section \<open>Ownership of the retry loop\<close>

text \<open>
  The owner is running and not cancelled; every other running loop is cancelled; contexts are fresh;
  a connection that is held is wanted.
\<close>

definition loop_ok :: "relay \<Rightarrow> bool" where
  "loop_ok r \<longleftrightarrow>
     (\<forall>c. r_loop r = Some c \<longrightarrow> c \<in> set (r_running r) \<and> c \<notin> set (r_cancelled r)) \<and>
     (\<forall>c \<in> set (r_running r). c < r_next_ctx r \<and> (r_loop r = Some c \<or> c \<in> set (r_cancelled r))) \<and>
     (\<forall>c \<in> set (r_cancelled r). c < r_next_ctx r)"

definition wanted_ok :: "relay \<Rightarrow> bool" where
  "wanted_ok r \<longleftrightarrow>
     0 \<le> r_viewers r \<and> (0 < r_viewers r \<longrightarrow> r_desired r \<and> r_loop r \<noteq> None) \<and>
     (\<not> r_desired r \<longrightarrow> r_loop r = None \<and> r_conn r = None) \<and> r_connected r = (r_conn r \<noteq> None)"

definition relay_inv :: "relay \<Rightarrow> bool" where
  "relay_inv r \<longleftrightarrow> loop_ok r \<and> wanted_ok r"

lemma relay_inv_init: "relay_inv relay_init"
  by (simp add: relay_inv_def loop_ok_def wanted_ok_def relay_init_def)

lemma loop_ok_start: "loop_ok r \<Longrightarrow> r_loop r = None \<Longrightarrow> loop_ok (start_connect_loop r)"
  by (auto simp: loop_ok_def start_connect_loop_def intro: less_SucI)

lemma loop_ok_detach: "loop_ok r \<Longrightarrow> loop_ok (detach_connection r)"
  by (auto simp: loop_ok_def detach_connection_def cancel_loop_def split: option.splits)

lemma detach_fields [simp]:
  "r_loop (detach_connection r) = None" "r_conn (detach_connection r) = None"
  "r_connected (detach_connection r) = False" "r_viewers (detach_connection r) = r_viewers r"
  "r_desired (detach_connection r) = r_desired r" "r_running (detach_connection r) = r_running r"
  "r_probes (detach_connection r) = r_probes r" "r_next_ctx (detach_connection r) = r_next_ctx r"
  "r_probe_counter (detach_connection r) = r_probe_counter r" "r_idle_stop (detach_connection r) = r_idle_stop r"
  "r_connection_generation (detach_connection r) = r_connection_generation r"
  "r_demand_generation (detach_connection r) = r_demand_generation r"
  "r_backend_id (detach_connection r) = r_backend_id r" "r_base_url (detach_connection r) = r_base_url r"
  by (simp_all add: detach_connection_def cancel_loop_def split: option.split)

lemma start_fields [simp]:
  "r_loop (start_connect_loop r) = Some (r_next_ctx r)" "r_conn (start_connect_loop r) = r_conn r"
  "r_connected (start_connect_loop r) = r_connected r" "r_viewers (start_connect_loop r) = r_viewers r"
  "r_desired (start_connect_loop r) = r_desired r" "r_idle_stop (start_connect_loop r) = r_idle_stop r"
  "r_probes (start_connect_loop r) = r_probes r" "r_probe_counter (start_connect_loop r) = r_probe_counter r"
  "r_connection_generation (start_connect_loop r) = r_connection_generation r"
  "r_demand_generation (start_connect_loop r) = r_demand_generation r"
  by (simp_all add: start_connect_loop_def)

text \<open>The invariants read only some of the fields.\<close>

lemma loop_ok_cong:
  "r_loop r' = r_loop r \<Longrightarrow> r_running r' = r_running r \<Longrightarrow> r_cancelled r' = r_cancelled r \<Longrightarrow>
   r_next_ctx r' = r_next_ctx r \<Longrightarrow> loop_ok r' = loop_ok r"
  by (simp add: loop_ok_def)

lemma loop_ok_fields [simp]:
  "loop_ok (r\<lparr>r_viewers := a\<rparr>) = loop_ok r" "loop_ok (r\<lparr>r_desired := b\<rparr>) = loop_ok r"
  "loop_ok (r\<lparr>r_idle_stop := b\<rparr>) = loop_ok r" "loop_ok (r\<lparr>r_backend_id := s\<rparr>) = loop_ok r"
  "loop_ok (r\<lparr>r_base_url := s\<rparr>) = loop_ok r" "loop_ok (r\<lparr>r_attach_name := s\<rparr>) = loop_ok r"
  "loop_ok (r\<lparr>r_last_error := s\<rparr>) = loop_ok r" "loop_ok (r\<lparr>r_last_config := bs\<rparr>) = loop_ok r"
  "loop_ok (r\<lparr>r_last_seen_at := t\<rparr>) = loop_ok r" "loop_ok (r\<lparr>r_conn := cn\<rparr>) = loop_ok r"
  "loop_ok (r\<lparr>r_connected := b\<rparr>) = loop_ok r" "loop_ok (r\<lparr>r_probes := ps\<rparr>) = loop_ok r"
  "loop_ok (r\<lparr>r_probe_counter := n\<rparr>) = loop_ok r" "loop_ok (r\<lparr>r_dial_generation := n\<rparr>) = loop_ok r"
  "loop_ok (r\<lparr>r_connection_generation := n\<rparr>) = loop_ok r" "loop_ok (r\<lparr>r_demand_generation := n\<rparr>) = loop_ok r"
  by (simp_all add: loop_ok_def)

lemma relay_inv_add: "relay_inv r \<Longrightarrow> relay_inv (relay_add_viewer r)"
  by (auto simp: relay_inv_def relay_add_viewer_def Let_def cancel_idle_stop_def wanted_ok_def loop_ok_start)

lemma relay_inv_remove: "relay_inv r \<Longrightarrow> relay_inv (relay_remove_viewer r)"
  by (auto simp: relay_inv_def relay_remove_viewer_def Let_def wanted_ok_def)

lemma relay_inv_idle: "relay_inv r \<Longrightarrow> relay_inv (stop_if_still_idle r)"
  by (auto simp: relay_inv_def stop_if_still_idle_def Let_def cancel_idle_stop_def wanted_ok_def loop_ok_detach)

lemma relay_inv_close: "relay_inv r \<Longrightarrow> relay_inv (relay_close r)"
  by (auto simp: relay_inv_def relay_close_def cancel_idle_stop_def wanted_ok_def loop_ok_detach)

lemma relay_inv_switch: "relay_inv r \<Longrightarrow> relay_inv (switch_backend bid attach url r)"
  by (auto simp: relay_inv_def switch_backend_def Let_def cancel_idle_stop_def wanted_ok_def loop_ok_detach
      loop_ok_start)

lemma loop_ok_finish: 
  assumes "loop_ok r" "r_loop r = Some ctx"
  shows "loop_ok ((cancel_loop (r\<lparr>r_running := removeAll ctx (r_running r)\<rparr>))\<lparr>r_loop := None\<rparr>)"
  using assms by (auto simp: loop_ok_def cancel_loop_def)

lemma relay_inv_finish: "relay_inv r \<Longrightarrow> relay_inv (finish_connect_loop ctx r)"
proof (cases "r_loop r = Some ctx")
  case True
  assume inv: "relay_inv r"
  then have "loop_ok ((cancel_loop (r\<lparr>r_running := removeAll ctx (r_running r)\<rparr>))\<lparr>r_loop := None\<rparr>)"
    by (simp add: loop_ok_finish True relay_inv_def)
  then show ?thesis
    using inv True
    by (auto simp: relay_inv_def finish_connect_loop_def Let_def should_run_def wanted_ok_def cancel_loop_def
        loop_ok_start)
next
  case False
  assume "relay_inv r"
  then show ?thesis
    using False by (auto simp: relay_inv_def finish_connect_loop_def loop_ok_def wanted_ok_def)
qed

lemma relay_inv_adopt: "relay_inv r \<Longrightarrow> relay_inv (adopt_connection ctx attempt conn now r)"
  by (auto simp: relay_inv_def adopt_connection_def Let_def wanted_ok_def)

lemma relay_inv_others:
  assumes "relay_inv r"
  shows "relay_inv (fst (begin_dial r))" "relay_inv (drop_connection conn r)"
    "relay_inv (note_message conn now config r)" "relay_inv (record_error err r)"
    "relay_inv (fst (begin_probe conn t0 r))" "relay_inv (forget_probe k r)"
    "relay_inv (fst (begin_demand epoch r))"
  using assms
  by (auto simp: relay_inv_def wanted_ok_def begin_dial_def drop_connection_def note_message_def record_error_def
      begin_probe_def forget_probe_def begin_demand_def Let_def split: option.splits)

lemma relay_inv_consume: "relay_inv r \<Longrightarrow> relay_inv (fst (consume_clock_probe conn payload received r))"
  by (simp add: consume_clock_probe_def Let_def relay_inv_others(6) split: option.split)

lemmas relay_inv_intros = relay_inv_add relay_inv_remove relay_inv_idle relay_inv_close relay_inv_switch
  relay_inv_finish relay_inv_adopt relay_inv_others relay_inv_consume

lemma relay_step_inv: "relay_step r r' \<Longrightarrow> relay_inv r \<Longrightarrow> relay_inv r'"
  by (induction rule: relay_step.induct) (simp_all add: relay_inv_intros)

lemma relay_reach_inv: "relay_reach r \<Longrightarrow> relay_inv r"
  by (induction rule: relay_reach.induct) (simp_all add: relay_inv_init relay_step_inv)

end
