(* ===== verification/TrRelayProbe.thy ===== *)
theory TrRelayProbe
  imports TrRelayInv
begin

text \<open>
  The phone relay's outstanding clock probes and the identity of its capture demands: identifiers
  are fresh, an answered probe is gone for good, and the pair of connection and demand generation
  only grows.
\<close>

section \<open>Identifiers\<close>

lemma probe_id_inj: "i < 2 ^ 64 \<Longrightarrow> j < 2 ^ 64 \<Longrightarrow> probe_id i = probe_id j \<Longrightarrow> i = j"
  using hex_digits_inj[of i 16 j] by (simp add: probe_id_def)

lemma hex_digit_valid: "n < 16 \<Longrightarrow> probe_id_char (hex_digit n)"
proof -
  have "list_all probe_id_char ''0123456789abcdef''"
    by (simp add: probe_id_char_def less_eq_char_def)
  then show "n < 16 \<Longrightarrow> probe_id_char (hex_digit n)"
    by (simp add: hex_digit_def list_all_length)
qed

lemma hex_digits_valid: "list_all probe_id_char (hex_digits w n)"
  by (induction w arbitrary: n) (simp_all add: hex_digit_valid)

lemma probe_id_valid: "valid_clock_probe_id (probe_id n)"
  by (simp add: valid_clock_probe_id_def probe_id_def hex_digits_valid)
    (simp add: probe_id_char_def less_eq_char_def)

section \<open>Outstanding probes\<close>

definition probes_ok :: "relay \<Rightarrow> bool" where
  "probes_ok r \<longleftrightarrow>
     length (r_probes r) \<le> 4 \<and> distinct (map fst (r_probes r)) \<and>
     (\<forall>(k, p) \<in> set (r_probes r). \<forall>c. r_conn r = Some c \<longrightarrow> op_conn p = c) \<and>
     (\<forall>k \<in> fst ` set (r_probes r). \<exists>n \<le> r_probe_counter r. k = probe_id n)"

lemma probes_ok_init: "probes_ok relay_init"
  by (simp add: probes_ok_def relay_init_def)

text \<open>An operation that touches neither the probes nor their counter, and at most detaches.\<close>

lemma probes_ok_keep:
  "probes_ok r \<Longrightarrow> r_probes r' = r_probes r \<Longrightarrow> r_probe_counter r' = r_probe_counter r \<Longrightarrow>
   r_conn r' = r_conn r \<or> r_conn r' = None \<Longrightarrow> probes_ok r'"
  by (auto simp: probes_ok_def)

lemma probes_ok_sub:
  assumes "probes_ok r" "r_probes r' = filter P (r_probes r)" "r_probe_counter r' = r_probe_counter r"
    "r_conn r' = r_conn r \<or> r_conn r' = None"
  shows "probes_ok r'"
  using assms le_trans[OF length_filter_le[of P "r_probes r"], of 4]
  by (auto simp: probes_ok_def distinct_map_filter)

lemma AList_delete_filter: "AList.delete k xs = filter (\<lambda>(k', _). k \<noteq> k') xs"
  by (simp add: AList.delete_eq)

lemma AList_update_new: "k \<notin> fst ` set xs \<Longrightarrow> AList.update k v xs = xs @ [(k, v)]"
  by (induction xs) auto

lemma relay_keeps_probes:
  "r_probes (relay_add_viewer r) = r_probes r" "r_probe_counter (relay_add_viewer r) = r_probe_counter r"
  "r_conn (relay_add_viewer r) = r_conn r"
  "r_probes (relay_remove_viewer r) = r_probes r" "r_probe_counter (relay_remove_viewer r) = r_probe_counter r"
  "r_conn (relay_remove_viewer r) = r_conn r"
  "r_probes (stop_if_still_idle r) = r_probes r" "r_probe_counter (stop_if_still_idle r) = r_probe_counter r"
  "r_conn (stop_if_still_idle r) = r_conn r \<or> r_conn (stop_if_still_idle r) = None"
  "r_probes (relay_close r) = r_probes r" "r_probe_counter (relay_close r) = r_probe_counter r"
  "r_conn (relay_close r) = None"
  "r_probes (switch_backend bid attach url r) = r_probes r"
  "r_probe_counter (switch_backend bid attach url r) = r_probe_counter r"
  "r_conn (switch_backend bid attach url r) = r_conn r \<or> r_conn (switch_backend bid attach url r) = None"
  "r_probes (finish_connect_loop ctx r) = r_probes r"
  "r_probe_counter (finish_connect_loop ctx r) = r_probe_counter r"
  "r_conn (finish_connect_loop ctx r) = r_conn r"
  by (simp_all add: relay_add_viewer_def relay_remove_viewer_def stop_if_still_idle_def relay_close_def
      switch_backend_def finish_connect_loop_def cancel_idle_stop_def cancel_loop_def Let_def split: option.split)

lemma probes_ok_adopt: "probes_ok r \<Longrightarrow> probes_ok (adopt_connection ctx attempt conn now r)"
  by (auto simp: probes_ok_def adopt_connection_def Let_def)

lemma probes_ok_drop: "probes_ok r \<Longrightarrow> probes_ok (drop_connection conn r)"
  by (erule probes_ok_sub[where P = "\<lambda>(_, p). op_conn p \<noteq> conn"]) (simp_all add: drop_connection_def Let_def)

lemma probes_ok_forget: "probes_ok r \<Longrightarrow> probes_ok (forget_probe k r)"
  by (erule probes_ok_sub[where P = "\<lambda>(k', _). k \<noteq> k'"]) (simp_all add: forget_probe_def AList_delete_filter)

lemma probes_ok_consume: "probes_ok r \<Longrightarrow> probes_ok (fst (consume_clock_probe conn payload received r))"
  by (simp add: consume_clock_probe_def Let_def probes_ok_forget split: option.split)

text \<open>Identifiers are fresh while the counter has not wrapped.\<close>

definition counting :: "relay \<Rightarrow> bool" where
  "counting r \<longleftrightarrow> r_probe_counter r < 2 ^ 64"

lemma probe_id_fresh:
  assumes "probes_ok r" "r_probe_counter r + 1 < 2 ^ 64"
  shows "probe_id (r_probe_counter r + 1) \<notin> fst ` set (r_probes r)"
proof
  assume "probe_id (r_probe_counter r + 1) \<in> fst ` set (r_probes r)"
  then obtain n where n: "n \<le> r_probe_counter r" "probe_id (r_probe_counter r + 1) = probe_id n"
    using assms(1) by (auto simp: probes_ok_def)
  then show False
    using probe_id_inj[of "r_probe_counter r + 1" n] assms(2) by simp
qed

lemma probes_ok_begin:
  assumes ok: "probes_ok r" and room: "r_probe_counter r + 1 < 2 ^ 64"
  shows "probes_ok (fst (begin_probe conn t0 r))"
proof (cases "t0 \<le> 0 \<or> r_conn r \<noteq> Some conn")
  case True
  then show ?thesis using ok by (simp add: begin_probe_def)
next
  case False
  define kept where
    "kept = (if 4 \<le> length (r_probes r) then filter (\<lambda>(_, p). op_conn p \<noteq> conn) (r_probes r) else r_probes r)"
  have own: "op_conn p = conn" if "(k, p) \<in> set (r_probes r)" for k p
    using that ok False by (auto simp: probes_ok_def)
  have cleared: "filter (\<lambda>(_, p). op_conn p \<noteq> conn) (r_probes r) = []"
    using own by (auto simp: filter_empty_conv)
  have kept: "kept = (if 4 \<le> length (r_probes r) then [] else r_probes r)"
    by (simp add: kept_def cleared)
  have short: "length kept < 4" and sub: "set kept \<subseteq> set (r_probes r)" and dist: "distinct (map fst kept)"
    using ok by (auto simp: kept probes_ok_def)
  have new: "probe_id (r_probe_counter r + 1) \<notin> fst ` set kept"
    using probe_id_fresh[OF ok room] sub by blast
  have keys: "\<exists>n \<le> r_probe_counter r + 1. k = probe_id n" if "k \<in> fst ` set kept" for k
    using that ok sub unfolding probes_ok_def by (meson image_mono le_SucI subsetD trans_le_add1)
  show ?thesis
    using False short dist new keys own sub
    by (auto simp: begin_probe_def Let_def kept_def[symmetric] AList_update_new probes_ok_def)
qed

lemmas probes_ok_kept = probes_ok_keep[OF _ relay_keeps_probes(7-9)] probes_ok_keep[OF _ relay_keeps_probes(13-15)]

lemma probes_ok_step:
  "relay_step r r' \<Longrightarrow> probes_ok r \<Longrightarrow> r_probe_counter r + 1 < 2 ^ 64 \<Longrightarrow> probes_ok r'"
proof (induction rule: relay_step.induct)
  case (dial_begun ctx r)
  then show ?case by (erule_tac probes_ok_keep) (simp_all add: begin_dial_def)
next
  case (message_read r conn now config)
  then show ?case
    by (erule_tac probes_ok_keep) (simp_all add: note_message_def Let_def split: option.split)
next
  case (error_recorded r err)
  then show ?case by (erule_tac probes_ok_keep) (simp_all add: record_error_def split: option.split)
next
  case (demand_begun r epoch)
  then show ?case by (erule_tac probes_ok_keep) (simp_all add: begin_demand_def split: option.split)
qed (simp_all add: probes_ok_kept probes_ok_keep[OF _ relay_keeps_probes(1-2)]
    probes_ok_keep[OF _ relay_keeps_probes(4-5)] probes_ok_keep[OF _ relay_keeps_probes(10-11)]
    probes_ok_keep[OF _ relay_keeps_probes(16-17)] relay_keeps_probes probes_ok_adopt probes_ok_drop
    probes_ok_forget probes_ok_consume probes_ok_begin)

section \<open>What later steps cannot bring back\<close>

text \<open>A spent identifier was drawn from the counter and is not outstanding.\<close>

definition spent :: "string \<Rightarrow> relay \<Rightarrow> bool" where
  "spent k r \<longleftrightarrow> (\<exists>m \<le> r_probe_counter r. k = probe_id m) \<and> k \<notin> fst ` set (r_probes r)"

lemma spent_sub:
  "spent k r \<Longrightarrow> r_probe_counter r \<le> r_probe_counter r' \<Longrightarrow> set (r_probes r') \<subseteq> set (r_probes r) \<Longrightarrow> spent k r'"
  unfolding spent_def using le_trans by blast

lemma counter_step: "relay_step r r' \<Longrightarrow> r_probe_counter r \<le> r_probe_counter r' \<and> r_probe_counter r' \<le> r_probe_counter r + 1"
  by (induction rule: relay_step.induct)
    (auto simp: relay_keeps_probes begin_dial_def adopt_connection_def drop_connection_def note_message_def
      record_error_def begin_probe_def forget_probe_def consume_clock_probe_def begin_demand_def Let_def
      split: option.split)

lemma set_delete_subset: "set (AList.delete k xs) \<subseteq> set xs"
  by (auto simp: AList_delete_filter)

lemma spent_begin_probe:
  assumes sp: "spent k r" and room: "r_probe_counter r + 1 < 2 ^ 64"
  shows "spent k (fst (begin_probe conn t0 r))"
proof -
  obtain m where m: "m \<le> r_probe_counter r" "k = probe_id m"
    using sp by (auto simp: spent_def)
  then have "k \<noteq> probe_id (r_probe_counter r + 1)"
    using probe_id_inj[of m "r_probe_counter r + 1"] room by auto
  moreover have "k \<notin> fst ` set (r_probes r)"
    using sp by (simp add: spent_def)
  ultimately show ?thesis
    using m by (auto simp: begin_probe_def Let_def spent_def dom_update intro!: exI[of _ m])
qed

lemma spent_step: "relay_step r r' \<Longrightarrow> spent k r \<Longrightarrow> r_probe_counter r + 1 < 2 ^ 64 \<Longrightarrow> spent k r'"
proof (cases rule: relay_step.cases, assumption)
  fix conn t0
  assume "r' = fst (begin_probe conn t0 r)" "spent k r" "r_probe_counter r + 1 < 2 ^ 64"
  then show "spent k r'" by (simp add: spent_begin_probe)
qed (auto elim!: spent_sub simp: relay_keeps_probes begin_dial_def adopt_connection_def drop_connection_def note_message_def
      record_error_def forget_probe_def consume_clock_probe_def begin_demand_def Let_def
      split: option.split dest: set_mp[OF set_delete_subset])

end
