(* ===== verification/TrRelayClaims.thy ===== *)
theory TrRelayClaims
  imports TrRelayProbe
begin

text \<open>The properties of the phone relay, over any interleaving of its operations.\<close>

section \<open>Runs\<close>

lemma relpowp_reach: "(relay_step ^^ n) relay_init r \<Longrightarrow> relay_reach r"
  by (induction n arbitrary: r) (auto intro: relay_reach.intros elim!: relpowp_Suc_E)

lemma counter_run: "(relay_step ^^ n) r r' \<Longrightarrow> r_probe_counter r' \<le> r_probe_counter r + n"
proof (induction n arbitrary: r')
  case (Suc n)
  then obtain r1 where "(relay_step ^^ n) r r1" "relay_step r1 r'"
    by (auto elim: relpowp_Suc_E)
  then show ?case
    using Suc.IH[of r1] counter_step[of r1 r'] by simp
qed simp

lemma spent_run: "(relay_step ^^ n) r r' \<Longrightarrow> spent k r \<Longrightarrow> r_probe_counter r + n < 2 ^ 64 \<Longrightarrow> spent k r'"
proof (induction n arbitrary: r')
  case (Suc n)
  then obtain r1 where r1: "(relay_step ^^ n) r r1" "relay_step r1 r'"
    by (auto elim: relpowp_Suc_E)
  have "spent k r1"
    using Suc r1(1) by simp
  moreover have "r_probe_counter r1 + 1 < 2 ^ 64"
    using counter_run[OF r1(1)] Suc.prems(3) by simp
  ultimately show ?case
    by (rule spent_step[OF r1(2)])
qed simp

lemma probes_ok_run: "(relay_step ^^ n) relay_init r \<Longrightarrow> n < 2 ^ 64 \<Longrightarrow> probes_ok r"
proof (induction n arbitrary: r)
  case (Suc n)
  then obtain r1 where r1: "(relay_step ^^ n) relay_init r1" "relay_step r1 r"
    by (auto elim: relpowp_Suc_E)
  have "r_probe_counter r1 + 1 < 2 ^ 64"
    using counter_run[OF r1(1)] Suc.prems(2) by (simp add: relay_init_def)
  then show ?case
    using probes_ok_step[OF r1(2)] Suc.IH[OF r1(1)] Suc.prems(2) by simp
qed (simp add: probes_ok_init)

text \<open>The identity of the demands: only an adopted connection changes the connection generation.\<close>

definition identity_le :: "nat \<times> nat \<Rightarrow> nat \<times> nat \<Rightarrow> bool" where
  "identity_le a b \<longleftrightarrow> fst a < fst b \<or> (fst a = fst b \<and> snd a \<le> snd b)"

definition demand_identity :: "relay \<Rightarrow> nat \<times> nat" where
  "demand_identity r = (r_connection_generation r, r_demand_generation r)"

lemma identity_le_trans: "identity_le a b \<Longrightarrow> identity_le b c \<Longrightarrow> identity_le a c"
  by (auto simp: identity_le_def)

lemma identity_keeps:
  "demand_identity (relay_add_viewer r) = demand_identity r"
  "demand_identity (relay_remove_viewer r) = demand_identity r"
  "demand_identity (stop_if_still_idle r) = demand_identity r"
  "demand_identity (relay_close r) = demand_identity r"
  "demand_identity (switch_backend bid attach url r) = demand_identity r"
  "demand_identity (finish_connect_loop ctx r) = demand_identity r"
  "demand_identity (fst (begin_dial r)) = demand_identity r"
  "demand_identity (drop_connection conn r) = demand_identity r"
  "demand_identity (note_message conn now config r) = demand_identity r"
  "demand_identity (record_error err r) = demand_identity r"
  "demand_identity (fst (begin_probe conn t0 r)) = demand_identity r"
  "demand_identity (forget_probe k r) = demand_identity r"
  "demand_identity (fst (consume_clock_probe conn payload received r)) = demand_identity r"
  by (simp_all add: demand_identity_def relay_add_viewer_def relay_remove_viewer_def stop_if_still_idle_def
      relay_close_def switch_backend_def finish_connect_loop_def begin_dial_def drop_connection_def
      note_message_def record_error_def begin_probe_def forget_probe_def consume_clock_probe_def
      cancel_idle_stop_def cancel_loop_def Let_def split: option.split)

lemma identity_step:
  "relay_step r r' \<Longrightarrow> r_connection_generation r < max_protocol_generation \<Longrightarrow>
   identity_le (demand_identity r) (demand_identity r') \<and> r_connection_generation r' \<le> r_connection_generation r + 1"
proof (induction rule: relay_step.induct)
  case (dial_done ctx r attempt conn now)
  then show ?case
    by (simp add: adopt_connection_def Let_def identity_le_def demand_identity_def)
next
  case (demand_begun r epoch)
  then show ?case
    by (simp add: begin_demand_def identity_le_def demand_identity_def split: option.split)
qed (simp_all only: identity_keeps, simp_all add: identity_le_def demand_identity_def relay_keeps_probes
      identity_keeps[unfolded demand_identity_def prod.inject])

lemma identity_run:
  "(relay_step ^^ n) r r' \<Longrightarrow> r_connection_generation r + n \<le> max_protocol_generation \<Longrightarrow>
   identity_le (demand_identity r) (demand_identity r') \<and> r_connection_generation r' \<le> r_connection_generation r + n"
proof (induction n arbitrary: r')
  case 0
  then show ?case by (simp add: identity_le_def)
next
  case (Suc n)
  then obtain r1 where r1: "(relay_step ^^ n) r r1" "relay_step r1 r'"
    by (auto elim: relpowp_Suc_E)
  have ih: "identity_le (demand_identity r) (demand_identity r1)"
      "r_connection_generation r1 \<le> r_connection_generation r + n"
    using Suc.IH[OF r1(1)] Suc.prems(2) by simp_all
  have "identity_le (demand_identity r1) (demand_identity r')"
      "r_connection_generation r' \<le> r_connection_generation r1 + 1"
    using identity_step[OF r1(2)] ih(2) Suc.prems(2) by simp_all
  then show ?case
    using ih identity_le_trans by auto
qed

section \<open>Properties\<close>

text \<open>
  C10. In every reachable state of the phone relay, whatever the interleaving of viewers, idle
  timers, closing, backend switches, returning loops and dials: a relay with viewers is wanted and
  its retry loop has an owner that runs and is not cancelled, so no viewer is left without
  reconnection; no second loop runs uncancelled; and a relay that is not wanted holds no connection
  and every loop still running is cancelled.
\<close>

theorem relay_no_stranded_viewer:
  assumes "relay_reach r"
  shows "(0 < r_viewers r \<longrightarrow>
            r_desired r \<and> (\<exists>c. r_loop r = Some c \<and> c \<in> set (r_running r) \<and> c \<notin> set (r_cancelled r))) \<and>
         (\<forall>c \<in> set (r_running r). c \<notin> set (r_cancelled r) \<longrightarrow> r_loop r = Some c) \<and>
         (\<not> r_desired r \<longrightarrow> r_conn r = None \<and> (\<forall>c \<in> set (r_running r). c \<in> set (r_cancelled r)))"
proof -
  have "loop_ok r" and wanted: "wanted_ok r"
    using relay_reach_inv[OF assms] by (simp_all add: relay_inv_def)
  then have owner: "c \<in> set (r_running r) \<and> c \<notin> set (r_cancelled r)" if "r_loop r = Some c" for c
    using that by (simp add: loop_ok_def)
  have others: "r_loop r = Some c \<or> c \<in> set (r_cancelled r)" if "c \<in> set (r_running r)" for c
    using that \<open>loop_ok r\<close> by (simp add: loop_ok_def)
  have viewed: "r_desired r \<and> r_loop r \<noteq> None" if "0 < r_viewers r"
    using wanted that by (simp add: wanted_ok_def)
  have unwanted: "r_loop r = None \<and> r_conn r = None" if "\<not> r_desired r"
    using wanted that by (simp add: wanted_ok_def)
  show ?thesis
  proof (intro conjI impI ballI)
    assume "0 < r_viewers r"
    then show "\<exists>c. r_loop r = Some c \<and> c \<in> set (r_running r) \<and> c \<notin> set (r_cancelled r)"
      using viewed owner by auto
  next
    fix c assume "c \<in> set (r_running r)" "c \<notin> set (r_cancelled r)"
    then show "r_loop r = Some c" using others by blast
  next
    fix c assume "\<not> r_desired r" "c \<in> set (r_running r)"
    then show "c \<in> set (r_cancelled r)" using others unwanted by fastforce
  next
    show "0 < r_viewers r \<Longrightarrow> r_desired r" by (drule viewed) (erule conjunct1)
  next
    show "\<not> r_desired r \<Longrightarrow> r_conn r = None" by (drule unwanted) (erule conjunct2)
  qed
qed

definition one_viewer :: relay where
  "one_viewer = relay_add_viewer relay_init"

lemma one_viewer_reach: "relay_reach one_viewer"
  unfolding one_viewer_def by (rule relay_reach.step[OF relay_reach.init relay_step.viewer_added])

theorem relay_no_stranded_viewer_witness:
  "0 < r_viewers one_viewer \<and> (\<exists>c. r_loop one_viewer = Some c \<and> c \<in> set (r_running one_viewer))"
proof
  show "0 < r_viewers one_viewer"
    by (simp add: one_viewer_def relay_add_viewer_def relay_init_def cancel_idle_stop_def)
  then show "\<exists>c. r_loop one_viewer = Some c \<and> c \<in> set (r_running one_viewer)"
    using relay_no_stranded_viewer[OF one_viewer_reach] by blast
qed

text \<open>
  A dial that completes changes the relay's connection only for the loop that owns it, while
  the relay is wanted and no later dial has begun: the socket of a retired loop, or of a relay that
  was closed or went idle meanwhile, is never adopted. The connection then starts with no probe
  outstanding and with its own demand numbering.
\<close>

theorem only_owner_connects:
  assumes "relay_reach r" "ctx \<in> set (r_running r)"
    "adopt_connection ctx attempt conn now r \<noteq> r"
  shows "r_loop r = Some ctx \<and> r_desired r \<and> r_dial_generation r = attempt \<and>
         r_conn (adopt_connection ctx attempt conn now r) = Some conn \<and>
         r_probes (adopt_connection ctx attempt conn now r) = [] \<and>
         r_demand_generation (adopt_connection ctx attempt conn now r) = 0"
proof -
  have "r_desired r" "r_dial_generation r = attempt" "ctx \<notin> set (r_cancelled r)"
    using assms(3) by (simp_all add: adopt_connection_def split: if_splits)
  then show ?thesis
    using relay_reach_inv[OF assms(1)] assms(2)
    by (auto simp: adopt_connection_def Let_def relay_inv_def loop_ok_def)
qed

definition dialing :: relay where
  "dialing = fst (begin_dial one_viewer)"

definition connected_relay :: relay where
  "connected_relay = adopt_connection 0 1 0 5 dialing"

lemmas sample_relay_defs = connected_relay_def dialing_def one_viewer_def relay_add_viewer_def relay_init_def
  cancel_idle_stop_def start_connect_loop_def begin_dial_def adopt_connection_def max_protocol_generation_def

lemma dialing_reach: "relay_reach dialing"
  unfolding dialing_def
  by (rule relay_reach.step[OF one_viewer_reach], rule relay_step.dial_begun[of 0])
    (simp add: sample_relay_defs)

theorem only_owner_connects_witness: "r_loop dialing = Some 0 \<and> r_conn connected_relay = Some 0"
proof -
  have "adopt_connection 0 1 0 5 dialing \<noteq> dialing"
    by (simp add: sample_relay_defs)
  then show ?thesis
    using only_owner_connects[OF dialing_reach, of 0 1 0 5]
    by (simp add: connected_relay_def) (simp add: sample_relay_defs)
qed

text \<open>
  A clock probe result is accepted only as the answer to a probe outstanding on the very
  connection it arrived on and with the send time the relay recorded for it, and only with a phone
  interval that does not run backwards; and once accepted, the same probe is refused for ever: no
  later message on any connection completes it again, however the relay goes on within the range of
  its 64-bit probe counter.
\<close>

theorem probe_answered_once:
  assumes run: "(relay_step ^^ m) relay_init r"
    and ans: "consume_clock_probe conn (Some pl) t r = (r', Some p)"
    and later: "(relay_step ^^ n) r' r''" and room: "m + n < 2 ^ 64"
  shows "map_of (r_probes r) (pp_probe_id pl) = Some \<lparr>op_conn = conn, op_server_send = cp_server_send p\<rparr> \<and>
         0 < cp_server_send p \<and> 0 < cp_phone_receive p \<and> cp_phone_receive p \<le> cp_phone_send p \<and>
         cp_server_receive p = t \<and>
         (\<forall>conn2 pl2 t2. pp_probe_id pl2 = pp_probe_id pl \<longrightarrow>
            snd (consume_clock_probe conn2 (Some pl2) t2 r'') = None)"
proof -
  have ok: "probes_ok r"
    using probes_ok_run[OF run] room by simp
  obtain sent where sent: "map_of (r_probes r) (pp_probe_id pl) = Some sent" "op_conn sent = conn"
      "op_server_send sent = pp_server_send pl" "r' = forget_probe (pp_probe_id pl) r"
      "p = \<lparr>cp_server_send = pp_server_send pl, cp_phone_receive = pp_phone_receive pl,
            cp_phone_send = pp_phone_send pl, cp_server_receive = t\<rparr>"
      "0 < pp_server_send pl" "0 < pp_phone_receive pl" "pp_phone_receive pl \<le> pp_phone_send pl"
    using ans by (auto simp: consume_clock_probe_def Let_def split: if_splits option.splits)
  have "pp_probe_id pl \<in> fst ` set (r_probes r)"
    using sent(1) by (metis map_of_SomeD fst_conv image_eqI)
  then obtain k where "k \<le> r_probe_counter r" "pp_probe_id pl = probe_id k"
    using ok by (auto simp: probes_ok_def)
  then have "spent (pp_probe_id pl) r'"
    by (auto simp: spent_def sent(4) forget_probe_def AList_delete_filter)
  moreover have "r_probe_counter r' + n < 2 ^ 64"
    using counter_run[OF run] room by (simp add: sent(4) forget_probe_def relay_init_def)
  ultimately have "spent (pp_probe_id pl) r''"
    by (rule spent_run[OF later])
  then have "map_of (r_probes r'') (pp_probe_id pl) = None"
    by (simp add: spent_def map_of_eq_None_iff)
  then have "snd (consume_clock_probe conn2 (Some pl2) t2 r'') = None"
    if "pp_probe_id pl2 = pp_probe_id pl" for conn2 pl2 t2
    using that by (simp add: consume_clock_probe_def)
  then show ?thesis
    using sent by (cases sent) simp
qed

definition probing :: relay where
  "probing = fst (begin_probe 0 1000 connected_relay)"

definition sample_payload :: probe_payload where
  "sample_payload = \<lparr>pp_probe_id = probe_id 1, pp_server_send = 1000, pp_phone_receive = 20, pp_phone_send = 30\<rparr>"

lemma probing_run: "(relay_step ^^ 4) relay_init probing"
proof -
  have "relay_step relay_init one_viewer" "relay_step one_viewer dialing"
      "relay_step dialing connected_relay" "relay_step connected_relay probing"
    unfolding one_viewer_def[symmetric] dialing_def connected_relay_def probing_def
    by (auto simp: one_viewer_def intro!: relay_step.intros) (simp_all add: sample_relay_defs)
  then show ?thesis
    by (simp add: eval_nat_numeral relcompp_apply) blast
qed

lemma probing_probes: "r_probes probing = [(probe_id 1, \<lparr>op_conn = 0, op_server_send = 1000\<rparr>)]"
  by (simp add: probing_def begin_probe_def sample_relay_defs Let_def)

theorem probe_answered_once_witness:
  "\<exists>r' p. consume_clock_probe 0 (Some sample_payload) 1100 probing = (r', Some p) \<and>
     snd (consume_clock_probe 0 (Some sample_payload) 1200 r') = None"
proof -
  obtain r' p where ans: "consume_clock_probe 0 (Some sample_payload) 1100 probing = (r', Some p)"
    by (simp add: consume_clock_probe_def sample_payload_def probing_probes probe_id_valid Let_def)
  then show ?thesis
    using probe_answered_once[OF probing_run ans, of 0 r'] by auto
qed

text \<open>
  No two capture demands of a relay carry the same identity: of two demands started on it, the
  later has a larger connection generation, or the same one and a larger demand generation, for any
  sequence of other operations between them that does not run through all 2^53 connection
  generations. A stale receipt can therefore never be mistaken for the current one.
\<close>

theorem demand_identity_fresh:
  assumes first: "begin_demand e1 r = (r1, Inr w1)" and run: "(relay_step ^^ n) r1 r2"
    and second: "begin_demand e2 r2 = (r3, Inr w2)"
    and room: "r_connection_generation r + n \<le> max_protocol_generation"
  shows "dw_connection w1 < dw_connection w2 \<or>
         (dw_connection w1 = dw_connection w2 \<and> dw_generation w1 < dw_generation w2)"
proof -
  have "demand_identity r1 = (dw_connection w1, dw_generation w1)"
      "r_connection_generation r1 = r_connection_generation r"
    using first by (auto simp: begin_demand_def demand_identity_def split: if_splits option.splits)
  moreover have "demand_identity r2 = (dw_connection w2, dw_generation w2 - 1)" "0 < dw_generation w2"
    using second by (auto simp: begin_demand_def demand_identity_def split: if_splits option.splits)
  ultimately show ?thesis
    using identity_run[OF run] room by (auto simp: identity_le_def)
qed

theorem demand_identity_fresh_witness:
  "\<exists>w1 w2 r1. begin_demand 7 connected_relay = (r1, Inr w1) \<and>
     (\<exists>r3. begin_demand 7 r1 = (r3, Inr w2)) \<and> dw_generation w1 < dw_generation w2"
proof -
  obtain r1 w1 where a: "begin_demand 7 connected_relay = (r1, Inr w1)" "dw_connection w1 = 1"
    by (simp add: begin_demand_def sample_relay_defs)
  obtain r3 w2 where b: "begin_demand 7 r1 = (r3, Inr w2)" "dw_connection w2 = 1"
    using a(1) by (auto simp: begin_demand_def sample_relay_defs)
  show ?thesis
    using demand_identity_fresh[OF a(1), of 0 r1, OF _ b(1)] a b
    by (auto simp: sample_relay_defs)
qed

text \<open>
  A backend switch that arrives while the stop of an idle relay is pending cancels that stop
  without replacing it: the relay stays wanted, reports that it is connecting, and has neither a
  viewer nor a retry loop nor a timer that would ever change this.
\<close>

theorem switch_forgets_idle_stop:
  assumes "r_viewers r = 1" "r_desired r"
    "r_backend_id r \<noteq> trim_space bid \<or> r_base_url r \<noteq> trim_right_slash (trim_space url)"
  shows "r_idle_stop (relay_remove_viewer r) \<and>
         (let r' = switch_backend bid attach url (relay_remove_viewer r)
          in \<not> r_idle_stop r' \<and> r_viewers r' = 0 \<and> r_loop r' = None \<and> r_conn r' = None \<and> r_desired r' \<and>
             stream_state r' = ''connecting'')"
  using assms
  by (auto simp: relay_remove_viewer_def switch_backend_def cancel_idle_stop_def stream_state_def Let_def)

theorem switch_forgets_idle_stop_witness:
  "r_desired (switch_backend ''b'' ''b'' ''u'' (relay_remove_viewer one_viewer))"
proof -
  have "trim_space ''b'' = ''b''"
    by (rule trim_space_plain) (simp_all add: plain_char_def)
  then show ?thesis
    using switch_forgets_idle_stop[of one_viewer "''b''" "''u''" "''b''"]
    by (simp add: sample_relay_defs Let_def)
qed

end
