(* ===== verification/TrWriter.thy ===== *)
theory TrWriter
  imports TrFrames
begin

text \<open>
  ticket-remote, the writer of one viewer's socket
  (workloads/ticket-remote/internal/web/video_writer.go): a bounded control queue, one pending and
  one in-flight frame, the credit a written frame takes until the browser acknowledges it, and the
  feedback. The mutex of the client makes each locked section one step. A queued frame has a number
  that stands for its address, which the code compares. The JSON of configurations and feedback is
  decoded and encoded by the standard library: decoded fields and the re-encoded configuration are
  arguments.
\<close>

section \<open>State\<close>

record queued_control =
  qc_data :: bytes
  qc_config :: bool
  qc_epoch :: "64 word"
  qc_generation :: "64 word"

record queued_frame =
  qf_id :: nat
  qf_data :: bytes
  qf_meta :: tsf3
  qf_queued_at :: int
  qf_visual_age :: int
  qf_generation :: "64 word"

record vclient =
  vc_closed :: bool
  vc_close_reason :: string
  vc_controls :: "queued_control list"
  vc_control_bytes :: int
  vc_pending :: "queued_frame option"
  vc_in_flight :: "queued_frame option"
  vc_receipt :: "64 word"
  vc_receipt_deadline :: int
  vc_epoch :: "64 word"
  vc_generation :: "64 word"
  vc_written_epoch :: "64 word"
  vc_written_generation :: "64 word"
  vc_written :: "64 word"
  vc_evidence :: "64 word list"
  vc_received :: "64 word"
  vc_decoded :: "64 word"
  vc_rendered :: "64 word"
  vc_presented :: "64 word"
  vc_visibility :: string
  vc_ready :: bool
  vc_wake :: bool
  vc_next_id :: nat
  vc_last_probe_at :: int
  vc_probe_dropped :: nat

definition vclient_init :: vclient where
  "vclient_init = \<lparr>vc_closed = False, vc_close_reason = [], vc_controls = [], vc_control_bytes = 0,
     vc_pending = None, vc_in_flight = None, vc_receipt = 0, vc_receipt_deadline = zero_time, vc_epoch = 0,
     vc_generation = 0, vc_written_epoch = 0, vc_written_generation = 0, vc_written = 0, vc_evidence = [],
     vc_received = 0, vc_decoded = 0, vc_rendered = 0, vc_presented = 0, vc_visibility = [], vc_ready = False,
     vc_wake = False, vc_next_id = 0, vc_last_probe_at = zero_time, vc_probe_dropped = 0\<rparr>"

text \<open>\<open>vc_wake\<close> is the one-slot channel \<open>writerWake\<close>.\<close>

definition signal_writer :: "vclient \<Rightarrow> vclient" where
  "signal_writer c = c\<lparr>vc_wake := True\<rparr>"

definition clear_video_receipt :: "vclient \<Rightarrow> vclient" where
  "clear_video_receipt c = c\<lparr>vc_receipt := 0, vc_receipt_deadline := zero_time\<rparr>"

section \<open>Freshness of a queued frame\<close>

definition live_fresh_max_age :: int where
  "live_fresh_max_age = 3000 * millisecond"

definition wall_clock_floor :: "64 word" where
  "wall_clock_floor = 1000000000000000"

definition meta_visual_age :: "tsf3 \<Rightarrow> int \<Rightarrow> int \<times> bool" where
  "meta_visual_age m now =
     (if m_version m \<noteq> 3 \<or> m_timestamp m < wall_clock_floor \<or> m_timestamp m > 9223372036854775807 then (0, False)
      else let age = time_sub now (time_unix_micro (uint (m_timestamp m))) in
        if age < - future_tolerance then (0, False)
        else if m_uncertainty m > 2000000 then (0, False)
        else let age' = i64 (max 0 age + uint (m_uncertainty m) * 1000) in (age', age' \<le> live_fresh_max_age))"

definition queued_frame_expired :: "queued_frame \<Rightarrow> int \<Rightarrow> bool" where
  "queued_frame_expired f now =
     (if qf_queued_at f = zero_time then False
      else i64 (qf_visual_age f + max 0 (time_sub now (qf_queued_at f))) > live_fresh_max_age)"

definition queued_frame_expires_at :: "queued_frame \<Rightarrow> int" where
  "queued_frame_expires_at f =
     (if qf_queued_at f = zero_time then zero_time
      else qf_queued_at f + max 0 (i64 (live_fresh_max_age - qf_visual_age f)))"

definition frame_write_deadline :: "queued_frame \<Rightarrow> int \<Rightarrow> int" where
  "frame_write_deadline f now =
     (let deadline = queued_frame_expires_at f; maximum = now + live_fresh_max_age
      in if deadline = zero_time \<or> maximum < deadline then maximum else deadline)"

definition write_failure_reason :: "string option \<Rightarrow> bool \<Rightarrow> string" where
  "write_failure_reason err timed_out =
     (if timed_out then ''write_timeout'' else if err = None then [] else ''write_failed'')"

section \<open>The control queue\<close>

definition control_max_messages :: nat where "control_max_messages = 16"
definition control_max_bytes :: int where "control_max_bytes = 65536"

definition blen :: "queued_control \<Rightarrow> int" where
  "blen m = int (length (qc_data m))"

text \<open>
  \<open>videoConfigWithFeedback\<close>: \<open>tag\<close> decodes the message, which must be a configuration, and encodes it
  with the feedback fields; a generation of zero, which a wrapped counter would give, is refused.
\<close>

definition config_with_feedback :: "(bytes \<Rightarrow> 64 word \<Rightarrow> bytes option) \<Rightarrow> bytes \<Rightarrow> 64 word \<Rightarrow> bytes option" where
  "config_with_feedback tag data g = (if g = 0 then None else tag data g)"

text \<open>The loop that makes room; \<open>None\<close> where only configurations are left and the message is not one.\<close>

fun drop_first :: "('a \<Rightarrow> bool) \<Rightarrow> 'a list \<Rightarrow> 'a list" where
  "drop_first P [] = []"
| "drop_first P (x # xs) = (if P x then xs else x # drop_first P xs)"

definition queue_full :: "int \<Rightarrow> queued_control list \<Rightarrow> int \<Rightarrow> bool" where
  "queue_full len q bytes \<longleftrightarrow> control_max_messages \<le> length q \<or> control_max_bytes < bytes + len"

definition find_control :: "queued_control list \<Rightarrow> queued_control option" where
  "find_control q = find (\<lambda>m. \<not> qc_config m) q"

function make_room :: "bool \<Rightarrow> int \<Rightarrow> queued_control list \<Rightarrow> int \<Rightarrow> (queued_control list \<times> int) option" where
  "make_room config len q bytes =
     (if \<not> queue_full len q bytes then Some (q, bytes)
      else case q of
          [] \<Rightarrow> None
        | first # rest \<Rightarrow>
            (case find_control q of
               Some m \<Rightarrow> make_room config len (drop_first (\<lambda>x. \<not> qc_config x) q) (bytes - blen m)
             | None \<Rightarrow> if \<not> config then None else make_room config len rest (bytes - blen first)))"
  by pat_completeness auto

lemma drop_first_length: "\<exists>x \<in> set xs. P x \<Longrightarrow> length (drop_first P xs) < length xs"
  by (induction xs) auto

lemma find_control_mem: "find_control q = Some m \<Longrightarrow> m \<in> set q \<and> \<not> qc_config m"
  by (auto simp: find_control_def find_Some_iff)

lemma drop_control_shorter:
  "find_control q = Some m \<Longrightarrow> length (drop_first (\<lambda>x. \<not> qc_config x) q) < length q"
  by (rule drop_first_length) (use find_control_mem in blast)

termination make_room
  by (relation "measure (\<lambda>(_, _, q, _). length q)") (use drop_control_shorter in fastforce)+

declare make_room.simps [simp del]

text \<open>A new configuration supersedes the configurations queued and all media.\<close>

definition supersede :: "64 word \<Rightarrow> 64 word \<Rightarrow> vclient \<Rightarrow> vclient" where
  "supersede epoch g c =
     clear_video_receipt (c\<lparr>vc_in_flight := None,
       vc_control_bytes := vc_control_bytes c - sum_list (map blen (filter qc_config (vc_controls c))),
       vc_controls := filter (\<lambda>m. \<not> qc_config m) (vc_controls c),
       vc_pending := None, vc_epoch := epoch, vc_generation := g, vc_written_epoch := 0,
       vc_written_generation := 0, vc_written := 0, vc_evidence := [], vc_received := 0, vc_decoded := 0,
       vc_rendered := 0, vc_presented := 0\<rparr>)"

definition push_control :: "queued_control \<Rightarrow> vclient \<Rightarrow> vclient \<times> bool" where
  "push_control m c =
     (case make_room (qc_config m) (blen m) (vc_controls c) (vc_control_bytes c) of
        None \<Rightarrow> (c, False)
      | Some (q, bytes) \<Rightarrow> (c\<lparr>vc_controls := q @ [m], vc_control_bytes := bytes + blen m\<rparr>, True))"

definition enqueue_control_locked ::
    "(bytes \<Rightarrow> 64 word \<Rightarrow> bytes option) \<Rightarrow> queued_control \<Rightarrow> vclient \<Rightarrow> vclient \<times> bool" where
  "enqueue_control_locked tag m0 c =
     (if vc_closed c then (c, False)
      else let g = vc_generation c + 1;
               tagged = (if qc_config m0 then config_with_feedback tag (qc_data m0) g else Some (qc_data m0))
        in case tagged of
            None \<Rightarrow> (c, False)
          | Some data \<Rightarrow>
              if data = [] \<or> int (length data) > control_max_bytes then (c, False)
              else if qc_config m0
              then push_control (m0\<lparr>qc_data := data, qc_generation := g\<rparr>) (supersede (qc_epoch m0) g c)
              else push_control (m0\<lparr>qc_data := data\<rparr>) c)"

text \<open>
  \<open>enqueueControl\<close>: \<open>kind\<close> are the decoded type and epoch, empty where decoding fails. The signal
  after the lock belongs to the step.
\<close>

definition enqueue_control ::
    "(bytes \<Rightarrow> 64 word \<Rightarrow> bytes option) \<Rightarrow> bytes \<Rightarrow> string \<times> 64 word \<Rightarrow> vclient \<Rightarrow> vclient" where
  "enqueue_control tag data kind c =
     (if data = [] then c
      else let m = \<lparr>qc_data = data, qc_config = (fst kind = ''config''), qc_epoch = snd kind, qc_generation = 0\<rparr>
        in case enqueue_control_locked tag m c of
            (c1, accepted) \<Rightarrow>
              let c2 = (if accepted \<and> qc_config m then c1\<lparr>vc_ready := True\<rparr> else c1)
              in if accepted then signal_writer c2 else c2)"

section \<open>Frames\<close>

definition max_video_message :: int where
  "max_video_message = 2 * 1024 * 1024 + 93"

definition new_frame :: "bytes \<Rightarrow> tsf3 \<Rightarrow> int \<Rightarrow> int \<Rightarrow> vclient \<Rightarrow> vclient" where
  "new_frame data m now age c =
     c\<lparr>vc_pending := Some \<lparr>qf_id = vc_next_id c, qf_data = data, qf_meta = m, qf_queued_at = now,
          qf_visual_age = age, qf_generation = vc_generation c\<rparr>,
       vc_next_id := vc_next_id c + 1\<rparr>"

definition enqueue_config_and_keyframe ::
    "(bytes \<Rightarrow> 64 word \<Rightarrow> bytes option) \<Rightarrow> bytes \<Rightarrow> (string \<times> 64 word) option \<Rightarrow> bytes \<Rightarrow> 64 word option \<Rightarrow>
     int \<Rightarrow> vclient \<Rightarrow> vclient" where
  "enqueue_config_and_keyframe tag config kind key_frame expected now c =
     (if config = [] then c
      else case kind of
          None \<Rightarrow> c
        | Some (ty, epoch) \<Rightarrow>
            if ty \<noteq> ''config'' then c
            else let m = \<lparr>qc_data = config, qc_config = True, qc_epoch = epoch, qc_generation = 0\<rparr>;
                     meta = parse_tsf3 key_frame;
                     matches = (key_frame \<noteq> [] \<and> int (length key_frame) \<le> max_video_message \<and> m_ok meta \<and>
                       int (length key_frame) - int (m_header_bytes meta) \<le> max_video_payload \<and>
                       m_key_frame meta \<and> m_epoch meta = epoch)
              in if (case expected of None \<Rightarrow> False | Some g \<Rightarrow> vc_generation c \<noteq> g) then c
                 else case enqueue_control_locked tag m c of
                     (c1, False) \<Rightarrow> c1
                   | (c1, True) \<Rightarrow>
                       let c2 = c1\<lparr>vc_ready := True\<rparr>
                       in signal_writer
                            (if matches \<and> snd (meta_visual_age meta now)
                             then new_frame key_frame meta now (fst (meta_visual_age meta now)) c2
                             else c2))"

definition newest_sequence :: "vclient \<Rightarrow> 64 word" where
  "newest_sequence c =
     fold (\<lambda>f newest. case f of None \<Rightarrow> newest | Some q \<Rightarrow> max newest (m_sequence (qf_meta q)))
       [vc_in_flight c, vc_pending c] (vc_written c)"

definition enqueue_video_frame :: "bytes \<Rightarrow> int \<Rightarrow> vclient \<Rightarrow> vclient" where
  "enqueue_video_frame data now c =
     (let meta = parse_tsf3 data in
      if data = [] \<or> int (length data) > max_video_message then c
      else if \<not> m_ok meta \<or> int (length data) - int (m_header_bytes meta) > max_video_payload \<or>
              \<not> m_key_frame meta then c
      else if \<not> snd (meta_visual_age meta now) then c
      else if vc_closed c \<or> vc_generation c = 0 \<or> m_epoch meta \<noteq> vc_epoch c then c
      else if m_sequence meta \<le> newest_sequence c then c
      else signal_writer (new_frame data meta now (fst (meta_visual_age meta now)) c))"

section \<open>The writer\<close>

datatype write_item =
    WControl queued_control
  | WFrame queued_frame

definition has_runnable_work :: "vclient \<Rightarrow> bool" where
  "has_runnable_work c \<longleftrightarrow>
     \<not> vc_closed c \<and> (vc_controls c \<noteq> [] \<or> (vc_pending c \<noteq> None \<and> vc_receipt c = 0))"

definition next_write_item :: "int \<Rightarrow> vclient \<Rightarrow> vclient \<times> write_item option" where
  "next_write_item now c =
     (if vc_closed c then (c, None)
      else case vc_controls c of
          m # rest \<Rightarrow>
            (c\<lparr>vc_controls := rest, vc_control_bytes := max 0 (vc_control_bytes c - blen m)\<rparr>, Some (WControl m))
        | [] \<Rightarrow>
            if vc_receipt c \<noteq> 0 then (c, None)
            else case vc_pending c of
                None \<Rightarrow> (c, None)
              | Some f \<Rightarrow>
                  if queued_frame_expired f now then (c\<lparr>vc_pending := None\<rparr>, None)
                  else (c\<lparr>vc_pending := None, vc_in_flight := Some f\<rparr>, Some (WFrame f)))"

definition clear_in_flight :: "queued_frame \<Rightarrow> vclient \<Rightarrow> vclient" where
  "clear_in_flight f c =
     (case vc_in_flight c of
        None \<Rightarrow> c
      | Some g \<Rightarrow> if qf_id g = qf_id f then c\<lparr>vc_in_flight := None\<rparr> else c)"

definition clear_item :: "write_item \<Rightarrow> vclient \<Rightarrow> vclient" where
  "clear_item it c = (case it of WControl _ \<Rightarrow> c | WFrame f \<Rightarrow> clear_in_flight f c)"

text \<open>A failed write, and a trial that ended, close the writer with a reason.\<close>

definition close_writer :: "string \<Rightarrow> write_item \<Rightarrow> vclient \<Rightarrow> vclient" where
  "close_writer reason it c = (clear_item it c)\<lparr>vc_closed := True, vc_close_reason := reason\<rparr>"

definition receipt_timeout :: int where
  "receipt_timeout = 3 * second"

definition last_n :: "nat \<Rightarrow> 'a list \<Rightarrow> 'a list" where
  "last_n n xs = drop (length xs - n) xs"

definition note_frame_written :: "queued_frame \<Rightarrow> int \<Rightarrow> vclient \<Rightarrow> vclient" where
  "note_frame_written f written_at c0 =
     (let c = clear_in_flight f c0; sq = m_sequence (qf_meta f) in
      if m_ok (qf_meta f) \<and> m_key_frame (qf_meta f) \<and> \<not> vc_closed c \<and> qf_generation f = vc_generation c
      then let c1 = c\<lparr>vc_epoch := m_epoch (qf_meta f), vc_written := sq,
                      vc_evidence := last_n 128 (vc_evidence c @ [sq])\<rparr>
        in if vc_received c1 < sq
           then c1\<lparr>vc_receipt := sq, vc_receipt_deadline := written_at + receipt_timeout\<rparr> else c1
      else c)"

definition note_config_written :: "queued_control \<Rightarrow> vclient \<Rightarrow> vclient" where
  "note_config_written m c =
     (if \<not> qc_config m \<or> qc_epoch m = 0 \<or> qc_generation m = 0 then c
      else if qc_epoch m = vc_epoch c \<and> qc_generation m = vc_generation c \<and> \<not> vc_closed c
      then c\<lparr>vc_written_epoch := qc_epoch m, vc_written_generation := qc_generation m\<rparr> else c)"

definition note_written :: "write_item \<Rightarrow> int \<Rightarrow> vclient \<Rightarrow> vclient" where
  "note_written it now c =
     (case it of WFrame f \<Rightarrow> note_frame_written f now c
      | WControl m \<Rightarrow> if qc_config m then note_config_written m c else c)"

definition close_expired_receipt :: "int \<Rightarrow> vclient \<Rightarrow> vclient \<times> bool" where
  "close_expired_receipt now c =
     (if vc_receipt_deadline c = zero_time \<or> now < vc_receipt_deadline c then (c, False)
      else (clear_video_receipt (c\<lparr>vc_closed := True, vc_close_reason := ''receipt_timeout'', vc_pending := None\<rparr>),
            True))"

definition stop_writer :: "vclient \<Rightarrow> vclient" where
  "stop_writer c = clear_video_receipt (c\<lparr>vc_closed := True, vc_in_flight := None, vc_pending := None\<rparr>)"

section \<open>Feedback\<close>

record feedback =
  fb_type :: string
  fb_version :: int
  fb_epoch :: "64 word"
  fb_generation :: "64 word"
  fb_received :: "64 word"
  fb_decoded :: "64 word"
  fb_rendered :: "64 word"
  fb_presented :: "64 word"
  fb_rendered_keyframe :: "64 word"
  fb_visibility :: string

record feedback_outcome =
  fo_presented :: bool
  fo_receipt_released :: bool
  fo_became_visible :: bool

definition no_outcome :: feedback_outcome where
  "no_outcome = \<lparr>fo_presented = False, fo_receipt_released = False, fo_became_visible = False\<rparr>"

text \<open>The checks after the strict decoder, which is the argument.\<close>

definition decode_feedback :: "feedback option \<Rightarrow> feedback option" where
  "decode_feedback raw =
     (case raw of
        None \<Rightarrow> None
      | Some f \<Rightarrow>
          if fb_type f \<noteq> ''stream_feedback'' \<or> fb_version f \<noteq> 2 then None
          else if fb_visibility f \<noteq> [] \<and> fb_visibility f \<noteq> ''visible'' \<and> fb_visibility f \<noteq> ''hidden'' then None
          else if fb_generation f = 0 then None else Some f)"

definition matches_in_flight :: "feedback \<Rightarrow> vclient \<Rightarrow> bool" where
  "matches_in_flight f c =
     (case vc_in_flight c of
        None \<Rightarrow> False
      | Some q \<Rightarrow> fb_generation f = qf_generation q \<and> fb_epoch f = m_epoch (qf_meta q) \<and>
                  fb_received f = m_sequence (qf_meta q))"

definition early_receipt :: "feedback \<Rightarrow> vclient \<Rightarrow> bool" where
  "early_receipt f c \<longleftrightarrow> vc_written c < fb_received f \<and> matches_in_flight f c"

definition feedback_consistent :: "feedback \<Rightarrow> vclient \<Rightarrow> bool" where
  "feedback_consistent f c \<longleftrightarrow>
     \<not> (fb_decoded f > fb_received f \<or> fb_rendered f > fb_decoded f \<or> fb_presented f > fb_rendered f \<or>
        fb_rendered_keyframe f > fb_received f \<or>
        (fb_received f > vc_written c \<and> \<not> early_receipt f c) \<or>
        fb_received f < vc_received c \<or> fb_decoded f < vc_decoded c \<or> fb_rendered f < vc_rendered c \<or>
        fb_presented f < vc_presented c)"

definition accept_feedback :: "feedback option \<Rightarrow> vclient \<Rightarrow> vclient \<times> feedback_outcome" where
  "accept_feedback raw c =
     (case decode_feedback raw of
        None \<Rightarrow> (c, no_outcome)
      | Some f \<Rightarrow>
          if vc_closed c \<or> fb_epoch f \<noteq> vc_epoch c \<or> fb_generation f \<noteq> vc_generation c then (c, no_outcome)
          else if \<not> feedback_consistent f c then (c, no_outcome)
          else let early = early_receipt f c;
                   visibility = (if fb_visibility f \<noteq> [] then fb_visibility f else vc_visibility c);
                   c1 = c\<lparr>vc_received := fb_received f, vc_decoded := fb_decoded f,
                         vc_rendered := fb_rendered f, vc_presented := fb_presented f,
                         vc_visibility := visibility\<rparr>;
                   credited = (vc_receipt c \<noteq> 0 \<and> fb_received f = vc_receipt c);
                   c2 = (if credited then clear_video_receipt c1 else c1);
                   released = (early \<or> credited)
            in (if released then signal_writer c2 else c2,
                \<lparr>fo_presented = (fb_presented f > 0 \<and> fb_visibility f = ''visible'' \<and>
                                 fb_presented f \<in> set (vc_evidence c)),
                  fo_receipt_released = released,
                  fo_became_visible = (vc_visibility c = ''hidden'' \<and> visibility = ''visible'')\<rparr>))"

section \<open>The browser's clock probes\<close>

record browser_probe =
  bp_type :: string
  bp_version :: int
  bp_probe_id :: string
  bp_generation :: "64 word"
  bp_client_send :: int

definition browser_probe_interval :: int where
  "browser_probe_interval = 250 * millisecond"

definition max_safe_integer :: int where
  "max_safe_integer = 9007199254740991"

definition probe_char :: "char \<Rightarrow> bool" where
  "probe_char c \<longleftrightarrow>
     (CHR ''a'' \<le> c \<and> c \<le> CHR ''z'') \<or> (CHR ''A'' \<le> c \<and> c \<le> CHR ''Z'') \<or>
     (CHR ''0'' \<le> c \<and> c \<le> CHR ''9'') \<or> c \<in> set ''._:-''"

definition valid_browser_probe_id :: "string \<Rightarrow> bool" where
  "valid_browser_probe_id v \<longleftrightarrow> v \<noteq> [] \<and> length v \<le> 64 \<and> list_all probe_char v"

record browser_answer =
  ba_probe_id :: string
  ba_generation :: "64 word"
  ba_client_send :: int
  ba_server_receive :: int
  ba_server_send :: int

text \<open>\<open>sent_at\<close> is the time read after the lock, in microseconds; \<open>received_at\<close> is in nanoseconds.\<close>

definition answer_browser_probe ::
    "browser_probe option \<Rightarrow> int \<Rightarrow> int \<Rightarrow> vclient \<Rightarrow> vclient \<times> browser_answer option" where
  "answer_browser_probe raw received_at sent_at c =
     (case raw of
        None \<Rightarrow> (c, None)
      | Some p \<Rightarrow>
          if bp_type p \<noteq> ''clock_probe'' \<or> bp_version p \<noteq> 1 \<or> \<not> valid_browser_probe_id (bp_probe_id p) \<or>
             bp_generation p = 0 \<or> bp_client_send p \<le> 0 \<or> bp_client_send p > max_safe_integer then (c, None)
          else let receive = unix_micro received_at in
            if receive \<le> 0 \<or> receive > max_safe_integer then (c, None)
            else if bp_generation p \<noteq> vc_generation c \<or>
                    (vc_last_probe_at c \<noteq> zero_time \<and>
                     (received_at < vc_last_probe_at c \<or>
                      time_sub received_at (vc_last_probe_at c) < browser_probe_interval))
            then (c\<lparr>vc_probe_dropped := vc_probe_dropped c + 1\<rparr>, None)
            else (c\<lparr>vc_last_probe_at := received_at\<rparr>,
                  Some \<lparr>ba_probe_id = bp_probe_id p, ba_generation = vc_generation c,
                    ba_client_send = bp_client_send p, ba_server_receive = receive,
                    ba_server_send = (if sent_at < receive \<or> sent_at > max_safe_integer then receive else sent_at)\<rparr>))"

end
