(* ===== verification/TrWriterInv.thy ===== *)
theory TrWriterInv
  imports TrWriter
begin

text \<open>
  The invariant of one viewer's writer, operation by operation: the control queue is bounded and
  holds at most the current configuration, pending and in-flight frames belong to the current
  generation, and the credit accounts for every frame written.
\<close>

section \<open>Invariants of the client\<close>

definition queue_ok :: "vclient \<Rightarrow> bool" where
  "queue_ok c \<longleftrightarrow>
     length (vc_controls c) \<le> control_max_messages \<and> vc_control_bytes c \<le> control_max_bytes \<and>
     vc_control_bytes c = sum_list (map blen (vc_controls c)) \<and>
     length (filter qc_config (vc_controls c)) \<le> 1 \<and>
     (\<forall>m \<in> set (vc_controls c). qc_config m \<longrightarrow> qc_epoch m = vc_epoch c \<and> qc_generation m = vc_generation c)"

definition frame_ok :: "vclient \<Rightarrow> queued_frame \<Rightarrow> bool" where
  "frame_ok c f \<longleftrightarrow>
     qf_generation f = vc_generation c \<and> vc_generation c \<noteq> 0 \<and> m_epoch (qf_meta f) = vc_epoch c \<and>
     m_ok (qf_meta f) \<and> m_key_frame (qf_meta f) \<and> vc_written c \<le> m_sequence (qf_meta f)"

definition media_ok :: "vclient \<Rightarrow> bool" where
  "media_ok c \<longleftrightarrow>
     (\<forall>p. vc_pending c = Some p \<longrightarrow> frame_ok c p) \<and> (\<forall>f. vc_in_flight c = Some f \<longrightarrow> frame_ok c f) \<and>
     (\<forall>p f. vc_pending c = Some p \<longrightarrow> vc_in_flight c = Some f \<longrightarrow>
        m_sequence (qf_meta f) < m_sequence (qf_meta p))"

definition credit_ok :: "vclient \<Rightarrow> bool" where
  "credit_ok c \<longleftrightarrow>
     (if vc_receipt c = 0 then vc_written c \<le> vc_received c
      else vc_receipt c = vc_written c \<and> vc_received c < vc_receipt c \<and> vc_in_flight c = None \<and>
           vc_receipt_deadline c \<noteq> zero_time)"

definition feedback_ok :: "vclient \<Rightarrow> bool" where
  "feedback_ok c \<longleftrightarrow>
     vc_presented c \<le> vc_rendered c \<and> vc_rendered c \<le> vc_decoded c \<and> vc_decoded c \<le> vc_received c \<and>
     (\<forall>s \<in> set (vc_evidence c). s \<le> vc_written c) \<and> length (vc_evidence c) \<le> 128"

definition client_ok :: "vclient \<Rightarrow> bool" where
  "client_ok c \<longleftrightarrow> queue_ok c \<and> feedback_ok c \<and> (\<not> vc_closed c \<longrightarrow> media_ok c \<and> credit_ok c)"

lemmas client_ok_defs = client_ok_def queue_ok_def feedback_ok_def media_ok_def credit_ok_def frame_ok_def

lemma client_ok_init: "client_ok vclient_init"
  by (simp add: client_ok_defs vclient_init_def control_max_messages_def control_max_bytes_def)

section \<open>The control queue\<close>

lemma blen_nonneg [simp]: "0 \<le> blen m"
  by (simp add: blen_def)

lemma sum_blen_nonneg: "0 \<le> sum_list (map blen q)"
  by (rule sum_list_nonneg) auto

lemma sum_drop_first:
  "find P q = Some m \<Longrightarrow> sum_list (map blen (drop_first P q)) = sum_list (map blen q) - blen m"
  by (induction q) (auto split: if_splits)

lemma set_drop_first: "set (drop_first P q) \<subseteq> set q"
  by (induction q) auto

lemma filter_drop_first: "filter (\<lambda>x. \<not> P x) (drop_first P q) = filter (\<lambda>x. \<not> P x) q"
  by (induction q) auto

lemma make_room_fits: "\<not> queue_full len q bytes \<Longrightarrow> make_room config len q bytes = Some (q, bytes)"
  by (subst make_room.simps) simp

lemma make_room_empty: "queue_full len [] bytes \<Longrightarrow> make_room config len [] bytes = None"
  by (subst make_room.simps) simp

lemma make_room_drop:
  "queue_full len (x # q) bytes \<Longrightarrow> find_control (x # q) = Some m \<Longrightarrow>
   make_room config len (x # q) bytes = make_room config len (drop_first (\<lambda>x. \<not> qc_config x) (x # q)) (bytes - blen m)"
  by (subst make_room.simps) simp

lemma make_room_head:
  "queue_full len (x # q) bytes \<Longrightarrow> find_control (x # q) = None \<Longrightarrow>
   make_room config len (x # q) bytes = (if \<not> config then None else make_room config len q (bytes - blen x))"
  by (subst make_room.simps) simp

lemma make_room_spec:
  "make_room config len q bytes = Some (q', bytes') \<Longrightarrow> bytes = sum_list (map blen q) \<Longrightarrow>
   bytes' = sum_list (map blen q') \<and> \<not> queue_full len q' bytes' \<and> set q' \<subseteq> set q \<and>
   (\<not> config \<longrightarrow> filter qc_config q' = filter qc_config q)"
proof (induction config len q bytes arbitrary: q' bytes' rule: make_room.induct)
  case (1 config len q bytes)
  show ?case
  proof (cases "queue_full len q bytes")
    case False
    then show ?thesis using 1(3,4) by (auto simp: make_room_fits)
  next
    case full: True
    show ?thesis
    proof (cases q)
      case Nil
      then show ?thesis using 1(3) full by (simp add: make_room_empty)
    next
      case (Cons x rest)
      show ?thesis
      proof (cases "find_control q")
        case None
        then have "config" "make_room config len rest (bytes - blen x) = Some (q', bytes')"
          using 1(3) full Cons by (simp_all add: make_room_head split: if_splits)
        then show ?thesis
          using 1(1)[OF _ Cons None, of q' bytes'] full 1(4) Cons by auto
      next
        case (Some m)
        let ?q = "drop_first (\<lambda>x. \<not> qc_config x) q"
        have "make_room config len ?q (bytes - blen m) = Some (q', bytes')"
          using 1(3) full Some unfolding Cons by (simp only: make_room_drop)
        moreover have "bytes - blen m = sum_list (map blen ?q)"
          using sum_drop_first[of "\<lambda>x. \<not> qc_config x" q m] Some 1(4) by (simp add: find_control_def)
        ultimately show ?thesis
          using 1(2)[OF _ Cons Some, of q' bytes'] full set_drop_first[of "\<lambda>x. \<not> qc_config x" q]
            filter_drop_first[of "\<lambda>x. \<not> qc_config x" q] by auto
      qed
    qed
  qed
qed

text \<open>A configuration always finds room once the older configurations are gone.\<close>

lemma find_control_plain:
  "\<forall>m \<in> set q. \<not> qc_config m \<Longrightarrow> q \<noteq> [] \<Longrightarrow> find_control q = Some (hd q)"
  by (cases q) (auto simp: find_control_def)

lemma make_room_plain:
  "\<forall>m \<in> set q. \<not> qc_config m \<Longrightarrow> bytes = sum_list (map blen q) \<Longrightarrow> len \<le> control_max_bytes \<Longrightarrow>
   \<exists>r. make_room config len q bytes = Some r"
proof (induction q arbitrary: bytes)
  case Nil
  then show ?case
    by (simp add: make_room_fits queue_full_def control_max_messages_def)
next
  case (Cons x q)
  then show ?case
    using find_control_plain[of "x # q"] make_room_drop[of len x q bytes x config]
    by (cases "queue_full len (x # q) bytes") (simp_all add: make_room_fits)
qed

lemma filter_not_config: "filter qc_config (filter (\<lambda>m. \<not> qc_config m) q) = []"
  by (induction q) auto

lemma sum_filter_split:
  "sum_list (map blen q) - sum_list (map blen (filter qc_config q)) =
   sum_list (map blen (filter (\<lambda>m. \<not> qc_config m) q))"
  by (induction q) auto

lemma queue_ok_supersede: "queue_ok c \<Longrightarrow> queue_ok (supersede epoch g c)"
  using sum_filter_split[of "vc_controls c"] sum_blen_nonneg[of "filter qc_config (vc_controls c)"]
    length_filter_le[of "\<lambda>m. \<not> qc_config m" "vc_controls c"]
  by (auto simp: queue_ok_def supersede_def clear_video_receipt_def filter_not_config
      simp del: filter_filter length_filter_le)

lemma push_control_queue:
  assumes "queue_ok c" "push_control m c = (c', True)"
    "qc_config m \<Longrightarrow> qc_epoch m = vc_epoch c \<and> qc_generation m = vc_generation c \<and> filter qc_config (vc_controls c) = []"
  shows "queue_ok c'"
proof -
  obtain q bytes where mr: "make_room (qc_config m) (blen m) (vc_controls c) (vc_control_bytes c) = Some (q, bytes)"
      and c': "c' = c\<lparr>vc_controls := q @ [m], vc_control_bytes := bytes + blen m\<rparr>"
    using assms(2) by (auto simp: push_control_def split: option.splits)
  have sum: "vc_control_bytes c = sum_list (map blen (vc_controls c))"
    using assms(1) by (simp add: queue_ok_def)
  note spec = make_room_spec[OF mr sum]
  have "filter qc_config q = []" if "qc_config m"
    using that assms(3) spec by (auto simp: filter_empty_conv)
  then show ?thesis
    using spec assms(1,3)
    unfolding queue_ok_def c' by (auto simp: queue_full_def)
qed

lemma push_control_fields:
  "push_control m c = (c', ok) \<Longrightarrow>
   c' = c\<lparr>vc_controls := vc_controls c', vc_control_bytes := vc_control_bytes c'\<rparr> \<and> (\<not> ok \<longrightarrow> c' = c)"
  by (auto simp: push_control_def split: option.splits)

lemma push_control_keeps:
  "push_control m c = (c', ok) \<Longrightarrow>
   vc_closed c' = vc_closed c \<and> vc_epoch c' = vc_epoch c \<and> vc_generation c' = vc_generation c \<and>
   vc_pending c' = vc_pending c \<and> vc_in_flight c' = vc_in_flight c \<and> vc_written c' = vc_written c \<and>
   vc_receipt c' = vc_receipt c \<and> vc_received c' = vc_received c \<and> vc_wake c' = vc_wake c \<and>
   vc_receipt_deadline c' = vc_receipt_deadline c"
  by (auto simp: push_control_def split: option.splits)

section \<open>Every operation keeps the invariant\<close>

lemma client_ok_controls:
  "client_ok c \<Longrightarrow> queue_ok (c\<lparr>vc_controls := q, vc_control_bytes := b\<rparr>) \<Longrightarrow>
   client_ok (c\<lparr>vc_controls := q, vc_control_bytes := b\<rparr>)"
  by (simp add: client_ok_def feedback_ok_def media_ok_def credit_ok_def frame_ok_def)

lemma client_ok_push:
  assumes "client_ok c" "push_control m c = (c', ok)"
    "qc_config m \<Longrightarrow> qc_epoch m = vc_epoch c \<and> qc_generation m = vc_generation c \<and> filter qc_config (vc_controls c) = []"
  shows "client_ok c'"
proof (cases ok)
  case True
  then have "queue_ok c'"
    using push_control_queue[of c m c'] assms by (simp add: client_ok_def)
  then show ?thesis
    using client_ok_controls[OF assms(1), of "vc_control_bytes c'" "vc_controls c'"]
      push_control_fields[OF assms(2)] by simp
next
  case False
  then show ?thesis using push_control_fields[OF assms(2)] assms(1) by simp
qed

lemma supersede_fields [simp]:
  "vc_epoch (supersede epoch g c) = epoch" "vc_generation (supersede epoch g c) = g"
  "vc_controls (supersede epoch g c) = filter (\<lambda>m. \<not> qc_config m) (vc_controls c)"
  "vc_closed (supersede epoch g c) = vc_closed c" "vc_pending (supersede epoch g c) = None"
  "vc_in_flight (supersede epoch g c) = None" "vc_receipt (supersede epoch g c) = 0"
  "vc_written (supersede epoch g c) = 0" "vc_received (supersede epoch g c) = 0"
  "vc_wake (supersede epoch g c) = vc_wake c" "vc_next_id (supersede epoch g c) = vc_next_id c"
  by (simp_all add: supersede_def clear_video_receipt_def)

lemma client_ok_supersede: "client_ok c \<Longrightarrow> client_ok (supersede epoch g c)"
  using queue_ok_supersede[of c epoch g]
  by (simp add: client_ok_def media_ok_def credit_ok_def)
    (simp add: feedback_ok_def supersede_def clear_video_receipt_def)

text \<open>What \<open>enqueueControlLocked\<close> can do.\<close>

lemma enqueue_control_cases:
  assumes "enqueue_control_locked tag m c = (c', ok)"
  obtains "c' = c" "\<not> ok"
  | data where "qc_config m" "\<not> vc_closed c" "vc_generation c + 1 \<noteq> 0" "data \<noteq> []"
      "int (length data) \<le> control_max_bytes"
      "push_control (m\<lparr>qc_data := data, qc_generation := vc_generation c + 1\<rparr>)
         (supersede (qc_epoch m) (vc_generation c + 1) c) = (c', ok)"
  | data where "\<not> qc_config m" "\<not> vc_closed c" "push_control (m\<lparr>qc_data := data\<rparr>) c = (c', ok)"
proof (cases "vc_closed c")
  case True
  then show ?thesis using assms that(1) by (simp add: enqueue_control_locked_def)
next
  case op: False
  show ?thesis
  proof (cases "qc_config m")
    case False
    show ?thesis
    proof (cases "qc_data m = [] \<or> int (length (qc_data m)) > control_max_bytes")
      case True
      then show ?thesis
        by (intro that(1)) (use assms False in \<open>auto simp: enqueue_control_locked_def op Let_def\<close>)
    next
      case len: False
      then show ?thesis
        by (intro that(3)[OF False op, of "qc_data m"])
          (use assms False in \<open>auto simp: enqueue_control_locked_def op Let_def\<close>)
    qed
  next
    case cfg: True
    show ?thesis
    proof (cases "config_with_feedback tag (qc_data m) (vc_generation c + 1)")
      case None
      then show ?thesis
        by (intro that(1)) (use assms in \<open>simp_all add: enqueue_control_locked_def op cfg\<close>)
    next
      case (Some data)
      then have gen: "vc_generation c + 1 \<noteq> 0"
        by (auto simp: config_with_feedback_def)
      show ?thesis
      proof (cases "data = [] \<or> int (length data) > control_max_bytes")
        case True
        then show ?thesis
          by (intro that(1)) (use assms Some in \<open>auto simp: enqueue_control_locked_def op cfg Let_def\<close>)
      next
        case False
        then show ?thesis
          by (intro that(2)[OF cfg op gen, of data])
            (use assms Some in \<open>auto simp: enqueue_control_locked_def op cfg Let_def\<close>)
      qed
    qed
  qed
qed

lemma client_ok_locked: 
  assumes ok: "client_ok c" and e: "enqueue_control_locked tag m c = (c', b)"
  shows "client_ok c'"
  using e
proof (cases rule: enqueue_control_cases)
  case 1
  then show ?thesis using ok by simp
next
  case (2 data)
  then show ?thesis
    using client_ok_push[OF client_ok_supersede[OF ok] 2(6)] by (simp add: filter_not_config del: filter_filter)
next
  case (3 data)
  then show ?thesis using client_ok_push[OF ok 3(3)] by simp
qed

text \<open>A configuration that is accepted leaves the media empty and the generation advanced.\<close>

lemma locked_config:
  assumes "enqueue_control_locked tag m c = (c', True)" "qc_config m"
  shows "vc_generation c' = vc_generation c + 1" "vc_generation c' \<noteq> 0" "vc_epoch c' = qc_epoch m"
    "vc_pending c' = None" "vc_in_flight c' = None" "vc_written c' = 0" "vc_receipt c' = 0" "\<not> vc_closed c'"
    "\<exists>k \<in> set (vc_controls c'). qc_config k"
proof -
  obtain data where 2: "qc_config m" "\<not> vc_closed c" "vc_generation c + 1 \<noteq> 0" "push_control (m\<lparr>qc_data := data, qc_generation := vc_generation c + 1\<rparr>)
         (supersede (qc_epoch m) (vc_generation c + 1) c) = (c', True)"
    using assms(1) by (rule enqueue_control_cases) (use assms(2) in auto)
  show "vc_generation c' = vc_generation c + 1" "vc_generation c' \<noteq> 0" "vc_epoch c' = qc_epoch m"
    "vc_pending c' = None" "vc_in_flight c' = None" "vc_written c' = 0" "vc_receipt c' = 0" "\<not> vc_closed c'"
    using 2(2,3) push_control_keeps[OF 2(4)] by simp_all
  show "\<exists>k \<in> set (vc_controls c'). qc_config k"
    using 2(1,4) by (auto simp: push_control_def split: option.splits)
qed

lemma client_ok_flags [simp]:
  "client_ok (c\<lparr>vc_ready := b\<rparr>) = client_ok c" "client_ok (c\<lparr>vc_wake := b\<rparr>) = client_ok c"
  "client_ok (c\<lparr>vc_last_probe_at := t\<rparr>) = client_ok c" "client_ok (c\<lparr>vc_probe_dropped := n\<rparr>) = client_ok c"
  by (simp_all add: client_ok_defs)

lemma client_ok_signal [simp]: "client_ok (signal_writer c) = client_ok c"
  by (simp add: signal_writer_def)

lemma client_ok_enqueue_control: "client_ok c \<Longrightarrow> client_ok (enqueue_control tag data kind c)"
  by (auto simp: enqueue_control_def Let_def dest: client_ok_locked split: prod.splits)

lemma client_ok_new_frame:
  assumes "client_ok c" "\<not> vc_closed c" "vc_generation c \<noteq> 0" "m_ok m" "m_key_frame m" "m_epoch m = vc_epoch c"
    "vc_written c \<le> m_sequence m" "\<And>f. vc_in_flight c = Some f \<Longrightarrow> m_sequence (qf_meta f) < m_sequence m"
  shows "client_ok (new_frame data m now age c)"
  using assms
  by (simp add: client_ok_def new_frame_def media_ok_def)
    (simp add: queue_ok_def feedback_ok_def credit_ok_def frame_ok_def)

lemma client_ok_config_keyframe:
  assumes ok: "client_ok c"
  shows "client_ok (enqueue_config_and_keyframe tag config kind key_frame expected now c)"
proof -
  have "client_ok (new_frame key_frame (parse_tsf3 key_frame) now age (c1\<lparr>vc_ready := True\<rparr>))"
    if "enqueue_control_locked tag \<lparr>qc_data = config, qc_config = True, qc_epoch = epoch, qc_generation = 0\<rparr> c = (c1, True)"
      "m_ok (parse_tsf3 key_frame)" "m_key_frame (parse_tsf3 key_frame)" "m_epoch (parse_tsf3 key_frame) = epoch"
    for c1 epoch age
    by (rule client_ok_new_frame)
      (use that client_ok_locked[OF ok that(1)] locked_config[OF that(1)] in simp_all)
  then show ?thesis
    using client_ok_locked[OF ok] ok
    by (auto simp: enqueue_config_and_keyframe_def Let_def split: option.split prod.split bool.split)
qed

lemma newest_ge:
  "vc_written c \<le> newest_sequence c" "vc_in_flight c = Some f \<Longrightarrow> m_sequence (qf_meta f) \<le> newest_sequence c"
  "vc_pending c = Some p \<Longrightarrow> m_sequence (qf_meta p) \<le> newest_sequence c"
  by (auto simp: newest_sequence_def max.coboundedI1 max.coboundedI2 split: option.splits)

lemma client_ok_video_frame: "client_ok c \<Longrightarrow> client_ok (enqueue_video_frame data now c)"
  using newest_ge[of c]
  by (auto simp: enqueue_video_frame_def Let_def intro!: client_ok_new_frame)

lemma client_ok_next: 
  assumes "client_ok c" "vc_in_flight c = None" "next_write_item now c = (c', it)"
  shows "client_ok c'"
proof (cases "vc_closed c")
  case True
  then show ?thesis using assms by (simp add: next_write_item_def)
next
  case open_c: False
  show ?thesis
  proof (cases "vc_controls c")
    case (Cons m rest)
    then have "c' = c\<lparr>vc_controls := rest, vc_control_bytes := max 0 (vc_control_bytes c - blen m)\<rparr>"
      using assms(3) open_c by (simp add: next_write_item_def)
    moreover have "vc_control_bytes c = blen m + sum_list (map blen rest)" "vc_control_bytes c \<le> control_max_bytes"
      using assms(1) Cons by (simp_all add: client_ok_def queue_ok_def)
    then have "sum_list (map blen rest) \<le> control_max_bytes"
      using blen_nonneg[of m] by linarith
    then have "queue_ok (c\<lparr>vc_controls := rest, vc_control_bytes := max 0 (vc_control_bytes c - blen m)\<rparr>)"
      using assms(1) Cons sum_blen_nonneg[of rest]
      by (auto simp: client_ok_def queue_ok_def split: if_splits)
    ultimately show ?thesis
      using client_ok_controls[OF assms(1)] by simp
  next
    case Nil
    then show ?thesis
      using assms open_c
      by (auto simp: next_write_item_def client_ok_defs split: if_splits option.splits)
  qed
qed

lemma client_ok_close: "client_ok c \<Longrightarrow> client_ok (close_writer reason it c)"
  by (auto simp: close_writer_def clear_item_def clear_in_flight_def client_ok_def queue_ok_def feedback_ok_def
      split: write_item.split option.split)

lemma client_ok_clear: "client_ok c \<Longrightarrow> client_ok (clear_in_flight f c)"
  by (auto simp: clear_in_flight_def client_ok_defs split: option.split)

lemma client_ok_stop: "client_ok c \<Longrightarrow> client_ok (stop_writer c)"
  by (auto simp: stop_writer_def clear_video_receipt_def client_ok_def queue_ok_def feedback_ok_def)

lemma client_ok_expired: "client_ok c \<Longrightarrow> client_ok (fst (close_expired_receipt now c))"
  by (auto simp: close_expired_receipt_def clear_video_receipt_def client_ok_def queue_ok_def feedback_ok_def)

lemma client_ok_config_written: "client_ok c \<Longrightarrow> client_ok (note_config_written m c)"
  by (auto simp: note_config_written_def client_ok_defs)

lemma client_ok_probe: "client_ok c \<Longrightarrow> client_ok (fst (answer_browser_probe raw t s c))"
  by (auto simp: answer_browser_probe_def Let_def split: option.split)

end
