(* ===== verification/TrWriterRun.thy ===== *)
theory TrWriterRun
  imports TrWriterInv
begin

text \<open>
  The writer of one viewer as a process: its goroutine is at one of a few places, everything else may
  happen between its steps, and the messages written on the socket are recorded. The invariant ties
  the three together.
\<close>

section \<open>Steps\<close>

datatype wloc = Running | Waiting | Writing write_item | Wrote write_item | Stopped

record wstate =
  ws_c :: vclient
  ws_at :: wloc
  ws_sent :: "write_item list"

definition ws_init :: wstate where
  "ws_init = \<lparr>ws_c = vclient_init, ws_at = Running, ws_sent = []\<rparr>"

text \<open>
  \<open>videoWriterLoop\<close> and \<open>writeNextVideoItem\<close>. \<open>Skipped\<close> is the trial gate letting a frame go unwritten
  (the picture is hidden, or expired while the trial was admitted); a failed admission and a failed
  write both close the writer.
\<close>

inductive wstep :: "(bytes \<Rightarrow> 64 word \<Rightarrow> bytes option) \<Rightarrow> wstate \<Rightarrow> wstate \<Rightarrow> bool"
  for tag :: "bytes \<Rightarrow> 64 word \<Rightarrow> bytes option" where
  control: "wstep tag w (w\<lparr>ws_c := enqueue_control tag data kind (ws_c w)\<rparr>)"
| opened: "wstep tag w (w\<lparr>ws_c := enqueue_config_and_keyframe tag config kd key_frame expected now (ws_c w)\<rparr>)"
| frame: "wstep tag w (w\<lparr>ws_c := enqueue_video_frame data now (ws_c w)\<rparr>)"
| fed: "wstep tag w (w\<lparr>ws_c := fst (accept_feedback raw (ws_c w))\<rparr>)"
| probed: "wstep tag w (w\<lparr>ws_c := fst (answer_browser_probe rawp now sent (ws_c w))\<rparr>)"
| stopped: "wstep tag w (w\<lparr>ws_c := stop_writer (ws_c w)\<rparr>)"
| rest: "ws_at w = Running \<Longrightarrow> \<not> has_runnable_work (ws_c w) \<Longrightarrow> wstep tag w (w\<lparr>ws_at := Waiting\<rparr>)"
| woken: "ws_at w = Waiting \<Longrightarrow> vc_wake (ws_c w) \<Longrightarrow>
    wstep tag w (w\<lparr>ws_at := Running, ws_c := (ws_c w)\<lparr>vc_wake := False\<rparr>\<rparr>)"
| expired: "ws_at w = Waiting \<or> ws_at w = Running \<Longrightarrow> close_expired_receipt now (ws_c w) = (c, b) \<Longrightarrow>
    wstep tag w (w\<lparr>ws_at := (if b then Stopped else Running), ws_c := c\<rparr>)"
| cancelled: "vc_closed (ws_c w) \<Longrightarrow> ws_at w = Waiting \<Longrightarrow> wstep tag w (w\<lparr>ws_at := Stopped\<rparr>)"
| took_none: "ws_at w = Running \<Longrightarrow> next_write_item now (ws_c w) = (c, None) \<Longrightarrow> wstep tag w (w\<lparr>ws_c := c\<rparr>)"
| took: "ws_at w = Running \<Longrightarrow> next_write_item now (ws_c w) = (c, Some it) \<Longrightarrow>
    wstep tag w (w\<lparr>ws_c := c, ws_at := Writing it\<rparr>)"
| skipped: "ws_at w = Writing (WFrame f) \<Longrightarrow>
    wstep tag w (w\<lparr>ws_c := clear_in_flight f (ws_c w), ws_at := Running\<rparr>)"
| failed: "ws_at w = Writing it \<Longrightarrow> wstep tag w (w\<lparr>ws_c := close_writer reason it (ws_c w), ws_at := Stopped\<rparr>)"
| written: "ws_at w = Writing it \<Longrightarrow> wstep tag w (w\<lparr>ws_at := Wrote it, ws_sent := ws_sent w @ [it]\<rparr>)"
| noted: "ws_at w = Wrote it \<Longrightarrow> 0 \<le> now \<Longrightarrow>
    wstep tag w (w\<lparr>ws_c := note_written it now (ws_c w), ws_at := Running\<rparr>)"

inductive wreach :: "(bytes \<Rightarrow> 64 word \<Rightarrow> bytes option) \<Rightarrow> wstate \<Rightarrow> bool"
  for tag :: "bytes \<Rightarrow> 64 word \<Rightarrow> bytes option" where
  init: "wreach tag ws_init"
| step: "wreach tag w \<Longrightarrow> wstep tag w w' \<Longrightarrow> wreach tag w'"

section \<open>The socket\<close>

text \<open>The configuration a browser is in after the messages, and the order they must keep.\<close>

definition config_after :: "(64 word \<times> 64 word) option \<Rightarrow> write_item \<Rightarrow> (64 word \<times> 64 word) option" where
  "config_after s it =
     (case it of
        WFrame _ \<Rightarrow> s
      | WControl m \<Rightarrow> if qc_config m then Some (qc_generation m, qc_epoch m) else s)"

definition last_config :: "write_item list \<Rightarrow> (64 word \<times> 64 word) option" where
  "last_config its = foldl config_after None its"

definition frames_of :: "64 word \<Rightarrow> write_item list \<Rightarrow> 64 word list" where
  "frames_of g its =
     concat (map (\<lambda>it. case it of WFrame f \<Rightarrow> if qf_generation f = g then [m_sequence (qf_meta f)] else []
                          | WControl _ \<Rightarrow> []) its)"

text \<open>
  A frame comes under the configuration it was made for, and is newer than every frame sent under
  that configuration before it.
\<close>

definition may_follow :: "write_item list \<Rightarrow> write_item \<Rightarrow> bool" where
  "may_follow its it \<longleftrightarrow>
     (case it of
        WControl _ \<Rightarrow> True
      | WFrame f \<Rightarrow> last_config its = Some (qf_generation f, m_epoch (qf_meta f)) \<and>
                    (\<forall>s \<in> set (frames_of (qf_generation f) its). s < m_sequence (qf_meta f)))"

definition wire_ok :: "write_item list \<Rightarrow> bool" where
  "wire_ok its \<longleftrightarrow> (\<forall>i < length its. may_follow (take i its) (its ! i))"

lemma last_config_simps [simp]:
  "last_config [] = None" "last_config (its @ [it]) = config_after (last_config its) it"
  by (simp_all add: last_config_def)

lemma frames_of_simps [simp]:
  "frames_of g [] = []"
  "frames_of g (its @ [WControl m]) = frames_of g its"
  "frames_of g (its @ [WFrame f]) = frames_of g its @ (if qf_generation f = g then [m_sequence (qf_meta f)] else [])"
  by (simp_all add: frames_of_def)

lemma wire_ok_snoc: "wire_ok (its @ [it]) \<longleftrightarrow> wire_ok its \<and> may_follow its it"
  by (auto simp: wire_ok_def nth_append less_Suc_eq)

lemma wire_ok_Nil [simp]: "wire_ok []"
  by (simp add: wire_ok_def)

text \<open>The messages on the socket and the one the writer holds.\<close>

definition in_hand :: "wstate \<Rightarrow> write_item list" where
  "in_hand w = (case ws_at w of Writing it \<Rightarrow> [it] | _ \<Rightarrow> [])"

definition wire :: "wstate \<Rightarrow> write_item list" where
  "wire w = ws_sent w @ in_hand w"

section \<open>The invariant\<close>

text \<open>The frame the goroutine works on is in flight, or was superseded, or the writer was closed.\<close>

definition held_frame :: "wstate \<Rightarrow> queued_frame option" where
  "held_frame w = (case ws_at w of Writing (WFrame f) \<Rightarrow> Some f | Wrote (WFrame f) \<Rightarrow> Some f | _ \<Rightarrow> None)"

definition loc_ok :: "wstate \<Rightarrow> bool" where
  "loc_ok w \<longleftrightarrow>
     (case held_frame w of
        None \<Rightarrow> vc_in_flight (ws_c w) = None
      | Some f \<Rightarrow> vc_in_flight (ws_c w) = Some f \<or>
                  (vc_in_flight (ws_c w) = None \<and> qf_generation f < vc_generation (ws_c w)))"

definition wire_inv :: "wstate \<Rightarrow> bool" where
  "wire_inv w \<longleftrightarrow>
     (vc_generation (ws_c w) = 0 \<or> (\<exists>m \<in> set (vc_controls (ws_c w)). qc_config m) \<or>
        last_config (wire w) = Some (vc_generation (ws_c w), vc_epoch (ws_c w))) \<and>
     (\<forall>it \<in> set (wire w). \<forall>f. it = WFrame f \<longrightarrow> qf_generation f \<le> vc_generation (ws_c w)) \<and>
     (\<forall>s \<in> set (frames_of (vc_generation (ws_c w)) (wire w)).
        s \<le> vc_written (ws_c w) \<or>
        (\<exists>f. vc_in_flight (ws_c w) = Some f \<and> s = m_sequence (qf_meta f))) \<and>
     (\<forall>p. vc_pending (ws_c w) = Some p \<longrightarrow>
        (\<forall>s \<in> set (frames_of (vc_generation (ws_c w)) (wire w)). s < m_sequence (qf_meta p)))"

definition idle_ok :: "wstate \<Rightarrow> bool" where
  "idle_ok w \<longleftrightarrow> (ws_at w = Waiting \<longrightarrow> has_runnable_work (ws_c w) \<longrightarrow> vc_wake (ws_c w)) \<and>
     (ws_at w = Stopped \<longrightarrow> vc_closed (ws_c w))"

definition winv :: "wstate \<Rightarrow> bool" where
  "winv w \<longleftrightarrow> client_ok (ws_c w) \<and> wire_ok (wire w) \<and> idle_ok w \<and>
     (\<not> vc_closed (ws_c w) \<longrightarrow> loc_ok w \<and> wire_inv w)"

lemma winv_init: "winv ws_init"
  by (simp add: winv_def ws_init_def client_ok_init wire_def in_hand_def idle_ok_def loc_ok_def held_frame_def
      wire_inv_def) (simp add: vclient_init_def)

section \<open>Feedback and completed writes keep the client's invariant\<close>

lemma feedback_cases:
  assumes "accept_feedback raw c = (c', out)"
  obtains "c' = c" "out = no_outcome"
  | f where "decode_feedback raw = Some f" "\<not> vc_closed c" "fb_epoch f = vc_epoch c"
      "fb_generation f = vc_generation c" "feedback_consistent f c"
      "c' = c\<lparr>vc_received := fb_received f, vc_decoded := fb_decoded f, vc_rendered := fb_rendered f,
              vc_presented := fb_presented f,
              vc_visibility := (if fb_visibility f \<noteq> [] then fb_visibility f else vc_visibility c),
              vc_receipt := (if fb_received f = vc_receipt c then 0 else vc_receipt c),
              vc_receipt_deadline := (if vc_receipt c \<noteq> 0 \<and> fb_received f = vc_receipt c then zero_time
                                      else vc_receipt_deadline c),
              vc_wake := (vc_wake c \<or> fo_receipt_released out)\<rparr>"
      "fo_receipt_released out = (early_receipt f c \<or> (vc_receipt c \<noteq> 0 \<and> fb_received f = vc_receipt c))"
      "fo_presented out \<longrightarrow> fb_presented f \<in> set (vc_evidence c)"
proof (cases "decode_feedback raw")
  case None
  then show ?thesis
    by (intro that(1)) (use assms in \<open>simp_all add: accept_feedback_def\<close>)
next
  case (Some f)
  show ?thesis
  proof (cases "vc_closed c \<or> fb_epoch f \<noteq> vc_epoch c \<or> fb_generation f \<noteq> vc_generation c \<or> \<not> feedback_consistent f c")
    case True
    then show ?thesis
      by (intro that(1)) (use assms Some in \<open>auto simp: accept_feedback_def split: if_splits\<close>)
  next
    case False
    then show ?thesis
      by (intro that(2)[OF Some])
        (use assms Some in \<open>auto simp: accept_feedback_def Let_def clear_video_receipt_def signal_writer_def\<close>)
  qed
qed

lemma client_ok_feedback:
  assumes ok: "client_ok c"
  shows "client_ok (fst (accept_feedback raw c))"
proof -
  obtain c' out where e: "accept_feedback raw c = (c', out)" by fastforce
  then show ?thesis
  proof (cases rule: feedback_cases)
    case 1
    then show ?thesis using ok e by simp
  next
    case (2 f)
    have cr: "credit_ok c" and op: "\<not> vc_closed c"
      using ok 2(2) by (simp_all add: client_ok_def)
    have mono: "vc_received c \<le> fb_received f" "fb_received f \<le> vc_written c \<or> early_receipt f c"
        "fb_decoded f \<le> fb_received f" "fb_rendered f \<le> fb_decoded f" "fb_presented f \<le> fb_rendered f"
      using 2(5) by (auto simp: feedback_consistent_def)
    have "vc_receipt c \<noteq> 0 \<Longrightarrow> \<not> early_receipt f c"
      using cr by (simp add: credit_ok_def early_receipt_def matches_in_flight_def)
    then have "credit_ok c'"
      using cr mono(1,2) by (auto simp: credit_ok_def 2(6) split: if_splits)
    moreover have "feedback_ok c'"
      using ok mono(3-5) by (simp add: client_ok_def feedback_ok_def 2(6))
    moreover have "queue_ok c'" "media_ok c'"
      using ok op by (simp_all add: client_ok_def queue_ok_def media_ok_def frame_ok_def 2(6))
    ultimately show ?thesis by (simp add: client_ok_def e)
  qed
qed

lemma last_n_bound: "length (last_n n xs) \<le> n" "set (last_n n xs) \<subseteq> set xs"
  by (auto simp: last_n_def dest: in_set_dropD)

lemma client_ok_noted:
  assumes ok: "client_ok c" and now: "0 \<le> now"
    and held: "\<not> vc_closed c \<Longrightarrow> vc_in_flight c = Some f \<or> (vc_in_flight c = None \<and> qf_generation f < vc_generation c)"
  shows "client_ok (note_frame_written f now c)"
proof (cases "\<not> vc_closed c \<and> vc_in_flight c = Some f")
  case False
  then have "vc_closed c \<or> qf_generation f \<noteq> vc_generation c"
    using held by auto
  then have "note_frame_written f now c = clear_in_flight f c"
    by (auto simp: note_frame_written_def clear_in_flight_def Let_def split: option.split)
  then show ?thesis using client_ok_clear[OF ok] by simp
next
  case True
  have f: "frame_ok c f" and pend: "\<And>p. vc_pending c = Some p \<Longrightarrow> frame_ok c p \<and> m_sequence (qf_meta f) < m_sequence (qf_meta p)"
    and cr: "credit_ok c"
    using ok True by (auto simp: client_ok_def media_ok_def)
  let ?c = "note_frame_written f now c"
  have fields: "vc_evidence ?c = last_n 128 (vc_evidence c @ [m_sequence (qf_meta f)])"
      "vc_written ?c = m_sequence (qf_meta f)" "vc_received ?c = vc_received c" "vc_decoded ?c = vc_decoded c"
      "vc_rendered ?c = vc_rendered c" "vc_presented ?c = vc_presented c" "vc_in_flight ?c = None"
      "vc_pending ?c = vc_pending c" "vc_generation ?c = vc_generation c" "vc_epoch ?c = vc_epoch c"
      "vc_controls ?c = vc_controls c" "vc_control_bytes ?c = vc_control_bytes c" "\<not> vc_closed ?c"
      "vc_receipt ?c = (if vc_received c < m_sequence (qf_meta f) then m_sequence (qf_meta f) else vc_receipt c)"
      "vc_receipt_deadline ?c =
         (if vc_received c < m_sequence (qf_meta f) then now + receipt_timeout else vc_receipt_deadline c)"
    using f True by (simp_all add: note_frame_written_def clear_in_flight_def frame_ok_def Let_def)
  have "vc_written c \<le> m_sequence (qf_meta f)"
    using f by (simp add: frame_ok_def)
  then have "\<forall>s \<in> set (vc_evidence ?c). s \<le> vc_written ?c" "length (vc_evidence ?c) \<le> 128"
    using ok last_n_bound[of 128 "vc_evidence c @ [m_sequence (qf_meta f)]"] unfolding fields
    by (auto simp: client_ok_def feedback_ok_def intro: order_trans)
  then have "feedback_ok ?c"
    using ok by (simp add: client_ok_def feedback_ok_def fields(3-6))
  moreover have "vc_receipt c = 0"
    using cr True by (auto simp: credit_ok_def split: if_splits)
  then have "credit_ok ?c"
    using now by (auto simp: credit_ok_def fields receipt_timeout_def zero_time_def duration_defs)
  moreover have "media_ok ?c"
    using pend unfolding media_ok_def fields by (auto simp: frame_ok_def fields)
  moreover have "queue_ok ?c"
    using ok by (simp add: client_ok_def queue_ok_def fields)
  ultimately show ?thesis by (simp add: client_ok_def)
qed

section \<open>Every step keeps the invariant\<close>

lemma word_succ_less: "(g :: 64 word) + 1 \<noteq> 0 \<Longrightarrow> g < g + 1"
  using unatSuc[of g] by (simp add: add.commute word_less_nat_alt)

lemma wire_keep [simp]: "wire (w\<lparr>ws_c := c\<rparr>) = wire w" "held_frame (w\<lparr>ws_c := c\<rparr>) = held_frame w"
  by (simp_all add: wire_def in_hand_def held_frame_def split: wloc.split)

text \<open>Operations that stay within the generation.\<close>

definition same_media :: "vclient \<Rightarrow> vclient \<Rightarrow> bool" where
  "same_media c c' \<longleftrightarrow>
     \<not> vc_closed c \<and> vc_generation c' = vc_generation c \<and> vc_epoch c' = vc_epoch c \<and>
     vc_written c' = vc_written c \<and> vc_in_flight c' = vc_in_flight c \<and>
     ((\<exists>m \<in> set (vc_controls c). qc_config m) \<longrightarrow> (\<exists>m \<in> set (vc_controls c'). qc_config m)) \<and>
     (\<forall>p. vc_pending c' = Some p \<longrightarrow> vc_pending c = Some p \<or> newest_sequence c < m_sequence (qf_meta p))"

lemma winv_same:
  assumes inv: "winv w" and ok: "client_ok c'" and same: "\<not> vc_closed c' \<Longrightarrow> same_media (ws_c w) c'"
    and idle: "ws_at w = Waiting \<Longrightarrow> has_runnable_work c' \<Longrightarrow> vc_wake c'"
    and stop: "vc_closed (ws_c w) \<Longrightarrow> vc_closed c'"
  shows "winv (w\<lparr>ws_c := c'\<rparr>)"
proof -
  have "loc_ok (w\<lparr>ws_c := c'\<rparr>) \<and> wire_inv (w\<lparr>ws_c := c'\<rparr>)" if op: "\<not> vc_closed c'"
  proof -
    have s: "same_media (ws_c w) c'" using same op by blast
    then have l: "loc_ok w" and wi: "wire_inv w"
      using inv by (simp_all add: winv_def same_media_def)
    have "loc_ok (w\<lparr>ws_c := c'\<rparr>)"
      using l s by (simp add: loc_ok_def same_media_def split: option.splits)
    moreover have "s < m_sequence (qf_meta p)"
      if "vc_pending c' = Some p" "s \<in> set (frames_of (vc_generation c') (wire w))" for p s
    proof (cases "vc_pending (ws_c w) = Some p")
      case True
      then show ?thesis using wi that s by (auto simp: wire_inv_def same_media_def)
    next
      case False
      then have "newest_sequence (ws_c w) < m_sequence (qf_meta p)"
        using s that(1) by (simp add: same_media_def)
      moreover have "s \<le> newest_sequence (ws_c w)"
        using wi that(2) s newest_ge[of "ws_c w"] by (auto simp: wire_inv_def same_media_def intro: order_trans)
      ultimately show ?thesis by (rule order.strict_trans1[rotated])
    qed
    ultimately show ?thesis
      using wi s by (auto simp: wire_inv_def same_media_def)
  qed
  then show ?thesis
    using inv ok idle stop by (simp add: winv_def idle_ok_def)
qed

text \<open>A new configuration starts a generation of its own.\<close>

lemma frames_of_new: "\<forall>it \<in> set its. \<forall>f. it = WFrame f \<longrightarrow> qf_generation f < g \<Longrightarrow> frames_of g its = []"
  by (auto simp: frames_of_def split: write_item.split)

lemma winv_config:
  assumes inv: "winv w" and ok: "client_ok c'" and op: "\<not> vc_closed (ws_c w)"
    and new: "vc_generation c' = vc_generation (ws_c w) + 1" "vc_generation c' \<noteq> 0"
    and c': "\<exists>m \<in> set (vc_controls c'). qc_config m" "vc_in_flight c' = None" "vc_wake c'"
  shows "winv (w\<lparr>ws_c := c'\<rparr>)"
proof -
  have less: "vc_generation (ws_c w) < vc_generation c'"
    using word_succ_less[of "vc_generation (ws_c w)"] new by simp
  have l: "loc_ok w" and wi: "wire_inv w" and client: "client_ok (ws_c w)"
    using inv op by (simp_all add: winv_def)
  have old: "\<forall>it \<in> set (wire w). \<forall>f. it = WFrame f \<longrightarrow> qf_generation f < vc_generation c'"
    using wi less by (auto simp: wire_inv_def intro: order.strict_trans1)
  have flight: "qf_generation f < vc_generation c'" if "vc_in_flight (ws_c w) = Some f" for f
    using client op that less by (auto simp: client_ok_def media_ok_def frame_ok_def)
  have "loc_ok (w\<lparr>ws_c := c'\<rparr>)"
    using l c'(2) flight less by (auto simp: loc_ok_def split: option.splits)
  moreover have "wire_inv (w\<lparr>ws_c := c'\<rparr>)"
    using c'(1) old frames_of_new[OF old] by (auto simp: wire_inv_def)
  ultimately show ?thesis
    using inv ok c'(3) op by (simp add: winv_def idle_ok_def)
qed

section \<open>What each operation does to the parts the wire depends on\<close>

lemma make_room_config_kept:
  "make_room False len q bytes = Some (q', b) \<Longrightarrow> bytes = sum_list (map blen q) \<Longrightarrow>
   m \<in> set q \<Longrightarrow> qc_config m \<Longrightarrow> m \<in> set q'"
proof -
  assume a: "make_room False len q bytes = Some (q', b)" "bytes = sum_list (map blen q)" "m \<in> set q" "qc_config m"
  then have "filter qc_config q' = filter qc_config q"
    using make_room_spec[OF a(1,2)] by simp
  moreover have "m \<in> set (filter qc_config q)"
    using a(3,4) by simp
  ultimately show "m \<in> set q'"
    by (metis filter_is_subset subsetD)
qed

lemma push_plain_same:
  assumes ok: "client_ok c" and op: "\<not> vc_closed c" and plain: "\<not> qc_config m" and e: "push_control m c = (c', b)"
  shows "same_media c c'"
proof -
  have "vc_control_bytes c = sum_list (map blen (vc_controls c))"
    using ok by (simp add: client_ok_def queue_ok_def)
  then have "\<exists>k \<in> set (vc_controls c'). qc_config k" if "\<exists>k \<in> set (vc_controls c). qc_config k"
    using that e plain
    by (auto simp: push_control_def split: option.splits dest!: make_room_config_kept)
  then show ?thesis
    using push_control_keeps[OF e] op by (auto simp: same_media_def)
qed

text \<open>A configuration within the size limit is never refused for lack of room.\<close>

lemma locked_refused:
  assumes ok: "client_ok c" and e: "enqueue_control_locked tag m c = (c', False)"
  shows "c' = c"
  using e
proof (cases rule: enqueue_control_cases)
  case (2 data)
  let ?s = "supersede (qc_epoch m) (vc_generation c + 1) c"
  have "client_ok ?s" using ok by (rule client_ok_supersede)
  then have "vc_control_bytes ?s = sum_list (map blen (vc_controls ?s))"
    by (simp add: client_ok_def queue_ok_def)
  then obtain q b where "make_room True (int (length data)) (vc_controls ?s) (vc_control_bytes ?s) = Some (q, b)"
    using make_room_plain[of "vc_controls ?s"] 2(5) by fastforce
  then show ?thesis
    using 2(1,6) by (simp add: push_control_def blen_def)
next
  case (3 data)
  then show ?thesis using push_control_fields[OF 3(3)] by simp
qed simp

lemma same_media_refl: "\<not> vc_closed c \<Longrightarrow> same_media c c"
  by (simp add: same_media_def)

lemma same_media_flags [simp]:
  "same_media c (c'\<lparr>vc_ready := b\<rparr>) = same_media c c'" "same_media c (signal_writer c') = same_media c c'"
  by (simp_all add: same_media_def signal_writer_def)

text \<open>The waiting writer: what leaves no more work than before needs no signal.\<close>

lemma winv_idle: "winv w \<Longrightarrow> ws_at w = Waiting \<Longrightarrow> has_runnable_work (ws_c w) \<Longrightarrow> vc_wake (ws_c w)"
  by (simp add: winv_def idle_ok_def)

lemma winv_client: "winv w \<Longrightarrow> client_ok (ws_c w)"
  by (simp add: winv_def)

lemma signal_wake [simp]: "vc_wake (signal_writer c)" "vc_closed (signal_writer c) = vc_closed c"
  by (simp_all add: signal_writer_def)

lemma winv_refl [simp]: "w\<lparr>ws_c := ws_c w\<rparr> = w"
  by simp

lemma winv_enqueue_control:
  assumes inv: "winv w"
  shows "winv (w\<lparr>ws_c := enqueue_control tag data kind (ws_c w)\<rparr>)"
proof (cases "data = []")
  case True
  then show ?thesis using inv by (simp add: enqueue_control_def)
next
  case False
  define m where "m = \<lparr>qc_data = data, qc_config = (fst kind = ''config''), qc_epoch = snd kind, qc_generation = 0\<rparr>"
  note ok = winv_client[OF inv]
  obtain c1 b where e: "enqueue_control_locked tag m (ws_c w) = (c1, b)" by fastforce
  note ok1 = client_ok_locked[OF ok e]
  show ?thesis
  proof (cases b)
    case False
    then have "c1 = ws_c w"
      using locked_refused[OF ok, of tag m c1] e by simp
    then show ?thesis
      using False e inv \<open>data \<noteq> []\<close> by (simp add: enqueue_control_def m_def[symmetric])
  next
    case b: True
    let ?c = "signal_writer (if qc_config m then c1\<lparr>vc_ready := True\<rparr> else c1)"
    have eq: "enqueue_control tag data kind (ws_c w) = ?c"
      using e b \<open>data \<noteq> []\<close> by (simp add: enqueue_control_def m_def[symmetric] Let_def)
    show ?thesis
    proof (cases "qc_config m")
      case cfg: True
      have e1: "enqueue_control_locked tag m (ws_c w) = (c1, True)"
        using e b by simp
      have "\<not> vc_closed (ws_c w)"
        using e b by (auto simp: enqueue_control_locked_def)
      then show ?thesis
        unfolding eq
        using locked_config[OF e1 cfg] ok1
        by (intro winv_config[OF inv]) (simp_all add: cfg signal_writer_def)
    next
      case plain: False
      have op: "\<not> vc_closed (ws_c w)"
        using e b by (auto simp: enqueue_control_locked_def)
      have "same_media (ws_c w) c1"
        using e
      proof (cases rule: enqueue_control_cases)
        case (3 d)
        then show ?thesis using push_plain_same[OF ok op _ 3(3)] plain by simp
      qed (use b plain in simp_all)
      then show ?thesis
        unfolding eq using op ok1 plain by (intro winv_same[OF inv]) simp_all
    qed
  qed
qed

lemma winv_config_keyframe:
  assumes inv: "winv w"
  shows "winv (w\<lparr>ws_c := enqueue_config_and_keyframe tag config kd key_frame expected now (ws_c w)\<rparr>)"
    (is "winv (w\<lparr>ws_c := ?c\<rparr>)")
proof (cases "?c = ws_c w")
  case True
  then show ?thesis using inv by simp
next
  case False
  note ok = winv_client[OF inv]
  obtain ep where kd: "kd = Some (''config'', ep)" "config \<noteq> []"
    using False by (auto simp: enqueue_config_and_keyframe_def split: if_splits option.splits)
  define m where "m = \<lparr>qc_data = config, qc_config = True, qc_epoch = ep, qc_generation = 0\<rparr>"
  obtain c1 b where e: "enqueue_control_locked tag m (ws_c w) = (c1, b)" by fastforce
  have b: b
  proof (rule ccontr)
    assume "\<not> b"
    then have "c1 = ws_c w" and e0: "enqueue_control_locked tag m (ws_c w) = (c1, False)"
      using locked_refused[OF ok, of tag m c1] e by simp_all
    then have "?c = ws_c w"
      unfolding enqueue_config_and_keyframe_def kd m_def by (simp add: Let_def split: option.split)
    then show False using False by simp
  qed
  let ?f = "\<lambda>age. new_frame key_frame (parse_tsf3 key_frame) now age (c1\<lparr>vc_ready := True\<rparr>)"
  obtain age where c: "?c = signal_writer (c1\<lparr>vc_ready := True\<rparr>) \<or> ?c = signal_writer (?f age)"
    using False e b
    by (auto simp: enqueue_config_and_keyframe_def kd m_def[symmetric] Let_def split: option.splits if_splits)
  have e1: "enqueue_control_locked tag m (ws_c w) = (c1, True)"
    using e b by simp
  have "\<not> vc_closed (ws_c w)"
    using e b by (auto simp: enqueue_control_locked_def)
  then show ?thesis
    using locked_config[OF e1] client_ok_config_keyframe[OF ok, of tag config kd key_frame expected now] c
    by (intro winv_config[OF inv]) (auto simp: m_def signal_writer_def new_frame_def)
qed

lemma winv_video_frame:
  assumes inv: "winv w"
  shows "winv (w\<lparr>ws_c := enqueue_video_frame data now (ws_c w)\<rparr>)" (is "winv (w\<lparr>ws_c := ?c\<rparr>)")
proof (cases "?c = ws_c w")
  case True
  then show ?thesis using inv by simp
next
  case False
  then obtain age where c: "?c = signal_writer (new_frame data (parse_tsf3 data) now age (ws_c w))"
      "newest_sequence (ws_c w) < m_sequence (parse_tsf3 data)" "\<not> vc_closed (ws_c w)"
    by (auto simp: enqueue_video_frame_def Let_def split: if_splits)
  have "same_media (ws_c w) ?c"
    using c(2,3) unfolding c(1) by (simp add: same_media_def signal_writer_def new_frame_def)
  then show ?thesis
    using c(3) client_ok_video_frame[OF winv_client[OF inv], of data now]
    by (intro winv_same[OF inv]) (simp_all add: c(1))
qed

lemma winv_feedback:
  assumes inv: "winv w"
  shows "winv (w\<lparr>ws_c := fst (accept_feedback raw (ws_c w))\<rparr>)"
proof -
  obtain c' out where e: "accept_feedback raw (ws_c w) = (c', out)" by fastforce
  then show ?thesis
  proof (cases rule: feedback_cases)
    case 1
    then show ?thesis using inv e by simp
  next
    case (2 f)
    have "same_media (ws_c w) c'"
      using 2(2) by (simp add: same_media_def 2(6))
    moreover have "vc_wake c'" if "ws_at w = Waiting" "has_runnable_work c'"
      using winv_idle[OF inv that(1)] that(2) 2(2,7) by (auto simp: has_runnable_work_def 2(6) split: if_splits)
    ultimately show ?thesis
      using client_ok_feedback[OF winv_client[OF inv], of raw] 2(2)
      by (intro winv_same[OF inv]) (simp_all add: e)
  qed
qed

lemma winv_probe:
  assumes inv: "winv w"
  shows "winv (w\<lparr>ws_c := fst (answer_browser_probe raw t s (ws_c w))\<rparr>)"
proof -
  let ?c = "fst (answer_browser_probe raw t s (ws_c w))"
  have f: "vc_closed ?c = vc_closed (ws_c w)" "vc_wake ?c = vc_wake (ws_c w)"
      "has_runnable_work ?c = has_runnable_work (ws_c w)" "\<not> vc_closed (ws_c w) \<Longrightarrow> same_media (ws_c w) ?c"
    by (auto simp: answer_browser_probe_def has_runnable_work_def same_media_def Let_def split: option.splits)
  show ?thesis
    using f client_ok_probe[OF winv_client[OF inv]] winv_idle[OF inv]
    by (intro winv_same[OF inv]) simp_all
qed

lemma winv_stop:
  assumes inv: "winv w"
  shows "winv (w\<lparr>ws_c := stop_writer (ws_c w)\<rparr>)"
  using client_ok_stop[OF winv_client[OF inv]] inv
  by (simp add: winv_def idle_ok_def has_runnable_work_def stop_writer_def clear_video_receipt_def)

section \<open>The goroutine's own steps\<close>

lemma client_ok_wake [simp]: "client_ok (c\<lparr>vc_wake := False\<rparr>) = client_ok c"
  by simp

lemma loc_wire_closed: "winv w \<Longrightarrow> \<not> vc_closed (ws_c w) \<Longrightarrow> loc_ok w \<and> wire_inv w"
  by (simp add: winv_def)

text \<open>Moving between places that hold no message.\<close>

lemma winv_move:
  assumes inv: "winv w" and src: "ws_at w \<in> {Running, Waiting, Stopped}" and dst: "l \<in> {Running, Waiting}"
    and idle: "l = Waiting \<Longrightarrow> \<not> has_runnable_work (ws_c w)"
  shows "winv (w\<lparr>ws_at := l, ws_c := (ws_c w)\<lparr>vc_wake := b\<rparr>\<rparr>)"
proof -
  let ?w = "w\<lparr>ws_at := l, ws_c := (ws_c w)\<lparr>vc_wake := b\<rparr>\<rparr>"
  have eq: "wire ?w = wire w" "held_frame ?w = held_frame w"
    using src dst by (auto simp: wire_def in_hand_def held_frame_def)
  have "loc_ok ?w = loc_ok w" "wire_inv ?w = wire_inv w"
    unfolding loc_ok_def wire_inv_def eq by (simp_all split: option.split)
  then show ?thesis
    using inv idle dst unfolding winv_def idle_ok_def eq by (auto simp: has_runnable_work_def)
qed

lemma winv_rest:
  assumes "winv w" "ws_at w = Running" "\<not> has_runnable_work (ws_c w)"
  shows "winv (w\<lparr>ws_at := Waiting\<rparr>)"
  using winv_move[OF assms(1), of Waiting "vc_wake (ws_c w)"] assms(2,3) by simp

lemma winv_woken:
  assumes "winv w" "ws_at w = Waiting"
  shows "winv (w\<lparr>ws_at := Running, ws_c := (ws_c w)\<lparr>vc_wake := False\<rparr>\<rparr>)"
  using winv_move[OF assms(1), of Running False] assms(2) by simp

text \<open>A writer that ends closed.\<close>

lemma winv_stopped:
  assumes inv: "winv w" and ok: "client_ok c" "vc_closed c" and sub: "wire w' = wire w \<or> (\<exists>f. wire w = wire w' @ [f])"
    and w': "ws_c w' = c"
  shows "winv w'"
proof -
  have "wire_ok (wire w')"
    using inv sub wire_ok_snoc by (auto simp: winv_def)
  then show ?thesis
    using ok by (simp add: winv_def w' idle_ok_def has_runnable_work_def)
qed

lemma winv_expired:
  assumes inv: "winv w" and at_idle: "ws_at w = Waiting \<or> ws_at w = Running" and e: "close_expired_receipt now (ws_c w) = (c, b)"
  shows "winv (w\<lparr>ws_at := (if b then Stopped else Running), ws_c := c\<rparr>)"
proof (cases b)
  case False
  then have "c = ws_c w" using e by (auto simp: close_expired_receipt_def split: if_splits)
  then show ?thesis
    using winv_move[OF inv, of Running "vc_wake (ws_c w)"] at_idle False by auto
next
  case True
  then have "vc_closed c" using e by (auto simp: close_expired_receipt_def clear_video_receipt_def split: if_splits)
  moreover have "client_ok c"
    using client_ok_expired[OF winv_client[OF inv], of now] e by simp
  ultimately show ?thesis
    using at_idle True by (intro winv_stopped[OF inv]) (auto simp: wire_def in_hand_def)
qed

lemma next_cases:
  assumes "next_write_item now c = (c', it)"
  obtains "c' = c" "it = None"
  | p where "vc_pending c = Some p" "c' = c\<lparr>vc_pending := None\<rparr>" "it = None" "\<not> vc_closed c"
  | m rest where "vc_controls c = m # rest" "it = Some (WControl m)" "\<not> vc_closed c"
      "c' = c\<lparr>vc_controls := rest, vc_control_bytes := max 0 (vc_control_bytes c - blen m)\<rparr>"
  | f where "vc_controls c = []" "vc_receipt c = 0" "vc_pending c = Some f" "it = Some (WFrame f)" "\<not> vc_closed c"
      "c' = c\<lparr>vc_pending := None, vc_in_flight := Some f\<rparr>" "\<not> queued_frame_expired f now"
proof (cases "vc_closed c")
  case True
  then show ?thesis by (intro that(1)) (use assms in \<open>simp_all add: next_write_item_def\<close>)
next
  case op: False
  show ?thesis
  proof (cases "vc_controls c")
    case (Cons m rest)
    then show ?thesis
      by (intro that(3)[OF Cons _ op]) (use assms op in \<open>simp_all add: next_write_item_def\<close>)
  next
    case Nil
    show ?thesis
    proof (cases "vc_receipt c = 0")
      case False
      then show ?thesis by (intro that(1)) (use assms op Nil in \<open>simp_all add: next_write_item_def\<close>)
    next
      case free: True
      show ?thesis
      proof (cases "vc_pending c")
        case None
        then show ?thesis by (intro that(1)) (use assms op Nil free in \<open>simp_all add: next_write_item_def\<close>)
      next
        case (Some f)
        then show ?thesis
          by (cases "queued_frame_expired f now"; intro that(2)[OF Some _ _ op] that(4)[OF Nil free Some _ op])
            (use assms op Nil free in \<open>simp_all add: next_write_item_def\<close>)
      qed
    qed
  qed
qed

lemma running_free: "winv w \<Longrightarrow> ws_at w = Running \<Longrightarrow> \<not> vc_closed (ws_c w) \<Longrightarrow> vc_in_flight (ws_c w) = None"
  by (auto simp: winv_def loc_ok_def held_frame_def)

lemma client_ok_taken: 
  assumes inv: "winv w" and r: "ws_at w = Running" and e: "next_write_item now (ws_c w) = (c, it)"
  shows "client_ok c"
proof (cases "vc_closed (ws_c w)")
  case True
  then show ?thesis using e winv_client[OF inv] by (simp add: next_write_item_def)
next
  case False
  then show ?thesis
    using client_ok_next[OF winv_client[OF inv] running_free[OF inv r] e] by simp
qed

lemma winv_took_none:
  assumes inv: "winv w" and r: "ws_at w = Running" and e: "next_write_item now (ws_c w) = (c, None)"
  shows "winv (w\<lparr>ws_c := c\<rparr>)"
  using e
proof (cases rule: next_cases)
  case 1
  then show ?thesis using inv by simp
next
  case (2 p)
  then have "same_media (ws_c w) c"
    by (simp add: same_media_def)
  then show ?thesis
    using client_ok_taken[OF inv r e] r 2 by (intro winv_same[OF inv]) simp_all
qed simp_all

lemma wire_writing: "ws_at w = Running \<Longrightarrow> wire (w\<lparr>ws_c := c, ws_at := Writing it\<rparr>) = wire w @ [it]"
  by (simp add: wire_def in_hand_def)

lemma winv_took_control:
  assumes inv: "winv w" and r: "ws_at w = Running" and op: "\<not> vc_closed (ws_c w)"
    and q: "vc_controls (ws_c w) = m # rest" and ok: "client_ok c"
    and c: "c = (ws_c w)\<lparr>vc_controls := rest, vc_control_bytes := b\<rparr>"
  shows "winv (w\<lparr>ws_c := c, ws_at := Writing (WControl m)\<rparr>)" (is "winv ?w")
proof -
  have wi: "wire_inv w" using loc_wire_closed[OF inv op] by simp
  have "last_config (wire ?w) = Some (vc_generation c, vc_epoch c)" if "qc_config m"
    using winv_client[OF inv] q that by (simp add: wire_writing[OF r] config_after_def client_ok_def queue_ok_def c)
  moreover have "vc_generation c = 0 \<or> (\<exists>m \<in> set (vc_controls c). qc_config m) \<or>
      last_config (wire ?w) = Some (vc_generation c, vc_epoch c)" if "\<not> qc_config m"
    using wi that q by (auto simp: wire_writing[OF r] config_after_def wire_inv_def c)
  ultimately have "wire_inv ?w"
    using wi by (auto simp: wire_inv_def wire_writing[OF r] c)
  moreover have "loc_ok ?w"
    using running_free[OF inv r op] by (simp add: loc_ok_def held_frame_def c)
  moreover have "wire_ok (wire ?w)"
    using inv by (simp add: wire_writing[OF r] wire_ok_snoc may_follow_def winv_def)
  ultimately show ?thesis
    using ok by (simp add: winv_def idle_ok_def)
qed

lemma winv_took_frame:
  assumes inv: "winv w" and r: "ws_at w = Running" and op: "\<not> vc_closed (ws_c w)"
    and q: "vc_controls (ws_c w) = []" "vc_pending (ws_c w) = Some f" and ok: "client_ok c"
    and c: "c = (ws_c w)\<lparr>vc_pending := None, vc_in_flight := Some f\<rparr>"
  shows "winv (w\<lparr>ws_c := c, ws_at := Writing (WFrame f)\<rparr>)" (is "winv ?w")
proof -
  have wi: "wire_inv w" using loc_wire_closed[OF inv op] by simp
  have f: "frame_ok (ws_c w) f"
    using winv_client[OF inv] op q(2) by (simp add: client_ok_def media_ok_def)
  have lc: "last_config (wire w) = Some (vc_generation (ws_c w), vc_epoch (ws_c w))"
    using wi f q(1) by (auto simp: wire_inv_def frame_ok_def)
  have new: "\<forall>s \<in> set (frames_of (vc_generation (ws_c w)) (wire w)). s < m_sequence (qf_meta f)"
    using wi q(2) by (simp add: wire_inv_def)
  have "wire_ok (wire ?w)"
    using inv lc new f by (simp add: wire_writing[OF r] wire_ok_snoc may_follow_def winv_def frame_ok_def)
  moreover have "wire_inv ?w"
    using wi lc f running_free[OF inv r op]
    by (auto simp: wire_inv_def wire_writing[OF r] config_after_def frame_ok_def c)
  moreover have "loc_ok ?w"
    by (simp add: loc_ok_def held_frame_def c)
  ultimately show ?thesis
    using ok by (simp add: winv_def idle_ok_def)
qed

lemma winv_took:
  assumes inv: "winv w" and r: "ws_at w = Running" and e: "next_write_item now (ws_c w) = (c, Some it)"
  shows "winv (w\<lparr>ws_c := c, ws_at := Writing it\<rparr>)"
  using e
proof (cases rule: next_cases)
  case (3 m rest)
  then show ?thesis
    using winv_took_control[OF inv r 3(3,1) client_ok_taken[OF inv r e] 3(4)] by simp
next
  case (4 f)
  then show ?thesis
    using winv_took_frame[OF inv r 4(5,1,3) client_ok_taken[OF inv r e] 4(6)] by simp
qed simp_all

lemma winv_failed:
  assumes inv: "winv w" and at_w: "ws_at w = Writing it"
  shows "winv (w\<lparr>ws_c := close_writer reason it (ws_c w), ws_at := Stopped\<rparr>)"
  using client_ok_close[OF winv_client[OF inv], of reason it] at_w
  by (intro winv_stopped[OF inv, of "close_writer reason it (ws_c w)"])
    (auto simp: close_writer_def wire_def in_hand_def)

lemma winv_written:
  assumes inv: "winv w" and at_w: "ws_at w = Writing it"
  shows "winv (w\<lparr>ws_at := Wrote it, ws_sent := ws_sent w @ [it]\<rparr>)"
proof -
  let ?w = "w\<lparr>ws_at := Wrote it, ws_sent := ws_sent w @ [it]\<rparr>"
  have eq: "wire ?w = wire w" "held_frame ?w = held_frame w"
    using at_w by (auto simp: wire_def in_hand_def held_frame_def split: write_item.split)
  have "loc_ok ?w = loc_ok w" "wire_inv ?w = wire_inv w"
    unfolding loc_ok_def wire_inv_def eq by (simp_all split: option.split)
  then show ?thesis
    using inv unfolding winv_def idle_ok_def eq by simp
qed

lemma frames_of_sub: "set (frames_of g its) \<subseteq> set (frames_of g (its @ [it]))"
  by (cases it) auto

lemma winv_skipped:
  assumes inv: "winv w" and at_w: "ws_at w = Writing (WFrame f)"
  shows "winv (w\<lparr>ws_c := clear_in_flight f (ws_c w), ws_at := Running\<rparr>)" (is "winv ?w")
proof -
  have wire: "wire w = ws_sent w @ [WFrame f]" "wire ?w = ws_sent w"
    using at_w by (simp_all add: wire_def in_hand_def)
  have follow: "wire_ok (ws_sent w)" "may_follow (ws_sent w) (WFrame f)"
    using inv by (simp_all add: winv_def wire wire_ok_snoc)
  have clear: "clear_in_flight f c = c \<or> clear_in_flight f c = c\<lparr>vc_in_flight := None\<rparr>" for c
    by (simp add: clear_in_flight_def split: option.split)
  have "loc_ok ?w \<and> wire_inv ?w" if op: "\<not> vc_closed (ws_c w)"
  proof -
    have l: "loc_ok w" and wi: "wire_inv w" using loc_wire_closed[OF inv op] by simp_all
    have held: "vc_in_flight (ws_c w) = Some f \<or> vc_in_flight (ws_c w) = None"
      using l at_w by (auto simp: loc_ok_def held_frame_def)
    then have none: "vc_in_flight (clear_in_flight f (ws_c w)) = None"
      by (auto simp: clear_in_flight_def)
    have small: "s \<le> vc_written (ws_c w)" if s: "s \<in> set (frames_of (vc_generation (ws_c w)) (ws_sent w))" for s
    proof (cases "vc_in_flight (ws_c w)")
      case None
      then show ?thesis using wi s frames_of_sub by (auto simp: wire_inv_def wire)
    next
      case (Some g)
      then have g: "g = f" "qf_generation f = vc_generation (ws_c w)"
        using held winv_client[OF inv] op by (auto simp: client_ok_def media_ok_def frame_ok_def)
      then have "s < m_sequence (qf_meta f)"
        using follow(2) s by (simp add: may_follow_def)
      then show ?thesis
        using wi s Some g by (auto simp: wire_inv_def wire)
    qed
    have "wire_inv ?w"
      using wi small clear[of "ws_c w"] none frames_of_sub
      by (auto simp: wire_inv_def wire config_after_def)
    moreover have "loc_ok ?w"
      using none by (simp add: loc_ok_def held_frame_def)
    ultimately show ?thesis by simp
  qed
  moreover have "vc_closed (clear_in_flight f (ws_c w)) = vc_closed (ws_c w)"
    using clear[of "ws_c w"] by auto
  ultimately show ?thesis
    using follow(1) client_ok_clear[OF winv_client[OF inv]] wire by (simp add: winv_def idle_ok_def)
qed

lemma wire_inv_cong:
  "wire w' = wire w \<Longrightarrow> vc_generation (ws_c w') = vc_generation (ws_c w) \<Longrightarrow>
   vc_epoch (ws_c w') = vc_epoch (ws_c w) \<Longrightarrow> vc_controls (ws_c w') = vc_controls (ws_c w) \<Longrightarrow>
   vc_written (ws_c w') = vc_written (ws_c w) \<Longrightarrow> vc_in_flight (ws_c w') = vc_in_flight (ws_c w) \<Longrightarrow>
   vc_pending (ws_c w') = vc_pending (ws_c w) \<Longrightarrow> wire_inv w' = wire_inv w"
  by (simp add: wire_inv_def)

lemma note_frame_closed: "vc_closed c \<Longrightarrow> vc_closed (note_frame_written f now c)"
  by (simp add: note_frame_written_def clear_in_flight_def Let_def split: option.split)

lemma winv_noted_frame:
  assumes inv: "winv w" and at_w: "ws_at w = Wrote (WFrame f)" and now: "0 \<le> now"
  shows "winv (w\<lparr>ws_c := note_frame_written f now (ws_c w), ws_at := Running\<rparr>)" (is "winv ?w")
proof -
  let ?c = "note_frame_written f now (ws_c w)"
  have wire: "wire ?w = wire w"
    using at_w by (simp add: wire_def in_hand_def)
  have held: "vc_in_flight (ws_c w) = Some f \<or> (vc_in_flight (ws_c w) = None \<and> qf_generation f < vc_generation (ws_c w))"
    if "\<not> vc_closed (ws_c w)"
    using loc_wire_closed[OF inv that] at_w by (simp add: loc_ok_def held_frame_def)
  have ok: "client_ok ?c"
    using client_ok_noted[OF winv_client[OF inv] now] held by blast
  have "loc_ok ?w \<and> wire_inv ?w" if "\<not> vc_closed ?c"
  proof -
    have op: "\<not> vc_closed (ws_c w)"
      using that note_frame_closed by blast
    have wi: "wire_inv w" using loc_wire_closed[OF inv op] by simp
    show ?thesis
    proof (cases "vc_in_flight (ws_c w) = Some f")
      case True
      then have f: "frame_ok (ws_c w) f"
        using winv_client[OF inv] op by (auto simp: client_ok_def media_ok_def)
      have fields: "vc_written ?c = m_sequence (qf_meta f)" "vc_in_flight ?c = None"
          "vc_pending ?c = vc_pending (ws_c w)" "vc_generation ?c = vc_generation (ws_c w)"
          "vc_epoch ?c = vc_epoch (ws_c w)" "vc_controls ?c = vc_controls (ws_c w)"
        using f True op by (simp_all add: note_frame_written_def clear_in_flight_def frame_ok_def Let_def)
      have "vc_written (ws_c w) \<le> m_sequence (qf_meta f)"
        using f by (simp add: frame_ok_def)
      then have "wire_inv ?w"
        using wi True unfolding wire_inv_def wire by (auto simp: fields intro: order_trans)
      then show ?thesis
        by (simp add: loc_ok_def held_frame_def fields)
    next
      case False
      then have none: "vc_in_flight (ws_c w) = None" "qf_generation f < vc_generation (ws_c w)"
        using held op by auto
      then have eq: "?c = ws_c w"
        by (auto simp: note_frame_written_def clear_in_flight_def Let_def)
      have "wire_inv ?w"
        using wi wire_inv_cong[OF wire] by (simp add: eq)
      then show ?thesis
        using none(1) by (simp add: loc_ok_def held_frame_def eq)
    qed
  qed
  then show ?thesis
    using inv ok unfolding winv_def wire by (simp add: idle_ok_def)
qed

lemma winv_noted_control:
  assumes inv: "winv w" and at_w: "ws_at w = Wrote (WControl m)"
  shows "winv (w\<lparr>ws_c := note_written (WControl m) now (ws_c w), ws_at := Running\<rparr>)" (is "winv ?w")
proof -
  let ?c = "note_written (WControl m) now (ws_c w)"
  have wire: "wire ?w = wire w"
    using at_w by (simp add: wire_def in_hand_def)
  have f: "vc_closed ?c = vc_closed (ws_c w)" "vc_in_flight ?c = vc_in_flight (ws_c w)"
      "vc_pending ?c = vc_pending (ws_c w)" "vc_generation ?c = vc_generation (ws_c w)"
      "vc_epoch ?c = vc_epoch (ws_c w)" "vc_controls ?c = vc_controls (ws_c w)" "vc_written ?c = vc_written (ws_c w)"
    by (simp_all add: note_written_def note_config_written_def)
  have "loc_ok ?w \<and> wire_inv ?w" if "\<not> vc_closed (ws_c w)"
    using loc_wire_closed[OF inv that] at_w wire_inv_cong[OF wire] by (simp add: loc_ok_def held_frame_def f)
  moreover have "client_ok ?c"
    using winv_client[OF inv] by (simp add: note_written_def client_ok_config_written)
  ultimately show ?thesis
    using inv unfolding winv_def wire by (simp add: idle_ok_def f)
qed

lemma winv_noted:
  assumes "winv w" "ws_at w = Wrote it" "0 \<le> now"
  shows "winv (w\<lparr>ws_c := note_written it now (ws_c w), ws_at := Running\<rparr>)"
  using assms winv_noted_frame winv_noted_control by (cases it) (simp_all add: note_written_def)

lemma winv_cancelled:
  assumes inv: "winv w" and "vc_closed (ws_c w)" "ws_at w = Waiting"
  shows "winv (w\<lparr>ws_at := Stopped\<rparr>)"
  using assms(2,3) winv_client[OF inv]
  by (intro winv_stopped[OF inv, of "ws_c w"]) (auto simp: wire_def in_hand_def)

lemma winv_step: "wstep tag w w' \<Longrightarrow> winv w \<Longrightarrow> winv w'"
  by (induction rule: wstep.induct)
    (simp_all add: winv_enqueue_control winv_config_keyframe winv_video_frame winv_feedback winv_probe winv_stop
      winv_rest winv_woken winv_expired winv_cancelled winv_took_none winv_took winv_skipped winv_failed
      winv_written winv_noted)

lemma winv_reach: "wreach tag w \<Longrightarrow> winv w"
  by (induction rule: wreach.induct) (use winv_init winv_step in blast)+

end
