(* ===== verification/TrWriterClaims.thy ===== *)
theory TrWriterClaims
  imports TrWriterRun
begin

text \<open>
  The properties of the viewer's writer: what its socket carries, what the credit means, what the
  browser can claim, and that the goroutine never sleeps on work.
\<close>

section \<open>Evidence of written pictures\<close>

definition evidence_ok :: "wstate \<Rightarrow> bool" where
  "evidence_ok w \<longleftrightarrow>
     set (vc_evidence (ws_c w)) \<subseteq> set (frames_of (vc_generation (ws_c w)) (ws_sent w)) \<and>
     (\<forall>it. ws_at w = Wrote it \<longrightarrow> it \<in> set (ws_sent w))"

definition evidence_kept :: "vclient \<Rightarrow> vclient \<Rightarrow> bool" where
  "evidence_kept c c' \<longleftrightarrow>
     vc_evidence c' = [] \<or> (vc_generation c' = vc_generation c \<and> vc_evidence c' = vc_evidence c)"

lemma evidence_kept_refl [simp]: "evidence_kept c c"
  by (simp add: evidence_kept_def)

lemma evidence_kept_push: "push_control m c = (c', b) \<Longrightarrow> evidence_kept c c'"
  by (auto simp: push_control_def evidence_kept_def split: option.splits)

lemma evidence_kept_locked:
  assumes "enqueue_control_locked tag m c = (c', b)"
  shows "evidence_kept c c'"
  using assms
proof (cases rule: enqueue_control_cases)
  case (2 data)
  have "vc_evidence (supersede (qc_epoch m) (vc_generation c + 1) c) = []"
    by (simp add: supersede_def clear_video_receipt_def)
  then show ?thesis
    using evidence_kept_push[OF 2(6)] by (auto simp: evidence_kept_def)
qed (simp_all add: evidence_kept_push)

lemma evidence_kept_fields [simp]:
  "evidence_kept c (c'\<lparr>vc_ready := b\<rparr>) = evidence_kept c c'"
  "evidence_kept c (c'\<lparr>vc_wake := b\<rparr>) = evidence_kept c c'"
  "evidence_kept c (signal_writer c') = evidence_kept c c'"
  "evidence_kept c (new_frame data m now age c') = evidence_kept c c'"
  by (simp_all add: evidence_kept_def signal_writer_def new_frame_def)

lemma evidence_kept_ops:
  "evidence_kept c (enqueue_control tag data kind c)"
  "evidence_kept c (enqueue_config_and_keyframe tag config kd key_frame expected now c)"
  "evidence_kept c (enqueue_video_frame data now c)"
  "evidence_kept c (fst (answer_browser_probe raw t s c))"
  "evidence_kept c (stop_writer c)"
  "evidence_kept c (clear_in_flight f c)"
  "evidence_kept c (close_writer reason it c)"
proof -
  show "evidence_kept c (enqueue_control tag data kind c)"
    by (auto simp: enqueue_control_def Let_def split: prod.split dest: evidence_kept_locked)
  show "evidence_kept c (enqueue_config_and_keyframe tag config kd key_frame expected now c)"
    by (auto simp: enqueue_config_and_keyframe_def Let_def split: option.split prod.split bool.split
        dest: evidence_kept_locked)
  show "evidence_kept c (enqueue_video_frame data now c)"
    by (simp add: enqueue_video_frame_def Let_def)
  show "evidence_kept c (fst (answer_browser_probe raw t s c))"
    by (simp add: answer_browser_probe_def evidence_kept_def Let_def split: option.split)
  show "evidence_kept c (stop_writer c)" "evidence_kept c (clear_in_flight f c)"
      "evidence_kept c (close_writer reason it c)"
    by (simp_all add: stop_writer_def clear_video_receipt_def close_writer_def clear_item_def
        clear_in_flight_def evidence_kept_def split: option.split write_item.split)
qed

lemma evidence_kept_feedback: "evidence_kept c (fst (accept_feedback raw c))"
proof -
  obtain c' out where e: "accept_feedback raw c = (c', out)" by fastforce
  then show ?thesis
    by (cases rule: feedback_cases) (simp_all add: e evidence_kept_def)
qed

lemma evidence_kept_next: "next_write_item now c = (c', it) \<Longrightarrow> evidence_kept c c'"
  by (erule next_cases) (simp_all add: evidence_kept_def)

lemma evidence_kept_expired: "close_expired_receipt now c = (c', b) \<Longrightarrow> evidence_kept c c'"
  by (auto simp: close_expired_receipt_def clear_video_receipt_def evidence_kept_def split: if_splits)

lemma evidence_step:
  assumes "evidence_ok w" "evidence_kept (ws_c w) c'" "ws_c w' = c'" "ws_sent w' = ws_sent w"
    "\<And>it. ws_at w' = Wrote it \<Longrightarrow> ws_at w = Wrote it"
  shows "evidence_ok w'"
  using assms by (auto simp: evidence_ok_def evidence_kept_def)

lemma evidence_noted:
  assumes "evidence_ok w" "ws_at w = Wrote it"
  shows "evidence_ok (w\<lparr>ws_c := note_written it now (ws_c w), ws_at := Running\<rparr>)"
proof (cases it)
  case (WControl m)
  then show ?thesis
    using assms by (simp add: evidence_ok_def note_written_def note_config_written_def)
next
  case (WFrame f)
  have sent: "WFrame f \<in> set (ws_sent w)"
    using assms WFrame by (simp add: evidence_ok_def)
  have "m_sequence (qf_meta f) \<in> set (frames_of (vc_generation (ws_c w)) (ws_sent w))"
    if "qf_generation f = vc_generation (ws_c w)"
    using sent that by (force simp: frames_of_def)
  then show ?thesis
    using assms last_n_bound(2)[of 128 "vc_evidence (ws_c w) @ [m_sequence (qf_meta f)]"] WFrame
    by (auto simp: evidence_ok_def note_written_def note_frame_written_def clear_in_flight_def Let_def
        split: option.split)
qed

lemma frames_of_append: "frames_of g (xs @ ys) = frames_of g xs @ frames_of g ys"
  by (simp add: frames_of_def)

lemma evidence_wstep: "wstep tag w w' \<Longrightarrow> evidence_ok w \<Longrightarrow> evidence_ok w'"
proof (induction rule: wstep.induct)
  case (written w it)
  then show ?case by (auto simp: evidence_ok_def frames_of_append)
next
  case (noted w it now)
  then show ?case by (simp add: evidence_noted)
qed (erule evidence_step;
     auto simp: evidence_kept_ops evidence_kept_feedback dest: evidence_kept_next evidence_kept_expired split: if_splits)+

lemma evidence_reach: "wreach tag w \<Longrightarrow> evidence_ok w"
proof (induction rule: wreach.induct)
  case init
  then show ?case by (simp add: evidence_ok_def ws_init_def vclient_init_def)
next
  case (step w w')
  then show ?case using evidence_wstep by blast
qed

end
