(* ===== verification/TrWriterExample.thy ===== *)
theory TrWriterExample
  imports TrWriterClaims
begin

text \<open>
  The properties of the viewer's writer, with a run in which a configuration and one picture are
  written, the picture is acknowledged, and a second picture waits.
\<close>

section \<open>A sample run\<close>

definition sample_tag :: "bytes \<Rightarrow> 64 word \<Rightarrow> bytes option" where
  "sample_tag data g = Some (data @ [ucast g])"

definition picture :: "64 word \<Rightarrow> bytes" where
  "picture n = [0x54, 0x53, 0x46, 0x33, 1] @ put_be64 7 @ put_be64 n @ put_be64 1 @ put_be64 1 @
     put_be64 1700000000000000 @ put_be64 1700000000000000 @ put_be64 1700000000000000 @
     put_be64 1700000000000000 @ put_be64 1700000000000000 @ put_be64 1 @ put_be64 50 @ [0xAA]"

definition sample_now :: int where
  "sample_now = 1700000000100000000"

definition picture_meta :: "64 word \<Rightarrow> tsf3" where
  "picture_meta n =
     \<lparr>m_ok = True, m_key_frame = True, m_version = 3, m_header_bytes = 93, m_epoch = 7, m_sequence = n,
      m_timestamp = 1700000000000000, m_capture_attempt = 1, m_codec_generation = 1,
      m_capture_start = 1700000000000000, m_capture_complete = 1700000000000000,
      m_codec_input = 1700000000000000, m_codec_output = 1700000000000000,
      m_record_emission = 1700000000000000, m_calibration_generation = 1, m_uncertainty = 50\<rparr>"

lemma picture_parse: "parse_tsf3 (picture n) = picture_meta n"
proof -
  have "be_uint [0x54, 0x53, 0x46, 0x33] = tsf3_magic"
    by (simp add: be_uint_def tsf3_magic_def push_bit_eq_mult)
  then show ?thesis
    by (simp add: parse_tsf3_def slice_def picture_def tsf3_header_bytes_def picture_meta_def)
qed

lemma picture_length: "length (picture n) = 94" "picture n \<noteq> []"
  by (simp_all add: picture_def)

lemma picture_age: "meta_visual_age (picture_meta n) sample_now = (100050000, True)"
proof -
  have "time_sub sample_now 1700000000000000000 = 100000000"
    by (subst time_sub_small) (simp_all add: sample_now_def in_i64_def i64_max_def i64_min_def)
  moreover have "i64 100050000 = 100050000"
    by (rule i64_id) (simp add: in_i64_def i64_max_def i64_min_def)
  ultimately show ?thesis
    by (simp add: meta_visual_age_def picture_meta_def wall_clock_floor_def time_unix_micro_def
        future_tolerance_def live_fresh_max_age_def duration_defs)
qed

definition sample_config_item :: queued_control where
  "sample_config_item = \<lparr>qc_data = [1, 1], qc_config = True, qc_epoch = 7, qc_generation = 1\<rparr>"

definition picture_item :: "nat \<Rightarrow> 64 word \<Rightarrow> queued_frame" where
  "picture_item i n = \<lparr>qf_id = i, qf_data = picture n, qf_meta = picture_meta n, qf_queued_at = sample_now,
     qf_visual_age = 100050000, qf_generation = 1\<rparr>"

text \<open>After the configuration was queued, taken and written.\<close>

definition configured :: vclient where
  "configured = vclient_init\<lparr>vc_epoch := 7, vc_generation := 1, vc_ready := True, vc_wake := True,
     vc_controls := [sample_config_item], vc_control_bytes := 2\<rparr>"

lemma configured_eq: "enqueue_control sample_tag [1] (''config'', 7) vclient_init = configured"
  by (simp add: enqueue_control_def enqueue_control_locked_def sample_tag_def config_with_feedback_def
      push_control_def supersede_def clear_video_receipt_def make_room_fits queue_full_def control_max_messages_def
      control_max_bytes_def blen_def signal_writer_def configured_def sample_config_item_def vclient_init_def
      Let_def)

definition settled :: vclient where
  "settled = configured\<lparr>vc_controls := [], vc_control_bytes := 0, vc_written_epoch := 7,
     vc_written_generation := 1\<rparr>"

lemma settle_eq:
  "next_write_item 0 configured =
     (configured\<lparr>vc_controls := [], vc_control_bytes := 0\<rparr>, Some (WControl sample_config_item))"
  "note_written (WControl sample_config_item) 0 (configured\<lparr>vc_controls := [], vc_control_bytes := 0\<rparr>) = settled"
  by (simp_all add: next_write_item_def note_written_def note_config_written_def settled_def configured_def
      vclient_init_def sample_config_item_def blen_def)

definition st :: "vclient \<Rightarrow> wloc \<Rightarrow> write_item list \<Rightarrow> wstate" where
  "st c l s = \<lparr>ws_c = c, ws_at = l, ws_sent = s\<rparr>"

lemma st_simps [simp]:
  "ws_c (st c l s) = c" "ws_at (st c l s) = l" "ws_sent (st c l s) = s"
  "(st c l s)\<lparr>ws_c := c'\<rparr> = st c' l s" "(st c l s)\<lparr>ws_at := l'\<rparr> = st c l' s"
  "(st c l s)\<lparr>ws_sent := s'\<rparr> = st c l s'"
  by (simp_all add: st_def)

lemma settled_reach: "wreach sample_tag (st settled Running [WControl sample_config_item])"
proof -
  let ?taken = "configured\<lparr>vc_controls := [], vc_control_bytes := 0\<rparr>"
  have "wreach sample_tag (st configured Running [])"
    using wreach.step[OF wreach.init wstep.control[of sample_tag ws_init "[1]" "(''config'', 7)"]]
    by (simp add: ws_init_def configured_eq st_def)
  note a = this
  have "wreach sample_tag (st ?taken (Writing (WControl sample_config_item)) [])"
    using wreach.step[OF a wstep.took[of "st configured Running []" 0 ?taken]] settle_eq(1) by simp
  note b = this
  have "wreach sample_tag (st ?taken (Wrote (WControl sample_config_item)) [WControl sample_config_item])"
    using wreach.step[OF b wstep.written] by simp
  then show ?thesis
    using wreach.step[OF _ wstep.noted, of sample_tag "st ?taken (Wrote (WControl sample_config_item)) [WControl sample_config_item]" "WControl sample_config_item" 0]
      settle_eq(2) by simp
qed

text \<open>The first picture.\<close>

definition queued1 :: vclient where
  "queued1 = settled\<lparr>vc_pending := Some (picture_item 0 1), vc_next_id := 1\<rparr>"

lemma queue_picture:
  "vc_generation c = 1 \<Longrightarrow> vc_epoch c = 7 \<Longrightarrow> \<not> vc_closed c \<Longrightarrow> newest_sequence c < n \<Longrightarrow>
   enqueue_video_frame (picture n) sample_now c =
     c\<lparr>vc_pending := Some (picture_item (vc_next_id c) n), vc_next_id := vc_next_id c + 1, vc_wake := True\<rparr>"
  by (simp add: enqueue_video_frame_def picture_parse picture_length picture_age Let_def max_video_message_def
      new_frame_def signal_writer_def picture_item_def max_video_payload_def not_le)
    (simp add: picture_meta_def)

lemma settled_fields [simp]:
  "vc_generation settled = 1" "vc_epoch settled = 7" "\<not> vc_closed settled" "vc_controls settled = []"
  "vc_receipt settled = 0" "vc_written settled = 0" "vc_received settled = 0" "vc_in_flight settled = None"
  "vc_pending settled = None" "vc_next_id settled = 0" "vc_wake settled" "vc_evidence settled = []"
  "vc_decoded settled = 0" "vc_rendered settled = 0" "vc_presented settled = 0" "vc_visibility settled = []"
  by (simp_all add: settled_def configured_def vclient_init_def)

lemma queued1_eq: "enqueue_video_frame (picture 1) sample_now settled = queued1"
  by (subst queue_picture) (simp_all add: newest_sequence_def queued1_def)

lemma fresh_item: "\<not> queued_frame_expired (picture_item i n) sample_now"
proof -
  have "time_sub sample_now sample_now = 0"
    by (subst time_sub_small) (simp_all add: in_i64_def i64_max_def i64_min_def)
  moreover have "i64 100050000 = 100050000"
    by (rule i64_id) (simp add: in_i64_def i64_max_def i64_min_def)
  ultimately show ?thesis
    by (simp add: queued_frame_expired_def picture_item_def live_fresh_max_age_def duration_defs)
qed

lemma queued1_reach: "wreach sample_tag (st queued1 Running [WControl sample_config_item])"
  using wreach.step[OF settled_reach wstep.frame[of _ _ "picture 1" sample_now]] by (simp add: queued1_eq)

definition flying1 :: vclient where
  "flying1 = queued1\<lparr>vc_pending := None, vc_in_flight := Some (picture_item 0 1)\<rparr>"

lemma take1: "next_write_item sample_now queued1 = (flying1, Some (WFrame (picture_item 0 1)))"
  by (simp add: next_write_item_def queued1_def flying1_def fresh_item)

definition shown1 :: vclient where
  "shown1 = note_frame_written (picture_item 0 1) sample_now flying1"

lemma shown1_eq:
  "shown1 = settled\<lparr>vc_next_id := 1, vc_written := 1, vc_evidence := [1], vc_receipt := 1,
     vc_receipt_deadline := sample_now + receipt_timeout\<rparr>"
  by (simp add: shown1_def note_frame_written_def clear_in_flight_def flying1_def queued1_def Let_def)
    (simp add: picture_item_def picture_meta_def last_n_def settled_def configured_def vclient_init_def)

definition sample_sent :: "write_item list" where
  "sample_sent = [WControl sample_config_item, WFrame (picture_item 0 1)]"

lemma shown1_reach: "wreach sample_tag (st shown1 Running sample_sent)"
proof -
  let ?p = "WFrame (picture_item 0 1)"
  have "wreach sample_tag (st flying1 (Writing ?p) [WControl sample_config_item])"
    using wreach.step[OF queued1_reach wstep.took[of _ sample_now flying1 ?p]] take1 by simp
  then have "wreach sample_tag (st flying1 (Wrote ?p) sample_sent)"
    using wreach.step[OF _ wstep.written, of sample_tag _ ?p] by (fastforce simp: sample_sent_def)
  then show ?thesis
    using wreach.step[OF _ wstep.noted, of sample_tag "st flying1 (Wrote ?p) sample_sent" ?p sample_now]
    by (simp add: note_written_def shown1_def sample_now_def)
qed

section \<open>Properties\<close>

text \<open>
  C5. The order on a viewer's socket: every picture written to it comes after the configuration it was
  made for with no other configuration in between, and is newer than every picture written under that
  configuration before it, whatever else happened between the writer's steps.
\<close>

theorem socket_order:
  assumes "wreach tag w" "i < length (ws_sent w)" "ws_sent w ! i = WFrame f"
  shows "last_config (take i (ws_sent w)) = Some (qf_generation f, m_epoch (qf_meta f)) \<and>
         (\<forall>s \<in> set (frames_of (qf_generation f) (take i (ws_sent w))). s < m_sequence (qf_meta f))"
proof -
  have "wire_ok (wire w)" and "i < length (wire w)"
    using winv_reach[OF assms(1)] assms(2) by (simp_all add: winv_def wire_def)
  then have "may_follow (take i (wire w)) (wire w ! i)"
    unfolding wire_ok_def by blast
  then show ?thesis
    using assms(2,3) by (simp add: wire_def nth_append may_follow_def)
qed

theorem socket_order_witness:
  "last_config (take 1 sample_sent) = Some (1, 7)"
  using socket_order[OF shown1_reach, of 1 "picture_item 0 1"]
  by (simp add: sample_sent_def picture_item_def picture_meta_def)

text \<open>
  C6. One picture in doubt: when the writer takes a picture to send, the browser has acknowledged
  every picture sent before it under the same configuration, and the picture is of the current
  configuration and not yet expired. A slow browser so holds back at most one newer picture.
\<close>

theorem one_picture_in_doubt:
  assumes "wreach tag w" "ws_at w = Running" "next_write_item now (ws_c w) = (c', Some (WFrame f))"
  shows "(\<forall>s \<in> set (frames_of (qf_generation f) (ws_sent w)). s \<le> vc_received (ws_c w)) \<and>
         qf_generation f = vc_generation (ws_c w) \<and> m_epoch (qf_meta f) = vc_epoch (ws_c w) \<and>
         \<not> queued_frame_expired f now"
proof -
  have inv: "winv w" using winv_reach[OF assms(1)] .
  have f: "vc_pending (ws_c w) = Some f" "vc_receipt (ws_c w) = 0" "\<not> vc_closed (ws_c w)"
      "\<not> queued_frame_expired f now"
    using assms(3) by (auto elim!: next_cases)
  have ok: "credit_ok (ws_c w)" "frame_ok (ws_c w) f"
    using winv_client[OF inv] f by (simp_all add: client_ok_def media_ok_def)
  have wire: "wire w = ws_sent w"
    using assms(2) by (simp add: wire_def in_hand_def)
  have "wire_inv w"
    using loc_wire_closed[OF inv f(3)] by simp
  then have "\<forall>s \<in> set (frames_of (vc_generation (ws_c w)) (ws_sent w)). s \<le> vc_written (ws_c w)"
    using running_free[OF inv assms(2) f(3)] by (simp add: wire_inv_def wire)
  moreover have "vc_written (ws_c w) \<le> vc_received (ws_c w)"
    using ok(1) f(2) by (simp add: credit_ok_def)
  ultimately show ?thesis
    using ok(2) f(4) by (auto simp: frame_ok_def intro: order_trans)
qed

theorem one_picture_in_doubt_witness:
  "qf_generation (picture_item 0 1) = vc_generation queued1"
  using one_picture_in_doubt[OF queued1_reach, of sample_now flying1 "picture_item 0 1"] take1 by simp

text \<open>
  C11. The writer never sleeps on work: when its goroutine waits and the writer is open, either
  nothing is queued, or it has been signalled, or the only thing queued is a picture held back by a
  receipt whose deadline will end the wait.
\<close>

theorem writer_wakes:
  assumes "wreach tag w" "ws_at w = Waiting" "\<not> vc_closed (ws_c w)"
  shows "(vc_controls (ws_c w) = [] \<and> vc_pending (ws_c w) = None) \<or> vc_wake (ws_c w) \<or>
         (vc_controls (ws_c w) = [] \<and> vc_receipt (ws_c w) \<noteq> 0 \<and> vc_receipt_deadline (ws_c w) \<noteq> zero_time)"
proof -
  have inv: "winv w" using winv_reach[OF assms(1)] .
  have "credit_ok (ws_c w)"
    using winv_client[OF inv] assms(3) by (simp add: client_ok_def)
  then show ?thesis
    using winv_idle[OF inv assms(2)] assms(3)
    by (cases "has_runnable_work (ws_c w)") (auto simp: has_runnable_work_def credit_ok_def split: if_splits)
qed

definition waiting1 :: vclient where
  "waiting1 = shown1\<lparr>vc_pending := Some (picture_item 1 2), vc_next_id := 2, vc_wake := True\<rparr>"

lemma waiting1_reach: "wreach sample_tag (st waiting1 Waiting sample_sent)"
proof -
  have idle: "\<not> has_runnable_work shown1"
    by (simp add: has_runnable_work_def shown1_eq)
  have "wreach sample_tag (st shown1 Waiting sample_sent)"
    using wreach.step[OF shown1_reach wstep.rest] idle by simp
  note a = wreach.step[OF this wstep.frame[of _ _ "picture 2" sample_now]]
  have "enqueue_video_frame (picture 2) sample_now shown1 = waiting1"
    by (subst queue_picture) (simp_all add: newest_sequence_def shown1_eq waiting1_def)
  then show ?thesis using a by simp
qed

theorem writer_wakes_witness:
  "vc_pending waiting1 \<noteq> None \<and> vc_wake waiting1"
  using writer_wakes[OF waiting1_reach] by (auto simp: waiting1_def shown1_eq)

text \<open>
  C37. Bounded control queue: it never holds more than 16 messages or 64 KiB, its byte count is exact,
  it holds at most one configuration, the current one; and a configuration that can be encoded within
  the limit is never refused for lack of room.
\<close>

theorem control_queue_bounded:
  assumes "wreach tag w"
  shows "length (vc_controls (ws_c w)) \<le> 16 \<and>
         vc_control_bytes (ws_c w) = sum_list (map blen (vc_controls (ws_c w))) \<and>
         vc_control_bytes (ws_c w) \<le> 64 * 1024 \<and> length (filter qc_config (vc_controls (ws_c w))) \<le> 1 \<and>
         (\<forall>m d. qc_config m \<longrightarrow> \<not> vc_closed (ws_c w) \<longrightarrow> vc_generation (ws_c w) + 1 \<noteq> 0 \<longrightarrow>
            tag (qc_data m) (vc_generation (ws_c w) + 1) = Some d \<longrightarrow> d \<noteq> [] \<longrightarrow> length d \<le> 64 * 1024 \<longrightarrow>
            snd (enqueue_control_locked tag m (ws_c w)))"
proof -
  have ok: "client_ok (ws_c w)"
    using winv_client[OF winv_reach[OF assms]] .
  have "snd (enqueue_control_locked tag m (ws_c w))"
    if m: "qc_config m" "\<not> vc_closed (ws_c w)" "vc_generation (ws_c w) + 1 \<noteq> 0"
      "tag (qc_data m) (vc_generation (ws_c w) + 1) = Some d" "d \<noteq> []" "length d \<le> 64 * 1024" for m d
  proof -
    let ?s = "supersede (qc_epoch m) (vc_generation (ws_c w) + 1) (ws_c w)"
    have "vc_control_bytes ?s = sum_list (map blen (vc_controls ?s))"
      using client_ok_supersede[OF ok] by (simp add: client_ok_def queue_ok_def)
    then obtain r where "make_room True (int (length d)) (vc_controls ?s) (vc_control_bytes ?s) = Some r"
      using make_room_plain[of "vc_controls ?s" _ "int (length d)" True] m(6)
      by (auto simp: control_max_bytes_def)
    then show ?thesis
      using m by (simp add: enqueue_control_locked_def config_with_feedback_def push_control_def blen_def
          control_max_bytes_def Let_def split: prod.split)
  qed
  then show ?thesis
    using ok by (simp add: client_ok_def queue_ok_def control_max_messages_def control_max_bytes_def)
qed

theorem control_queue_bounded_witness:
  "snd (enqueue_control_locked sample_tag sample_config_item shown1)"
  using control_queue_bounded[OF shown1_reach]
  by (auto simp: sample_config_item_def sample_tag_def shown1_eq)

text \<open>
  C26. A browser is believed only about pictures it was sent: feedback that reports a presented picture
  names one that was written to this socket under the current configuration; feedback moves the
  counters only forward, keeps them ordered, and never past the newest picture sent.
\<close>

theorem presented_was_written:
  assumes "wreach tag w" "accept_feedback raw (ws_c w) = (c', out)"
  shows "(fo_presented out \<longrightarrow>
            (\<exists>f. decode_feedback raw = Some f \<and> fb_presented f = vc_presented c' \<and>
               vc_presented c' \<in> set (frames_of (vc_generation c') (ws_sent w)))) \<and>
         vc_presented c' \<le> vc_rendered c' \<and> vc_rendered c' \<le> vc_decoded c' \<and> vc_decoded c' \<le> vc_received c' \<and>
         vc_received (ws_c w) \<le> vc_received c' \<and> vc_decoded (ws_c w) \<le> vc_decoded c' \<and>
         vc_rendered (ws_c w) \<le> vc_rendered c' \<and> vc_presented (ws_c w) \<le> vc_presented c' \<and>
         (vc_received c' = vc_received (ws_c w) \<or> vc_received c' \<le> vc_written (ws_c w) \<or>
          (\<exists>q. vc_in_flight (ws_c w) = Some q \<and> vc_received c' = m_sequence (qf_meta q)))"
proof -
  have inv: "winv w" using winv_reach[OF assms(1)] .
  have ev: "set (vc_evidence (ws_c w)) \<subseteq> set (frames_of (vc_generation (ws_c w)) (ws_sent w))"
    using evidence_reach[OF assms(1)] by (simp add: evidence_ok_def)
  have fb: "feedback_ok c'"
    using client_ok_feedback[OF winv_client[OF inv], of raw] assms(2) by (simp add: client_ok_def)
  show ?thesis
    using assms(2)
  proof (cases rule: feedback_cases)
    case 1
    then show ?thesis using fb by (simp add: feedback_ok_def no_outcome_def)
  next
    case (2 f)
    have grows: "vc_received (ws_c w) \<le> fb_received f" "vc_decoded (ws_c w) \<le> fb_decoded f"
      "vc_rendered (ws_c w) \<le> fb_rendered f" "vc_presented (ws_c w) \<le> fb_presented f"
      using 2(5) by (auto simp: feedback_consistent_def)
    have "fb_received f \<le> vc_written (ws_c w) \<or> matches_in_flight f (ws_c w)"
      using 2(5) by (auto simp: feedback_consistent_def early_receipt_def)
    then show ?thesis
      using fb 2(1,8) ev grows
      by (auto simp: feedback_ok_def 2(6) matches_in_flight_def split: option.splits)
  qed
qed

definition sample_feedback :: feedback where
  "sample_feedback = \<lparr>fb_type = ''stream_feedback'', fb_version = 2, fb_epoch = 7, fb_generation = 1,
     fb_received = 1, fb_decoded = 1, fb_rendered = 1, fb_presented = 1, fb_rendered_keyframe = 1,
     fb_visibility = ''visible''\<rparr>"

lemma sample_fed:
  "fo_presented (snd (accept_feedback (Some sample_feedback) shown1))"
  "vc_presented (fst (accept_feedback (Some sample_feedback) shown1)) = 1"
  "vc_generation (fst (accept_feedback (Some sample_feedback) shown1)) = 1"
  by (simp_all add: accept_feedback_def decode_feedback_def sample_feedback_def feedback_consistent_def
      shown1_eq signal_writer_def clear_video_receipt_def Let_def)

theorem presented_was_written_witness:
  "1 \<in> set (frames_of 1 sample_sent)"
  using presented_was_written[OF shown1_reach, of "Some sample_feedback"
      "fst (accept_feedback (Some sample_feedback) shown1)" "snd (accept_feedback (Some sample_feedback) shown1)"]
    sample_fed by auto

end
