(* ===== verification/GoSha.thy ===== *)
theory GoSha
  imports GoText
begin

text \<open>
  The cryptographic functions of the Go standard library the services use: \<open>crypto/sha256\<close> on bytes
  (FIPS 180-4, on 32-bit words) and \<open>crypto/hmac\<close> over it. Nothing is assumed of them beyond what
  they compute; what the properties need of a digest is its length.
\<close>

unbundle bit_operations_syntax

section \<open>SHA-256\<close>

text \<open>
  The constants of the standard: the first 32 bits of the fractional parts of the cube roots of the
  first 64 primes and of the square roots of the first 8.
\<close>

definition primes_below :: "nat \<Rightarrow> nat list" where
  "primes_below n = filter (\<lambda>p. list_all (\<lambda>d. p mod d \<noteq> 0) [2..<p]) [2..<n]"

definition root_floor :: "nat \<Rightarrow> nat \<Rightarrow> nat" where
  "root_floor k n = foldl (\<lambda>r b. if (r + 2 ^ b) ^ k \<le> n then r + 2 ^ b else r) 0 (rev [0..<40])"

definition sha_round_constants :: "32 word list" where
  "sha_round_constants = map (\<lambda>p. word_of_nat (root_floor 3 (p * 2 ^ 96))) (primes_below 312)"

definition sha_initial :: "32 word list" where
  "sha_initial = map (\<lambda>p. word_of_nat (root_floor 2 (p * 2 ^ 64))) (primes_below 20)"

lemma length_sha_initial [simp]: "length sha_initial = 8"
proof -
  have "length (primes_below 20) = 8" by code_simp
  then show ?thesis by (simp add: sha_initial_def)
qed

definition be32 :: "8 word list \<Rightarrow> 32 word" where
  "be32 bs = foldl (\<lambda>acc b. push_bit 8 acc OR ucast b) 0 bs"

definition be32_bytes :: "32 word \<Rightarrow> 8 word list" where
  "be32_bytes w = map (\<lambda>i. ucast (drop_bit (8 * i) w)) [3, 2, 1, 0]"

text \<open>The message, a 1 bit, zeros, and the length in bits, in blocks of 64 bytes.\<close>

definition sha_pad :: "8 word list \<Rightarrow> 8 word list" where
  "sha_pad m = m @ [0x80] @ replicate ((119 - length m mod 64) mod 64) 0 @
     map (\<lambda>i. word_of_nat ((8 * length m) div 256 ^ i)) [7, 6, 5, 4, 3, 2, 1, 0]"

fun chunks :: "nat \<Rightarrow> 'a list \<Rightarrow> nat \<Rightarrow> 'a list list" where
  "chunks n xs 0 = []"
| "chunks n xs (Suc k) = take n xs # chunks n (drop n xs) k"

text \<open>The schedule, kept with the newest word first.\<close>

definition sha_next_word :: "32 word list \<Rightarrow> 32 word list" where
  "sha_next_word ws =
     (let w2 = ws ! 1; w7 = ws ! 6; w15 = ws ! 14; w16 = ws ! 15;
          s0 = word_rotr 7 w15 XOR word_rotr 18 w15 XOR drop_bit 3 w15;
          s1 = word_rotr 17 w2 XOR word_rotr 19 w2 XOR drop_bit 10 w2
      in (w16 + s0 + w7 + s1) # ws)"

definition sha_schedule :: "8 word list \<Rightarrow> 32 word list" where
  "sha_schedule block = rev ((sha_next_word ^^ 48) (rev (map be32 (chunks 4 block 16))))"

definition sha_round :: "32 word list \<Rightarrow> 32 word \<times> 32 word \<Rightarrow> 32 word list" where
  "sha_round v kw =
     (case v of
        [a, b, c, d, e, f, g, h] \<Rightarrow>
          let s1 = word_rotr 6 e XOR word_rotr 11 e XOR word_rotr 25 e;
              ch = (e AND f) XOR (NOT e AND g);
              t1 = h + s1 + ch + fst kw + snd kw;
              s0 = word_rotr 2 a XOR word_rotr 13 a XOR word_rotr 22 a;
              maj = (a AND b) XOR (a AND c) XOR (b AND c)
          in [t1 + (s0 + maj), a, b, c, d + t1, e, f, g]
      | _ \<Rightarrow> v)"

definition sha_block :: "32 word list \<Rightarrow> 8 word list \<Rightarrow> 32 word list" where
  "sha_block v block = map2 (+) v (foldl sha_round v (zip sha_round_constants (sha_schedule block)))"

definition sha256 :: "8 word list \<Rightarrow> 8 word list" where
  "sha256 m = (let p = sha_pad m in
     concat (map be32_bytes (foldl sha_block sha_initial (chunks 64 p (length p div 64)))))"

lemma length_sha_round [simp]: "length (sha_round v kw) = length v"
  by (simp add: sha_round_def Let_def split: list.split)

lemma length_sha_block [simp]: "length (sha_block v b) = length v"
proof -
  have "length (foldl sha_round v xs) = length v" for xs
    by (induction xs arbitrary: v) simp_all
  then show ?thesis by (simp add: sha_block_def)
qed

text \<open>\<open>sha256.Size\<close>.\<close>

lemma length_sha256 [simp]: "length (sha256 m) = 32"
proof -
  have "length (foldl sha_block v bs) = length v" for v bs
    by (induction bs arbitrary: v) simp_all
  moreover have "length (concat (map be32_bytes ws)) = 4 * length ws" for ws
    by (induction ws) (simp_all add: be32_bytes_def)
  ultimately show ?thesis by (simp add: sha256_def Let_def)
qed

section \<open>HMAC\<close>

definition hmac_key :: "8 word list \<Rightarrow> 8 word list" where
  "hmac_key k = (let k' = if 64 < length k then sha256 k else k in k' @ replicate (64 - length k') 0)"

definition hmac_sha256 :: "8 word list \<Rightarrow> 8 word list \<Rightarrow> 8 word list" where
  "hmac_sha256 key m =
     sha256 (map ((XOR) 0x5c) (hmac_key key) @ sha256 (map ((XOR) 0x36) (hmac_key key) @ m))"

lemma length_hmac_sha256 [simp]: "length (hmac_sha256 key m) = 32"
  by (simp add: hmac_sha256_def)

section \<open>Bytes and text\<close>

text \<open>\<open>[]byte(s)\<close>, and \<open>%x\<close> of bytes.\<close>

definition bytes_of :: "string \<Rightarrow> 8 word list" where
  "bytes_of s = map (\<lambda>c. word_of_nat (of_char c)) s"

definition text_of :: "8 word list \<Rightarrow> string" where
  "text_of bs = map (\<lambda>b. char_of (unat b)) bs"

lemma text_of_bytes [simp]: "text_of (bytes_of s) = s"
proof -
  have "char_of (unat (word_of_nat (of_char c) :: 8 word)) = c" for c
    by (simp add: unat_of_nat)
  then show ?thesis by (simp add: text_of_def bytes_of_def o_def)
qed

lemma bytes_of_inj [simp]: "bytes_of s = bytes_of t \<longleftrightarrow> s = t"
  by (metis text_of_bytes)

definition hex_bytes :: "8 word list \<Rightarrow> string" where
  "hex_bytes bs = concat (map (\<lambda>b. hex_digits 2 (unat b)) bs)"

end
