(* ===== verification/TrOpening.thy ===== *)
theory TrOpening
  imports GoSha
begin

text \<open>
  ticket-remote, the opening of a page (workloads/ticket-remote/internal/web/event_sink.go): the one
  startup trace the hub follows, which browsers of the same session join, which ends with the first
  picture or after two minutes, and which guards the holds a page places on the phone. The clean-up
  of the texts that go into traces and reports is here too.
\<close>

section \<open>Texts\<close>

text \<open>\<open>cleanStreamControlText\<close>: one character for each rune of a valid UTF-8 text.\<close>

definition code_between :: "char \<Rightarrow> char \<Rightarrow> char \<Rightarrow> bool" where
  "code_between lo c hi \<longleftrightarrow> (of_char lo :: nat) \<le> of_char c \<and> (of_char c :: nat) \<le> of_char hi"

definition control_char :: "char \<Rightarrow> bool" where
  "control_char c \<longleftrightarrow> list_ex (\<lambda>(lo, hi). code_between lo c hi)
     [(CHR ''a'', CHR ''z''), (CHR ''A'', CHR ''Z''), (CHR ''0'', CHR ''9'')] \<or> c \<in> set ''_-:.''"

definition continuation_byte :: "char \<Rightarrow> bool" where
  "continuation_byte c \<longleftrightarrow> 128 \<le> (of_char c :: nat) \<and> (of_char c :: nat) < 192"

definition clean_stream_control_text :: "string \<Rightarrow> string \<Rightarrow> string" where
  "clean_stream_control_text v fallback =
     (let clean = (if trim_space v = [] then trim_space fallback else trim_space v)
      in if clean = [] then ''unknown''
         else take 180 (map (\<lambda>c. if control_char c then c else CHR ''_'')
           (filter (\<lambda>c. \<not> continuation_byte c) clean)))"

lemma clean_stream_control_text_chars:
  assumes "c \<in> set (clean_stream_control_text v fallback)"
  shows "control_char c"
proof -
  have u: "list_all control_char ''unknown''" and d: "control_char (CHR ''_'')" by code_simp+
  have "list_all control_char (clean_stream_control_text v fallback)"
    unfolding clean_stream_control_text_def Let_def
    using u by (auto simp: list_all_iff d dest!: in_set_takeD)
  with assms show ?thesis by (simp add: list_all_iff)
qed

lemma clean_stream_control_text_length: "length (clean_stream_control_text v fallback) \<le> 180"
  by (simp add: clean_stream_control_text_def Let_def)

text \<open>\<open>trimLogField\<close> and \<open>safeRuntimeTraceID\<close>.\<close>

definition trim_log_field :: "string \<Rightarrow> nat \<Rightarrow> string" where
  "trim_log_field v limit = (if length (trim_space v) \<le> limit then trim_space v else take limit (trim_space v))"

definition safe_runtime_trace_id :: "string \<Rightarrow> string \<Rightarrow> string" where
  "safe_runtime_trace_id pre v =
     (if trim_space v = [] then []
      else clean_stream_control_text pre ''trace'' @ ''_'' @ hex_bytes (take 4 (sha256 (bytes_of v))))"

definition startup_prefix :: string where "startup_prefix = ''ticket.startup.''"

definition bounded_startup_run_origin :: "string \<Rightarrow> string" where
  "bounded_startup_run_origin v =
     (let clean = trim_space v
      in if length clean \<noteq> length startup_prefix + 32 \<or> \<not> prefix startup_prefix clean then []
         else if \<exists>c \<in> set (drop (length startup_prefix) clean).
             (c < CHR ''0'' \<or> CHR ''9'' < c) \<and> (c < CHR ''a'' \<or> CHR ''f'' < c) then []
         else clean)"

section \<open>The opening\<close>

record stream_opening =
  o_id :: string
  o_session :: string
  o_run :: string
  o_started :: int
  o_complete :: bool

definition no_opening :: stream_opening where
  "no_opening = \<lparr>o_id = [], o_session = [], o_run = [], o_started = zero_time, o_complete = False\<rparr>"

definition opening_max_age :: int where "opening_max_age = 2 * minute"

definition opening_live :: "int \<Rightarrow> stream_opening \<Rightarrow> bool" where
  "opening_live now tr \<longleftrightarrow> \<not> o_complete tr \<and> time_sub now (o_started tr) \<le> opening_max_age"

text \<open>The new identity is the time of day and a random number, \<open>"stream:" + stamp + ":" + randomID()\<close>.\<close>

definition opening_id :: "string \<Rightarrow> string \<Rightarrow> string" where
  "opening_id stamp nonce = ''stream:'' @ stamp @ '':'' @ nonce"

definition begin_opening_with_mode ::
    "string \<Rightarrow> string \<Rightarrow> bool \<Rightarrow> int \<Rightarrow> string \<Rightarrow> stream_opening \<Rightarrow> stream_opening \<times> string" where
  "begin_opening_with_mode raw_session run replace now fresh tr =
     (let session = safe_runtime_trace_id ''session'' raw_session
      in if \<not> replace \<and> o_id tr \<noteq> [] \<and> opening_live now tr \<and>
            (session = [] \<or> o_session tr = [] \<or> session = o_session tr)
         then (tr, o_id tr)
         else (\<lparr>o_id = fresh, o_session = trim_log_field session 96, o_run = run, o_started = now,
                o_complete = False\<rparr>, fresh))"

definition begin_opening :: "string \<Rightarrow> int \<Rightarrow> string \<Rightarrow> stream_opening \<Rightarrow> stream_opening \<times> string" where
  "begin_opening session now fresh tr = begin_opening_with_mode session [] False now fresh tr"

definition start_opening_for_run :: "string \<Rightarrow> string \<Rightarrow> int \<Rightarrow> string \<Rightarrow> stream_opening \<Rightarrow> stream_opening \<times> string" where
  "start_opening_for_run session run now fresh tr =
     begin_opening_with_mode session (bounded_startup_run_origin run) True now fresh tr"

definition join_opening_for_run :: "string \<Rightarrow> string \<Rightarrow> int \<Rightarrow> stream_opening \<Rightarrow> string" where
  "join_opening_for_run raw_session raw_run now tr =
     (let session = safe_runtime_trace_id ''session'' raw_session; run = bounded_startup_run_origin raw_run
      in if session = [] \<or> run = [] then []
         else if o_id tr = [] \<or> o_complete tr \<or> time_sub now (o_started tr) > opening_max_age \<or>
             o_session tr \<noteq> session \<or> o_run tr \<noteq> run then []
         else o_id tr)"

definition complete_opening :: "string \<Rightarrow> stream_opening \<Rightarrow> stream_opening" where
  "complete_opening i tr = (if i \<noteq> [] \<and> o_id tr = i then tr\<lparr>o_complete := True\<rparr> else tr)"

definition opening_active :: "string \<Rightarrow> int \<Rightarrow> stream_opening \<Rightarrow> bool" where
  "opening_active raw now tr \<longleftrightarrow>
     (let i = trim_space raw in i \<noteq> [] \<and> o_id tr = i \<and> opening_live now tr)"

definition opening_active_for_session :: "string \<Rightarrow> int \<Rightarrow> stream_opening \<Rightarrow> bool" where
  "opening_active_for_session raw now tr \<longleftrightarrow>
     (let session = safe_runtime_trace_id ''session'' raw
      in session \<noteq> [] \<and> o_id tr \<noteq> [] \<and> opening_live now tr \<and> o_session tr = session)"

text \<open>
  \<open>withActiveOpening\<close> and \<open>withoutActiveOpeningForSession\<close> run their action inside the section that
  checked the trace; the guards are \<open>opening_active\<close> and the one below.
\<close>

definition no_opening_for_session :: "string \<Rightarrow> int \<Rightarrow> stream_opening \<Rightarrow> bool" where
  "no_opening_for_session raw now tr \<longleftrightarrow>
     safe_runtime_trace_id ''session'' raw \<noteq> [] \<and> \<not> opening_active_for_session raw now tr"

section \<open>Facts\<close>

lemma trim_log_field_idem: "trim_space v = v \<Longrightarrow> length v \<le> n \<Longrightarrow> trim_log_field v n = v"
  by (simp add: trim_log_field_def)

lemma complete_opening_fields [simp]: "o_id (complete_opening i tr) = o_id tr"
  by (simp add: complete_opening_def)

lemma complete_opening_ends: "i \<noteq> [] \<Longrightarrow> \<not> opening_active i now (complete_opening (trim_space i) tr)"
  by (auto simp: opening_active_def complete_opening_def opening_live_def Let_def)

lemma begin_opening_id:
  "snd (begin_opening_with_mode session run replace now fresh tr) = o_id (fst (begin_opening_with_mode session run replace now fresh tr))"
  by (simp add: begin_opening_with_mode_def Let_def)

lemma begin_opening_fresh:
  "o_id (fst (begin_opening_with_mode session run replace now fresh tr)) \<in> {fresh, o_id tr}"
  by (simp add: begin_opening_with_mode_def Let_def)

end
