(* ===== verification/TrDesired.thy ===== *)
theory TrDesired
  imports TrOpening
begin

text \<open>
  ticket-remote, the writer of the desired stream state (workloads/ticket-remote/internal/web/stream_control.go):
  a queue of one update, the newest, with a single writer, a delayed release when the stream is idle,
  and the queue of one for reports. A caller may wait for the outcome of its update on a channel; the
  channels are numbered in the order they are made. The invariant is that every channel is answered
  exactly once or still owned by the queue or the writer, and that a queued update never waits without
  a wake-up.
\<close>

section \<open>State\<close>

record desired_update =
  u_active :: bool
  u_viewers :: int
  u_reason :: string
  u_source :: string
  u_result :: "nat option"

datatype writer = Sleeping | Draining | Writing desired_update | Stopped

text \<open>
  \<open>q_answers\<close> are the outcomes sent, newest first, \<open>q_written\<close> the updates the store accepted,
  \<open>q_channels\<close> the number of channels made.
\<close>

record desired =
  q_pending :: "desired_update option"
  q_wake :: bool
  q_closed :: bool
  q_cancelled :: bool
  q_writer :: writer
  q_answers :: "(nat \<times> bool \<times> string option) list"
  q_written :: "desired_update list"
  q_channels :: nat
  q_release_seq :: nat
  q_release_timer :: "nat option"
  q_report :: "string option"

definition desired_init :: desired where
  "desired_init = \<lparr>q_pending = None, q_wake = False, q_closed = False, q_cancelled = False, q_writer = Sleeping,
     q_answers = [], q_written = [], q_channels = 0, q_release_seq = 0, q_release_timer = None, q_report = None\<rparr>"

section \<open>The queue of one\<close>

definition complete_desired :: "nat option \<Rightarrow> bool \<times> string option \<Rightarrow> desired \<Rightarrow> desired" where
  "complete_desired result outcome q =
     (case result of None \<Rightarrow> q | Some c \<Rightarrow> q\<lparr>q_answers := (c, outcome) # q_answers q\<rparr>)"

definition superseded_result :: "desired_update option \<Rightarrow> nat option" where
  "superseded_result u = (case u of None \<Rightarrow> None | Some u \<Rightarrow> u_result u)"

definition enqueue_desired ::
    "bool \<Rightarrow> bool \<Rightarrow> int \<Rightarrow> string \<Rightarrow> string \<Rightarrow> nat option \<Rightarrow> desired \<Rightarrow> desired \<times> bool" where
  "enqueue_desired blocked active viewers reason source result q =
     (if blocked then (complete_desired result (False, None) q, False)
      else let u = \<lparr>u_active = active, u_viewers = (if viewers < 0 then 0 else viewers),
                    u_reason = clean_stream_control_text reason ''stream_state'',
                    u_source = clean_stream_control_text source ''ticket_remote'', u_result = result\<rparr>
        in if q_closed q then (complete_desired result (False, None) q, False)
           else ((complete_desired (superseded_result (q_pending q)) (False, None)
                   (q\<lparr>q_pending := Some u\<rparr>))\<lparr>q_wake := True\<rparr>, True))"

definition publish_desired_async :: "bool \<Rightarrow> bool \<Rightarrow> int \<Rightarrow> string \<Rightarrow> string \<Rightarrow> desired \<Rightarrow> desired" where
  "publish_desired_async blocked active viewers reason source q =
     fst (enqueue_desired blocked active viewers reason source None q)"

text \<open>The pending update is withdrawn and its caller answered: part of a cold restart and of the stop.\<close>

definition withdraw_pending :: "desired \<Rightarrow> desired" where
  "withdraw_pending q =
     complete_desired (superseded_result (q_pending q)) (False, None) (q\<lparr>q_pending := None\<rparr>)"

definition stop_desired_writer :: "desired \<Rightarrow> desired" where
  "stop_desired_writer q = (withdraw_pending (q\<lparr>q_closed := True\<rparr>))\<lparr>q_cancelled := True\<rparr>"

section \<open>The writer\<close>

text \<open>\<open>streamDesiredStateLoop\<close>, one action at a time: it wakes, takes what is pending, and writes.\<close>

definition writer_wakes :: "desired \<Rightarrow> desired" where
  "writer_wakes q = (if q_writer q = Sleeping \<and> q_wake q then q\<lparr>q_wake := False, q_writer := Draining\<rparr> else q)"

definition writer_quits :: "desired \<Rightarrow> desired" where
  "writer_quits q = (if q_writer q = Sleeping \<and> q_cancelled q then q\<lparr>q_writer := Stopped\<rparr> else q)"

definition writer_takes :: "desired \<Rightarrow> desired" where
  "writer_takes q =
     (if q_writer q = Draining
      then case q_pending q of
             None \<Rightarrow> q\<lparr>q_writer := Sleeping\<rparr>
           | Some u \<Rightarrow> q\<lparr>q_pending := None, q_writer := Writing u\<rparr>
      else q)"

text \<open>
  \<open>publishStreamDesiredState\<close>: a write that no longer matches the demand is skipped without an error.
  \<open>answer\<close> is the error of \<open>SetStreamDesiredState\<close>.
\<close>

definition publish_desired ::
    "bool \<Rightarrow> bool \<Rightarrow> string option \<Rightarrow> desired_update \<Rightarrow> desired \<Rightarrow> desired \<times> string option" where
  "publish_desired blocked demand answer u q =
     (if blocked \<or> u_active u \<noteq> demand then (q, None)
      else case answer of
             Some e \<Rightarrow> (q, Some e)
           | None \<Rightarrow> (q\<lparr>q_written := u\<lparr>u_viewers := (if u_viewers u < 0 then 0 else u_viewers u),
                 u_reason := clean_stream_control_text (u_reason u) ''stream_state'',
                 u_source := clean_stream_control_text (u_source u) ''ticket_remote''\<rparr> # q_written q\<rparr>, None))"

definition writer_writes :: "bool \<Rightarrow> bool \<Rightarrow> string option \<Rightarrow> desired \<Rightarrow> desired" where
  "writer_writes blocked demand answer q =
     (case q_writer q of
        Writing u \<Rightarrow>
          (case publish_desired blocked demand answer u q of (q1, err) \<Rightarrow>
             (complete_desired (u_result u) (err = None, err) q1)
               \<lparr>q_writer := (if q_cancelled q then Stopped else Draining)\<rparr>)
      | _ \<Rightarrow> q)"

section \<open>The idle release and the reports\<close>

definition publish_report_async :: "string \<Rightarrow> desired \<Rightarrow> desired" where
  "publish_report_async reason q =
     (if q_report q = None
      then q\<lparr>q_report := Some (clean_stream_control_text reason ''relay_state_changed'')\<rparr> else q)"

definition cancel_idle_release :: "desired \<Rightarrow> desired" where
  "cancel_idle_release q = q\<lparr>q_release_seq := q_release_seq q + 1, q_release_timer := None\<rparr>"

definition schedule_idle_release :: "bool \<Rightarrow> bool \<Rightarrow> desired \<Rightarrow> desired" where
  "schedule_idle_release blocked demand q =
     (if blocked then q
      else if demand then cancel_idle_release q
      else q\<lparr>q_release_seq := q_release_seq q + 1, q_release_timer := Some (q_release_seq q + 1)\<rparr>)"

text \<open>
  The timer of \<open>seq\<close> fires, stopped in time or not; \<open>releaseStreamDesiredIfNoVideoClients\<close> then queues
  the release with a channel of its own and waits.
\<close>

definition release_if_idle :: "bool \<Rightarrow> bool \<Rightarrow> string \<Rightarrow> desired \<Rightarrow> desired \<times> nat option" where
  "release_if_idle blocked demand reason q =
     (if demand then (q, None)
      else let c = q_channels q;
               (q1, queued) = enqueue_desired blocked False 0
                 (clean_stream_control_text reason ''relay_no_video_clients'') ''ticket_remote_relay'' (Some c)
                 (q\<lparr>q_channels := c + 1\<rparr>)
        in (q1, if queued then Some c else None))"

definition idle_release_fires :: "bool \<Rightarrow> bool \<Rightarrow> string \<Rightarrow> nat \<Rightarrow> desired \<Rightarrow> desired \<times> nat option" where
  "idle_release_fires blocked demand reason seq q =
     (if seq \<noteq> q_release_seq q then (q, None)
      else release_if_idle blocked demand reason (q\<lparr>q_release_timer := None\<rparr>))"

section \<open>Every channel has one owner\<close>

definition update_owns :: "nat \<Rightarrow> desired_update option \<Rightarrow> nat" where
  "update_owns c u = (if superseded_result u = Some c then 1 else 0)"

definition writer_update :: "writer \<Rightarrow> desired_update option" where
  "writer_update w = (case w of Writing u \<Rightarrow> Some u | _ \<Rightarrow> None)"

definition answered :: "nat \<Rightarrow> desired \<Rightarrow> nat" where
  "answered c q = length (filter (\<lambda>(c', _). c' = c) (q_answers q))"

definition owners :: "nat \<Rightarrow> desired \<Rightarrow> nat" where
  "owners c q = answered c q + update_owns c (q_pending q) + update_owns c (writer_update (q_writer q))"

lemma answered_complete [simp]:
  "answered c (complete_desired r out q) = answered c q + (if r = Some c then 1 else 0)"
  by (simp add: answered_def complete_desired_def split: option.split)

lemma complete_desired_fields [simp]:
  "q_pending (complete_desired r out q) = q_pending q"
  "q_wake (complete_desired r out q) = q_wake q"
  "q_closed (complete_desired r out q) = q_closed q"
  "q_cancelled (complete_desired r out q) = q_cancelled q"
  "q_writer (complete_desired r out q) = q_writer q"
  "q_written (complete_desired r out q) = q_written q"
  "q_channels (complete_desired r out q) = q_channels q"
  "q_release_seq (complete_desired r out q) = q_release_seq q"
  "q_release_timer (complete_desired r out q) = q_release_timer q"
  "q_report (complete_desired r out q) = q_report q"
  by (simp_all add: complete_desired_def split: option.split)

lemma answered_fields [simp]:
  "answered c (q\<lparr>q_pending := p\<rparr>) = answered c q"
  "answered c (q\<lparr>q_wake := b\<rparr>) = answered c q"
  "answered c (q\<lparr>q_closed := b\<rparr>) = answered c q"
  "answered c (q\<lparr>q_cancelled := b\<rparr>) = answered c q"
  "answered c (q\<lparr>q_writer := w\<rparr>) = answered c q"
  "answered c (q\<lparr>q_written := us\<rparr>) = answered c q"
  "answered c (q\<lparr>q_channels := n\<rparr>) = answered c q"
  "answered c (q\<lparr>q_release_seq := n\<rparr>) = answered c q"
  "answered c (q\<lparr>q_release_timer := m\<rparr>) = answered c q"
  "answered c (q\<lparr>q_report := r\<rparr>) = answered c q"
  by (simp_all add: answered_def)

lemmas owner_defs = owners_def update_owns_def superseded_result_def writer_update_def

text \<open>The operations move a channel from owner to owner; an enqueue with a channel brings it in.\<close>

lemma enqueue_owners:
  "owners c (fst (enqueue_desired blocked active viewers reason source r q)) =
     owners c q + (if r = Some c then 1 else 0)"
  by (cases "q_pending q") (simp_all add: enqueue_desired_def Let_def owners_def update_owns_def superseded_result_def)

lemma withdraw_owners: "owners c (withdraw_pending q) = owners c q"
  by (cases "q_pending q") (simp_all add: withdraw_pending_def owners_def update_owns_def superseded_result_def)

lemma wakes_owners: "owners c (writer_wakes q) = owners c q"
  by (simp add: writer_wakes_def owners_def writer_update_def)

lemma quits_owners: "owners c (writer_quits q) = owners c q"
  by (simp add: writer_quits_def owners_def writer_update_def)

lemma takes_owners: "owners c (writer_takes q) = owners c q"
  by (cases "q_pending q") (simp_all add: writer_takes_def owner_defs)

lemma publish_desired_fields [simp]:
  "q_cancelled (fst (publish_desired blocked demand answer u q)) = q_cancelled q"
  "q_writer (fst (publish_desired blocked demand answer u q)) = q_writer q"
  "q_pending (fst (publish_desired blocked demand answer u q)) = q_pending q"
  "q_wake (fst (publish_desired blocked demand answer u q)) = q_wake q"
  "q_closed (fst (publish_desired blocked demand answer u q)) = q_closed q"
  "q_channels (fst (publish_desired blocked demand answer u q)) = q_channels q"
  "answered c (fst (publish_desired blocked demand answer u q)) = answered c q"
  by (simp_all add: publish_desired_def split: option.split)

text \<open>The writer's write, as projections.\<close>

lemma writer_writes_Writing:
  "q_writer q = Writing u \<Longrightarrow> writer_writes blocked demand answer q =
     (complete_desired (u_result u) (snd (publish_desired blocked demand answer u q) = None,
        snd (publish_desired blocked demand answer u q)) (fst (publish_desired blocked demand answer u q)))
       \<lparr>q_writer := (if q_cancelled q then Stopped else Draining)\<rparr>"
  by (simp add: writer_writes_def split: prod.split)

lemma writer_writes_other: "\<nexists>u. q_writer q = Writing u \<Longrightarrow> writer_writes blocked demand answer q = q"
  by (simp add: writer_writes_def split: writer.split)

lemma writes_owners: "owners c (writer_writes blocked demand answer q) = owners c q"
proof (cases "\<exists>u. q_writer q = Writing u")
  case True
  then obtain u where u: "q_writer q = Writing u" ..
  show ?thesis by (simp add: writer_writes_Writing [OF u] owner_defs u)
qed (simp add: writer_writes_other)

section \<open>No lost wake-up\<close>

definition wake_ok :: "desired \<Rightarrow> bool" where
  "wake_ok q \<longleftrightarrow> (q_writer q = Sleeping \<longrightarrow> q_pending q \<noteq> None \<longrightarrow> q_wake q) \<and>
     (q_writer q = Stopped \<longrightarrow> q_cancelled q) \<and> (q_cancelled q \<longrightarrow> q_closed q) \<and>
     (q_closed q \<longrightarrow> q_pending q = None)"

definition desired_inv :: "desired \<Rightarrow> bool" where
  "desired_inv q \<longleftrightarrow> (\<forall>c. owners c q = (if c < q_channels q then 1 else 0)) \<and> wake_ok q"

lemma desired_inv_init: "desired_inv desired_init"
  by (simp add: desired_inv_def wake_ok_def desired_init_def owner_defs answered_def)

lemma enqueue_wake: "wake_ok q \<Longrightarrow> wake_ok (fst (enqueue_desired blocked active viewers reason source r q))"
  by (auto simp: wake_ok_def enqueue_desired_def Let_def)

lemma enqueue_channels [simp]:
  "q_channels (fst (enqueue_desired blocked active viewers reason source r q)) = q_channels q"
  by (simp add: enqueue_desired_def Let_def)

lemma withdraw_wake: "wake_ok q \<Longrightarrow> wake_ok (withdraw_pending q)"
  by (simp add: wake_ok_def withdraw_pending_def)

lemma enqueue_inv_none:
  "desired_inv q \<Longrightarrow> desired_inv (fst (enqueue_desired blocked active viewers reason source None q))"
  by (simp add: desired_inv_def enqueue_wake enqueue_owners)

text \<open>An enqueue with the next channel.\<close>

lemma owners_fields [simp]:
  "owners c (q\<lparr>q_channels := n\<rparr>) = owners c q" "owners c (q\<lparr>q_release_timer := m\<rparr>) = owners c q"
  "owners c (q\<lparr>q_release_seq := n\<rparr>) = owners c q" "owners c (q\<lparr>q_report := r\<rparr>) = owners c q"
  "owners c (q\<lparr>q_written := us\<rparr>) = owners c q" "owners c (q\<lparr>q_closed := b\<rparr>) = owners c q"
  "owners c (q\<lparr>q_cancelled := b\<rparr>) = owners c q"
  by (simp_all add: owners_def)

lemma wake_ok_fields [simp]:
  "wake_ok (q\<lparr>q_channels := n\<rparr>) = wake_ok q" "wake_ok (q\<lparr>q_release_timer := m\<rparr>) = wake_ok q"
  "wake_ok (q\<lparr>q_release_seq := n\<rparr>) = wake_ok q" "wake_ok (q\<lparr>q_report := r\<rparr>) = wake_ok q"
  "wake_ok (q\<lparr>q_written := us\<rparr>) = wake_ok q"
  by (simp_all add: wake_ok_def)

lemma desired_inv_fields [simp]:
  "desired_inv (q\<lparr>q_release_timer := m\<rparr>) = desired_inv q" "desired_inv (q\<lparr>q_release_seq := n\<rparr>) = desired_inv q"
  "desired_inv (q\<lparr>q_report := r\<rparr>) = desired_inv q"
  by (simp_all add: desired_inv_def)

lemma enqueue_inv_next:
  "desired_inv q \<Longrightarrow> desired_inv (fst (enqueue_desired blocked active viewers reason source (Some (q_channels q))
    (q\<lparr>q_channels := q_channels q + 1\<rparr>)))"
  by (auto simp: desired_inv_def enqueue_wake enqueue_owners)

lemma publish_async_inv: "desired_inv q \<Longrightarrow> desired_inv (publish_desired_async b a v r s q)"
  by (simp add: publish_desired_async_def enqueue_inv_none)

lemma withdraw_channels [simp]: "q_channels (withdraw_pending q) = q_channels q"
  by (simp add: withdraw_pending_def)

lemma withdraw_inv: "desired_inv q \<Longrightarrow> desired_inv (withdraw_pending q)"
  by (simp add: desired_inv_def withdraw_wake withdraw_owners)

lemma stop_inv: "desired_inv q \<Longrightarrow> desired_inv (stop_desired_writer q)"
  by (simp add: desired_inv_def stop_desired_writer_def withdraw_owners)
    (simp add: wake_ok_def withdraw_pending_def)

lemma wakes_inv: "desired_inv q \<Longrightarrow> desired_inv (writer_wakes q)"
  by (simp add: desired_inv_def wakes_owners) (simp add: writer_wakes_def wake_ok_def)

lemma quits_inv: "desired_inv q \<Longrightarrow> desired_inv (writer_quits q)"
  by (simp add: desired_inv_def quits_owners) (simp add: writer_quits_def wake_ok_def)

lemma takes_inv: "desired_inv q \<Longrightarrow> desired_inv (writer_takes q)"
  by (simp add: desired_inv_def takes_owners) (simp add: writer_takes_def wake_ok_def split: option.split)

lemma writes_inv: "desired_inv q \<Longrightarrow> desired_inv (writer_writes blocked demand answer q)"
proof (cases "\<exists>u. q_writer q = Writing u")
  case True
  then obtain u where u: "q_writer q = Writing u" ..
  have w: "wake_ok q \<Longrightarrow> wake_ok (writer_writes blocked demand answer q)"
    by (simp add: writer_writes_Writing [OF u] wake_ok_def)
  have c: "q_channels (writer_writes blocked demand answer q) = q_channels q"
    by (simp add: writer_writes_Writing [OF u])
  show "desired_inv q \<Longrightarrow> desired_inv (writer_writes blocked demand answer q)"
    by (simp add: desired_inv_def writes_owners w c)
qed (simp add: writer_writes_other)

lemma report_inv: "desired_inv q \<Longrightarrow> desired_inv (publish_report_async reason q)"
  by (simp add: publish_report_async_def)

lemma cancel_release_inv: "desired_inv q \<Longrightarrow> desired_inv (cancel_idle_release q)"
  by (simp add: cancel_idle_release_def)

lemma schedule_release_inv: "desired_inv q \<Longrightarrow> desired_inv (schedule_idle_release blocked demand q)"
  by (simp add: schedule_idle_release_def cancel_release_inv)

lemma idle_fires_inv: "desired_inv q \<Longrightarrow> desired_inv (fst (idle_release_fires blocked demand reason seq q))"
  using enqueue_inv_next [of "q\<lparr>q_release_timer := None\<rparr>"]
  by (auto simp: idle_release_fires_def release_if_idle_def Let_def case_prod_beta)

lemmas desired_inv_intros = publish_async_inv withdraw_inv stop_inv wakes_inv quits_inv takes_inv writes_inv
  report_inv cancel_release_inv schedule_release_inv idle_fires_inv

section \<open>Steps\<close>

text \<open>
  What can happen to the queue while the restart flag is \<open>blocked\<close> and \<open>demand\<close> says whether
  viewers are present.
\<close>

inductive desired_step :: "bool \<Rightarrow> bool \<Rightarrow> desired \<Rightarrow> desired \<Rightarrow> bool" for blocked demand where
  published: "desired_step blocked demand q (publish_desired_async blocked active viewers reason source q)"
| withdrawn: "desired_step blocked demand q (withdraw_pending q)"
| stopped: "desired_step blocked demand q (stop_desired_writer q)"
| woken: "desired_step blocked demand q (writer_wakes q)"
| quit: "desired_step blocked demand q (writer_quits q)"
| taken: "desired_step blocked demand q (writer_takes q)"
| wrote: "desired_step blocked demand q (writer_writes blocked demand answer q)"
| reported: "desired_step blocked demand q (publish_report_async reason q)"
| report_taken: "desired_step blocked demand q (q\<lparr>q_report := None\<rparr>)"
| release_cancelled: "desired_step blocked demand q (cancel_idle_release q)"
| release_scheduled: "desired_step blocked demand q (schedule_idle_release blocked demand q)"
| release_fired: "desired_step blocked demand q (fst (idle_release_fires blocked demand reason seq q))"

inductive_cases desired_stepE: "desired_step blocked demand q q'"

lemma desired_step_inv: "desired_step blocked demand q q' \<Longrightarrow> desired_inv q \<Longrightarrow> desired_inv q'"
  by (erule desired_stepE) (auto intro: desired_inv_intros)

text \<open>Everything the store was told was true when it was told.\<close>

definition writer_turn :: "bool \<Rightarrow> bool \<Rightarrow> string option \<Rightarrow> desired \<Rightarrow> desired" where
  "writer_turn blocked demand answer q = writer_takes (writer_writes blocked demand answer (writer_takes (writer_wakes q)))"

lemma writer_takes_idle:
  "q_writer q = Draining \<Longrightarrow> q_pending q = None \<Longrightarrow> writer_takes q = q\<lparr>q_writer := Sleeping\<rparr>"
  by (simp add: writer_takes_def)

end
