(* ===== verification/TrViewers.thy ===== *)
theory TrViewers
  imports TrDesired TrRelay TrDemand
begin

text \<open>
  ticket-remote, the registry of viewers (workloads/ticket-remote/internal/web/relay_viewers.go): the
  browser sockets and their limits, the references each session holds on the phone, the timed leases
  that hold a reference for a page that is opening, and what a cold restart
  (workloads/ticket-remote/internal/web/cold_restart.go) does to them. Every critical section under
  the lifecycle mutex is one operation; the restart flag is read once in it. The server has a store.
\<close>

section \<open>State\<close>

text \<open>
  A lease timer that was armed: stopped in time or not, its function may run once. \<open>s_timers\<close> and
  \<open>s_owners\<close> are the maps \<open>streamPrewarmTimers\<close>, \<open>streamPrewarmOwners\<close>, by lease; a timer is the
  number it was armed under.
\<close>

record lease_timer =
  lt_id :: nat
  lt_lease :: string
  lt_session :: string
  lt_reason :: string
  lt_hold :: int

record socket_client =
  cl_id :: nat
  cl_email :: string
  cl_session :: string

record stream_server =
  s_blocked :: bool
  s_clients :: "socket_client list"
  s_refs :: "(string \<times> nat) list"
  s_timers :: "(string \<times> nat) list"
  s_owners :: "(string \<times> string) list"
  s_armed :: "lease_timer list"
  s_next_timer :: nat
  s_page_warm :: "(string \<times> int) list"
  s_generation :: nat
  s_relay :: relay
  s_direct :: hub
  s_opening :: stream_opening
  s_demand :: demand
  s_desired :: desired

definition server_init :: stream_server where
  "server_init = \<lparr>s_blocked = False, s_clients = [], s_refs = [], s_timers = [], s_owners = [], s_armed = [],
     s_next_timer = 0, s_page_warm = [], s_generation = 0, s_relay = relay_init, s_direct = hub_init,
     s_opening = no_opening, s_demand = demand_init, s_desired = desired_init\<rparr>"

definition prewarm_hold :: int where "prewarm_hold = 30 * second"
definition page_open_warm_hold :: int where "page_open_warm_hold = 30 * minute"
definition max_sockets :: nat where "max_sockets = 64"
definition max_sockets_per_identity :: nat where "max_sockets_per_identity = 8"
definition max_sockets_per_session :: nat where "max_sockets_per_session = 4"

text \<open>\<open>streamDemandStillPresent\<close>.\<close>

definition demand_present :: "stream_server \<Rightarrow> bool" where
  "demand_present s \<longleftrightarrow> 0 < h_active_video_clients (s_direct s) \<or> 0 < r_viewers (s_relay s)"

section \<open>Sockets\<close>

text \<open>\<open>strings.EqualFold\<close> on addresses: letters of ASCII are folded, other bytes compared as they are.\<close>

definition equal_fold :: "string \<Rightarrow> string \<Rightarrow> bool" where
  "equal_fold a b \<longleftrightarrow> map lower_char a = map lower_char b"

definition same_identity :: "socket_client \<Rightarrow> socket_client \<Rightarrow> bool" where
  "same_identity c d \<longleftrightarrow> equal_fold (trim_space (cl_email d)) (trim_space (cl_email c))"

definition same_session :: "socket_client \<Rightarrow> socket_client \<Rightarrow> bool" where
  "same_session c d \<longleftrightarrow> trim_space (cl_session d) = trim_space (cl_session c)"

definition try_add_client :: "socket_client \<Rightarrow> stream_server \<Rightarrow> stream_server \<times> bool" where
  "try_add_client c s =
     (if length (s_clients s) \<ge> max_sockets then (s, False)
      else if length (filter (same_identity c) (s_clients s)) \<ge> max_sockets_per_identity \<or>
              length (filter (same_session c) (s_clients s)) \<ge> max_sockets_per_session then (s, False)
      else (s\<lparr>s_clients := c # s_clients s\<rparr>, True))"

definition remove_client :: "nat \<Rightarrow> stream_server \<Rightarrow> stream_server" where
  "remove_client i s = s\<lparr>s_clients := filter (\<lambda>c. cl_id c \<noteq> i) (s_clients s)\<rparr>"

section \<open>References\<close>

text \<open>The first reference of a session, or an anonymous viewer, wakes the phone.\<close>

definition announce_viewer :: "stream_server \<Rightarrow> stream_server" where
  "announce_viewer s =
     (let s1 = s\<lparr>s_relay := relay_add_viewer (s_relay s)\<rparr>;
          q = publish_desired_async (s_blocked s1) True (r_viewers (s_relay s1)) ''relay_viewer_added''
                ''ticket_remote_relay'' (cancel_idle_release (s_desired s1))
      in s1\<lparr>s_desired := publish_report_async ''relay_viewer_added'' q\<rparr>)"

definition refs :: "stream_server \<Rightarrow> string \<Rightarrow> nat" where
  "refs s k = (case map_of (s_refs s) k of None \<Rightarrow> 0 | Some n \<Rightarrow> n)"

definition add_relay_viewer_locked :: "string \<Rightarrow> stream_server \<Rightarrow> stream_server" where
  "add_relay_viewer_locked raw s =
     (if s_blocked s then s
      else let session = trim_space raw
        in if session \<noteq> []
           then let previous = refs s session;
                    s1 = s\<lparr>s_refs := AList.update session (previous + 1) (s_refs s)\<rparr>
             in if previous > 0 then s1 else announce_viewer s1
           else announce_viewer s)"

definition add_relay_viewer :: "string \<Rightarrow> stream_server \<Rightarrow> stream_server \<times> nat" where
  "add_relay_viewer raw s = (let s1 = add_relay_viewer_locked raw s in (s1, s_generation s1))"

text \<open>The last reference of a session lets go of the phone.\<close>

definition release_viewer :: "int \<Rightarrow> stream_server \<Rightarrow> stream_server" where
  "release_viewer viewers s =
     (let q = (if viewers > 0
               then publish_desired_async (s_blocked s) True viewers ''relay_viewer_removed''
                 ''ticket_remote_relay'' (s_desired s)
               else schedule_idle_release (s_blocked s) (demand_present s) (s_desired s))
      in s\<lparr>s_desired := publish_report_async ''relay_viewer_removed'' q\<rparr>)"

definition remove_relay_viewer_locked :: "string \<Rightarrow> stream_server \<Rightarrow> stream_server" where
  "remove_relay_viewer_locked raw s =
     (let session = trim_space raw
      in if session = []
         then let s1 = s\<lparr>s_relay := relay_remove_viewer (s_relay s)\<rparr>
           in release_viewer (r_viewers (s_relay s1)) s1
         else case map_of (s_refs s) session of
             None \<Rightarrow> s
           | Some n \<Rightarrow>
               if n \<le> 1
               then let s1 = s\<lparr>s_refs := AList.delete session (s_refs s), s_relay := relay_remove_viewer (s_relay s)\<rparr>
                 in release_viewer (int (length (s_refs s1))) s1
               else s\<lparr>s_refs := AList.update session (n - 1) (s_refs s)\<rparr>)"

definition remove_relay_viewer_generation :: "string \<Rightarrow> nat \<Rightarrow> stream_server \<Rightarrow> stream_server" where
  "remove_relay_viewer_generation raw generation s =
     (if generation \<noteq> s_generation s then s else remove_relay_viewer_locked raw s)"

section \<open>Leases\<close>

definition page_open_warm :: string where "page_open_warm = ''page_open_warm''"

text \<open>\<open>retainRelayLeaseForDuration\<close>; \<open>True\<close> when a reference has to be taken or given back.\<close>

definition retain_lease ::
    "string \<Rightarrow> string \<Rightarrow> int \<Rightarrow> bool \<Rightarrow> string \<Rightarrow> bool \<Rightarrow> string \<Rightarrow> stream_server \<Rightarrow> stream_server \<times> bool" where
  "retain_lease raw_lease raw_session hold retain raw_reason allow requested s =
     (if retain \<and> s_blocked s then (s, False)
      else let session = trim_space raw_session; lease = trim_space raw_lease
        in if session = [] \<or> lease = [] then (s, False)
           else if retain then
             let hold' = (if hold \<le> 0 then prewarm_hold else hold);
                 reason = clean_stream_control_text raw_reason ''prewarm'';
                 existing = map_of (s_timers s) lease;
                 owner = (case map_of (s_owners s) lease of None \<Rightarrow> [] | Some ow \<Rightarrow> ow)
             in if existing \<noteq> None \<and> owner \<noteq> requested \<and> \<not> allow then (s, False)
                else (s\<lparr>s_armed := \<lparr>lt_id = s_next_timer s, lt_lease = lease, lt_session = session,
                            lt_reason = reason, lt_hold = hold'\<rparr> # s_armed s,
                        s_next_timer := s_next_timer s + 1,
                        s_timers := AList.update lease (s_next_timer s) (s_timers s),
                        s_owners := AList.update lease requested (s_owners s)\<rparr>, existing = None)
           else case map_of (s_timers s) lease of
               None \<Rightarrow> (s, False)
             | Some _ \<Rightarrow>
                 if (case map_of (s_owners s) lease of None \<Rightarrow> [] | Some ow \<Rightarrow> ow) \<noteq> requested then (s, False)
                 else (s\<lparr>s_timers := AList.delete lease (s_timers s),
                         s_owners := AList.delete lease (s_owners s)\<rparr>, True))"

text \<open>The function of a lease timer.\<close>

definition lease_fires :: "lease_timer \<Rightarrow> stream_server \<Rightarrow> stream_server" where
  "lease_fires t s =
     (let s1 = s\<lparr>s_armed := remove1 t (s_armed s)\<rparr>
      in if map_of (s_timers s1) (lt_lease t) = Some (lt_id t)
         then remove_relay_viewer_locked (lt_session t)
           (s1\<lparr>s_timers := AList.delete (lt_lease t) (s_timers s1),
               s_owners := AList.delete (lt_lease t) (s_owners s1),
               s_page_warm := (if lt_reason t = page_open_warm
                               then AList.delete (lt_session t) (s_page_warm s1) else s_page_warm s1)\<rparr>)
         else s1)"

text \<open>The guard of an opening: its own identity, or no opening of the session at all.\<close>

definition opening_guard :: "string \<Rightarrow> string \<Rightarrow> int \<Rightarrow> stream_server \<Rightarrow> bool" where
  "opening_guard opening_ident session now s \<longleftrightarrow>
     (if opening_ident \<noteq> [] then opening_active opening_ident now (s_opening s)
      else no_opening_for_session session now (s_opening s))"

definition retain_for_opening :: "string \<Rightarrow> int \<Rightarrow> string \<Rightarrow> string \<Rightarrow> int \<Rightarrow> stream_server \<Rightarrow> stream_server" where
  "retain_for_opening raw hold kind opening_ident now s =
     (let session = trim_space raw
      in if session = [] \<or> hold \<le> 0 \<or> \<not> opening_guard opening_ident session now s then s
         else case retain_lease session session hold True kind (opening_ident \<noteq> []) opening_ident s of
             (s1, added) \<Rightarrow> if added then add_relay_viewer_locked session s1 else s1)"

definition release_opening_warm :: "string \<Rightarrow> string \<Rightarrow> int \<Rightarrow> stream_server \<Rightarrow> stream_server" where
  "release_opening_warm session opening_ident now s =
     (if opening_ident = [] \<and> \<not> no_opening_for_session session now (s_opening s) then s
      else case retain_lease session session 0 False ''release'' False opening_ident s of
          (s1, released) \<Rightarrow> if released then remove_relay_viewer_locked session s1 else s1)"

text \<open>\<open>retainRelayViewerForPageOpen\<close>; \<open>now\<close> is the caller's, \<open>later\<close> the time the section begins.\<close>

definition retain_for_page_open :: "string \<Rightarrow> int \<Rightarrow> int \<Rightarrow> int \<Rightarrow> stream_server \<Rightarrow> stream_server" where
  "retain_for_page_open raw opened_at now later s =
     (let session = trim_space raw; deadline = opened_at + page_open_warm_hold; hold = time_sub deadline later
      in if session = [] \<or> opened_at = zero_time \<or> \<not> now < deadline then s
         else if s_blocked s \<or> hold \<le> 0 then s
         else if \<not> (case map_of (s_page_warm s) session of None \<Rightarrow> zero_time | Some d \<Rightarrow> d) < deadline then s
         else case retain_lease (page_open_warm @ '':'' @ session) session hold True page_open_warm False []
                     (s\<lparr>s_page_warm := AList.update session deadline (s_page_warm s)\<rparr>) of
             (s1, added) \<Rightarrow> if added then add_relay_viewer_locked session s1 else s1)"

text \<open>\<open>pageOpenWarmSnapshot\<close>: how many pages are warm, and until when.\<close>

definition page_open_warm_snapshot :: "int \<Rightarrow> stream_server \<Rightarrow> nat \<times> int" where
  "page_open_warm_snapshot now s =
     foldl (\<lambda>(n, latest) (_, deadline). if now < deadline then (n + 1, max latest deadline) else (n, latest))
       (0, zero_time) (s_page_warm s)"

section \<open>Cold restart\<close>

definition quiesce :: "stream_server \<Rightarrow> stream_server" where
  "quiesce s = s\<lparr>s_demand := fence_demand 0 (s_demand s),
     s_desired := publish_report_async ''cold_restart_quiesced'' (withdraw_pending (cancel_idle_release (s_desired s))),
     s_timers := [], s_owners := [], s_page_warm := [], s_refs := [], s_generation := s_generation s + 1,
     s_relay := relay_close (s_relay s), s_direct := hub_quiesce (s_direct s)\<rparr>"

end
