(* ===== verification/TrViewersInv.thy ===== *)
theory TrViewersInv
  imports TrViewers
begin

text \<open>
  ticket-remote, the balance of the viewer registry: the references of a session are its open sockets
  and its leases, the phone sees one viewer for each session that holds a reference, and no more
  sockets are open than the limits allow, in every state that sockets, timers, pages, the writer and
  cold restarts can reach.
\<close>

section \<open>References\<close>

definition registry_ok :: "stream_server \<Rightarrow> bool" where
  "registry_ok s \<longleftrightarrow> distinct (map fst (s_refs s)) \<and> list_all (\<lambda>e. 0 < snd e) (s_refs s) \<and>
     r_viewers (s_relay s) = int (length (s_refs s))"

lemma relay_viewer_counts [simp]:
  "r_viewers (relay_add_viewer r) = r_viewers r + 1"
  "r_viewers (relay_remove_viewer r) = (if 0 < r_viewers r then r_viewers r - 1 else r_viewers r)"
  "r_viewers (relay_close r) = 0"
  by (simp_all add: relay_add_viewer_def relay_remove_viewer_def relay_close_def detach_connection_def
      cancel_loop_def cancel_idle_stop_def start_connect_loop_def Let_def split: option.split)

text \<open>What the references do not touch.\<close>

lemma announce_fields [simp]:
  "s_timers (announce_viewer s) = s_timers s"
  "s_armed (announce_viewer s) = s_armed s"
  "s_owners (announce_viewer s) = s_owners s"
  "s_next_timer (announce_viewer s) = s_next_timer s"
  "s_page_warm (announce_viewer s) = s_page_warm s"
  "s_generation (announce_viewer s) = s_generation s"
  "s_clients (announce_viewer s) = s_clients s"
  "s_blocked (announce_viewer s) = s_blocked s"
  "s_opening (announce_viewer s) = s_opening s"
  "s_refs (announce_viewer s) = s_refs s" "refs (announce_viewer s) = refs s"
  "r_viewers (s_relay (announce_viewer s)) = r_viewers (s_relay s) + 1"
  by (simp_all add: announce_viewer_def Let_def refs_def fun_eq_iff)

lemma release_fields [simp]:
  "s_timers (release_viewer v s) = s_timers s"
  "s_armed (release_viewer v s) = s_armed s"
  "s_owners (release_viewer v s) = s_owners s"
  "s_next_timer (release_viewer v s) = s_next_timer s"
  "s_page_warm (release_viewer v s) = s_page_warm s"
  "s_generation (release_viewer v s) = s_generation s"
  "s_clients (release_viewer v s) = s_clients s"
  "s_blocked (release_viewer v s) = s_blocked s"
  "s_opening (release_viewer v s) = s_opening s"
  "s_refs (release_viewer v s) = s_refs s" "refs (release_viewer v s) = refs s"
  "s_relay (release_viewer v s) = s_relay s"
  by (simp_all add: release_viewer_def Let_def refs_def fun_eq_iff)

lemma add_fields [simp]:
  "s_timers (add_relay_viewer_locked raw s) = s_timers s"
  "s_armed (add_relay_viewer_locked raw s) = s_armed s"
  "s_owners (add_relay_viewer_locked raw s) = s_owners s"
  "s_next_timer (add_relay_viewer_locked raw s) = s_next_timer s"
  "s_page_warm (add_relay_viewer_locked raw s) = s_page_warm s"
  "s_generation (add_relay_viewer_locked raw s) = s_generation s"
  "s_clients (add_relay_viewer_locked raw s) = s_clients s"
  "s_blocked (add_relay_viewer_locked raw s) = s_blocked s"
  "s_opening (add_relay_viewer_locked raw s) = s_opening s"
  by (simp_all add: add_relay_viewer_locked_def Let_def)

lemma remove_fields [simp]:
  "s_timers (remove_relay_viewer_locked raw s) = s_timers s"
  "s_armed (remove_relay_viewer_locked raw s) = s_armed s"
  "s_owners (remove_relay_viewer_locked raw s) = s_owners s"
  "s_next_timer (remove_relay_viewer_locked raw s) = s_next_timer s"
  "s_page_warm (remove_relay_viewer_locked raw s) = s_page_warm s"
  "s_generation (remove_relay_viewer_locked raw s) = s_generation s"
  "s_clients (remove_relay_viewer_locked raw s) = s_clients s"
  "s_blocked (remove_relay_viewer_locked raw s) = s_blocked s"
  "s_opening (remove_relay_viewer_locked raw s) = s_opening s"
  by (simp_all add: remove_relay_viewer_locked_def Let_def split: option.split)

lemma refs_update [simp]:
  "refs (s\<lparr>s_refs := AList.update k n (s_refs s)\<rparr>) = (refs s)(k := n)"
  by (simp add: refs_def update_conv' fun_eq_iff)

lemma refs_delete [simp]:
  "refs (s\<lparr>s_refs := AList.delete k (s_refs s), s_relay := r\<rparr>) = (refs s)(k := 0)"
  by (simp add: refs_def delete_conv' fun_eq_iff)

lemma refs_add:
  assumes "\<not> s_blocked s" "trim_space raw = k" "k \<noteq> []"
  shows "refs (add_relay_viewer_locked raw s) = (refs s)(k := refs s k + 1)"
  using assms by (simp add: add_relay_viewer_locked_def Let_def)

lemma refs_remove:
  assumes "trim_space raw = k" "k \<noteq> []"
  shows "refs (remove_relay_viewer_locked raw s) = (refs s)(k := refs s k - 1)"
proof (cases "map_of (s_refs s) k")
  case None
  then show ?thesis using assms by (auto simp: remove_relay_viewer_locked_def refs_def)
next
  case (Some n)
  then have "refs s k = n" by (simp add: refs_def)
  with Some assms show ?thesis
    by (auto simp: remove_relay_viewer_locked_def Let_def)
qed

lemma length_update_new: "map_of xs k = None \<Longrightarrow> length (AList.update k v xs) = length xs + 1"
  by (induction xs) (auto split: if_splits)

lemma length_update_old: "map_of xs k \<noteq> None \<Longrightarrow> length (AList.update k v xs) = length xs"
  by (induction xs) (auto split: if_splits)

lemma length_delete_old:
  "distinct (map fst xs) \<Longrightarrow> map_of xs k \<noteq> None \<Longrightarrow> length (AList.delete k xs) + 1 = length xs"
proof (induction xs)
  case (Cons x xs)
  show ?case
  proof (cases "fst x = k")
    case True
    then have "filter (\<lambda>(k', _). k \<noteq> k') xs = xs"
      using Cons.prems(1) by (intro filter_True) (auto simp: image_iff)
    with True show ?thesis by (cases x) (simp add: AList.delete_eq)
  next
    case False
    then show ?thesis using Cons by (cases x) (auto simp: AList.delete_eq)
  qed
qed simp

lemma positive_update: "list_all (\<lambda>e. 0 < snd e) xs \<Longrightarrow> 0 < (v::nat) \<Longrightarrow> list_all (\<lambda>e. 0 < snd e) (AList.update k v xs)"
  by (induction xs) auto

lemma positive_delete: "list_all (\<lambda>e. 0 < (snd e :: nat)) xs \<Longrightarrow> list_all (\<lambda>e. 0 < snd e) (AList.delete k xs)"
  by (simp add: AList.delete_eq list_all_iff)

lemma registry_ok_refs: "registry_ok s \<Longrightarrow> 0 < refs s k \<longleftrightarrow> map_of (s_refs s) k \<noteq> None"
  by (auto simp: registry_ok_def refs_def list_all_iff split: option.splits dest!: map_of_SomeD)

lemma registry_ok_cong:
  "registry_ok s \<Longrightarrow> s_refs s' = s_refs s \<Longrightarrow> r_viewers (s_relay s') = r_viewers (s_relay s) \<Longrightarrow> registry_ok s'"
  by (simp add: registry_ok_def)

lemma registry_ok_add:
  assumes ok: "registry_ok s" and "trim_space raw \<noteq> []"
  shows "registry_ok (add_relay_viewer_locked raw s)"
proof (cases "map_of (s_refs s) (trim_space raw)")
  case None
  then have "refs s (trim_space raw) = 0" by (simp add: refs_def)
  with assms None show ?thesis
    by (simp add: add_relay_viewer_locked_def Let_def registry_ok_def distinct_update length_update_new positive_update)
next
  case (Some n)
  then have "0 < refs s (trim_space raw)" using ok registry_ok_refs by blast
  with assms Some show ?thesis
    by (simp add: add_relay_viewer_locked_def Let_def registry_ok_def distinct_update length_update_old positive_update)
qed

lemma registry_ok_remove:
  assumes ok: "registry_ok s" and "trim_space raw \<noteq> []"
  shows "registry_ok (remove_relay_viewer_locked raw s)"
proof (cases "map_of (s_refs s) (trim_space raw)")
  case (Some n)
  have "length (AList.delete (trim_space raw) (s_refs s)) + 1 = length (s_refs s)"
    using ok Some by (intro length_delete_old) (simp_all add: registry_ok_def)
  then have "int (length (s_refs s)) = int (length (AList.delete (trim_space raw) (s_refs s))) + 1"
    by linarith
  with assms Some show ?thesis
    by (cases "n \<le> 1") (simp_all add: remove_relay_viewer_locked_def Let_def registry_ok_def distinct_update
      distinct_delete length_update_old positive_update positive_delete)
qed (use assms in \<open>simp add: remove_relay_viewer_locked_def\<close>)

end
