(* ===== verification/TrLeases.thy ===== *)
theory TrLeases
  imports TrViewersInv
begin

text \<open>
  ticket-remote, the leases of the viewer registry: which timers are in force, how the operations on
  leases change their number by session, and the invariant that every lease has its timer.
\<close>

section \<open>Lease names\<close>

definition warm_lease :: "string \<Rightarrow> string" where
  "warm_lease session = page_open_warm @ '':'' @ session"

text \<open>
  A session that is not named like the lease of another session. Sessions are cookie values or random,
  and the code does not check this; see \<open>lease_name_collision\<close> for what happens otherwise.
\<close>

definition plain_session :: "string \<Rightarrow> bool" where
  "plain_session k \<longleftrightarrow> k \<noteq> [] \<and> trim_space k = k \<and> \<not> prefix (page_open_warm @ '':'') k"

lemma colon_skip:
  "skip_space_rev q = None \<Longrightarrow> q \<noteq> [] \<Longrightarrow> skip_space_rev (q @ CHR '':'' # p) = None"
  by (cases q rule: skip_space_rev.cases; cases p)
    (auto simp: wide_space2_def wide_space3_def split: if_splits)

lemma trim_warm_lease:
  assumes "trim_space k = k" "k \<noteq> []"
  shows "trim_space (warm_lease k) = warm_lease k"
proof -
  have "rev k = trim_left_rev (rev (trim_left k))"
    using assms(1) by (metis rev_rev_ident trim_space_def)
  then have "skip_space_rev (rev k) = None"
    using trim_left_rev_skip by metis
  then have "skip_space_rev (rev (warm_lease k)) = None"
    using assms(2) colon_skip [of "rev k"] by (simp add: warm_lease_def page_open_warm_def)
  moreover have "plain_char (CHR ''p'')" by code_simp
  then have "skip_space (warm_lease k) = None"
    by (simp add: warm_lease_def page_open_warm_def plain_charD)
  ultimately show ?thesis
    by (simp add: trim_space_def trim_left.simps [of "warm_lease k"] trim_left_rev.simps [of "rev (warm_lease k)"])
qed

lemma warm_lease_inj [simp]: "warm_lease a = warm_lease b \<longleftrightarrow> a = b"
  by (simp add: warm_lease_def)

lemma warm_lease_other [simp]: "plain_session k \<Longrightarrow> warm_lease j \<noteq> k" "plain_session k \<Longrightarrow> k \<noteq> warm_lease j"
  by (auto simp: plain_session_def warm_lease_def prefix_def)

lemma warm_lease_nonempty [simp]: "warm_lease k \<noteq> []"
  by (simp add: warm_lease_def)

section \<open>Timers in force\<close>

definition lease_names :: "lease_timer \<Rightarrow> bool" where
  "lease_names t \<longleftrightarrow> plain_session (lt_session t) \<and> lt_lease t \<in> {lt_session t, warm_lease (lt_session t)}"

lemma lease_names_session:
  "lease_names t \<Longrightarrow> lease_names u \<Longrightarrow> lt_lease t = lt_lease u \<Longrightarrow> lt_session t = lt_session u"
  by (auto simp: lease_names_def)

definition in_force :: "stream_server \<Rightarrow> lease_timer \<Rightarrow> bool" where
  "in_force s t \<longleftrightarrow> map_of (s_timers s) (lt_lease t) = Some (lt_id t)"

definition leases :: "stream_server \<Rightarrow> string \<Rightarrow> nat" where
  "leases s k = length (filter (\<lambda>t. in_force s t \<and> lt_session t = k) (s_armed s))"

definition leases_ok :: "stream_server \<Rightarrow> bool" where
  "leases_ok s \<longleftrightarrow> distinct (map lt_id (s_armed s)) \<and>
     (\<forall>t \<in> set (s_armed s). lt_id t < s_next_timer s \<and> lease_names t) \<and>
     (\<forall>l i. map_of (s_timers s) l = Some i \<longrightarrow> (\<exists>t \<in> set (s_armed s). lt_id t = i \<and> lt_lease t = l))"

lemma leases_ok_timer:
  "leases_ok s \<Longrightarrow> map_of (s_timers s) l = Some i \<Longrightarrow> \<exists>t \<in> set (s_armed s). lt_id t = i \<and> lt_lease t = l"
  unfolding leases_ok_def by blast

lemma leases_cong: "s_timers s' = s_timers s \<Longrightarrow> s_armed s' = s_armed s \<Longrightarrow> leases s' = leases s"
  by (simp add: leases_def in_force_def fun_eq_iff)

lemma leases_ok_cong:
  "leases_ok s \<Longrightarrow> s_timers s' = s_timers s \<Longrightarrow> s_armed s' = s_armed s \<Longrightarrow> s_next_timer s' = s_next_timer s \<Longrightarrow> leases_ok s'"
  by (simp add: leases_ok_def)

text \<open>At most one timer of a lease is in force.\<close>

lemma in_force_unique:
  "leases_ok s \<Longrightarrow> t \<in> set (s_armed s) \<Longrightarrow> u \<in> set (s_armed s) \<Longrightarrow> in_force s t \<Longrightarrow> in_force s u \<Longrightarrow>
   lt_lease t = lt_lease u \<Longrightarrow> t = u"
  by (auto simp: leases_ok_def in_force_def distinct_map dest: inj_onD)

lemma length_filter_one:
  "distinct xs \<Longrightarrow> x \<in> set xs \<Longrightarrow> P x \<Longrightarrow> \<not> Q x \<Longrightarrow> \<forall>y \<in> set xs. y \<noteq> x \<longrightarrow> Q y = P y \<Longrightarrow>
   length (filter P xs) = Suc (length (filter Q xs))"
proof (induction xs)
  case (Cons y ys)
  show ?case
  proof (cases "y = x")
    case True
    then have "filter Q ys = filter P ys" using Cons.prems by (intro filter_cong) auto
    with True Cons.prems show ?thesis by simp
  qed (use Cons in auto)
qed simp

lemma leases_ok_distinct: "leases_ok s \<Longrightarrow> distinct (s_armed s)"
  by (simp add: leases_ok_def distinct_map)

text \<open>A lease that ends takes one from its session.\<close>

lemma leases_end:
  assumes ok: "leases_ok s" and t: "t \<in> set (s_armed s)" "in_force s t"
  shows "leases s = (leases (s\<lparr>s_timers := AList.delete (lt_lease t) (s_timers s)\<rparr>))
    (lt_session t := leases (s\<lparr>s_timers := AList.delete (lt_lease t) (s_timers s)\<rparr>) (lt_session t) + 1)"
proof
  fix k
  let ?s = "s\<lparr>s_timers := AList.delete (lt_lease t) (s_timers s)\<rparr>"
  have gone: "in_force ?s u \<longleftrightarrow> in_force s u \<and> u \<noteq> t" if "u \<in> set (s_armed s)" for u
    using in_force_unique [OF ok that t(1) _ t(2)] t(2) by (auto simp: in_force_def delete_conv')
  show "leases s k = ((leases ?s)(lt_session t := leases ?s (lt_session t) + 1)) k"
  proof (cases "k = lt_session t")
    case True
    have "length (filter (\<lambda>u. in_force s u \<and> lt_session u = k) (s_armed s)) =
        Suc (length (filter (\<lambda>u. in_force ?s u \<and> lt_session u = k) (s_armed s)))"
      using leases_ok_distinct [OF ok] t True gone by (intro length_filter_one [where x = t]) auto
    with True show ?thesis by (simp add: leases_def)
  next
    case False
    have "filter (\<lambda>u. in_force s u \<and> lt_session u = k) (s_armed s) =
        filter (\<lambda>u. in_force ?s u \<and> lt_session u = k) (s_armed s)"
      using gone False by (intro filter_cong) auto
    with False show ?thesis by (simp add: leases_def)
  qed
qed

lemma leases_ok_delete:
  "leases_ok s \<Longrightarrow> leases_ok (s\<lparr>s_timers := AList.delete l (s_timers s)\<rparr>)"
  by (auto simp: leases_ok_def delete_conv' split: if_splits)

text \<open>A function that has run without its lease in force changes nothing.\<close>

lemma remove1_in_force:
  assumes "leases_ok s" "\<not> in_force s t"
  shows "leases (s\<lparr>s_armed := remove1 t (s_armed s)\<rparr>) = leases s" (is ?A)
    and "leases_ok (s\<lparr>s_armed := remove1 t (s_armed s)\<rparr>)" (is ?B)
proof -
  have "filter P (remove1 t xs) = filter P xs" if "\<not> P t" for P and xs :: "lease_timer list"
    using that by (induction xs) auto
  then show ?A using assms(2) by (simp add: leases_def in_force_def fun_eq_iff)
  have keep: "\<exists>u \<in> set (remove1 t (s_armed s)). lt_id u = i \<and> lt_lease u = l"
    if "map_of (s_timers s) l = Some i" for l i
  proof -
    from leases_ok_timer [OF assms(1) that]
    obtain u where "u \<in> set (s_armed s)" "lt_id u = i" "lt_lease u = l" by blast
    moreover have "u \<noteq> t" using calculation assms(2) that by (auto simp: in_force_def)
    ultimately show ?thesis by (auto simp: in_set_remove1)
  qed
  have "distinct (map lt_id (remove1 t (s_armed s)))"
    using assms(1) by (auto simp: leases_ok_def distinct_map intro: inj_on_subset dest: notin_set_remove1 set_mp [OF set_remove1_subset])
  then show ?B
    using assms(1) keep by (auto simp: leases_ok_def dest: notin_set_remove1 set_mp [OF set_remove1_subset])
qed

text \<open>A timer is armed for a lease: a new lease gives one to its session, a renewed one nothing.\<close>

definition arm :: "lease_timer \<Rightarrow> stream_server \<Rightarrow> stream_server" where
  "arm t s = s\<lparr>s_armed := t # s_armed s, s_next_timer := s_next_timer s + 1,
     s_timers := AList.update (lt_lease t) (lt_id t) (s_timers s)\<rparr>"

lemma leases_ok_arm:
  assumes "leases_ok s" "lt_id t = s_next_timer s" "lease_names t"
  shows "leases_ok (arm t s)"
  using assms by (auto simp: leases_ok_def arm_def update_conv' split: if_splits)

lemma leases_arm:
  assumes ok: "leases_ok s" and t: "lt_id t = s_next_timer s" "lease_names t"
  shows "leases (arm t s) = (if map_of (s_timers s) (lt_lease t) = None
    then (leases s)(lt_session t := leases s (lt_session t) + 1) else leases s)"
proof (cases "map_of (s_timers s) (lt_lease t)")
  case None
  have "in_force (arm t s) u \<longleftrightarrow> in_force s u" if "u \<in> set (s_armed s)" for u
    using None ok that t(1) by (auto simp: in_force_def arm_def update_conv' leases_ok_def)
  then have "filter (\<lambda>u. in_force (arm t s) u \<and> lt_session u = k) (s_armed s) =
      filter (\<lambda>u. in_force s u \<and> lt_session u = k) (s_armed s)" for k
    by (intro filter_cong) auto
  moreover have "in_force (arm t s) t" by (simp add: in_force_def arm_def update_conv')
  ultimately show ?thesis
    using None by (auto simp: leases_def fun_eq_iff) (simp_all add: arm_def)
next
  case (Some i)
  then obtain v where v: "v \<in> set (s_armed s)" "lt_id v = i" "lt_lease v = lt_lease t"
    using leases_ok_timer [OF ok Some] by blast
  have session: "lt_session v = lt_session t"
    using v ok t(2) by (auto simp: leases_ok_def intro: lease_names_session)
  have v_force: "in_force s v" using Some v by (simp add: in_force_def)
  have force: "in_force (arm t s) u \<longleftrightarrow> in_force s u \<and> u \<noteq> v" if u: "u \<in> set (s_armed s)" for u
  proof (cases "lt_lease u = lt_lease t")
    case True
    then have "\<not> in_force (arm t s) u"
      using ok u t(1) by (auto simp: in_force_def arm_def update_conv' leases_ok_def)
    with in_force_unique [OF ok u v(1) _ v_force] True v(3) show ?thesis by auto
  next
    case False
    with v(3) show ?thesis by (auto simp: in_force_def arm_def update_conv')
  qed
  have t_force: "in_force (arm t s) t" by (simp add: in_force_def arm_def update_conv')
  have armed: "s_armed (arm t s) = t # s_armed s" by (simp add: arm_def)
  have "leases (arm t s) k = leases s k" for k
  proof (cases "k = lt_session t")
    case True
    have "length (filter (\<lambda>u. in_force s u \<and> lt_session u = k) (s_armed s)) =
        Suc (length (filter (\<lambda>u. in_force (arm t s) u \<and> lt_session u = k) (s_armed s)))"
      using leases_ok_distinct [OF ok] v(1) v_force session True force
      by (intro length_filter_one [where x = v]) auto
    with True t_force show ?thesis by (simp add: leases_def armed)
  next
    case False
    have "filter (\<lambda>u. in_force (arm t s) u \<and> lt_session u = k) (s_armed s) =
        filter (\<lambda>u. in_force s u \<and> lt_session u = k) (s_armed s)"
      using force session False by (intro filter_cong) auto
    with False show ?thesis by (simp add: leases_def armed)
  qed
  with Some show ?thesis by (simp add: fun_eq_iff)
qed

end
