(* ===== verification/TrGateway.thy ===== *)
theory TrGateway
  imports TrLeases
begin

text \<open>
  ticket-remote, the gateway: the viewer registry with the socket handlers that hold a reference, and
  everything that can happen to it, in any order. The balance of the registry is its invariant.
\<close>

section \<open>Steps\<close>

text \<open>
  A handler is a socket that took its reference (\<open>handleBrowserSocket\<close> after \<open>addRelayViewer\<close>): its
  session and the generation it was given. \<open>late\<close> says whether sockets may open while a cold restart
  holds the flag, which the code allows. \<open>names\<close> are the sessions that occur: the code takes any
  cookie that is not blank for one.
\<close>

record gateway =
  g_server :: stream_server
  g_handlers :: "(string \<times> nat) list"

definition gateway_init :: gateway where
  "gateway_init = \<lparr>g_server = server_init, g_handlers = []\<rparr>"

inductive gateway_step :: "bool \<Rightarrow> string set \<Rightarrow> gateway \<Rightarrow> gateway \<Rightarrow> bool" for late names where
  admitted: "\<forall>d \<in> set (s_clients (g_server g)). cl_id d \<noteq> cl_id c \<Longrightarrow>
    gateway_step late names g (g\<lparr>g_server := fst (try_add_client c (g_server g))\<rparr>)"
| left: "gateway_step late names g (g\<lparr>g_server := remove_client i (g_server g)\<rparr>)"
| joined: "trim_space session \<noteq> [] \<Longrightarrow> trim_space session \<in> names \<Longrightarrow> late \<or> \<not> s_blocked (g_server g) \<Longrightarrow>
    add_relay_viewer session (g_server g) = (s', generation) \<Longrightarrow>
    gateway_step late names g \<lparr>g_server = s', g_handlers = (session, generation) # g_handlers g\<rparr>"
| released: "(session, generation) \<in> set (g_handlers g) \<Longrightarrow>
    gateway_step late names g \<lparr>g_server = remove_relay_viewer_generation session generation (g_server g),
      g_handlers = remove1 (session, generation) (g_handlers g)\<rparr>"
| page_retained: "trim_space session \<noteq> [] \<Longrightarrow> trim_space session \<in> names \<Longrightarrow>
    gateway_step late names g (g\<lparr>g_server := retain_for_opening session hold kind ident now (g_server g)\<rparr>)"
| page_released: "trim_space session \<noteq> [] \<Longrightarrow> trim_space session \<in> names \<Longrightarrow>
    gateway_step late names g (g\<lparr>g_server := release_opening_warm session ident now (g_server g)\<rparr>)"
| page_opened: "trim_space session \<noteq> [] \<Longrightarrow> trim_space session \<in> names \<Longrightarrow>
    gateway_step late names g (g\<lparr>g_server := retain_for_page_open session opened_at now later (g_server g)\<rparr>)"
| lease_fired: "t \<in> set (s_armed (g_server g)) \<Longrightarrow>
    gateway_step late names g (g\<lparr>g_server := lease_fires t (g_server g)\<rparr>)"
| flag_set: "gateway_step late names g (g\<lparr>g_server := (g_server g)\<lparr>s_blocked := b\<rparr>\<rparr>)"
| quiesced: "gateway_step late names g (g\<lparr>g_server := quiesce (g_server g)\<rparr>)"
| relay_moved: "relay_step (s_relay (g_server g)) r \<Longrightarrow> r_viewers r = r_viewers (s_relay (g_server g)) \<Longrightarrow>
    gateway_step late names g (g\<lparr>g_server := (g_server g)\<lparr>s_relay := r\<rparr>\<rparr>)"
| queue_moved: "desired_step (s_blocked (g_server g)) (demand_present (g_server g)) (s_desired (g_server g)) q \<Longrightarrow>
    gateway_step late names g (g\<lparr>g_server := (g_server g)\<lparr>s_desired := q\<rparr>\<rparr>)"
| others_moved: "gateway_step late names g (g\<lparr>g_server := (g_server g)\<lparr>s_direct := h, s_opening := o', s_demand := d\<rparr>\<rparr>)"

inductive gateway_reach :: "bool \<Rightarrow> string set \<Rightarrow> gateway \<Rightarrow> bool" for late names where
  init: "gateway_reach late names gateway_init"
| step: "gateway_reach late names g \<Longrightarrow> gateway_step late names g g' \<Longrightarrow> gateway_reach late names g'"

inductive_cases gateway_stepE: "gateway_step late names g g'"

section \<open>The balance\<close>

definition sockets_of :: "gateway \<Rightarrow> string \<Rightarrow> nat" where
  "sockets_of g k =
     length (filter (\<lambda>(session, generation). trim_space session = k \<and> generation = s_generation (g_server g)) (g_handlers g))"

definition weighs :: "bool \<Rightarrow> nat \<Rightarrow> nat \<Rightarrow> bool" where
  "weighs late a b \<longleftrightarrow> (if late then a \<le> b else a = b)"

definition balanced :: "bool \<Rightarrow> gateway \<Rightarrow> bool" where
  "balanced late g \<longleftrightarrow> registry_ok (g_server g) \<and> leases_ok (g_server g) \<and>
     (\<forall>h \<in> set (g_handlers g). plain_session (trim_space (fst h)) \<and> snd h \<le> s_generation (g_server g)) \<and>
     (\<forall>k. weighs late (refs (g_server g) k) (leases (g_server g) k + sockets_of g k))"

lemma balanced_init: "balanced late gateway_init"
  by (simp add: balanced_def gateway_init_def server_init_def registry_ok_def leases_ok_def refs_def leases_def
      sockets_of_def weighs_def relay_init_def)

text \<open>The registry changes while the handlers stay: references and leases move together.\<close>

lemma balanced_move:
  assumes "balanced late g" "registry_ok s'" "leases_ok s'" "s_generation s' = s_generation (g_server g)"
    and "\<And>k. weighs late (refs (g_server g) k) (leases (g_server g) k + sockets_of g k) \<Longrightarrow>
           weighs late (refs s' k) (leases s' k + sockets_of g k)"
  shows "balanced late (g\<lparr>g_server := s'\<rparr>)"
  using assms by (simp add: balanced_def sockets_of_def)

lemma balanced_frame:
  assumes "balanced late g" "s_refs s' = s_refs (g_server g)" "s_timers s' = s_timers (g_server g)"
    "s_armed s' = s_armed (g_server g)" "s_next_timer s' = s_next_timer (g_server g)"
    "s_generation s' = s_generation (g_server g)" "r_viewers (s_relay s') = r_viewers (s_relay (g_server g))"
  shows "balanced late (g\<lparr>g_server := s'\<rparr>)"
proof (rule balanced_move [OF assms(1)])
  show "registry_ok s'" using assms registry_ok_cong unfolding balanced_def by blast
  show "leases_ok s'" using assms leases_ok_cong unfolding balanced_def by blast
  have "refs s' = refs (g_server g)" using assms(2) by (simp add: refs_def fun_eq_iff)
  moreover have "leases s' = leases (g_server g)" using assms(3,4) by (rule leases_cong)
  ultimately show "weighs late (refs s' k) (leases s' k + sockets_of g k)"
    if "weighs late (refs (g_server g) k) (leases (g_server g) k + sockets_of g k)" for k
    using that by simp
qed (rule assms(6))

lemma weighs_both: "weighs late a b \<Longrightarrow> weighs late (a + n) (b + n)"
  by (simp add: weighs_def split: if_splits)

lemma weighs_less: "weighs late a (Suc b) \<Longrightarrow> weighs late (a - 1) b"
  by (auto simp: weighs_def split: if_splits)

section \<open>Leases taken and given back\<close>

text \<open>A lease that is granted is an armed timer and, if it is new, a reference.\<close>

lemma retain_lease_grants:
  assumes "retain_lease l k hold True reason allow requested s = (s', added)" "\<not> s_blocked s"
    "trim_space k = k" "k \<noteq> []" "trim_space l = l" "l \<noteq> []"
  shows "s' = s \<and> \<not> added \<or>
    (\<exists>t. lt_id t = s_next_timer s \<and> lt_lease t = l \<and> lt_session t = k \<and> added = (map_of (s_timers s) l = None) \<and>
       s' = (arm t s)\<lparr>s_owners := AList.update l requested (s_owners s)\<rparr>)"
proof -
  let ?t = "\<lparr>lt_id = s_next_timer s, lt_lease = l, lt_session = k, lt_reason = clean_stream_control_text reason ''prewarm'',
    lt_hold = (if hold \<le> 0 then prewarm_hold else hold)\<rparr>"
  have "s' = s \<and> \<not> added \<or> added = (map_of (s_timers s) l = None) \<and>
      s' = (arm ?t s)\<lparr>s_owners := AList.update l requested (s_owners s)\<rparr>"
    using assms by (auto simp: retain_lease_def Let_def arm_def split: if_splits)
  moreover have "lt_id ?t = s_next_timer s" "lt_lease ?t = l" "lt_session ?t = k" by simp_all
  ultimately show ?thesis by blast
qed

lemma granted_balanced:
  assumes bal: "balanced late g" and frame: "s_timers s = s_timers (g_server g)" "s_armed s = s_armed (g_server g)"
      "s_next_timer s = s_next_timer (g_server g)" "s_refs s = s_refs (g_server g)" "s_relay s = s_relay (g_server g)"
      "s_generation s = s_generation (g_server g)"
    and grant: "retain_lease l k hold True reason allow requested s = (s', added)" "\<not> s_blocked s"
    and k: "plain_session k" "l = k \<or> l = warm_lease k"
  shows "balanced late (g\<lparr>g_server := (if added then add_relay_viewer_locked k s' else s')\<rparr>)"
proof -
  have k': "trim_space k = k" "k \<noteq> []" using k(1) by (simp_all add: plain_session_def)
  have l: "trim_space l = l" "l \<noteq> []"
    using k(2) k' trim_warm_lease [OF k'] warm_lease_nonempty [of k] by metis+
  have bal': "registry_ok (g_server g)" "leases_ok (g_server g)"
    using bal by (simp_all add: balanced_def)
  have ok: "registry_ok s" "leases_ok s"
    using registry_ok_cong [OF bal'(1) frame(4)] frame(5) leases_ok_cong [OF bal'(2) frame(1-3)] by simp_all
  have same: "refs s = refs (g_server g)" "leases s = leases (g_server g)"
    using leases_cong [OF frame(1,2)] by (simp_all add: refs_def frame(4) fun_eq_iff)
  from retain_lease_grants [OF grant k' l] consider "s' = s" "\<not> added"
    | t where "lt_id t = s_next_timer s" "lt_lease t = l" "lt_session t = k" "added = (map_of (s_timers s) l = None)"
      "s' = (arm t s)\<lparr>s_owners := AList.update l requested (s_owners s)\<rparr>" by blast
  then show ?thesis
  proof cases
    case 1
    then show ?thesis using balanced_frame [OF bal] frame by simp
  next
    case (2 t)
    have names: "lease_names t" using 2(2,3) k by (simp add: lease_names_def)
    have s': "leases_ok s'" "leases s' = leases (arm t s)" "s_refs s' = s_refs s" "s_relay s' = s_relay s"
        "\<not> s_blocked s'" "s_generation s' = s_generation s"
      using leases_ok_arm [OF ok(2) 2(1) names] grant(2) unfolding 2(5)
      by (auto intro: leases_ok_cong leases_cong) (simp_all add: arm_def)
    have r: "registry_ok s'" using ok(1) s'(3,4) registry_ok_cong by auto
    have refs': "refs s' = refs (g_server g)" using s'(3) same(1) by (simp add: refs_def fun_eq_iff)
    show ?thesis
    proof (cases added)
      case True
      have "refs (add_relay_viewer_locked k s') = (refs (g_server g))(k := refs (g_server g) k + 1)"
        using refs_add [OF s'(5) k'(1) k'(2)] refs' by simp
      moreover have "leases (add_relay_viewer_locked k s') = (leases (g_server g))(k := leases (g_server g) k + 1)"
        using True 2(2,3,4) leases_arm [OF ok(2) 2(1) names] s'(2) same(2) leases_cong [of "add_relay_viewer_locked k s'" s']
        by simp
      ultimately have "balanced late (g\<lparr>g_server := add_relay_viewer_locked k s'\<rparr>)"
        using weighs_both [where n = 1] registry_ok_add [OF r, of k] k' s' frame(6) leases_ok_cong [OF s'(1)]
        by (intro balanced_move [OF bal]) auto
      with True show ?thesis by simp
    next
      case False
      then have "leases s' = leases (g_server g)"
        using 2(2,4) leases_arm [OF ok(2) 2(1) names] s'(2) same(2) by auto
      then have "balanced late (g\<lparr>g_server := s'\<rparr>)"
        using refs' r s' frame(6) by (intro balanced_move [OF bal]) simp_all
      with False show ?thesis by simp
    qed
  qed
qed

lemma ended_balanced:
  assumes bal: "balanced late g" and t: "t \<in> set (s_armed (g_server g))" "in_force (g_server g) t"
    and s': "s_timers s' = AList.delete (lt_lease t) (s_timers (g_server g))" "s_armed s' = s_armed (g_server g)"
      "s_next_timer s' = s_next_timer (g_server g)" "s_refs s' = s_refs (g_server g)"
      "s_relay s' = s_relay (g_server g)" "s_generation s' = s_generation (g_server g)"
  shows "balanced late (g\<lparr>g_server := remove_relay_viewer_locked (lt_session t) s'\<rparr>)"
proof -
  let ?s = "g_server g" and ?k = "lt_session t"
  let ?d = "?s\<lparr>s_timers := AList.delete (lt_lease t) (s_timers ?s)\<rparr>"
  have ok: "registry_ok ?s" "leases_ok ?s" using bal by (simp_all add: balanced_def)
  have k: "trim_space ?k = ?k" "?k \<noteq> []"
    using ok(2) t(1) by (auto simp: leases_ok_def lease_names_def plain_session_def)
  have "leases_ok s'" using leases_ok_delete [OF ok(2)] s' leases_ok_cong [of ?d s'] by simp
  have ls: "leases s' = leases ?d" using s' by (intro leases_cong) simp_all
  have "registry_ok s'" using ok(1) s' registry_ok_cong by auto
  have "refs s' = refs ?s" using s'(4) by (simp add: refs_def fun_eq_iff)
  then have refs': "refs (remove_relay_viewer_locked ?k s') = (refs ?s)(?k := refs ?s ?k - 1)"
    using refs_remove [OF k(1) k(2)] by simp
  have leases': "leases (remove_relay_viewer_locked ?k s') = leases ?d"
    using ls leases_cong [of "remove_relay_viewer_locked ?k s'" s'] by simp
  have now: "leases ?s = (leases ?d)(?k := leases ?d ?k + 1)"
    by (rule leases_end [OF ok(2) t])
  show ?thesis
  proof (rule balanced_move [OF bal])
    show "registry_ok (remove_relay_viewer_locked ?k s')"
      using \<open>registry_ok s'\<close> k by (intro registry_ok_remove) simp_all
    show "leases_ok (remove_relay_viewer_locked ?k s')"
      using \<open>leases_ok s'\<close> by (rule leases_ok_cong) simp_all
    show "s_generation (remove_relay_viewer_locked ?k s') = s_generation ?s" using s'(6) by simp
    fix k
    assume w: "weighs late (refs ?s k) (leases ?s k + sockets_of g k)"
    show "weighs late (refs (remove_relay_viewer_locked ?k s') k)
        (leases (remove_relay_viewer_locked ?k s') k + sockets_of g k)"
      using w weighs_less by (cases "k = ?k") (simp_all add: refs' leases' now)
  qed
qed

section \<open>Every step keeps the balance\<close>

lemma sockets_of_remove:
  assumes "(session, generation) \<in> set (g_handlers g)"
  shows "sockets_of g k = sockets_of (g\<lparr>g_handlers := remove1 (session, generation) (g_handlers g)\<rparr>) k +
    (if trim_space session = k \<and> generation = s_generation (g_server g) then 1 else 0)"
proof -
  have "length (filter P xs) = length (filter P (remove1 x xs)) + (if P x then 1 else 0)"
    if "x \<in> set xs" for P and x :: "string \<times> nat" and xs
    using that by (induction xs) auto
  from this [OF assms] show ?thesis by (simp add: sockets_of_def)
qed

lemma joined_balanced:
  assumes bal: "balanced late g" and k: "plain_session (trim_space session)"
    and late: "late \<or> \<not> s_blocked (g_server g)" and add: "add_relay_viewer session (g_server g) = (s', generation)"
  shows "balanced late \<lparr>g_server = s', g_handlers = (session, generation) # g_handlers g\<rparr>"
proof -
  let ?s = "g_server g" and ?k = "trim_space session"
  have ne: "?k \<noteq> []" using k by (simp add: plain_session_def)
  have s': "s' = add_relay_viewer_locked session ?s" "generation = s_generation ?s"
    using add by (auto simp: add_relay_viewer_def Let_def)
  have regs: "registry_ok s'" "leases_ok s'"
    using bal registry_ok_add [of ?s session] ne leases_ok_cong [of ?s s'] by (simp_all add: balanced_def s')
  have ls: "leases s' = leases ?s" using leases_cong [of s' ?s] by (simp add: s')
  have refs': "refs s' = (if s_blocked ?s then refs ?s else (refs ?s)(?k := refs ?s ?k + 1))"
    using refs_add [OF _ HOL.refl ne] by (simp add: s' add_relay_viewer_locked_def)
  have socks: "sockets_of \<lparr>g_server = s', g_handlers = (session, generation) # g_handlers g\<rparr> k =
      sockets_of g k + (if k = ?k then 1 else 0)" for k
    by (simp add: sockets_of_def s')
  have "weighs late (refs s' k) (leases s' k + (sockets_of g k + (if k = ?k then 1 else 0)))" for k
  proof -
    have w: "weighs late (refs ?s k) (leases ?s k + sockets_of g k)" using bal by (simp add: balanced_def)
    show ?thesis
    proof (cases "s_blocked ?s")
      case True
      with late have late by simp
      with w True show ?thesis by (simp add: weighs_def refs' ls)
    next
      case False
      with w show ?thesis using weighs_both [OF w, of 1] by (cases "k = ?k") (simp_all add: refs' ls)
    qed
  qed
  moreover have "s_generation s' = s_generation ?s" by (simp add: s'(1))
  ultimately show ?thesis using bal k regs s'(2) by (simp add: balanced_def socks [unfolded s'(2)])
qed

lemma released_balanced:
  assumes bal: "balanced late g" and h: "(session, generation) \<in> set (g_handlers g)"
  shows "balanced late \<lparr>g_server = remove_relay_viewer_generation session generation (g_server g),
      g_handlers = remove1 (session, generation) (g_handlers g)\<rparr>"
proof (cases "generation = s_generation (g_server g)")
  case False
  have "sockets_of \<lparr>g_server = g_server g, g_handlers = remove1 (session, generation) (g_handlers g)\<rparr> k = sockets_of g k" for k
    using sockets_of_remove [OF h, of k] False by (simp add: sockets_of_def)
  with bal False show ?thesis
    by (auto simp: balanced_def remove_relay_viewer_generation_def dest: notin_set_remove1 set_mp [OF set_remove1_subset])
next
  case True
  let ?s = "g_server g" and ?k = "trim_space session" and ?s' = "remove_relay_viewer_locked session (g_server g)"
  have ne: "?k \<noteq> []" using bal h by (auto simp: balanced_def plain_session_def)
  have regs: "registry_ok ?s'" "leases_ok ?s'"
    using bal registry_ok_remove [of ?s session] ne leases_ok_cong [of ?s ?s'] by (simp_all add: balanced_def)
  have ls: "leases ?s' = leases ?s" using leases_cong [of ?s' ?s] by simp
  have refs': "refs ?s' = (refs ?s)(?k := refs ?s ?k - 1)" by (rule refs_remove [OF HOL.refl ne])
  let ?g = "\<lparr>g_server = ?s', g_handlers = remove1 (session, generation) (g_handlers g)\<rparr>"
  have socks: "sockets_of g k = sockets_of ?g k + (if ?k = k then 1 else 0)" for k
    using sockets_of_remove [OF h, of k] True by (simp add: sockets_of_def)
  have "weighs late (refs ?s' k) (leases ?s' k + sockets_of ?g k)" for k
  proof -
    have w: "weighs late (refs ?s k) (leases ?s k + sockets_of g k)" using bal by (simp add: balanced_def)
    show ?thesis
      using w weighs_less by (cases "k = ?k") (simp_all add: refs' ls socks)
  qed
  with bal regs True show ?thesis
    by (auto simp: balanced_def remove_relay_viewer_generation_def dest: notin_set_remove1 set_mp [OF set_remove1_subset])
qed

lemma retained_balanced:
  assumes bal: "balanced late g" and k: "plain_session (trim_space session)"
  shows "balanced late (g\<lparr>g_server := retain_for_opening session hold kind ident now (g_server g)\<rparr>)"
proof (cases "s_blocked (g_server g) \<or> hold \<le> 0 \<or> \<not> opening_guard ident (trim_space session) now (g_server g)")
  case True
  then show ?thesis using bal by (auto simp: retain_for_opening_def retain_lease_def Let_def)
next
  case False
  obtain s' added where r: "retain_lease (trim_space session) (trim_space session) hold True kind (ident \<noteq> []) ident (g_server g) = (s', added)"
    by (metis surj_pair)
  have "balanced late (g\<lparr>g_server := (if added then add_relay_viewer_locked (trim_space session) s' else s')\<rparr>)"
    using False k by (intro granted_balanced [OF bal HOL.refl HOL.refl HOL.refl HOL.refl HOL.refl HOL.refl r]) simp_all
  then show ?thesis using False k r by (simp add: retain_for_opening_def Let_def plain_session_def)
qed

lemma page_opened_balanced:
  assumes bal: "balanced late g" and k: "plain_session (trim_space session)"
  shows "balanced late (g\<lparr>g_server := retain_for_page_open session opened_at now later (g_server g)\<rparr>)"
proof -
  let ?k = "trim_space session" and ?d = "opened_at + page_open_warm_hold" and ?s = "g_server g"
  let ?s1 = "?s\<lparr>s_page_warm := AList.update ?k ?d (s_page_warm ?s)\<rparr>"
  obtain s' added where r: "retain_lease (warm_lease ?k) ?k (time_sub ?d later) True page_open_warm False [] ?s1 = (s', added)"
    by (metis surj_pair)
  have "balanced late (g\<lparr>g_server := (if added then add_relay_viewer_locked ?k s' else s')\<rparr>)" if "\<not> s_blocked ?s"
    using that k by (intro granted_balanced [OF bal _ _ _ _ _ _ r]) simp_all
  then show ?thesis
    using r bal by (auto simp: retain_for_page_open_def Let_def warm_lease_def)
qed

lemma page_released_balanced:
  assumes bal: "balanced late g" and k: "plain_session (trim_space session)"
  shows "balanced late (g\<lparr>g_server := release_opening_warm session ident now (g_server g)\<rparr>)"
proof -
  let ?k = "trim_space session" and ?s = "g_server g"
  obtain s' released where r: "retain_lease session session 0 False ''release'' False ident ?s = (s', released)"
    by (metis surj_pair)
  have ne: "?k \<noteq> []" "trim_space ?k = ?k" using k by (simp_all add: plain_session_def)
  show ?thesis
  proof (cases released)
    case False
    then have "s' = ?s" using r ne by (auto simp: retain_lease_def Let_def split: option.splits if_splits)
    with False r bal show ?thesis by (simp add: release_opening_warm_def)
  next
    case True
    then obtain i where i: "map_of (s_timers ?s) ?k = Some i"
      and s': "s' = ?s\<lparr>s_timers := AList.delete ?k (s_timers ?s), s_owners := AList.delete ?k (s_owners ?s)\<rparr>"
      using r ne by (auto simp: retain_lease_def Let_def split: option.splits if_splits)
    have ok: "leases_ok ?s" using bal by (simp add: balanced_def)
    from leases_ok_timer [OF ok i] obtain t where t: "t \<in> set (s_armed ?s)" "lt_id t = i" "lt_lease t = ?k" by blast
    have "lease_names t" using ok t(1) by (simp add: leases_ok_def)
    then have session: "lt_session t = ?k" using k t(3) by (auto simp: lease_names_def)
    have "balanced late (g\<lparr>g_server := remove_relay_viewer_locked (lt_session t) s'\<rparr>)"
      using i t by (intro ended_balanced [OF bal t(1)]) (simp_all add: in_force_def s')
    moreover have "remove_relay_viewer_locked ?k s' = remove_relay_viewer_locked session s'"
      using ne(2) by (simp add: remove_relay_viewer_locked_def)
    ultimately show ?thesis
      using True r bal session by (auto simp: release_opening_warm_def)
  qed
qed

lemma fired_balanced:
  assumes bal: "balanced late g" and t: "t \<in> set (s_armed (g_server g))"
  shows "balanced late (g\<lparr>g_server := lease_fires t (g_server g)\<rparr>)"
proof -
  let ?s = "g_server g"
  have ok: "registry_ok ?s" "leases_ok ?s" using bal by (simp_all add: balanced_def)
  define s1 where "s1 = ?s\<lparr>s_timers := AList.delete (lt_lease t) (s_timers ?s),
    s_owners := AList.delete (lt_lease t) (s_owners ?s),
    s_page_warm := (if lt_reason t = page_open_warm then AList.delete (lt_session t) (s_page_warm ?s) else s_page_warm ?s)\<rparr>"
  have disarm: "balanced late (g\<lparr>g_server := s\<lparr>s_armed := remove1 t (s_armed s)\<rparr>\<rparr>)"
    if b: "balanced late (g\<lparr>g_server := s\<rparr>)" and off: "\<not> in_force s t" for s
  proof -
    have "leases_ok s" "registry_ok s" using b by (simp_all add: balanced_def)
    moreover have "registry_ok (s\<lparr>s_armed := remove1 t (s_armed s)\<rparr>)"
      using \<open>registry_ok s\<close> by (simp add: registry_ok_def)
    moreover have "refs (s\<lparr>s_armed := remove1 t (s_armed s)\<rparr>) = refs s" by (simp add: refs_def fun_eq_iff)
    ultimately show ?thesis
      using b remove1_in_force [OF \<open>leases_ok s\<close> off] by (simp add: balanced_def sockets_of_def)
  qed
  show ?thesis
  proof (cases "in_force ?s t")
    case True
    have bal1: "balanced late (g\<lparr>g_server := remove_relay_viewer_locked (lt_session t) s1\<rparr>)"
      by (intro ended_balanced [OF bal t True]) (simp_all add: s1_def)
    have off: "\<not> in_force (remove_relay_viewer_locked (lt_session t) s1) t"
      by (simp add: in_force_def s1_def delete_conv')
    have comm: "remove_relay_viewer_locked k (s\<lparr>s_armed := xs\<rparr>) = (remove_relay_viewer_locked k s)\<lparr>s_armed := xs\<rparr>" for k s xs
      by (simp add: remove_relay_viewer_locked_def release_viewer_def demand_present_def Let_def split: option.split)
    let ?a = "?s\<lparr>s_armed := remove1 t (s_armed ?s)\<rparr>"
    have eq: "?a\<lparr>s_timers := AList.delete (lt_lease t) (s_timers ?a), s_owners := AList.delete (lt_lease t) (s_owners ?a),
        s_page_warm := (if lt_reason t = page_open_warm then AList.delete (lt_session t) (s_page_warm ?a)
          else s_page_warm ?a)\<rparr> = s1\<lparr>s_armed := remove1 t (s_armed ?s)\<rparr>"
      unfolding s1_def by (rule stream_server.equality) simp_all
    have "map_of (s_timers ?a) (lt_lease t) = Some (lt_id t)" using True by (simp add: in_force_def)
    then have "lease_fires t ?s = remove_relay_viewer_locked (lt_session t) (s1\<lparr>s_armed := remove1 t (s_armed ?s)\<rparr>)"
      unfolding lease_fires_def Let_def eq [symmetric] by (rule if_P)
    also have "\<dots> = (remove_relay_viewer_locked (lt_session t) s1)\<lparr>s_armed := remove1 t (s_armed ?s)\<rparr>"
      by (rule comm)
    finally show ?thesis using disarm [OF bal1 off] by (simp add: s1_def)
  next
    case False
    then have "lease_fires t ?s = ?s\<lparr>s_armed := remove1 t (s_armed ?s)\<rparr>"
      by (simp add: lease_fires_def in_force_def Let_def)
    then show ?thesis using disarm [of ?s] bal False by simp
  qed
qed

lemma quiesced_balanced:
  assumes "balanced late g"
  shows "balanced late (g\<lparr>g_server := quiesce (g_server g)\<rparr>)"
proof -
  let ?s = "g_server g"
  have "sockets_of (g\<lparr>g_server := quiesce ?s\<rparr>) k = 0" for k
    using assms by (fastforce simp: balanced_def sockets_of_def quiesce_def filter_empty_conv)
  moreover have "leases (quiesce ?s) k = 0" "refs (quiesce ?s) k = 0" for k
    by (simp_all add: leases_def in_force_def refs_def quiesce_def)
  moreover have "registry_ok (quiesce ?s)" by (simp add: registry_ok_def quiesce_def)
  moreover have "leases_ok (quiesce ?s)" using assms by (simp add: balanced_def leases_ok_def quiesce_def)
  ultimately show ?thesis
    using assms by (fastforce simp: balanced_def weighs_def quiesce_def)
qed

text \<open>No session is named like the lease of another.\<close>

definition no_lease_names :: "string set \<Rightarrow> bool" where
  "no_lease_names names \<longleftrightarrow> (\<forall>k \<in> names. \<not> prefix (page_open_warm @ '':'') k)"

lemma plain_name:
  "no_lease_names names \<Longrightarrow> trim_space session \<noteq> [] \<Longrightarrow> trim_space session \<in> names \<Longrightarrow> plain_session (trim_space session)"
  by (simp add: no_lease_names_def plain_session_def trim_space_idem)

lemma gateway_step_balanced:
  "gateway_step late names g g' \<Longrightarrow> no_lease_names names \<Longrightarrow> balanced late g \<Longrightarrow> balanced late g'"
proof (induction rule: gateway_step.induct)
  case (admitted g c)
  then show ?case by (intro balanced_frame) (simp_all add: try_add_client_def)
next
  case (left g i)
  then show ?case by (intro balanced_frame) (simp_all add: remove_client_def)
next
  case (flag_set g b)
  then show ?case by (intro balanced_frame) simp_all
next
  case (relay_moved g r)
  then show ?case by (intro balanced_frame) simp_all
next
  case (queue_moved g q)
  then show ?case by (intro balanced_frame) simp_all
next
  case (others_moved g h o' d)
  then show ?case by (intro balanced_frame) simp_all
qed (auto intro: joined_balanced released_balanced retained_balanced page_opened_balanced page_released_balanced
    fired_balanced quiesced_balanced dest: plain_name)

lemma gateway_reach_balanced: "gateway_reach late names g \<Longrightarrow> no_lease_names names \<Longrightarrow> balanced late g"
  by (induction rule: gateway_reach.induct) (auto intro: balanced_init gateway_step_balanced)

text \<open>Whatever the names: a socket that holds a reference has a session.\<close>

definition handlers_named :: "gateway \<Rightarrow> bool" where
  "handlers_named g \<longleftrightarrow> (\<forall>h \<in> set (g_handlers g). trim_space (fst h) \<noteq> [])"

lemma gateway_step_named: "gateway_step late names g g' \<Longrightarrow> handlers_named g \<Longrightarrow> handlers_named g'"
  by (induction rule: gateway_step.induct)
    (auto simp: handlers_named_def dest: notin_set_remove1 set_mp [OF set_remove1_subset])

lemma gateway_reach_named: "gateway_reach late names g \<Longrightarrow> handlers_named g"
proof (induction rule: gateway_reach.induct)
  case init
  show ?case by (simp add: handlers_named_def gateway_init_def)
qed (rule gateway_step_named)

end
