(* ===== verification/TrCold.thy ===== *)
theory TrCold
  imports TrGateway
begin

text \<open>
  ticket-remote, the cold restart (workloads/ticket-remote/internal/web/cold_restart.go): the loop that
  follows the durable restart state, puts the flag up, takes everything down, and reports its progress
  or its failure within fifteen seconds. The state package is not part of the repository: whether a
  state blocks is a field of the value, and the start time is its parsed form.
\<close>

record cold_state =
  cs_operation :: string
  cs_phase :: string
  cs_blocks :: bool
  cs_started :: "int option"

text \<open>\<open>cd_advanced\<close> are the phases the loop asked the store for, newest first, with their operation.\<close>

record cold_loop =
  cd_state :: cold_state
  cd_quiesced :: string
  cd_had_viewers :: bool
  cd_deadline :: "int option"
  cd_advanced :: "(string \<times> string) list"

definition cold_deadline :: int where "cold_deadline = 15 * second"

definition advance :: "cold_state \<Rightarrow> string \<Rightarrow> cold_loop \<Rightarrow> cold_loop" where
  "advance v phase l = l\<lparr>cd_advanced := (cs_operation v, phase) # cd_advanced l\<rparr>"

definition everything_down :: "int \<Rightarrow> stream_server \<Rightarrow> bool" where
  "everything_down now s \<longleftrightarrow> \<not> r_desired (s_relay s) \<and> \<not> r_connected (s_relay s) \<and> r_viewers (s_relay s) = 0 \<and>
     fst (warm_start (s_direct s) now) = [] \<and> snd (warm_start (s_direct s) now) = []"

text \<open>The guard of the deadline: an expired or unreadable start ends the restart at once.\<close>

definition expired :: "int \<Rightarrow> cold_state \<Rightarrow> bool" where
  "expired now v \<longleftrightarrow> cs_blocks v \<and> cs_phase v \<noteq> ''failed'' \<and>
     (case cs_started v of None \<Rightarrow> True | Some t \<Rightarrow> cold_deadline \<le> time_sub now t)"

definition quiesce_once :: "cold_state \<Rightarrow> cold_loop \<Rightarrow> stream_server \<Rightarrow> cold_loop \<times> stream_server" where
  "quiesce_once v l s =
     (if cs_blocks v \<and> cd_quiesced l \<noteq> cs_operation v
      then (l\<lparr>cd_had_viewers := 0 < h_active_video_clients (s_direct s), cd_quiesced := cs_operation v\<rparr>, quiesce s)
      else (l, s))"

definition phase_action :: "int \<Rightarrow> cold_state \<Rightarrow> cold_loop \<Rightarrow> stream_server \<Rightarrow> cold_loop \<times> stream_server" where
  "phase_action now v l s =
     (if cs_phase v = ''quiescing'' then (advance v ''stopping'' l, s)
      else if cs_phase v = ''confirmed''
      then let s1 = quiesce s
        in (advance v (if \<not> everything_down now s1 then ''failed''
              else if cd_had_viewers l then ''reloading'' else ''asleep'') l, s1)
      else (l, s))"

definition apply_cold :: "int \<Rightarrow> cold_state \<Rightarrow> cold_loop \<Rightarrow> stream_server \<Rightarrow> cold_loop \<times> stream_server" where
  "apply_cold now v l s =
     (let l1 = l\<lparr>cd_state := v, cd_deadline := None\<rparr>; s1 = s\<lparr>s_blocked := cs_blocks v\<rparr>
      in if expired now v then (advance v ''failed'' l1, s1)
         else let l2 = (if cs_blocks v \<and> cs_phase v \<noteq> ''failed''
                        then l1\<lparr>cd_deadline := map_option (\<lambda>t. t + cold_deadline) (cs_started v)\<rparr> else l1);
                  (l3, s3) = quiesce_once v l2 s1
           in phase_action now v l3 s3)"

text \<open>The loop: an update that changes neither operation nor phase is ignored; the deadline fails it.\<close>

datatype cold_event = Updated int cold_state | Deadline

fun cold_step :: "cold_event \<Rightarrow> cold_loop \<times> stream_server \<Rightarrow> cold_loop \<times> stream_server" where
  "cold_step (Updated now v) (l, s) =
     (if cs_operation v = cs_operation (cd_state l) \<and> cs_phase v = cs_phase (cd_state l) then (l, s)
      else apply_cold now v l s)"
| "cold_step Deadline (l, s) =
     (if cd_deadline l = None then (l, s)
      else (advance (cd_state l) ''failed'' (l\<lparr>cd_deadline := None\<rparr>), s))"

section \<open>What a cold restart takes down\<close>

lemma quiesce_down: "everything_down now (quiesce s)"
  by (simp add: everything_down_def quiesce_def relay_close_def detach_connection_def cancel_loop_def
      hub_quiesce_def clear_frame_cache_def warm_start_def warm_key_frame_allowed_def Let_def split: option.split)

text \<open>Nothing is held: no reference, no lease in force, no viewer.\<close>

definition held_off :: "stream_server \<Rightarrow> bool" where
  "held_off s \<longleftrightarrow> s_refs s = [] \<and> s_timers s = [] \<and> r_viewers (s_relay s) = 0"

lemma quiesce_held_off: "held_off (quiesce s)"
  by (simp add: held_off_def quiesce_def)

text \<open>While the flag is up nothing can be held.\<close>

lemma blocked_add: "s_blocked s \<Longrightarrow> add_relay_viewer_locked k s = s"
  by (simp add: add_relay_viewer_locked_def)

lemma blocked_retain: "s_blocked s \<Longrightarrow> retain_lease l k h True r a ow s = (s, False)"
  by (simp add: retain_lease_def)

lemma blocked_retain_for_opening: "s_blocked s \<Longrightarrow> retain_for_opening k h kind ident now s = s"
  by (simp add: retain_for_opening_def blocked_retain Let_def)

lemma blocked_retain_for_page_open: "s_blocked s \<Longrightarrow> retain_for_page_open k o' now later s = s"
  by (simp add: retain_for_page_open_def Let_def)

lemma held_off_remove: "held_off s \<Longrightarrow> trim_space k \<noteq> [] \<Longrightarrow> remove_relay_viewer_locked k s = s"
  by (simp add: held_off_def remove_relay_viewer_locked_def)

lemma held_off_release: "held_off s \<Longrightarrow> release_opening_warm k ident now s = s"
  by (auto simp: held_off_def release_opening_warm_def retain_lease_def Let_def split: if_splits)

lemma held_off_fires: "held_off s \<Longrightarrow> held_off (lease_fires t s)"
  by (simp add: held_off_def lease_fires_def Let_def)

lemma held_off_step:
  assumes "gateway_step late names g g'" "s_blocked (g_server g)" "held_off (g_server g)" "handlers_named g"
  shows "held_off (g_server g')"
  using assms
proof (induction rule: gateway_step.induct)
  case (released session generation g)
  then have "trim_space session \<noteq> []" by (auto simp: handlers_named_def)
  with released show ?case
    by (simp add: remove_relay_viewer_generation_def held_off_remove)
qed (auto simp: try_add_client_def remove_client_def add_relay_viewer_def Let_def blocked_add
    blocked_retain_for_opening blocked_retain_for_page_open held_off_release held_off_def quiesce_def
    lease_fires_def)

text \<open>Steps taken while the flag stays up.\<close>

inductive held_steps :: "bool \<Rightarrow> string set \<Rightarrow> gateway \<Rightarrow> gateway \<Rightarrow> bool" for late names where
  here: "held_steps late names g g"
| there: "held_steps late names g g' \<Longrightarrow> s_blocked (g_server g') \<Longrightarrow> gateway_step late names g' g'' \<Longrightarrow> held_steps late names g g''"

lemma held_steps_off:
  "held_steps late names g g' \<Longrightarrow> held_off (g_server g) \<Longrightarrow> handlers_named g \<Longrightarrow> held_off (g_server g') \<and> handlers_named g'"
  by (induction rule: held_steps.induct) (auto intro: held_off_step gateway_step_named)

end
