(* ===== verification/TrGatewayClaims.thy ===== *)
theory TrGatewayClaims
  imports TrCold
begin

text \<open>
  ticket-remote, what the gateway promises: the phone sees one viewer for each session that holds
  something, no reference leaks, sockets stay within their limits, a restart takes everything down and
  keeps it down, callers of the writer of the desired state are answered once, and the newest update
  is the one that is written. Two runs show where the code falls short.
\<close>

section \<open>Invariants read off the balance\<close>

definition holds :: "gateway \<Rightarrow> string set" where
  "holds g = {k. 0 < leases (g_server g) k + sockets_of g k}"

lemma registry_keys: "registry_ok s \<Longrightarrow> set (map fst (s_refs s)) = {k. 0 < refs s k}"
  using registry_ok_refs [of s] by (auto simp: map_of_eq_None_iff)

lemma registry_card: "registry_ok s \<Longrightarrow> r_viewers (s_relay s) = int (card {k. 0 < refs s k})"
  using registry_keys [of s] distinct_card [of "map fst (s_refs s)"] by (simp add: registry_ok_def)

text \<open>The limits of sockets.\<close>

lemma same_identity_trans: "same_identity c d \<Longrightarrow> same_identity c e = same_identity d e"
  by (auto simp: same_identity_def equal_fold_def)

lemma same_session_trans: "same_session c d \<Longrightarrow> same_session c e = same_session d e"
  by (auto simp: same_session_def)

definition sockets_limited :: "stream_server \<Rightarrow> bool" where
  "sockets_limited s \<longleftrightarrow> length (s_clients s) \<le> max_sockets \<and>
     (\<forall>c. length (filter (same_identity c) (s_clients s)) \<le> max_sockets_per_identity) \<and>
     (\<forall>c. length (filter (same_session c) (s_clients s)) \<le> max_sockets_per_session)"

lemma class_limit:
  assumes "\<And>c d e. R c d \<Longrightarrow> R c e = R d e" "\<forall>c. length (filter (R c) xs) \<le> n" "length (filter (R x) xs) < n"
  shows "length (filter (R c) (x # xs)) \<le> n"
proof (cases "R c x")
  case True
  then have "filter (R c) xs = filter (R x) xs" using assms(1) by (intro filter_cong) auto
  with True assms(3) show ?thesis by simp
qed (use assms(2) in simp)

lemma try_add_limited: "sockets_limited s \<Longrightarrow> sockets_limited (fst (try_add_client c s))"
  unfolding sockets_limited_def try_add_client_def
  using class_limit [of same_identity "s_clients s" max_sockets_per_identity c, OF same_identity_trans]
    class_limit [of same_session "s_clients s" max_sockets_per_session c, OF same_session_trans]
  by (simp add: not_le)

lemma sockets_limited_mono:
  "sockets_limited s \<Longrightarrow> s_clients s' = filter P (s_clients s) \<Longrightarrow> sockets_limited s'"
  unfolding sockets_limited_def
  by (auto simp: filter_filter intro: order_trans [OF length_filter_le] order_trans [OF length_filter_mono])

lemma clients_kept:
  "s_clients (retain_for_opening k h kind ident now s) = s_clients s"
  "s_clients (release_opening_warm k ident now s) = s_clients s"
  "s_clients (retain_for_page_open k o' now later s) = s_clients s"
  "s_clients (lease_fires t s) = s_clients s" "s_clients (quiesce s) = s_clients s"
  "s_clients (remove_relay_viewer_generation k gen s) = s_clients s"
  by (auto simp: retain_for_opening_def release_opening_warm_def retain_for_page_open_def lease_fires_def
      quiesce_def remove_relay_viewer_generation_def retain_lease_def Let_def split: option.split)

lemma gateway_step_limited: "gateway_step late names g g' \<Longrightarrow> sockets_limited (g_server g) \<Longrightarrow> sockets_limited (g_server g')"
proof (induction rule: gateway_step.induct)
  case (admitted g c)
  then show ?case by (simp add: try_add_limited)
next
  case (left g i)
  then show ?case by (auto intro: sockets_limited_mono simp: remove_client_def)
next
  case (joined session g s' generation)
  then show ?case by (auto simp: sockets_limited_def add_relay_viewer_def Let_def)
qed (simp_all add: sockets_limited_def clients_kept)

lemma gateway_reach_limited: "gateway_reach late names g \<Longrightarrow> sockets_limited (g_server g)"
proof (induction rule: gateway_reach.induct)
  case init
  show ?case by (simp add: sockets_limited_def gateway_init_def server_init_def)
qed (rule gateway_step_limited)

text \<open>The writer's queue under the gateway's operations.\<close>

lemma announce_desired: "desired_inv (s_desired s) \<Longrightarrow> desired_inv (s_desired (announce_viewer s))"
  by (simp add: announce_viewer_def Let_def desired_inv_intros)

lemma release_desired: "desired_inv (s_desired s) \<Longrightarrow> desired_inv (s_desired (release_viewer v s))"
  by (simp add: release_viewer_def Let_def desired_inv_intros)

lemma add_desired: "desired_inv (s_desired s) \<Longrightarrow> desired_inv (s_desired (add_relay_viewer_locked k s))"
  by (simp add: add_relay_viewer_locked_def Let_def announce_desired)

lemma remove_desired: "desired_inv (s_desired s) \<Longrightarrow> desired_inv (s_desired (remove_relay_viewer_locked k s))"
  by (simp add: remove_relay_viewer_locked_def Let_def release_desired split: option.split)

lemma retain_desired [simp]: "s_desired (fst (retain_lease l k h b r a ow s)) = s_desired s"
  by (simp add: retain_lease_def Let_def split: option.split)

lemma page_desired:
  assumes "desired_inv (s_desired s)"
  shows "desired_inv (s_desired (retain_for_opening k h kind ident now s))"
    "desired_inv (s_desired (release_opening_warm k ident now s))"
    "desired_inv (s_desired (retain_for_page_open k o' now later s))"
    "desired_inv (s_desired (lease_fires t s))" "desired_inv (s_desired (quiesce s))"
  using assms retain_desired
  by (auto simp: retain_for_opening_def release_opening_warm_def retain_for_page_open_def lease_fires_def quiesce_def
      Let_def case_prod_beta intro!: add_desired remove_desired desired_inv_intros)

lemma gateway_step_desired: "gateway_step late names g g' \<Longrightarrow> desired_inv (s_desired (g_server g)) \<Longrightarrow> desired_inv (s_desired (g_server g'))"
proof (induction rule: gateway_step.induct)
  case (joined session g s' generation)
  then show ?case by (auto simp: add_relay_viewer_def Let_def intro: add_desired)
next
  case (queue_moved g q)
  then show ?case by (auto intro: desired_step_inv)
qed (auto simp: try_add_client_def remove_client_def remove_relay_viewer_generation_def intro: page_desired remove_desired)

lemma gateway_reach_desired: "gateway_reach late names g \<Longrightarrow> desired_inv (s_desired (g_server g))"
proof (induction rule: gateway_reach.induct)
  case init
  show ?case by (simp add: gateway_init_def server_init_def desired_inv_init)
qed (rule gateway_step_desired)

section \<open>A turn of the writer\<close>

text \<open>A writer that is not in the middle of a write empties the queue in one turn.\<close>

lemma turn_pending:
  assumes "desired_inv q" "q_writer q \<in> {Sleeping, Draining}" "q_pending q = Some u"
  shows "writer_takes (writer_wakes q) = q\<lparr>q_wake := (if q_writer q = Sleeping then False else q_wake q),
    q_pending := None, q_writer := Writing u\<rparr>"
  using assms by (auto simp: desired_inv_def wake_ok_def writer_wakes_def writer_takes_def)

lemma turn_idle:
  assumes "q_writer q \<in> {Sleeping, Draining}" "q_pending q = None"
  shows "\<exists>b. writer_turn blocked demand answer q = q\<lparr>q_wake := b, q_writer := Sleeping\<rparr>"
proof -
  have "writer_takes (writer_wakes q) = q\<lparr>q_wake := (if q_writer q = Sleeping then False else q_wake q), q_writer := Sleeping\<rparr>"
    using assms by (auto simp: writer_wakes_def writer_takes_def intro!: desired.equality)
  moreover have "writer_takes (writer_writes blocked demand answer (q\<lparr>q_wake := b, q_writer := Sleeping\<rparr>)) =
      q\<lparr>q_wake := b, q_writer := Sleeping\<rparr>" for b
    by (simp add: writer_writes_def writer_takes_def)
  ultimately have "writer_turn blocked demand answer q =
      q\<lparr>q_wake := (if q_writer q = Sleeping then False else q_wake q), q_writer := Sleeping\<rparr>"
    by (simp only: writer_turn_def)
  then show ?thesis by blast
qed

lemma turn_written:
  assumes "desired_inv q" "q_writer q \<in> {Sleeping, Draining}" "q_pending q = Some u" "u_active u = demand"
  shows "\<exists>u'. q_written (writer_turn False demand None q) = u' # q_written q \<and> u_active u' = u_active u \<and>
      u_viewers u' = (if u_viewers u < 0 then 0 else u_viewers u) \<and>
      (\<forall>c. u_result u = Some c \<longrightarrow> (c, True, None) \<in> set (q_answers (writer_turn False demand None q)))"
  using assms(4) unfolding writer_turn_def turn_pending [OF assms(1-3)]
  by (auto simp: writer_writes_def publish_desired_def writer_takes_def complete_desired_def split: option.split)

lemma turn_answers_all:
  assumes q: "desired_inv q" "q_writer q \<in> {Sleeping, Draining}" and c: "c < q_channels q"
  shows "answered c (writer_turn blocked demand answer q) = 1 \<and> q_pending (writer_turn blocked demand answer q) = None"
proof -
  let ?q = "writer_turn blocked demand answer q"
  have "desired_inv ?q" using q(1) by (simp add: writer_turn_def desired_inv_intros)
  moreover have "q_channels ?q = q_channels q \<and> q_pending ?q = None \<and> writer_update (q_writer ?q) = None"
  proof (cases "q_pending q")
    case None
    then obtain b where "?q = q\<lparr>q_wake := b, q_writer := Sleeping\<rparr>" using turn_idle [OF q(2)] by blast
    with None show ?thesis by (simp add: writer_update_def)
  next
    case (Some u)
    show ?thesis
      unfolding writer_turn_def turn_pending [OF q Some]
      by (simp add: writer_writes_Writing writer_takes_def writer_update_def)
  qed
  ultimately have "owners c ?q = 1" "q_pending ?q = None" "writer_update (q_writer ?q) = None"
    using c by (simp_all add: desired_inv_def)
  then show ?thesis by (simp add: owners_def update_owns_def superseded_result_def)
qed

section \<open>Properties\<close>

text \<open>
  C17. The phone relay counts exactly the sessions that hold something: an open video socket of the
  present generation or a lease in force. This holds in every state the sockets, pages, timers, the
  writer and cold restarts can reach, as long as no socket opens while a restart holds the flag and no
  session is named like the lease of another, as only a cookie the server did not make can be.
\<close>

theorem viewers_exact:
  assumes "gateway_reach False names g" "\<forall>k \<in> names. \<not> prefix (page_open_warm @ '':'') k"
  shows "r_viewers (s_relay (g_server g)) = int (card (holds g))"
proof -
  have bal: "balanced False g" using gateway_reach_balanced [OF assms(1)] assms(2) by (simp add: no_lease_names_def)
  then have "holds g = {k. 0 < refs (g_server g) k}" by (simp add: holds_def balanced_def weighs_def)
  with bal show ?thesis using registry_card [of "g_server g"] by (simp add: balanced_def)
qed

text \<open>
  C20. With sockets opening during a restart too, no reference leaks, as long as no session is named like
  the lease of another: a session never has more references than it has open sockets and leases in
  force, so when nothing is held the relay has no viewer and the registry is empty.
\<close>

theorem no_viewer_leak:
  assumes "gateway_reach late names g" "\<forall>k \<in> names. \<not> prefix (page_open_warm @ '':'') k"
  shows "refs (g_server g) k \<le> leases (g_server g) k + sockets_of g k \<and>
    r_viewers (s_relay (g_server g)) = int (card {k. 0 < refs (g_server g) k}) \<and>
    (holds g = {} \<longrightarrow> r_viewers (s_relay (g_server g)) = 0 \<and> s_refs (g_server g) = [])"
proof -
  have bal: "balanced late g" using gateway_reach_balanced [OF assms(1)] assms(2) by (simp add: no_lease_names_def)
  have le: "refs (g_server g) k \<le> leases (g_server g) k + sockets_of g k" for k
    using bal by (cases late) (simp_all add: balanced_def weighs_def)
  have card: "r_viewers (s_relay (g_server g)) = int (card {k. 0 < refs (g_server g) k})"
    using bal registry_card by (simp add: balanced_def)
  have "r_viewers (s_relay (g_server g)) = 0 \<and> s_refs (g_server g) = []" if "holds g = {}"
  proof -
    have "refs (g_server g) k = 0" for k using le [of k] that by (simp add: holds_def)
    with card bal show ?thesis by (simp add: balanced_def registry_ok_def)
  qed
  with le card show ?thesis by simp
qed

text \<open>
  No more than 64 sockets are open at a time, no more than eight of one identity and four of one
  session, whatever the order in which sockets come and go.
\<close>

theorem socket_limits:
  assumes "gateway_reach late names g"
  shows "length (s_clients (g_server g)) \<le> 64 \<and>
    length (filter (same_identity c) (s_clients (g_server g))) \<le> 8 \<and>
    length (filter (same_session c) (s_clients (g_server g))) \<le> 4"
  using gateway_reach_limited [OF assms]
  by (simp add: sockets_limited_def max_sockets_def max_sockets_per_identity_def max_sockets_per_session_def)

text \<open>
  C30. A caller that waits for its update of the desired state is answered exactly once: its channel has
  one owner, the queue, the writer or the answer already sent, and one turn of the writer answers every
  channel that was made. A superseded, withdrawn or refused update answers too.
\<close>

theorem callers_answered_once:
  assumes "gateway_reach late names g" "c < q_channels (s_desired (g_server g))"
  shows "answered c (s_desired (g_server g)) \<le> 1 \<and>
    (q_writer (s_desired (g_server g)) \<in> {Sleeping, Draining} \<longrightarrow>
      answered c (writer_turn blocked demand answer (s_desired (g_server g))) = 1)"
proof -
  have q: "desired_inv (s_desired (g_server g))" by (rule gateway_reach_desired [OF assms(1)])
  then have "owners c (s_desired (g_server g)) = 1" using assms(2) by (simp add: desired_inv_def)
  then have "answered c (s_desired (g_server g)) \<le> 1" by (simp add: owners_def)
  with turn_answers_all [OF q _ assms(2)] show ?thesis by blast
qed

text \<open>
  C33. When the grace after the last viewer has passed and nobody has come back, the timer's release is
  queued and the writer's next turn tells the store that the stream is off, with no viewer, and tells
  the waiting caller that it was written; a timer that a new viewer outdated changes nothing.
\<close>

theorem idle_stream_released:
  assumes "gateway_reach late names g" "q = s_desired (g_server g)" "\<not> q_closed q" "q_writer q \<in> {Sleeping, Draining}"
  shows "(let q' = writer_turn False False None (fst (idle_release_fires False False reason (q_release_seq q) q))
      in (\<exists>u. q_written q' = u # q_written q \<and> \<not> u_active u \<and> u_viewers u = 0) \<and>
         (q_channels q, True, None) \<in> set (q_answers q')) \<and>
    (seq \<noteq> q_release_seq q \<longrightarrow> idle_release_fires blocked demand reason seq q = (q, None))"
proof -
  let ?q1 = "fst (idle_release_fires False False reason (q_release_seq q) q)"
  have q: "desired_inv q" using gateway_reach_desired [OF assms(1)] assms(2) by simp
  obtain u where u: "q_pending ?q1 = Some u" "\<not> u_active u" "u_viewers u = 0" "u_result u = Some (q_channels q)"
      "q_writer ?q1 = q_writer q" "q_written ?q1 = q_written q"
    using assms(3) by (auto simp: idle_release_fires_def release_if_idle_def enqueue_desired_def Let_def)
  have "desired_inv ?q1" using q by (rule idle_fires_inv)
  from turn_written [OF this _ u(1)] u assms(4)
  have "let q' = writer_turn False False None ?q1
    in (\<exists>u. q_written q' = u # q_written q \<and> \<not> u_active u \<and> u_viewers u = 0) \<and>
       (q_channels q, True, None) \<in> set (q_answers q')"
    by (auto simp: Let_def)
  then show ?thesis by (simp add: idle_release_fires_def)
qed

section \<open>Cold restarts\<close>

lemma apply_cold_reach:
  assumes reach: "gateway_reach late names g" and run: "apply_cold now v l (g_server g) = (l', s')"
  shows "gateway_reach late names (g\<lparr>g_server := s'\<rparr>)"
proof -
  let ?g1 = "g\<lparr>g_server := (g_server g)\<lparr>s_blocked := cs_blocks v\<rparr>\<rparr>"
  have 1: "gateway_reach late names ?g1" by (rule gateway_reach.step [OF reach flag_set])
  have q: "gateway_reach late names (g\<lparr>g_server := quiesce s\<rparr>)" if "gateway_reach late names (g\<lparr>g_server := s\<rparr>)" for s
    using gateway_reach.step [OF that quiesced] by simp
  have "s' \<in> {(g_server g)\<lparr>s_blocked := cs_blocks v\<rparr>, quiesce ((g_server g)\<lparr>s_blocked := cs_blocks v\<rparr>),
      quiesce (quiesce ((g_server g)\<lparr>s_blocked := cs_blocks v\<rparr>))}"
    using run by (auto simp: apply_cold_def quiesce_once_def phase_action_def Let_def split: if_splits)
  then show ?thesis using 1 q by auto
qed

lemma apply_cold_quiesced:
  assumes "apply_cold now v l s = (l', s')" "cs_blocks v" "\<not> expired now v"
    and "cd_quiesced l \<noteq> cs_operation v \<or> cs_phase v = ''confirmed''"
  shows "held_off s'"
proof -
  have "\<exists>s0. s' = quiesce s0"
    using assms by (auto simp: apply_cold_def quiesce_once_def phase_action_def Let_def split: if_splits)
  then show ?thesis using quiesce_held_off by blast
qed

text \<open>
  C27. A cold restart takes every hold down and keeps it down: once its update has been applied, and for
  as long as the flag stays up, no socket, page, timer or late release gives the relay a viewer, a session
  a reference, or a lease its force.
\<close>

theorem restart_holds_everyone_off:
  assumes "gateway_reach late names g" "apply_cold now v l (g_server g) = (l', s')"
    and "cs_blocks v" "\<not> expired now v" "cd_quiesced l \<noteq> cs_operation v"
    and "held_steps late names (g\<lparr>g_server := s'\<rparr>) g'"
  shows "r_viewers (s_relay (g_server g')) = 0 \<and> s_refs (g_server g') = [] \<and> leases (g_server g') k = 0"
proof -
  have "held_off s'" using apply_cold_quiesced [OF assms(2-4)] assms(5) by blast
  moreover have "handlers_named (g\<lparr>g_server := s'\<rparr>)"
    using gateway_reach_named [OF apply_cold_reach [OF assms(1,2)]] .
  ultimately have "held_off (g_server g')" using held_steps_off [OF assms(6)] by simp
  then show ?thesis by (simp add: held_off_def leases_def in_force_def)
qed

text \<open>
  The confirmed phase always completes: whatever the gateway holds when the phone confirms, the loop
  finds everything down and asks for a reload if somebody watched and for sleep otherwise, never for
  failure; after the deadline, or without a readable start, it asks for failure.
\<close>

theorem restart_confirms:
  assumes "cs_phase v = ''confirmed''" "apply_cold now v l s = (l', s')"
  shows "hd (cd_advanced l') = (cs_operation v,
      if expired now v then ''failed''
      else if (if cs_blocks v \<and> cd_quiesced l \<noteq> cs_operation v then 0 < h_active_video_clients (s_direct s)
               else cd_had_viewers l) then ''reloading'' else ''asleep'') \<and>
    length (cd_advanced l') = length (cd_advanced l) + 1"
  using assms quiesce_down
  by (auto simp: apply_cold_def quiesce_once_def phase_action_def advance_def Let_def split: if_splits)

end
