(* ===== verification/TrGatewayRuns.thy ===== *)
theory TrGatewayRuns
  imports TrGatewayClaims
begin

text \<open>
  ticket-remote, runs of the gateway: the witnesses of its properties, and three runs in which the code
  does not do what it means to. A socket that opens during a restart gives back a reference it never
  took; a session named like the lease of another makes that one's reference permanent; an update that
  is skipped is reported as written.
\<close>

section \<open>A watched stream\<close>

definition watched :: gateway where
  "watched = \<lparr>g_server = fst (add_relay_viewer ''a'' server_init), g_handlers = [(''a'', 0)]\<rparr>"

text \<open>The only session of these runs is called a.\<close>

lemma session_a: "trim_space ''a'' = ''a''" "trim_space ''a'' \<noteq> []" "trim_space ''a'' \<in> {''a''}"
  by code_simp+

lemma not_a_lease: "\<forall>k \<in> {''a''}. \<not> prefix (page_open_warm @ '':'') k"
  by code_simp

lemma init_open [simp]: "\<not> s_blocked server_init" "s_generation server_init = 0"
  by (simp_all add: server_init_def)

lemma add_pair: "add_relay_viewer k s = (fst (add_relay_viewer k s), s_generation s)"
  by (simp add: add_relay_viewer_def Let_def)

lemma watched_reach: "gateway_reach late {''a''} watched"
proof -
  have "gateway_step late {''a''} gateway_init \<lparr>g_server = fst (add_relay_viewer ''a'' server_init),
      g_handlers = (''a'', s_generation server_init) # g_handlers gateway_init\<rparr>"
  proof (rule joined [OF session_a(2,3)])
    show "late \<or> \<not> s_blocked (g_server gateway_init)" by (simp add: gateway_init_def)
    show "add_relay_viewer ''a'' (g_server gateway_init) = (fst (add_relay_viewer ''a'' server_init), s_generation server_init)"
      unfolding gateway_init_def gateway.simps by (rule add_pair)
  qed
  then show ?thesis
    using gateway_reach.step [OF gateway_reach.init] by (simp add: watched_def gateway_init_def)
qed

lemma watched_server:
  "g_server watched = announce_viewer (server_init\<lparr>s_refs := [(''a'', 1)]\<rparr>)"
proof -
  have "trim_space ''a'' = ''a''" by code_simp
  then show ?thesis
    by (simp add: watched_def add_relay_viewer_def add_relay_viewer_locked_def refs_def Let_def) (simp add: server_init_def)
qed

theorem viewers_exact_witness: "r_viewers (s_relay (g_server watched)) = 1 \<and> card (holds watched) = 1"
proof -
  have "r_viewers (s_relay (g_server watched)) = 1"
    by (simp add: watched_server server_init_def relay_init_def)
  with viewers_exact [OF watched_reach not_a_lease] show ?thesis by simp
qed

theorem no_viewer_leak_witness: "refs (g_server watched) ''a'' \<le> leases (g_server watched) ''a'' + sockets_of watched ''a''"
  using no_viewer_leak [OF watched_reach [where late = True] not_a_lease, of "''a''"] by simp

theorem socket_limits_witness: "length (s_clients (g_server watched)) \<le> 64"
  using socket_limits [OF watched_reach [where late = True], of undefined] by simp

section \<open>An idle stream\<close>

definition released_gateway :: gateway where
  "released_gateway = \<lparr>g_server = remove_relay_viewer_generation ''a'' 0 (g_server watched), g_handlers = []\<rparr>"

lemma released_reach: "gateway_reach late {''a''} released_gateway"
proof -
  have "gateway_step late {''a''} watched \<lparr>g_server = remove_relay_viewer_generation ''a'' 0 (g_server watched),
      g_handlers = remove1 (''a'', 0) (g_handlers watched)\<rparr>"
    by (rule released) (simp add: watched_def)
  then show ?thesis using gateway_reach.step [OF watched_reach] by (simp add: released_gateway_def watched_def)
qed

lemma queue_kept:
  "q_writer (publish_desired_async b ac v r src q) = q_writer q"
  "q_closed (publish_desired_async b ac v r src q) = q_closed q"
  "q_writer (publish_report_async r q) = q_writer q" "q_closed (publish_report_async r q) = q_closed q"
  "q_writer (cancel_idle_release q) = q_writer q" "q_closed (cancel_idle_release q) = q_closed q"
  "q_writer (schedule_idle_release b d q) = q_writer q" "q_closed (schedule_idle_release b d q) = q_closed q"
  by (simp_all add: publish_desired_async_def enqueue_desired_def publish_report_async_def cancel_idle_release_def
      schedule_idle_release_def Let_def)

lemma released_queue:
  "\<not> q_closed (s_desired (g_server released_gateway))" "q_writer (s_desired (g_server released_gateway)) = Sleeping"
  by (simp_all add: released_gateway_def remove_relay_viewer_generation_def remove_relay_viewer_locked_def
      watched_server release_viewer_def announce_viewer_def queue_kept Let_def server_init_def desired_init_def
      split: option.split)

theorem idle_stream_released_witness:
  "let q = s_desired (g_server released_gateway);
       q' = writer_turn False False None (fst (idle_release_fires False False ''idle'' (q_release_seq q) q))
   in \<exists>u. q_written q' = u # q_written q \<and> \<not> u_active u \<and> u_viewers u = 0"
  using idle_stream_released [OF released_reach [where late = True] HOL.refl released_queue(1), of "''idle''" 0 False False]
  by (simp add: released_queue(2) Let_def)

text \<open>The grace has passed: a caller waits for the release.\<close>

definition waiting :: gateway where
  "waiting = released_gateway\<lparr>g_server := (g_server released_gateway)\<lparr>s_desired :=
     fst (idle_release_fires (s_blocked (g_server released_gateway)) (demand_present (g_server released_gateway)) ''idle''
       (q_release_seq (s_desired (g_server released_gateway))) (s_desired (g_server released_gateway)))\<rparr>\<rparr>"

lemma waiting_reach: "gateway_reach late {''a''} waiting"
  unfolding waiting_def by (rule gateway_reach.step [OF released_reach]) (rule queue_moved, rule release_fired)

lemma no_demand: "\<not> demand_present (g_server released_gateway)"
proof -
  have "trim_space ''a'' = ''a''" by code_simp
  then show ?thesis
    by (simp add: demand_present_def released_gateway_def remove_relay_viewer_generation_def
        remove_relay_viewer_locked_def watched_server release_viewer_def announce_viewer_def Let_def server_init_def
        relay_init_def hub_init_def)
qed

lemma waiting_channels: "0 < q_channels (s_desired (g_server waiting))"
  by (simp add: waiting_def no_demand idle_release_fires_def release_if_idle_def Let_def case_prod_beta)

theorem callers_answered_once_witness: "answered 0 (s_desired (g_server waiting)) \<le> 1"
  using callers_answered_once [OF waiting_reach [where late = True] waiting_channels] by simp

section \<open>A restart\<close>

definition restart :: cold_state where
  "restart = \<lparr>cs_operation = ''op'', cs_phase = ''quiescing'', cs_blocks = True, cs_started = Some second\<rparr>"

definition cold_init :: cold_loop where
  "cold_init = \<lparr>cd_state = restart\<lparr>cs_phase := [], cs_operation := []\<rparr>, cd_quiesced = [], cd_had_viewers = False,
     cd_deadline = None, cd_advanced = []\<rparr>"

lemma restart_current: "\<not> expired (2 * second) restart" "\<not> expired (2 * second) (restart\<lparr>cs_phase := ''confirmed''\<rparr>)"
  by code_simp+

theorem restart_holds_everyone_off_witness:
  "r_viewers (s_relay (g_server watched)) = 1 \<and>
   r_viewers (s_relay (snd (apply_cold (2 * second) restart cold_init (g_server watched)))) = 0"
proof -
  have "apply_cold (2 * second) restart cold_init (g_server watched) =
      (fst (apply_cold (2 * second) restart cold_init (g_server watched)),
       snd (apply_cold (2 * second) restart cold_init (g_server watched)))" by simp
  from restart_holds_everyone_off [OF watched_reach [where late = True] this _ restart_current(1) _ here]
  show ?thesis by (simp add: restart_def cold_init_def watched_server server_init_def relay_init_def)
qed

theorem restart_confirms_witness:
  "hd (cd_advanced (fst (apply_cold (2 * second) (restart\<lparr>cs_phase := ''confirmed''\<rparr>) cold_init (g_server watched)))) =
     (''op'', ''asleep'')"
proof -
  let ?r = "apply_cold (2 * second) (restart\<lparr>cs_phase := ''confirmed''\<rparr>) cold_init (g_server watched)"
  have "?r = (fst ?r, snd ?r)" by simp
  from restart_confirms [OF _ this] restart_current(2) show ?thesis
    by (simp add: restart_def cold_init_def watched_server announce_viewer_def server_init_def hub_init_def Let_def)
qed

section \<open>Where the code falls short\<close>

text \<open>
  A socket that opens while the flag is up takes no reference but is given the present generation;
  when it closes after the flag is down again it gives back the reference of another socket of its
  session. One socket is then open that the relay does not count.
\<close>

theorem late_socket_loses_viewer:
  "\<exists>g. gateway_reach True {''a''} g \<and> sockets_of g ''a'' = 1 \<and> refs (g_server g) ''a'' = 0 \<and>
     r_viewers (s_relay (g_server g)) = 0"
proof -
  let ?up = "gateway_init\<lparr>g_server := server_init\<lparr>s_blocked := True\<rparr>\<rparr>"
  let ?late = "\<lparr>g_server = server_init\<lparr>s_blocked := True\<rparr>, g_handlers = [(''a'', 0)]\<rparr>"
  let ?down = "\<lparr>g_server = server_init\<lparr>s_blocked := False\<rparr>, g_handlers = [(''a'', 0)]\<rparr>"
  have "gateway_reach True {''a''} ?up"
    using gateway_reach.step [OF gateway_reach.init flag_set, of True "{''a''}" True] by (simp add: gateway_init_def)
  moreover have "gateway_step True {''a''} ?up ?late"
    using joined [OF session_a(2,3), of True ?up "server_init\<lparr>s_blocked := True\<rparr>" 0]
    by (simp add: add_relay_viewer_def blocked_add gateway_init_def)
  ultimately have "gateway_reach True {''a''} ?late" by (rule gateway_reach.step)
  moreover have "gateway_step True {''a''} ?late ?down"
    using flag_set [of True "{''a''}" ?late False] by simp
  ultimately have "gateway_reach True {''a''} ?down" by (rule gateway_reach.step)
  moreover have down: "server_init\<lparr>s_blocked := False\<rparr> = server_init" by (simp add: server_init_def)
  ultimately have "gateway_reach True {''a''} \<lparr>g_server = server_init, g_handlers = [(''a'', 0)]\<rparr>" by simp
  from gateway_reach.step [OF this joined [OF session_a(2,3) _ add_pair]]
  have "gateway_reach True {''a''} (watched\<lparr>g_handlers := [(''a'', 0), (''a'', 0)]\<rparr>)"
    by (simp add: watched_def)
  from gateway_reach.step [OF this released [of "''a''" 0]]
  have "gateway_reach True {''a''} (released_gateway\<lparr>g_handlers := [(''a'', 0)]\<rparr>)"
    by (simp add: released_gateway_def watched_def)
  moreover have "trim_space ''a'' = ''a''" by code_simp
  moreover have "refs (g_server released_gateway) ''a'' = 0" "r_viewers (s_relay (g_server released_gateway)) = 0"
      "s_generation (g_server released_gateway) = 0"
    using calculation(2)
    by (simp_all add: released_gateway_def remove_relay_viewer_generation_def remove_relay_viewer_locked_def
        watched_server Let_def refs_def) (simp_all add: server_init_def relay_init_def)
  ultimately show ?thesis by (intro exI [of _ "released_gateway\<lparr>g_handlers := [(''a'', 0)]\<rparr>"]) (simp add: sockets_of_def)
qed

text \<open>
  A session is a cookie value. One that is spelt like the lease of an open page takes over its timer
  without taking its reference along: when all timers have run, the page's reference is still there,
  nothing will ever give it back, and the phone is kept awake.
\<close>

lemma collision_texts:
  "trim_space ''x'' = ''x''" "trim_space (warm_lease ''x'') = warm_lease ''x''"
  "clean_stream_control_text page_open_warm ''prewarm'' = page_open_warm"
  "clean_stream_control_text ''prewarm'' ''prewarm'' = ''prewarm''"
  by code_simp+

lemma collision_guard: "opening_guard [] (warm_lease ''x'') now (s\<lparr>s_opening := no_opening\<rparr>)"
  using collision_texts(2)
  by (simp add: opening_guard_def no_opening_for_session_def safe_runtime_trace_id_def opening_active_for_session_def
      no_opening_def)

definition page_timer :: lease_timer where
  "page_timer = \<lparr>lt_id = 0, lt_lease = warm_lease ''x'', lt_session = ''x'', lt_reason = page_open_warm,
     lt_hold = page_open_warm_hold\<rparr>"

definition other_timer :: lease_timer where
  "other_timer = \<lparr>lt_id = 1, lt_lease = warm_lease ''x'', lt_session = warm_lease ''x'', lt_reason = ''prewarm'',
     lt_hold = second\<rparr>"

definition page_held :: stream_server where
  "page_held = announce_viewer (server_init\<lparr>s_refs := [(''x'', 1)], s_timers := [(warm_lease ''x'', 0)],
     s_owners := [(warm_lease ''x'', [])], s_armed := [page_timer], s_next_timer := 1,
     s_page_warm := [(''x'', second + page_open_warm_hold)]\<rparr>)"

lemma page_held_run: "retain_for_page_open ''x'' second second second server_init = page_held"
proof -
  have hold: "time_sub (second + page_open_warm_hold) second = page_open_warm_hold" by code_simp
  have pos: "0 < page_open_warm_hold" "second \<noteq> zero_time" "zero_time < second + page_open_warm_hold" by code_simp+
  show ?thesis
    using pos unfolding retain_for_page_open_def retain_lease_def add_relay_viewer_locked_def Let_def hold
      warm_lease_def [symmetric] collision_texts
    by (simp add: refs_def page_held_def server_init_def page_timer_def)
qed

definition taken_over :: stream_server where
  "taken_over = page_held\<lparr>s_timers := [(warm_lease ''x'', 1)], s_armed := [other_timer, page_timer], s_next_timer := 2\<rparr>"

lemma page_held_fields [simp]:
  "s_timers page_held = [(warm_lease ''x'', 0)]" "s_owners page_held = [(warm_lease ''x'', [])]"
  "s_armed page_held = [page_timer]" "s_next_timer page_held = 1" "s_refs page_held = [(''x'', 1)]"
  "\<not> s_blocked page_held" "s_opening page_held = no_opening" "r_viewers (s_relay page_held) = 1"
  by (simp_all add: page_held_def) (simp_all add: server_init_def relay_init_def)

lemma taken_over_run: "retain_for_opening (warm_lease ''x'') second ''prewarm'' [] now page_held = taken_over"
proof -
  have guard: "opening_guard [] (warm_lease ''x'') now page_held"
    using collision_guard [of now page_held] by (simp add: opening_guard_def)
  have "retain_lease (warm_lease ''x'') (warm_lease ''x'') second True ''prewarm'' False [] page_held =
      (page_held\<lparr>s_armed := [other_timer, page_timer], s_next_timer := 2, s_timers := [(warm_lease ''x'', 1)],
         s_owners := [(warm_lease ''x'', [])]\<rparr>, False)"
    by (simp add: retain_lease_def Let_def collision_texts other_timer_def second_def)
  also have "page_held\<lparr>s_armed := [other_timer, page_timer], s_next_timer := 2, s_timers := [(warm_lease ''x'', 1)],
      s_owners := [(warm_lease ''x'', [])]\<rparr> = taken_over"
    unfolding taken_over_def by (rule stream_server.equality) simp_all
  finally show ?thesis
    using guard by (simp add: retain_for_opening_def Let_def collision_texts second_def)
qed

theorem lease_name_collision:
  "let s = retain_for_opening (warm_lease ''x'') second ''prewarm'' [] now
         (retain_for_page_open ''x'' second second second server_init);
       s' = lease_fires other_timer (lease_fires page_timer s)
   in s_armed s' = [] \<and> s_timers s' = [] \<and> refs s' ''x'' = 1 \<and> r_viewers (s_relay s') = 1"
proof -
  have "''x'' \<noteq> warm_lease ''x''" by (simp add: warm_lease_def page_open_warm_def)
  then have "lease_fires other_timer (lease_fires page_timer taken_over) =
      taken_over\<lparr>s_armed := [], s_timers := [], s_owners := []\<rparr>"
    by (simp add: lease_fires_def taken_over_def page_timer_def other_timer_def Let_def
        remove_relay_viewer_locked_def collision_texts page_open_warm_def AList.delete_eq)
  then show ?thesis
    by (simp add: page_held_run taken_over_run Let_def refs_def) (simp add: taken_over_def)
qed

text \<open>
  A write that no longer matches the demand is skipped, and its caller is told that it was written.
\<close>

theorem skipped_write_reported:
  assumes "desired_inv q" "q_writer q \<in> {Sleeping, Draining}" "q_pending q = Some u"
    and "u_result u = Some c" "u_active u \<noteq> demand"
  shows "q_written (writer_turn False demand answer q) = q_written q \<and>
    (c, True, None) \<in> set (q_answers (writer_turn False demand answer q))"
  using assms(4,5) unfolding writer_turn_def turn_pending [OF assms(1-3)]
  by (simp add: writer_writes_def publish_desired_def writer_takes_def complete_desired_def)

end
