(* ===== verification/TbTypes.thy ===== *)
theory TbTypes
  imports GoText
begin

text \<open>
  train-bot, the data of reports and incidents
  (workloads/train-bot/internal/domain/types.go, domain/incidents.go). An instant is nanoseconds since
  the Unix epoch, a coordinate a 64-bit float, a pointer an option. Enumerations are the strings the
  code gives them.
\<close>

record report_event =
  re_id :: string
  re_train :: string
  re_user :: int
  re_signal :: string
  re_at :: int

record sighting =
  ss_id :: string
  ss_station :: string
  ss_station_name :: string
  ss_dest :: "string option"
  ss_dest_name :: string
  ss_train :: "string option"
  ss_user :: int
  ss_at :: int

record location_report =
  lr_id :: string
  lr_scope :: string
  lr_subject :: string
  lr_subject_name :: string
  lr_lat :: "f64 option"
  lr_lng :: "f64 option"
  lr_radius :: int
  lr_desc :: string
  lr_user :: int
  lr_at :: int

record incident_vote =
  iv_incident :: string
  iv_user :: int
  iv_nickname :: string
  iv_value :: string
  iv_created :: int
  iv_updated :: int

record vote_event =
  ve_id :: string
  ve_incident :: string
  ve_user :: int
  ve_nickname :: string
  ve_value :: string
  ve_at :: int

record comment =
  cm_id :: string
  cm_incident :: string
  cm_user :: int
  cm_nickname :: string
  cm_body :: string
  cm_at :: int

record train =
  tn_from :: string
  tn_to :: string

record train_stop =
  st_station :: string
  st_name :: string
  st_arrival :: "int option"
  st_departure :: "int option"

definition signal_started :: string where "signal_started = ''INSPECTION_STARTED''"
definition signal_in_car :: string where "signal_in_car = ''INSPECTION_IN_MY_CAR''"
definition signal_ended :: string where "signal_ended = ''INSPECTION_ENDED''"
definition vote_ongoing :: string where "vote_ongoing = ''ONGOING''"
definition vote_cleared :: string where "vote_cleared = ''CLEARED''"

text \<open>
  \<open>strings.ToUpper\<close>, for the comparison with the constants above: ASCII letters, and the two other
  characters whose upper case is an ASCII letter (U+0131 and U+017F).
\<close>

definition upper_char :: "char \<Rightarrow> char" where
  "upper_char c = (if CHR ''a'' \<le> c \<and> c \<le> CHR ''z'' then char_of (of_char c - 32 :: nat) else c)"

fun to_upper :: "string \<Rightarrow> string" where
  "to_upper (a # b # s) =
     (if a = CHR 0xC4 \<and> b = CHR 0xB1 then CHR ''I'' # to_upper s
      else if a = CHR 0xC5 \<and> b = CHR 0xBF then CHR ''S'' # to_upper s
      else upper_char a # to_upper (b # s))"
| "to_upper [a] = [upper_char a]"
| "to_upper [] = []"

declare to_upper.simps [simp del]

definition parse_signal :: "string \<Rightarrow> string option" where
  "parse_signal raw =
     (let s = to_upper (trim_space raw) in
      if s = signal_started then Some signal_started
      else if s = signal_in_car then Some signal_in_car
      else if s = signal_ended then Some signal_ended else None)"

definition parse_incident_vote_value :: "string \<Rightarrow> string option" where
  "parse_incident_vote_value raw =
     (let s = to_upper (trim_space raw) in
      if s = vote_ongoing then Some vote_ongoing else if s = vote_cleared then Some vote_cleared else None)"

text \<open>\<open>AreaIncidentID\<close> and \<open>GenericNickname\<close>, which hash their argument.\<close>

definition area_incident_id :: "string \<Rightarrow> string \<Rightarrow> string" where
  "area_incident_id subject day =
     ''area:pub-'' @ hex_digits 8 (unat (fnv32a (trim_space subject @ ''|'' @ trim_space day)))"

definition adjectives :: "string list" where
  "adjectives = [''Amber'', ''Cedar'', ''Silver'', ''North'', ''Swift'', ''Mellow'', ''Harbor'', ''Forest'',
     ''Granite'', ''Quiet'', ''Bright'', ''Saffron'', ''Willow'', ''Copper'', ''River'', ''Cloud'']"

definition nouns :: "string list" where
  "nouns = [''Scout'', ''Rider'', ''Signal'', ''Beacon'', ''Traveler'', ''Watcher'', ''Harbor'', ''Comet'',
     ''Falcon'', ''Lantern'', ''Pioneer'', ''Courier'', ''Voyager'', ''Pilot'', ''Atlas'', ''Drifter'']"

definition generic_nickname :: "int \<Rightarrow> string" where
  "generic_nickname user =
     (let h = fnv32a (''train:'' @ dec user)
      in adjectives ! (unat h mod 16) @ '' '' @ nouns ! (unat (drop_bit 8 h) mod 16) @ '' '' @
         dec (int (unat h mod 900) + 100))"

end
