(* ===== verification/TbStore.thy ===== *)
theory TbStore
  imports TbTypes
begin

text \<open>
  train-bot, the mutations of the SQLite store (workloads/train-bot/internal/store/sqlite.go) that
  report, vote and comment, and the queries that read them back. A table is the list of its rows in
  the order of insertion; a query is the selection its SQL describes, newest first, where equal
  times keep the order of insertion. Times are stored as RFC 3339 text, that is, cut to whole
  seconds. The mutex and the transaction make a mutation one step, and any of its statements may
  fail: \<open>db\<close> gives the error of a statement, by its name, and a failed transaction leaves the tables
  as they were.
\<close>

section \<open>Tables\<close>

record tables =
  t_reports :: "report_event list"
  t_sightings :: "sighting list"
  t_locations :: "location_report list"
  t_votes :: "incident_vote list"
  t_vote_events :: "vote_event list"
  t_comments :: "comment list"

definition no_tables :: tables where
  "no_tables = \<lparr>t_reports = [], t_sightings = [], t_locations = [], t_votes = [], t_vote_events = [],
     t_comments = []\<rparr>"

type_synonym sql = "string \<Rightarrow> string option"

datatype rejection =
    ReportDuplicate | ReportCooldown | ReportActionLimit | VoteCooldown | VoteActionLimit
  | CommentActionLimit | IncidentCommentLimit

datatype store_error = DbError string | Rejected rejection int

record report_policy =
  rp_cooldown :: int
  rp_dedupe :: int
  rp_window :: int
  rp_limit :: int

record vote_policy =
  vp_change :: int
  vp_window :: int
  vp_limit :: int

record comment_policy =
  cp_window :: int
  cp_limit :: int
  cp_incident_limit :: int

definition sec :: "int \<Rightarrow> int" where
  "sec t = t div 1000000000 * 1000000000"

definition newest_first :: "('a \<Rightarrow> int) \<Rightarrow> 'a list \<Rightarrow> 'a list" where
  "newest_first at_of rows = sort_by (\<lambda>a b. at_of b < at_of a) rows"

definition query_limit :: "int \<Rightarrow> nat" where
  "query_limit limit = (if limit \<le> 0 then 100 else nat limit)"

text \<open>A statement of a transaction, which fails or lets it go on.\<close>

definition exec :: "sql \<Rightarrow> string \<Rightarrow> store_error + 'a \<Rightarrow> store_error + 'a" where
  "exec db name k = (case db name of Some e \<Rightarrow> Inl (DbError e) | None \<Rightarrow> k)"

section \<open>Reports\<close>

definition validate_report_policy :: "report_policy \<Rightarrow> bool" where
  "validate_report_policy p \<longleftrightarrow>
     \<not> (rp_cooldown p \<le> 0 \<or> rp_dedupe p \<le> 0 \<or> rp_window p \<le> 0 \<or> rp_limit p \<le> 0)"

definition non_negative :: "int \<Rightarrow> int" where
  "non_negative d = (if d < 0 then 0 else d)"

text \<open>
  The spacing test against the newest matching row; \<open>repeated\<close> says that the row reports the same.
\<close>

definition check_spacing :: "report_policy \<Rightarrow> bool \<Rightarrow> int \<Rightarrow> int \<Rightarrow> store_error option" where
  "check_spacing p repeated last_at now =
     (let elapsed = non_negative (time_sub now last_at) in
      if repeated \<and> elapsed < rp_dedupe p then Some (Rejected ReportDuplicate (rp_dedupe p - elapsed))
      else if elapsed < rp_cooldown p then Some (Rejected ReportCooldown (rp_cooldown p - elapsed))
      else None)"

text \<open>The reports, sightings and location reports of a user, as user and time.\<close>

definition actions :: "tables \<Rightarrow> (int \<times> int) list" where
  "actions t =
     map (\<lambda>r. (re_user r, re_at r)) (t_reports t) @ map (\<lambda>r. (ss_user r, ss_at r)) (t_sightings t) @
     map (\<lambda>r. (lr_user r, lr_at r)) (t_locations t)"

definition count_actions :: "int \<Rightarrow> int \<Rightarrow> tables \<Rightarrow> int" where
  "count_actions user since t = int (length (filter (\<lambda>(u, a). u = user \<and> sec since \<le> a) (actions t)))"

definition enforce_limit :: "report_policy \<Rightarrow> int \<Rightarrow> int \<Rightarrow> tables \<Rightarrow> store_error option" where
  "enforce_limit p user now t =
     (if count_actions user (now - rp_window p) t \<ge> rp_limit p
      then Some (Rejected ReportActionLimit (rp_window p)) else None)"

definition reject_or :: "store_error option \<Rightarrow> store_error + 'a \<Rightarrow> store_error + 'a" where
  "reject_or e k = (case e of Some err \<Rightarrow> Inl err | None \<Rightarrow> k)"

definition submit_report_event :: "sql \<Rightarrow> report_policy \<Rightarrow> report_event \<Rightarrow> tables \<Rightarrow> store_error + tables" where
  "submit_report_event db p e t =
     (if \<not> validate_report_policy p then Inl (DbError ''invalid report mutation policy'')
      else exec db ''begin'' (exec db ''last''
        (reject_or
          (case newest_first re_at
             (filter (\<lambda>r. re_user r = re_user e \<and> re_train r = trim_space (re_train e)) (t_reports t)) of
             [] \<Rightarrow> None
           | r # _ \<Rightarrow> check_spacing p (re_signal r = re_signal e) (re_at r) (re_at e))
          (exec db ''count'' (reject_or (enforce_limit p (re_user e) (re_at e) t)
            (exec db ''insert'' (exec db ''commit''
              (Inr (t\<lparr>t_reports := t_reports t @ [e\<lparr>re_at := sec (re_at e)\<rparr>]\<rparr>)))))))))"

definition trim_string_value :: "string option \<Rightarrow> string" where
  "trim_string_value v = (case v of None \<Rightarrow> [] | Some s \<Rightarrow> trim_space s)"

definition non_empty :: "string \<Rightarrow> string option" where
  "non_empty s = (if s = [] then None else Some s)"

definition submit_station_sighting :: "sql \<Rightarrow> report_policy \<Rightarrow> sighting \<Rightarrow> tables \<Rightarrow> store_error + tables" where
  "submit_station_sighting db p e t =
     (if \<not> validate_report_policy p then Inl (DbError ''invalid report mutation policy'')
      else let dest = non_empty (trim_string_value (ss_dest e)) in
        exec db ''begin'' (exec db ''last''
        (reject_or
          (case newest_first ss_at
             (filter (\<lambda>r. ss_user r = ss_user e \<and> ss_station r = trim_space (ss_station e) \<and> ss_dest r = dest)
               (t_sightings t)) of
             [] \<Rightarrow> None
           | r # _ \<Rightarrow> check_spacing p True (ss_at r) (ss_at e))
          (exec db ''count'' (reject_or (enforce_limit p (ss_user e) (ss_at e) t)
            (exec db ''insert'' (exec db ''commit''
              (Inr (t\<lparr>t_sightings := t_sightings t @
                 [e\<lparr>ss_dest := dest, ss_train := non_empty (trim_string_value (ss_train e)),
                    ss_at := sec (ss_at e)\<rparr>]\<rparr>)))))))))"

definition submit_location_report ::
    "sql \<Rightarrow> report_policy \<Rightarrow> location_report \<Rightarrow> tables \<Rightarrow> store_error + tables" where
  "submit_location_report db p e t =
     (if \<not> validate_report_policy p then Inl (DbError ''invalid report mutation policy'')
      else exec db ''begin'' (exec db ''last''
        (reject_or
          (case newest_first lr_at
             (filter (\<lambda>r. lr_user r = lr_user e \<and> lr_scope r = trim_space (lr_scope e) \<and>
                          lr_subject r = trim_space (lr_subject e)) (t_locations t)) of
             [] \<Rightarrow> None
           | r # _ \<Rightarrow> check_spacing p True (lr_at r) (lr_at e))
          (exec db ''count'' (reject_or (enforce_limit p (lr_user e) (lr_at e) t)
            (exec db ''insert'' (exec db ''commit''
              (Inr (t\<lparr>t_locations := t_locations t @
                 [e\<lparr>lr_scope := trim_space (lr_scope e), lr_subject := trim_space (lr_subject e),
                    lr_subject_name := trim_space (lr_subject_name e), lr_desc := trim_space (lr_desc e),
                    lr_at := sec (lr_at e)\<rparr>]\<rparr>)))))))))"

section \<open>Votes and comments\<close>

text \<open>\<open>ON CONFLICT(incident_id, user_id)\<close>: a second vote keeps the row and its creation time.\<close>

fun upsert_vote :: "incident_vote \<Rightarrow> incident_vote list \<Rightarrow> incident_vote list" where
  "upsert_vote v [] = [v]"
| "upsert_vote v (r # rs) =
     (if iv_incident r = iv_incident v \<and> iv_user r = iv_user v
      then r\<lparr>iv_nickname := iv_nickname v, iv_value := iv_value v, iv_updated := iv_updated v\<rparr> # rs
      else r # upsert_vote v rs)"

definition submit_incident_vote ::
    "sql \<Rightarrow> vote_policy \<Rightarrow> incident_vote \<Rightarrow> vote_event \<Rightarrow> tables \<Rightarrow> store_error + tables" where
  "submit_incident_vote db p v ev t =
     (if vp_change p \<le> 0 \<or> vp_window p \<le> 0 \<or> vp_limit p \<le> 0
      then Inl (DbError ''invalid incident vote mutation policy'')
      else let updated = (if iv_updated v = zero_time then ve_at ev else iv_updated v) in
        if updated = zero_time then Inl (DbError ''incident vote timestamp is required'')
        else let ev1 = ev\<lparr>ve_incident := iv_incident v, ve_user := iv_user v, ve_nickname := iv_nickname v,
                         ve_value := iv_value v, ve_at := (if ve_at ev = zero_time then updated else ve_at ev)\<rparr>
          in exec db ''begin'' (exec db ''current''
            (reject_or
              (case find (\<lambda>r. iv_incident r = trim_space (iv_incident v) \<and> iv_user r = iv_user v) (t_votes t) of
                 None \<Rightarrow> None
               | Some r \<Rightarrow>
                   let elapsed = non_negative (time_sub updated (iv_updated r)) in
                   if elapsed < vp_change p then Some (Rejected VoteCooldown (vp_change p - elapsed)) else None)
              (exec db ''count''
                (reject_or
                  (if int (length (filter (\<lambda>r. ve_user r = iv_user v \<and> sec (updated - vp_window p) \<le> ve_at r)
                         (t_vote_events t))) \<ge> vp_limit p
                   then Some (Rejected VoteActionLimit (vp_window p)) else None)
                  (exec db ''upsert'' (exec db ''event'' (exec db ''commit''
                    (Inr (t\<lparr>t_votes := upsert_vote (v\<lparr>iv_nickname := trim_space (iv_nickname v),
                             iv_created := sec (if iv_created v = zero_time then updated else iv_created v),
                             iv_updated := sec updated\<rparr>) (t_votes t),
                           t_vote_events := t_vote_events t @
                             [ev1\<lparr>ve_nickname := trim_space (ve_nickname ev1), ve_at := sec (ve_at ev1)\<rparr>]\<rparr>)))))))))) "

definition submit_incident_comment ::
    "sql \<Rightarrow> comment_policy \<Rightarrow> comment \<Rightarrow> tables \<Rightarrow> store_error + tables" where
  "submit_incident_comment db p c t =
     (if cp_window p \<le> 0 \<or> cp_limit p \<le> 0 \<or> cp_incident_limit p \<le> 0
      then Inl (DbError ''invalid incident comment mutation policy'')
      else let since = sec (cm_at c - cp_window p) in
        exec db ''begin'' (exec db ''user''
          (reject_or
            (if int (length (filter (\<lambda>r. cm_user r = cm_user c \<and> since \<le> cm_at r) (t_comments t))) \<ge> cp_limit p
             then Some (Rejected CommentActionLimit (cp_window p)) else None)
            (exec db ''incident''
              (reject_or
                (if int (length (filter (\<lambda>r. cm_incident r = trim_space (cm_incident c) \<and> since \<le> cm_at r)
                       (t_comments t))) \<ge> cp_incident_limit p
                 then Some (Rejected IncidentCommentLimit (cp_window p)) else None)
                (exec db ''insert'' (exec db ''commit''
                  (Inr (t\<lparr>t_comments := t_comments t @
                     [c\<lparr>cm_nickname := trim_space (cm_nickname c), cm_body := trim_space (cm_body c),
                        cm_at := sec (cm_at c)\<rparr>]\<rparr>)))))))))"

section \<open>Queries\<close>

definition list_recent_report_events :: "int \<Rightarrow> int \<Rightarrow> tables \<Rightarrow> report_event list" where
  "list_recent_report_events since limit t =
     take (query_limit limit) (newest_first re_at (filter (\<lambda>r. sec since \<le> re_at r) (t_reports t)))"

definition list_reports_since :: "string \<Rightarrow> int \<Rightarrow> int \<Rightarrow> tables \<Rightarrow> report_event list" where
  "list_reports_since train since limit t =
     take (query_limit limit)
       (newest_first re_at (filter (\<lambda>r. re_train r = train \<and> sec since \<le> re_at r) (t_reports t)))"

definition list_recent_reports :: "string \<Rightarrow> int \<Rightarrow> tables \<Rightarrow> report_event list" where
  "list_recent_reports train limit t =
     take (query_limit limit) (newest_first re_at (filter (\<lambda>r. re_train r = train) (t_reports t)))"

text \<open>
  The join with the stations gives the names, and drops a sighting of a station that is not known;
  \<open>name\<close> is the table of stations.
\<close>

definition list_recent_station_sightings ::
    "(string \<Rightarrow> string option) \<Rightarrow> int \<Rightarrow> int \<Rightarrow> tables \<Rightarrow> sighting list" where
  "list_recent_station_sightings name since limit t =
     take (query_limit limit)
       (map (\<lambda>r. r\<lparr>ss_station_name := (case name (ss_station r) of None \<Rightarrow> [] | Some n \<Rightarrow> n),
                  ss_dest_name := (case Option.bind (ss_dest r) name of None \<Rightarrow> [] | Some n \<Rightarrow> n)\<rparr>)
         (newest_first ss_at (filter (\<lambda>r. name (ss_station r) \<noteq> None \<and> sec since \<le> ss_at r) (t_sightings t))))"

definition with_station_names :: "(string \<Rightarrow> string option) \<Rightarrow> sighting \<Rightarrow> sighting" where
  "with_station_names name r =
     r\<lparr>ss_station_name := (case name (ss_station r) of None \<Rightarrow> [] | Some n \<Rightarrow> n),
       ss_dest_name := (case Option.bind (ss_dest r) name of None \<Rightarrow> [] | Some n \<Rightarrow> n)\<rparr>"

definition list_recent_station_sightings_by_station ::
    "(string \<Rightarrow> string option) \<Rightarrow> string \<Rightarrow> int \<Rightarrow> int \<Rightarrow> tables \<Rightarrow> sighting list" where
  "list_recent_station_sightings_by_station name station since limit t =
     take (query_limit limit) (map (with_station_names name)
       (newest_first ss_at (filter (\<lambda>r. name (ss_station r) \<noteq> None \<and> ss_station r = station \<and> sec since \<le> ss_at r)
         (t_sightings t))))"

definition list_recent_station_sightings_by_train ::
    "(string \<Rightarrow> string option) \<Rightarrow> string \<Rightarrow> int \<Rightarrow> int \<Rightarrow> tables \<Rightarrow> sighting list" where
  "list_recent_station_sightings_by_train name train since limit t =
     take (query_limit limit) (map (with_station_names name)
       (newest_first ss_at (filter (\<lambda>r. name (ss_station r) \<noteq> None \<and> ss_train r = Some train \<and> sec since \<le> ss_at r)
         (t_sightings t))))"

definition list_recent_location_reports :: "int \<Rightarrow> int \<Rightarrow> tables \<Rightarrow> location_report list" where
  "list_recent_location_reports since limit t =
     take (query_limit limit) (newest_first lr_at (filter (\<lambda>r. sec since \<le> lr_at r) (t_locations t)))"

definition list_incident_votes :: "string \<Rightarrow> tables \<Rightarrow> incident_vote list" where
  "list_incident_votes incident t =
     sort_by (\<lambda>a b. iv_updated b < iv_updated a \<or> (iv_updated a = iv_updated b \<and> iv_user a < iv_user b))
       (filter (\<lambda>r. iv_incident r = trim_space incident) (t_votes t))"

definition list_incident_vote_events :: "string \<Rightarrow> int \<Rightarrow> int \<Rightarrow> tables \<Rightarrow> vote_event list" where
  "list_incident_vote_events incident since limit t =
     take (query_limit limit)
       (sort_by (\<lambda>a b. ve_at b < ve_at a \<or> (ve_at a = ve_at b \<and> ve_id b < ve_id a))
         (filter (\<lambda>r. ve_incident r = trim_space incident \<and> sec since \<le> ve_at r) (t_vote_events t)))"

definition list_incident_comments :: "string \<Rightarrow> int \<Rightarrow> tables \<Rightarrow> comment list" where
  "list_incident_comments incident limit t =
     take (query_limit limit)
       (sort_by (\<lambda>a b. cm_at b < cm_at a \<or> (cm_at a = cm_at b \<and> cm_id b < cm_id a))
         (filter (\<lambda>r. cm_incident r = trim_space incident) (t_comments t)))"

end
