(* ===== verification/TbMutations.thy ===== *)
theory TbMutations
  imports TbStore
begin

text \<open>
  train-bot, what the store's mutations promise: the limits per user and window, the spacing of
  repeated reports, and the votes as a map. The five mutations are the actions of a run; the store is
  the only writer of these tables, and a rejected or failed mutation changes nothing.
\<close>

section \<open>Runs\<close>

datatype mutation =
    SubmitReportEvent sql report_event
  | SubmitSighting sql sighting
  | SubmitLocation sql location_report
  | SubmitVote sql incident_vote vote_event
  | SubmitComment sql comment

record policies =
  po_report :: report_policy
  po_vote :: vote_policy
  po_comment :: comment_policy

fun mutate :: "policies \<Rightarrow> mutation \<Rightarrow> tables \<Rightarrow> store_error + tables" where
  "mutate p (SubmitReportEvent db e) t = submit_report_event db (po_report p) e t"
| "mutate p (SubmitSighting db e) t = submit_station_sighting db (po_report p) e t"
| "mutate p (SubmitLocation db e) t = submit_location_report db (po_report p) e t"
| "mutate p (SubmitVote db v ev) t = submit_incident_vote db (po_vote p) v ev t"
| "mutate p (SubmitComment db c) t = submit_incident_comment db (po_comment p) c t"

definition after :: "policies \<Rightarrow> tables \<Rightarrow> mutation \<Rightarrow> tables" where
  "after p t m = (case mutate p m t of Inl _ \<Rightarrow> t | Inr t' \<Rightarrow> t')"

definition run_mutations :: "policies \<Rightarrow> mutation list \<Rightarrow> tables \<Rightarrow> tables" where
  "run_mutations p ms t = foldl (after p) t ms"

lemma run_mutations_induct [consumes 1, case_names step]:
  assumes "P t"
    and "\<And>m t t'. m \<in> set ms \<Longrightarrow> P t \<Longrightarrow> mutate p m t = Inr t' \<Longrightarrow> P t'"
  shows "P (run_mutations p ms t)"
  using assms
proof (induction ms arbitrary: t)
  case (Cons m ms)
  have "P (after p t m)"
    using Cons.prems by (auto simp: after_def split: sum.split)
  moreover have "P t'" if "n \<in> set ms" "P u" "mutate p n u = Inr t'" for n u t'
    using Cons.prems(2) [of n u t'] that by simp
  ultimately have "P (run_mutations p ms (after p t m))"
    using Cons.IH [of "after p t m"] by blast
  then show ?case
    by (simp add: run_mutations_def)
qed (simp add: run_mutations_def)

text \<open>The policies of the service: the windows and limits are constants, the two spacings its settings.\<close>

definition report_mutation_policy :: "int \<Rightarrow> int \<Rightarrow> report_policy" where
  "report_mutation_policy cooldown dedupe =
     \<lparr>rp_cooldown = cooldown, rp_dedupe = dedupe, rp_window = 30 * minute, rp_limit = 5\<rparr>"

definition vote_mutation_policy :: vote_policy where
  "vote_mutation_policy = \<lparr>vp_change = 30 * minute, vp_window = hour, vp_limit = 20\<rparr>"

definition comment_mutation_policy :: comment_policy where
  "comment_mutation_policy = \<lparr>cp_window = hour, cp_limit = 10, cp_incident_limit = 50\<rparr>"

definition service_policies :: "int \<Rightarrow> int \<Rightarrow> policies" where
  "service_policies cooldown dedupe =
     \<lparr>po_report = report_mutation_policy cooldown dedupe, po_vote = vote_mutation_policy,
      po_comment = comment_mutation_policy\<rparr>"

section \<open>What an accepted mutation did\<close>

lemma exec_Inr [simp]: "exec db n k = Inr t \<longleftrightarrow> db n = None \<and> k = Inr t"
  by (simp add: exec_def split: option.split)

lemma reject_or_Inr [simp]: "reject_or e k = Inr t \<longleftrightarrow> e = None \<and> k = Inr t"
  by (simp add: reject_or_def split: option.split)

lemma newest_first_mset [simp]: "mset (newest_first f rows) = mset rows"
  by (simp add: newest_first_def)

lemma newest_first_set [simp]: "set (newest_first f rows) = set rows"
  by (metis newest_first_mset set_mset_mset)

lemma newest_first_Nil [simp]: "newest_first f rows = [] \<longleftrightarrow> rows = []"
  by (metis newest_first_set set_empty)

interpretation newest: strict_weak "\<lambda>a b. f b < (f a :: int)" for f :: "'a \<Rightarrow> int"
  by unfold_locales auto

lemma newest_first_sorted: "sorted_wrt (\<lambda>a b. f b \<le> f a) (newest_first f rows)"
  using newest.sort_sorted [of f rows] by (simp add: newest_first_def not_less)

lemma newest_first_hd:
  "newest_first f rows = r # rs \<Longrightarrow> x \<in> set rows \<Longrightarrow> f x \<le> f r"
  using newest_first_sorted [of f rows] newest_first_set [of f rows] by auto

lemma time_sub_le: "0 < d \<Longrightarrow> d \<le> non_negative (time_sub a b) \<Longrightarrow> b + d \<le> a"
  by (auto simp: non_negative_def time_sub_def i64_max_def i64_min_def split: if_splits)

lemma sec_le: "sec t \<le> t"
  unfolding sec_def by (simp add: minus_mod_eq_div_mult [symmetric])

lemma sec_mono: "a \<le> b \<Longrightarrow> sec a \<le> sec b"
  by (simp add: sec_def zdiv_mono1)

lemma sec_sec [simp]: "sec (sec t) = sec t"
  by (simp add: sec_def)

text \<open>Whole seconds.\<close>

definition whole :: "int \<Rightarrow> bool" where
  "whole t \<longleftrightarrow> sec t = t"

lemma whole_sec [simp]: "whole (sec t)"
  by (simp add: whole_def)

lemma sec_diff: "whole w \<Longrightarrow> sec (t - w) = sec t - w"
proof -
  assume "whole w"
  then obtain k where w: "w = k * 1000000000"
    by (metis whole_def sec_def)
  have "(t - k * 1000000000) div 1000000000 = t div 1000000000 - k"
    using div_mult_self1 [of 1000000000 t "- k"] by simp
  then show ?thesis
    by (simp add: sec_def w left_diff_distrib)
qed

lemma sec_add: "whole t \<Longrightarrow> sec (t + d) = t + sec d"
  using sec_diff [of t "t + d"] by simp

lemma sec_ge: "whole t \<Longrightarrow> t + d \<le> a \<Longrightarrow> t + sec d \<le> sec a"
  using sec_mono [of "t + d" a] by (simp add: sec_add)

end
