(* ===== verification/TbLimits.thy ===== *)
theory TbLimits
  imports TbMutations
begin

text \<open>
  train-bot, the two contracts a mutation of a table can keep: \<open>windowed\<close>, an accepted mutation adds a
  row only while its key has room in the window before it, and \<open>spaced\<close>, it adds one only when the
  rows of its key are old enough. Each gives an invariant of the table; the first is interpreted for
  the reports of a user, the votes of a user, the comments of a user and the comments of an incident,
  the second for the reports of a train, the sightings of a station and the reports of a location.
\<close>

section \<open>Contracts\<close>

text \<open>The rows of a key between two times.\<close>

definition recorded :: "'k \<Rightarrow> int \<Rightarrow> int \<Rightarrow> ('k \<times> int) list \<Rightarrow> int" where
  "recorded k lo hi rows = int (length (filter (\<lambda>(k', t). k' = k \<and> lo \<le> t \<and> t \<le> hi) rows))"

text \<open>The rows of a key from a time on.\<close>

definition row_count :: "'k \<Rightarrow> int \<Rightarrow> ('k \<times> int) list \<Rightarrow> int" where
  "row_count k lo rows = int (length (filter (\<lambda>(k', t). k' = k \<and> lo \<le> t) rows))"

lemma row_count_map:
  "row_count k lo (map (\<lambda>r. (f r, g r)) rows) = int (length (filter (\<lambda>r. f r = k \<and> lo \<le> g r) rows))"
  by (induction rows) (auto simp: row_count_def)

text \<open>A row joins while its key has room in the window.\<close>

definition joins :: "int \<Rightarrow> int \<Rightarrow> ('k \<times> int) list \<Rightarrow> ('k \<times> int) list \<Rightarrow> bool" where
  "joins window limit rows rows' \<longleftrightarrow>
     (\<exists>k now. mset rows' = add_mset (k, sec now) (mset rows) \<and> row_count k (sec (now - window)) rows < limit)"

lemma joinsI:
  "row_count k (sec (now - window)) rows < limit \<Longrightarrow> mset rows' = add_mset (k, sec now) (mset rows) \<Longrightarrow>
   joins window limit rows rows'"
  unfolding joins_def by blast

lemma recorded_mset:
  "recorded k lo hi rows = int (size (filter_mset (\<lambda>(k', t). k' = k \<and> lo \<le> t \<and> t \<le> hi) (mset rows)))"
  by (simp add: recorded_def flip: mset_filter)

locale windowed =
  fixes rows :: "'s \<Rightarrow> ('k \<times> int) list"
    and act :: "'a \<Rightarrow> 's \<Rightarrow> 'e + 's"
    and proper :: "'a \<Rightarrow> bool"
    and window limit :: int
  assumes window: "whole window"
    and limit: "0 \<le> limit"
    and accepts: "proper a \<Longrightarrow> act a s = Inr s' \<Longrightarrow>
      mset (rows s') = mset (rows s) \<or> joins window limit (rows s) (rows s')"
begin

lemma bound_kept:
  assumes "proper a" "act a s = Inr s'" and before: "\<And>k lo. recorded k lo (lo + window) (rows s) \<le> limit"
  shows "recorded k lo (lo + window) (rows s') \<le> limit"
proof -
  consider "mset (rows s') = mset (rows s)"
    | k' at' where "mset (rows s') = add_mset (k', sec at') (mset (rows s))"
        "row_count k' (sec (at' - window)) (rows s) < limit"
    using accepts [OF assms(1,2)] unfolding joins_def by blast
  then show ?thesis
  proof cases
    case 1
    then show ?thesis using before [of k lo] by (simp add: recorded_mset)
  next
    case (2 k' at')
    show ?thesis
    proof (cases "k' = k \<and> lo \<le> sec at' \<and> sec at' \<le> lo + window")
      case False
      then show ?thesis using before [of k lo] 2(1) by (auto simp: recorded_mset)
    next
      case True
      then have "sec (at' - window) \<le> lo"
        by (simp add: sec_diff [OF window])
      then have "length (filter (\<lambda>(k', t). k' = k \<and> lo \<le> t \<and> t \<le> lo + window) (rows s)) \<le>
          length (filter (\<lambda>(k, t). k = k' \<and> sec (at' - window) \<le> t) (rows s))"
        using True by (intro length_filter_mono) auto
      then have "recorded k lo (lo + window) (rows s) < limit"
        using 2(2) by (simp add: recorded_def row_count_def)
      then show ?thesis using 2(1) True by (simp add: recorded_mset)
    qed
  qed
qed

lemma bound_empty: "rows s = [] \<Longrightarrow> recorded k lo (lo + window) (rows s) \<le> limit"
  using limit by (simp add: recorded_def)

end

definition apart :: "int \<Rightarrow> 'k \<times> int \<Rightarrow> 'k \<times> int \<Rightarrow> bool" where
  "apart gap a b \<longleftrightarrow> (fst a = fst b \<longrightarrow> snd a + gap \<le> snd b)"

locale spaced =
  fixes rows :: "'s \<Rightarrow> ('k \<times> int) list"
    and act :: "'a \<Rightarrow> 's \<Rightarrow> 'e + 's"
    and proper :: "'a \<Rightarrow> bool"
    and gap :: int
  assumes accepts: "proper a \<Longrightarrow> act a s = Inr s' \<Longrightarrow>
      rows s' = rows s \<or>
      (\<exists>k at'. rows s' = rows s @ [(k, sec at')] \<and> (\<forall>t. (k, t) \<in> set (rows s) \<longrightarrow> t + gap \<le> at'))"
begin

lemma spacing_kept:
  assumes "proper a" "act a s = Inr s'"
    and "sorted_wrt (apart (sec gap)) (rows s)" "\<forall>r \<in> set (rows s). whole (snd r)"
  shows "sorted_wrt (apart (sec gap)) (rows s') \<and> (\<forall>r \<in> set (rows s'). whole (snd r))"
proof -
  consider "rows s' = rows s"
    | k at' where "rows s' = rows s @ [(k, sec at')]" "\<forall>t. (k, t) \<in> set (rows s) \<longrightarrow> t + gap \<le> at'"
    using accepts [OF assms(1,2)] by blast
  then show ?thesis
  proof cases
    case (2 k at')
    have "apart (sec gap) r (k, sec at')" if "r \<in> set (rows s)" for r
      using 2(2) that assms(4) sec_ge [of "snd r" gap at'] by (cases r) (auto simp: apart_def)
    then show ?thesis using 2(1) assms(3,4) by (simp add: sorted_wrt_append)
  qed (use assms in simp)
qed

end

end
