(* ===== verification/TbAccept.thy ===== *)
theory TbAccept
  imports TbLimits
begin

text \<open>
  train-bot, what each mutation of the store checked and wrote when it was accepted, and the
  interpretations of the two contracts of \<open>TbLimits\<close> on the mutations.
\<close>

section \<open>Accepted reports\<close>

lemma check_spacing_None:
  "check_spacing p repeated last_at now = None \<Longrightarrow> 0 < rp_cooldown p \<Longrightarrow> last_at + rp_cooldown p \<le> now"
  by (rule time_sub_le) (auto simp: check_spacing_def Let_def split: if_splits)

text \<open>The newest row of a selection is far enough back, and so is every other.\<close>

lemma spacing_all:
  assumes "(case newest_first f rows of [] \<Rightarrow> None | r # _ \<Rightarrow> check_spacing p (rep r) (f r) now) = None"
    and "0 < rp_cooldown p" and "x \<in> set rows"
  shows "f x + rp_cooldown p \<le> now"
proof -
  obtain r rs where r: "newest_first f rows = r # rs"
    using assms(3) by (cases "newest_first f rows") auto
  have "f r + rp_cooldown p \<le> now"
    using assms(1,2) r by (auto intro: check_spacing_None)
  then show ?thesis using newest_first_hd [OF r assms(3)] by linarith
qed

lemma enforce_limit_None:
  "enforce_limit p user now t = None \<longleftrightarrow> count_actions user (now - rp_window p) t < rp_limit p"
  by (simp add: enforce_limit_def)

lemma report_accepted:
  assumes "submit_report_event db p e t = Inr t'"
  shows "t' = t\<lparr>t_reports := t_reports t @ [e\<lparr>re_at := sec (re_at e)\<rparr>]\<rparr>"
    and "count_actions (re_user e) (re_at e - rp_window p) t < rp_limit p"
    and "r \<in> set (t_reports t) \<Longrightarrow> re_user r = re_user e \<Longrightarrow> re_train r = trim_space (re_train e) \<Longrightarrow>
      re_at r + rp_cooldown p \<le> re_at e"
proof -
  have ok: "0 < rp_cooldown p"
    "(case newest_first re_at
        (filter (\<lambda>r. re_user r = re_user e \<and> re_train r = trim_space (re_train e)) (t_reports t)) of
      [] \<Rightarrow> None | r # _ \<Rightarrow> check_spacing p (re_signal r = re_signal e) (re_at r) (re_at e)) = None"
    using assms by (auto simp: submit_report_event_def validate_report_policy_def split: if_splits)
  show "t' = t\<lparr>t_reports := t_reports t @ [e\<lparr>re_at := sec (re_at e)\<rparr>]\<rparr>"
    and "count_actions (re_user e) (re_at e - rp_window p) t < rp_limit p"
    using assms by (auto simp: submit_report_event_def enforce_limit_None split: if_splits)
  show "re_at r + rp_cooldown p \<le> re_at e"
    if "r \<in> set (t_reports t)" "re_user r = re_user e" "re_train r = trim_space (re_train e)"
    by (rule spacing_all [OF ok(2,1)]) (use that in simp)
qed

abbreviation stored_sighting :: "sighting \<Rightarrow> sighting" where
  "stored_sighting e \<equiv>
     e\<lparr>ss_dest := non_empty (trim_string_value (ss_dest e)),
       ss_train := non_empty (trim_string_value (ss_train e)), ss_at := sec (ss_at e)\<rparr>"

lemma sighting_accepted:
  assumes "submit_station_sighting db p e t = Inr t'"
  shows "t' = t\<lparr>t_sightings := t_sightings t @ [stored_sighting e]\<rparr>"
    and "count_actions (ss_user e) (ss_at e - rp_window p) t < rp_limit p"
    and "r \<in> set (t_sightings t) \<Longrightarrow> ss_user r = ss_user e \<Longrightarrow> ss_station r = trim_space (ss_station e) \<Longrightarrow>
      ss_dest r = non_empty (trim_string_value (ss_dest e)) \<Longrightarrow> ss_at r + rp_cooldown p \<le> ss_at e"
proof -
  have ok: "0 < rp_cooldown p"
    "(case newest_first ss_at
        (filter (\<lambda>r. ss_user r = ss_user e \<and> ss_station r = trim_space (ss_station e) \<and>
           ss_dest r = non_empty (trim_string_value (ss_dest e))) (t_sightings t)) of
      [] \<Rightarrow> None | r # _ \<Rightarrow> check_spacing p True (ss_at r) (ss_at e)) = None"
    using assms
    by (auto simp: submit_station_sighting_def validate_report_policy_def Let_def split: if_splits)
  show "t' = t\<lparr>t_sightings := t_sightings t @ [stored_sighting e]\<rparr>"
    and "count_actions (ss_user e) (ss_at e - rp_window p) t < rp_limit p"
    using assms by (auto simp: submit_station_sighting_def enforce_limit_None Let_def split: if_splits)
  show "ss_at r + rp_cooldown p \<le> ss_at e"
    if "r \<in> set (t_sightings t)" "ss_user r = ss_user e" "ss_station r = trim_space (ss_station e)"
      "ss_dest r = non_empty (trim_string_value (ss_dest e))"
    by (rule spacing_all [OF ok(2,1)]) (use that in simp)
qed

abbreviation stored_location :: "location_report \<Rightarrow> location_report" where
  "stored_location e \<equiv>
     e\<lparr>lr_scope := trim_space (lr_scope e), lr_subject := trim_space (lr_subject e),
       lr_subject_name := trim_space (lr_subject_name e), lr_desc := trim_space (lr_desc e),
       lr_at := sec (lr_at e)\<rparr>"

lemma location_accepted:
  assumes "submit_location_report db p e t = Inr t'"
  shows "t' = t\<lparr>t_locations := t_locations t @ [stored_location e]\<rparr>"
    and "count_actions (lr_user e) (lr_at e - rp_window p) t < rp_limit p"
    and "r \<in> set (t_locations t) \<Longrightarrow> lr_user r = lr_user e \<Longrightarrow> lr_scope r = trim_space (lr_scope e) \<Longrightarrow>
      lr_subject r = trim_space (lr_subject e) \<Longrightarrow> lr_at r + rp_cooldown p \<le> lr_at e"
proof -
  have ok: "0 < rp_cooldown p"
    "(case newest_first lr_at
        (filter (\<lambda>r. lr_user r = lr_user e \<and> lr_scope r = trim_space (lr_scope e) \<and>
           lr_subject r = trim_space (lr_subject e)) (t_locations t)) of
      [] \<Rightarrow> None | r # _ \<Rightarrow> check_spacing p True (lr_at r) (lr_at e)) = None"
    using assms by (auto simp: submit_location_report_def validate_report_policy_def split: if_splits)
  show "t' = t\<lparr>t_locations := t_locations t @ [stored_location e]\<rparr>"
    and "count_actions (lr_user e) (lr_at e - rp_window p) t < rp_limit p"
    using assms by (auto simp: submit_location_report_def enforce_limit_None split: if_splits)
  show "lr_at r + rp_cooldown p \<le> lr_at e"
    if "r \<in> set (t_locations t)" "lr_user r = lr_user e" "lr_scope r = trim_space (lr_scope e)"
      "lr_subject r = trim_space (lr_subject e)"
    by (rule spacing_all [OF ok(2,1)]) (use that in simp)
qed

section \<open>Accepted votes and comments\<close>

text \<open>The service gives a vote and its event the same time, which is not the zero time.\<close>

definition dated_vote :: "incident_vote \<Rightarrow> vote_event \<Rightarrow> bool" where
  "dated_vote v ev \<longleftrightarrow> iv_updated v \<noteq> zero_time \<and> iv_created v = iv_updated v \<and> ve_at ev = iv_updated v"

abbreviation stored_vote :: "incident_vote \<Rightarrow> incident_vote" where
  "stored_vote v \<equiv>
     v\<lparr>iv_nickname := trim_space (iv_nickname v), iv_created := sec (iv_created v),
       iv_updated := sec (iv_updated v)\<rparr>"

abbreviation stored_vote_event :: "incident_vote \<Rightarrow> vote_event \<Rightarrow> vote_event" where
  "stored_vote_event v ev \<equiv>
     ev\<lparr>ve_incident := iv_incident v, ve_user := iv_user v, ve_nickname := trim_space (iv_nickname v),
        ve_value := iv_value v, ve_at := sec (iv_updated v)\<rparr>"

lemma vote_accepted:
  assumes "submit_incident_vote db p v ev t = Inr t'" and "dated_vote v ev"
  shows "t' = t\<lparr>t_votes := upsert_vote (stored_vote v) (t_votes t),
             t_vote_events := t_vote_events t @ [stored_vote_event v ev]\<rparr>"
    and "int (length (filter (\<lambda>r. ve_user r = iv_user v \<and> sec (iv_updated v - vp_window p) \<le> ve_at r)
           (t_vote_events t))) < vp_limit p"
    and "find (\<lambda>r. iv_incident r = trim_space (iv_incident v) \<and> iv_user r = iv_user v) (t_votes t) = Some r \<Longrightarrow>
      iv_updated r + vp_change p \<le> iv_updated v"
proof -
  show "t' = t\<lparr>t_votes := upsert_vote (stored_vote v) (t_votes t),
             t_vote_events := t_vote_events t @ [stored_vote_event v ev]\<rparr>"
    using assms unfolding submit_incident_vote_def dated_vote_def
    by (auto simp: Let_def split: if_splits)
  show "int (length (filter (\<lambda>r. ve_user r = iv_user v \<and> sec (iv_updated v - vp_window p) \<le> ve_at r)
           (t_vote_events t))) < vp_limit p"
    using assms unfolding submit_incident_vote_def dated_vote_def
    by (auto simp: Let_def split: if_splits)
  show "iv_updated r + vp_change p \<le> iv_updated v"
    if "find (\<lambda>r. iv_incident r = trim_space (iv_incident v) \<and> iv_user r = iv_user v) (t_votes t) = Some r"
  proof (rule time_sub_le)
    show "0 < vp_change p"
      using assms(1) unfolding submit_incident_vote_def by (auto split: if_splits)
    show "vp_change p \<le> non_negative (time_sub (iv_updated v) (iv_updated r))"
      using assms that unfolding submit_incident_vote_def dated_vote_def
      by (auto simp: Let_def split: if_splits)
  qed
qed

abbreviation stored_comment :: "comment \<Rightarrow> comment" where
  "stored_comment c \<equiv>
     c\<lparr>cm_nickname := trim_space (cm_nickname c), cm_body := trim_space (cm_body c), cm_at := sec (cm_at c)\<rparr>"

lemma comment_accepted:
  assumes "submit_incident_comment db p c t = Inr t'"
  shows "t' = t\<lparr>t_comments := t_comments t @ [stored_comment c]\<rparr>"
    and "int (length (filter (\<lambda>r. cm_user r = cm_user c \<and> sec (cm_at c - cp_window p) \<le> cm_at r) (t_comments t)))
      < cp_limit p"
    and "int (length (filter (\<lambda>r. cm_incident r = trim_space (cm_incident c) \<and> sec (cm_at c - cp_window p) \<le> cm_at r)
      (t_comments t))) < cp_incident_limit p"
  using assms unfolding submit_incident_comment_def by (auto simp: Let_def split: if_splits)

end
