(* ===== verification/TbStoreClaims.thy ===== *)
theory TbStoreClaims
  imports TbAccept
begin

text \<open>
  train-bot, the contracts of \<open>TbLimits\<close> interpreted on the store's mutations, and the properties of
  every run of mutations: the limits per window, the spacing of reports, and the votes as a map.
\<close>

section \<open>Interpretations\<close>

text \<open>
  What the callers of the store guarantee: the train or station of a report carries no surrounding white
  space, and a vote and its event carry one time that is set. The identifier of an incident that is
  commented on is stored as it came; only the limit of its comments needs it to be trimmed.
\<close>

definition trimmed :: "string \<Rightarrow> bool" where
  "trimmed s \<longleftrightarrow> trim_space s = s"

fun proper :: "mutation \<Rightarrow> bool" where
  "proper (SubmitReportEvent _ e) = trimmed (re_train e)"
| "proper (SubmitSighting _ e) = trimmed (ss_station e)"
| "proper _ = True"

fun dated :: "mutation \<Rightarrow> bool" where
  "dated (SubmitVote _ v ev) = dated_vote v ev"
| "dated _ = True"

fun trimmed_comment :: "mutation \<Rightarrow> bool" where
  "trimmed_comment (SubmitComment _ c) = trimmed (cm_incident c)"
| "trimmed_comment _ = True"

definition vote_rows :: "tables \<Rightarrow> (int \<times> int) list" where
  "vote_rows t = map (\<lambda>r. (ve_user r, ve_at r)) (t_vote_events t)"

definition comment_rows :: "tables \<Rightarrow> (int \<times> int) list" where
  "comment_rows t = map (\<lambda>r. (cm_user r, cm_at r)) (t_comments t)"

definition incident_rows :: "tables \<Rightarrow> (string \<times> int) list" where
  "incident_rows t = map (\<lambda>r. (cm_incident r, cm_at r)) (t_comments t)"

lemma whole_windows [simp]: "whole (30 * minute)" "whole (hour)"
  by (simp_all add: whole_def sec_def duration_defs)

lemma service_policy_simps [simp]:
  "rp_cooldown (po_report (service_policies c d)) = c"
  "rp_window (po_report (service_policies c d)) = 30 * minute"
  "rp_limit (po_report (service_policies c d)) = 5"
  "po_vote (service_policies c d) = vote_mutation_policy"
  "po_comment (service_policies c d) = comment_mutation_policy"
  by (simp_all add: service_policies_def report_mutation_policy_def)

lemma row_count_actions: "row_count k (sec lo) (actions t) = count_actions k lo t"
  by (simp add: row_count_def count_actions_def)

interpretation user_actions: windowed actions "mutate (service_policies c d)" "\<lambda>_. True" "30 * minute" 5
  for c d
proof
  fix m t t'
  assume m: "mutate (service_policies c d) m t = Inr t'"
  show "mset (actions t') = mset (actions t) \<or> joins (30 * minute) 5 (actions t) (actions t')"
  proof (cases m)
    case (SubmitReportEvent db e)
    note a = report_accepted(1,2) [OF m [unfolded SubmitReportEvent mutate.simps]]
    show ?thesis
      by (rule disjI2, rule joinsI [of "re_user e" "re_at e"])
         (use a in \<open>simp add: row_count_actions\<close>, simp add: a(1), simp add: actions_def)
  next
    case (SubmitSighting db e)
    note a = sighting_accepted(1,2) [OF m [unfolded SubmitSighting mutate.simps]]
    show ?thesis
      by (rule disjI2, rule joinsI [of "ss_user e" "ss_at e"])
         (use a in \<open>simp add: row_count_actions\<close>, simp add: a(1), simp add: actions_def)
  next
    case (SubmitLocation db e)
    note a = location_accepted(1,2) [OF m [unfolded SubmitLocation mutate.simps]]
    show ?thesis
      by (rule disjI2, rule joinsI [of "lr_user e" "lr_at e"])
         (use a in \<open>simp add: row_count_actions\<close>, simp add: a(1), simp add: actions_def)
  next
    case (SubmitVote db v ev)
    then show ?thesis
      using m by (auto simp: submit_incident_vote_def actions_def Let_def split: if_splits)
  next
    case (SubmitComment db e)
    note a = comment_accepted(1) [OF m [unfolded SubmitComment mutate.simps]]
    show ?thesis by (simp add: a actions_def)
  qed
qed simp_all

text \<open>The mutations that leave the votes or the comments alone.\<close>

lemmas accepted_rows = report_accepted(1) sighting_accepted(1) location_accepted(1)

interpretation user_votes: windowed vote_rows "mutate (service_policies c d)" dated hour 20
  for c d
proof
  fix m t t'
  assume p: "dated m" and m: "mutate (service_policies c d) m t = Inr t'"
  show "mset (vote_rows t') = mset (vote_rows t) \<or> joins (hour) 20 (vote_rows t) (vote_rows t')"
  proof (cases m)
    case (SubmitVote db v ev)
    then have "submit_incident_vote db vote_mutation_policy v ev t = Inr t'" and "dated_vote v ev"
      using m p by simp_all
    note a = vote_accepted(1,2) [OF this]
    show ?thesis
      by (rule disjI2, rule joinsI [of "iv_user v" "iv_updated v"])
         (use a in \<open>simp_all add: vote_rows_def row_count_map vote_mutation_policy_def\<close>)
  qed (use m in \<open>auto simp: vote_rows_def dest: accepted_rows comment_accepted(1)\<close>)
qed simp_all

lemma vote_keeps:
  assumes "submit_incident_vote db p v ev t = Inr t'"
  shows "t_comments t' = t_comments t" "t_reports t' = t_reports t" "t_sightings t' = t_sightings t"
    "t_locations t' = t_locations t"
  using assms by (auto simp: submit_incident_vote_def Let_def split: if_splits)

interpretation user_comments: windowed comment_rows "mutate (service_policies c d)" "\<lambda>_. True" hour 10
  for c d
proof
  fix m t t'
  assume m: "mutate (service_policies c d) m t = Inr t'"
  show "mset (comment_rows t') = mset (comment_rows t) \<or>
    joins (hour) 10 (comment_rows t) (comment_rows t')"
  proof (cases m)
    case (SubmitComment db e)
    then have "submit_incident_comment db comment_mutation_policy e t = Inr t'"
      using m by simp
    note a = comment_accepted(1,2) [OF this]
    show ?thesis
      by (rule disjI2, rule joinsI [of "cm_user e" "cm_at e"])
         (use a in \<open>simp_all add: comment_rows_def row_count_map comment_mutation_policy_def\<close>)
  qed (use m in \<open>auto simp: comment_rows_def dest: accepted_rows vote_keeps\<close>)
qed simp_all

interpretation incident_comments: windowed incident_rows "mutate (service_policies c d)" trimmed_comment hour 50
  for c d
proof
  fix m t t'
  assume p: "trimmed_comment m" and m: "mutate (service_policies c d) m t = Inr t'"
  show "mset (incident_rows t') = mset (incident_rows t) \<or>
    joins (hour) 50 (incident_rows t) (incident_rows t')"
  proof (cases m)
    case (SubmitComment db e)
    then have "submit_incident_comment db comment_mutation_policy e t = Inr t'" and "trimmed (cm_incident e)"
      using m p by simp_all
    note a = comment_accepted(1,3) [OF this(1)] this(2)
    show ?thesis
      by (rule disjI2, rule joinsI [of "cm_incident e" "cm_at e"])
         (use a in \<open>simp_all add: incident_rows_def row_count_map comment_mutation_policy_def trimmed_def\<close>)
  qed (use m in \<open>auto simp: incident_rows_def dest: accepted_rows vote_keeps\<close>)
qed simp_all

text \<open>Rows as key and time, the key being what the spacing test selects by.\<close>

definition report_rows :: "tables \<Rightarrow> ((int \<times> string) \<times> int) list" where
  "report_rows t = map (\<lambda>r. ((re_user r, re_train r), re_at r)) (t_reports t)"

definition sighting_rows :: "tables \<Rightarrow> ((int \<times> string \<times> string option) \<times> int) list" where
  "sighting_rows t = map (\<lambda>r. ((ss_user r, ss_station r, ss_dest r), ss_at r)) (t_sightings t)"

definition location_rows :: "tables \<Rightarrow> ((int \<times> string \<times> string) \<times> int) list" where
  "location_rows t = map (\<lambda>r. ((lr_user r, lr_scope r, lr_subject r), lr_at r)) (t_locations t)"

interpretation report_spacing: spaced report_rows "mutate (service_policies c d)" proper c for c d
proof
  fix m t t'
  assume p: "proper m" and m: "mutate (service_policies c d) m t = Inr t'"
  show "report_rows t' = report_rows t \<or>
    (\<exists>k at'. report_rows t' = report_rows t @ [(k, sec at')] \<and>
      (\<forall>u. (k, u) \<in> set (report_rows t) \<longrightarrow> u + c \<le> at'))"
  proof (cases m)
    case (SubmitReportEvent db e)
    note a = report_accepted [OF m [unfolded SubmitReportEvent mutate.simps]]
    have "u + c \<le> re_at e" if "((re_user e, re_train e), u) \<in> set (report_rows t)" for u
      using that a(3) p SubmitReportEvent by (auto simp: report_rows_def trimmed_def)
    moreover have "report_rows t' = report_rows t @ [((re_user e, re_train e), sec (re_at e))]"
      by (simp add: a(1) report_rows_def)
    ultimately show ?thesis by blast
  qed (use m p in \<open>auto simp: report_rows_def dest: accepted_rows vote_keeps comment_accepted(1)\<close>)
qed

interpretation sighting_spacing: spaced sighting_rows "mutate (service_policies c d)" proper c for c d
proof
  fix m t t'
  assume p: "proper m" and m: "mutate (service_policies c d) m t = Inr t'"
  show "sighting_rows t' = sighting_rows t \<or>
    (\<exists>k at'. sighting_rows t' = sighting_rows t @ [(k, sec at')] \<and>
      (\<forall>u. (k, u) \<in> set (sighting_rows t) \<longrightarrow> u + c \<le> at'))"
  proof (cases m)
    case (SubmitSighting db e)
    note a = sighting_accepted [OF m [unfolded SubmitSighting mutate.simps]]
    let ?k = "(ss_user e, ss_station e, non_empty (trim_string_value (ss_dest e)))"
    have "u + c \<le> ss_at e" if "(?k, u) \<in> set (sighting_rows t)" for u
      using that a(3) p SubmitSighting by (auto simp: sighting_rows_def trimmed_def)
    moreover have "sighting_rows t' = sighting_rows t @ [(?k, sec (ss_at e))]"
      by (simp add: a(1) sighting_rows_def)
    ultimately show ?thesis by blast
  qed (use m p in \<open>auto simp: sighting_rows_def dest: accepted_rows vote_keeps comment_accepted(1)\<close>)
qed

interpretation location_spacing: spaced location_rows "mutate (service_policies c d)" proper c for c d
proof
  fix m t t'
  assume p: "proper m" and m: "mutate (service_policies c d) m t = Inr t'"
  show "location_rows t' = location_rows t \<or>
    (\<exists>k at'. location_rows t' = location_rows t @ [(k, sec at')] \<and>
      (\<forall>u. (k, u) \<in> set (location_rows t) \<longrightarrow> u + c \<le> at'))"
  proof (cases m)
    case (SubmitLocation db e)
    note a = location_accepted [OF m [unfolded SubmitLocation mutate.simps]]
    let ?k = "(lr_user e, trim_space (lr_scope e), trim_space (lr_subject e))"
    have "u + c \<le> lr_at e" if "(?k, u) \<in> set (location_rows t)" for u
      using that a(3) by (auto simp: location_rows_def)
    moreover have "location_rows t' = location_rows t @ [(?k, sec (lr_at e))]"
      by (simp add: a(1) location_rows_def)
    ultimately show ?thesis by blast
  qed (use m p in \<open>auto simp: location_rows_def dest: accepted_rows vote_keeps comment_accepted(1)\<close>)
qed

section \<open>Limits and spacing of every run\<close>

lemma no_rows [simp]:
  "actions no_tables = []" "vote_rows no_tables = []" "comment_rows no_tables = []"
  "incident_rows no_tables = []" "report_rows no_tables = []" "sighting_rows no_tables = []"
  "location_rows no_tables = []"
  by (simp_all add: no_tables_def actions_def vote_rows_def comment_rows_def incident_rows_def
      report_rows_def sighting_rows_def location_rows_def)

text \<open>What every mutation of a run keeps, the run keeps.\<close>

lemma run_bound:
  assumes kept: "\<And>m t t' k lo. m \<in> set ms \<Longrightarrow> mutate p m t = Inr t' \<Longrightarrow>
      (\<And>k lo. recorded k lo (lo + w) (rows t) \<le> n) \<Longrightarrow> recorded k lo (lo + w) (rows t') \<le> n"
    and "rows no_tables = []" "0 \<le> n"
  shows "recorded k lo (lo + w) (rows (run_mutations p ms no_tables)) \<le> n"
proof -
  let ?I = "\<lambda>t. \<forall>k lo. recorded k lo (lo + w) (rows t) \<le> n"
  have "?I no_tables" using assms(2,3) by (simp add: recorded_def)
  then have "?I (run_mutations p ms no_tables)"
    by (rule run_mutations_induct) (use kept in blast)
  then show ?thesis by blast
qed

text \<open>The spacing invariant of a run of mutations as the service issues them.\<close>

definition store_inv :: "int \<Rightarrow> tables \<Rightarrow> bool" where
  "store_inv c t \<longleftrightarrow>
     (sorted_wrt (apart (sec c)) (report_rows t) \<and> (\<forall>r \<in> set (report_rows t). whole (snd r))) \<and>
     (sorted_wrt (apart (sec c)) (sighting_rows t) \<and> (\<forall>r \<in> set (sighting_rows t). whole (snd r))) \<and>
     (sorted_wrt (apart (sec c)) (location_rows t) \<and> (\<forall>r \<in> set (location_rows t). whole (snd r)))"

lemma store_inv_step:
  assumes "proper m" "mutate (service_policies c d) m t = Inr t'" "store_inv c t"
  shows "store_inv c t'"
  using report_spacing.spacing_kept [OF assms(1,2)] sighting_spacing.spacing_kept [OF assms(1,2)]
    location_spacing.spacing_kept [OF assms(1,2)] assms(3) by (simp add: store_inv_def)

lemma store_inv_run:
  "\<forall>m \<in> set ms. proper m \<Longrightarrow> store_inv c (run_mutations (service_policies c d) ms no_tables)"
proof (rule run_mutations_induct)
  show "store_inv c no_tables"
    by (simp add: store_inv_def)
qed (use store_inv_step in blast)

text \<open>
  C16. In every run of submissions by trains, stations, areas, votes and comments, whatever their times
  and identifiers and whichever statements fail, no user has more than five accepted reports of the
  three kinds together within any thirty minutes, nor more than twenty votes or ten comments within any
  hour, provided that a vote and its event carry one time that is set, as the service makes them. No
  incident has more than fifty comments within any hour as long as the identifiers of the comments have
  no surrounding space: the code stores an identifier as it came and counts under its trimmed form.
\<close>

theorem store_limits:
  assumes "\<forall>m \<in> set ms. dated m"
  shows "let t = run_mutations (service_policies c d) ms no_tables in
    recorded u lo (lo + 30 * minute) (actions t) \<le> 5 \<and>
    recorded u lo (lo + hour) (vote_rows t) \<le> 20 \<and>
    recorded u lo (lo + hour) (comment_rows t) \<le> 10 \<and>
    ((\<forall>m \<in> set ms. trimmed_comment m) \<longrightarrow> recorded i lo (lo + hour) (incident_rows t) \<le> 50)"
  unfolding Let_def
proof (intro conjI impI)
  let ?t = "run_mutations (service_policies c d) ms no_tables"
  show "recorded u lo (lo + 30 * minute) (actions ?t) \<le> 5"
    by (rule run_bound [where rows = actions]) (use user_actions.bound_kept in \<open>blast | simp\<close>)+
  show "recorded u lo (lo + hour) (vote_rows ?t) \<le> 20"
    by (rule run_bound [where rows = vote_rows]) (use user_votes.bound_kept assms in \<open>blast | simp\<close>)+
  show "recorded u lo (lo + hour) (comment_rows ?t) \<le> 10"
    by (rule run_bound [where rows = comment_rows]) (use user_comments.bound_kept in \<open>blast | simp\<close>)+
  show "recorded i lo (lo + hour) (incident_rows ?t) \<le> 50" if "\<forall>m \<in> set ms. trimmed_comment m"
    by (rule run_bound [where rows = incident_rows]) (use incident_comments.bound_kept that in \<open>blast | simp\<close>)+
qed

text \<open>
  C28. The accepted reports of a user on a train lie the cooldown apart, in the order they were
  accepted; so do the sightings of a user at a station for a destination, and the reports of a user
  on a location. A clock that is set back admits no report early. The names of trains and stations
  carry no surrounding space, as those of the timetable; votes and comments are arbitrary.
\<close>

theorem reports_spaced:
  assumes "\<forall>m \<in> set ms. proper m" and "t = run_mutations (service_policies c d) ms no_tables"
  shows "sorted_wrt (\<lambda>r r'. re_user r = re_user r' \<and> re_train r = re_train r' \<longrightarrow> re_at r + sec c \<le> re_at r')
      (t_reports t) \<and>
    sorted_wrt (\<lambda>r r'. ss_user r = ss_user r' \<and> ss_station r = ss_station r' \<and> ss_dest r = ss_dest r' \<longrightarrow>
      ss_at r + sec c \<le> ss_at r') (t_sightings t) \<and>
    sorted_wrt (\<lambda>r r'. lr_user r = lr_user r' \<and> lr_scope r = lr_scope r' \<and> lr_subject r = lr_subject r' \<longrightarrow>
      lr_at r + sec c \<le> lr_at r') (t_locations t)"
  using store_inv_run [OF assms(1), of c d]
  by (simp add: assms(2) store_inv_def report_rows_def sighting_rows_def location_rows_def
      sorted_wrt_map apart_def)

section \<open>Votes as a map\<close>

text \<open>What the table of votes means: the last vote of each user on each incident.\<close>

definition vote_map :: "tables \<Rightarrow> string \<times> int \<Rightarrow> string option" where
  "vote_map t = (\<lambda>(i, u). map_option iv_value (find (\<lambda>r. iv_incident r = i \<and> iv_user r = u) (t_votes t)))"

text \<open>The specification: a vote replaces the value of its user and incident, nothing else does.\<close>

fun vote_effect :: "mutation \<Rightarrow> (string \<times> int \<Rightarrow> string option) \<Rightarrow> string \<times> int \<Rightarrow> string option" where
  "vote_effect (SubmitVote _ v _) f = f((iv_incident v, iv_user v) \<mapsto> iv_value v)"
| "vote_effect _ f = f"

lemma find_upsert:
  "map_option iv_value (find (\<lambda>r. iv_incident r = i \<and> iv_user r = u) (upsert_vote v rs)) =
   (if iv_incident v = i \<and> iv_user v = u then Some (iv_value v)
    else map_option iv_value (find (\<lambda>r. iv_incident r = i \<and> iv_user r = u) rs))"
  by (induction v rs rule: upsert_vote.induct) auto

lemma votes_refine_map_step:
  assumes "mutate p m t = Inr t'"
  shows "vote_map t' = vote_effect m (vote_map t)"
proof (cases m)
  case (SubmitVote db v ev)
  obtain v' where "t_votes t' = upsert_vote v' (t_votes t)" "iv_incident v' = iv_incident v"
    "iv_user v' = iv_user v" "iv_value v' = iv_value v"
    using assms SubmitVote by (auto simp: submit_incident_vote_def Let_def split: if_splits)
  then show ?thesis
    by (auto simp: SubmitVote vote_map_def find_upsert fun_eq_iff)
qed (use assms in \<open>auto simp: vote_map_def dest: accepted_rows comment_accepted(1)\<close>)

text \<open>
  C31. The table of votes refines a map from incident and user to a value: an accepted vote sets the
  value of its incident and user and no other, whether or not the user had voted, and no other
  mutation changes the map.
\<close>

theorem votes_refine_map:
  assumes "mutate p m t = Inr t'"
  shows "vote_map t' = vote_effect m (vote_map t)"
  by (rule votes_refine_map_step [OF assms])

text \<open>One row for each incident and user, so that counting rows counts users.\<close>

definition vote_keys :: "tables \<Rightarrow> (string \<times> int) list" where
  "vote_keys t = map (\<lambda>r. (iv_incident r, iv_user r)) (t_votes t)"

lemma upsert_keys:
  "distinct (map (\<lambda>r. (iv_incident r, iv_user r)) rs) \<Longrightarrow>
   distinct (map (\<lambda>r. (iv_incident r, iv_user r)) (upsert_vote v rs)) \<and>
   set (map (\<lambda>r. (iv_incident r, iv_user r)) (upsert_vote v rs)) =
     insert (iv_incident v, iv_user v) (set (map (\<lambda>r. (iv_incident r, iv_user r)) rs))"
  by (induction v rs rule: upsert_vote.induct) auto

lemma vote_keys_distinct: "distinct (vote_keys (run_mutations p ms no_tables))"
proof (rule run_mutations_induct)
  show "distinct (vote_keys no_tables)"
    by (simp add: vote_keys_def no_tables_def)
  fix m t t'
  assume d: "distinct (vote_keys t)" and m: "mutate p m t = Inr t'"
  have "t_votes t' = t_votes t \<or> (\<exists>v. t_votes t' = upsert_vote v (t_votes t))"
  proof (cases m)
    case (SubmitVote db v ev)
    then show ?thesis
      using m by (auto simp: submit_incident_vote_def Let_def split: if_splits)
  qed (use m in \<open>auto dest: accepted_rows comment_accepted(1)\<close>)
  then show "distinct (vote_keys t')"
    using d upsert_keys by (auto simp: vote_keys_def)
qed

end
