(* ===== verification/TbIncidents.thy ===== *)
theory TbIncidents
  imports TbStoreClaims
begin

text \<open>
  train-bot, incidents (workloads/train-bot/internal/reports/incidents.go): the identity of an incident,
  its place on the map, and the bundles of today's reports by incident. Two things come from outside:
  \<open>zone\<close> is the location of the instant the request carries (the date of an instant in it, and the
  start of its day), and \<open>lower\<close> is \<open>strings.ToLower\<close> on all of Unicode.
\<close>

record zone =
  z_day_key :: "int \<Rightarrow> string"
  z_day_start :: "int \<Rightarrow> int"

type_synonym lower = "string \<Rightarrow> string"

text \<open>The timetable as the store answers for it.\<close>

record timetable =
  tt_train :: "string \<Rightarrow> train option"
  tt_stops :: "string \<Rightarrow> train_stop list"
  tt_station :: "string \<Rightarrow> string option"

section \<open>Summaries and events\<close>

record incident_location =
  il_kind :: string
  il_lat :: "f64 option"
  il_lng :: "f64 option"
  il_radius :: int
  il_desc :: string

datatype map_target = TrainTarget string | StationTarget string | AreaTarget string

record vote_summary =
  vs_ongoing :: int
  vs_cleared :: int
  vs_user_value :: string

record incident_summary =
  is_id :: string
  is_scope :: string
  is_subject :: string
  is_subject_name :: string
  is_location :: "incident_location option"
  is_target :: "map_target option"
  is_report_name :: string
  is_report_at :: int
  is_activity_name :: string
  is_activity_at :: int
  is_activity_actor :: string
  is_reporter :: string
  is_comments :: int
  is_votes :: vote_summary
  is_active :: bool

record incident_event =
  ie_id :: string
  ie_kind :: string
  ie_name :: string
  ie_detail :: string
  ie_nickname :: string
  ie_at :: int

record incident_bundle =
  ib_summary :: incident_summary
  ib_events :: "incident_event list"

definition public_actor :: string where "public_actor = ''Anonymous''"
definition train_active_window :: int where "train_active_window = 15 * minute"
definition station_active_window :: int where "station_active_window = 30 * minute"

definition no_votes :: vote_summary where
  "no_votes = \<lparr>vs_ongoing = 0, vs_cleared = 0, vs_user_value = []\<rparr>"

section \<open>Identities\<close>

definition sanitize_incident_key :: "lower \<Rightarrow> string \<Rightarrow> string" where
  "sanitize_incident_key lower value =
     (let v = lower (trim_space value) in
      if v = [] then ''unknown''
      else let w = trim_char (CHR ''-'') (replace_chars (CHR 0x5C # '' /:|><'') (CHR ''-'') v)
        in if w = [] then ''unknown'' else w)"

definition train_incident_id :: "lower \<Rightarrow> string \<Rightarrow> string \<Rightarrow> string \<Rightarrow> string" where
  "train_incident_id lower train day context =
     ''train:'' @ trim_space train @ '':'' @ sanitize_incident_key lower (day @ ''-'' @ context)"

definition station_incident_id :: "lower \<Rightarrow> string \<Rightarrow> string \<Rightarrow> string \<Rightarrow> string" where
  "station_incident_id lower station day context =
     ''station:'' @ trim_space station @ '':'' @ sanitize_incident_key lower (day @ ''-'' @ context)"

definition location_incident_id :: "lower \<Rightarrow> location_report \<Rightarrow> string \<Rightarrow> string" where
  "location_incident_id lower r day =
     (if trim_space (lr_scope r) = ''area'' then area_incident_id (lr_subject r) day
      else station_incident_id lower (lr_subject r) day ''report'')"

section \<open>Where a train is\<close>

definition train_stop_pass_at :: "train_stop \<Rightarrow> int option" where
  "train_stop_pass_at s = (case st_departure s of Some t \<Rightarrow> Some t | None \<Rightarrow> st_arrival s)"

definition duration_abs :: "int \<Rightarrow> int" where
  "duration_abs d = (if d < 0 then i64 (- d) else d)"

text \<open>The loop over the stops: best so far as (identifier, name), distance, and whether it is ahead.\<close>

type_synonym best_stop = "(string \<times> string) \<times> int \<times> bool"

definition max_stop_distance :: int where "max_stop_distance = 20 * minute"

fun consider_stop :: "int \<Rightarrow> best_stop \<Rightarrow> train_stop \<Rightarrow> best_stop" where
  "consider_stop now (who, far, ahead) s =
     (case train_stop_pass_at s of
        None \<Rightarrow> (who, far, ahead)
      | Some pass \<Rightarrow>
          let d = time_sub now pass; up = (d \<le> 0); d' = duration_abs d in
          if d' > max_stop_distance then (who, far, ahead)
          else if d' < far \<or> (d' = far \<and> up \<and> \<not> ahead) then ((st_station s, st_name s), d', up)
          else (who, far, ahead))"

definition nearest_stop :: "int \<Rightarrow> train_stop list \<Rightarrow> string \<times> string" where
  "nearest_stop now stops = fst (foldl (consider_stop now) (([], []), max_stop_distance + second, False) stops)"

definition resolve_train_incident_context ::
    "lower \<Rightarrow> train option \<Rightarrow> train_stop list \<Rightarrow> int \<Rightarrow> string \<times> string" where
  "resolve_train_incident_context lower train stops now =
     (let best = nearest_stop now stops in
      if fst best \<noteq> [] then best
      else case train of
          Some tr \<Rightarrow>
            let name = trim_space (tn_from tr @ '' -> '' @ tn_to tr)
            in (''route:'' @ sanitize_incident_key lower name, name)
        | None \<Rightarrow> (''route:unknown'', ''Route''))"

definition resolve_train_incident_context_for_id ::
    "lower \<Rightarrow> string \<Rightarrow> train option \<Rightarrow> train_stop list \<Rightarrow> int \<Rightarrow> string \<times> string" where
  "resolve_train_incident_context_for_id lower train_id train stops now =
     (let c = resolve_train_incident_context lower train stops now; clean = trim_space train_id in
      if train \<noteq> None \<or> fst c \<noteq> ''route:unknown'' then c
      else if clean = [] then c
      else (''train:'' @ sanitize_incident_key lower clean, ''Train '' @ clean))"

section \<open>Sightings and locations\<close>

definition station_incident_context :: "sighting \<Rightarrow> string \<times> string" where
  "station_incident_context x =
     (let name = (if ss_dest_name x \<noteq> [] then ''Platform sighting to '' @ ss_dest_name x
                  else ''Platform sighting'');
          train = trim_string_value (ss_train x); dest = trim_string_value (ss_dest x)
      in if train \<noteq> [] then (''train:'' @ train, name)
         else if dest \<noteq> [] then (''destination:'' @ dest, name)
         else (''station'', ''Platform sighting''))"

definition train_target :: "string \<Rightarrow> map_target option" where
  "train_target train = (let t = trim_space train in if t = [] then None else Some (TrainTarget t))"

definition station_target :: "string \<Rightarrow> map_target option" where
  "station_target station = (let t = trim_space station in if t = [] then None else Some (StationTarget t))"

definition sighting_map_target :: "sighting \<Rightarrow> map_target option" where
  "sighting_map_target x =
     (case train_target (trim_string_value (ss_train x)) of
        Some t \<Rightarrow> Some t | None \<Rightarrow> station_target (ss_station x))"

definition is_area :: "location_report \<Rightarrow> bool" where
  "is_area r \<longleftrightarrow> trim_space (lr_scope r) = ''area''"

definition location_incident_scope :: "location_report \<Rightarrow> string" where
  "location_incident_scope r = (if is_area r then ''area'' else ''station'')"

definition location_incident_subject_id :: "location_report \<Rightarrow> string" where
  "location_incident_subject_id r = (if is_area r then [] else trim_space (lr_subject r))"

definition location_incident_subject_name :: "location_report \<Rightarrow> string" where
  "location_incident_subject_name r =
     (if is_area r then ''Inspection near this location''
      else if trim_space (lr_subject_name r) \<noteq> [] then trim_space (lr_subject_name r)
      else if trim_space (lr_desc r) \<noteq> [] then trim_space (lr_desc r)
      else trim_space (lr_subject r))"

definition location_report_label :: "location_report \<Rightarrow> string" where
  "location_report_label r = (if is_area r then ''Inspection near this location'' else ''Inspection at station'')"

definition location_map_target :: "location_report \<Rightarrow> string \<Rightarrow> map_target option" where
  "location_map_target r incident =
     (if is_area r then (let i = trim_space incident in if i = [] then None else Some (AreaTarget i))
      else station_target (lr_subject r))"

text \<open>\<open>math.Round(x * s) / s\<close>, where the product may overflow and half is rounded away from zero.\<close>

definition f_finite :: "rat \<Rightarrow> f64" where
  "f_finite r = (let x = round_f64 r in
     if x \<ge> 2 ^ 1024 then PInf else if x \<le> - (2 ^ 1024) then NInf else Fin x)"

definition round_away :: "rat \<Rightarrow> int" where
  "round_away r = (if r < 0 then - \<lfloor>- r + 1 / 2\<rfloor> else \<lfloor>r + 1 / 2\<rfloor>)"

fun f_scaled :: "rat \<Rightarrow> f64 \<Rightarrow> f64" where
  "f_scaled s (Fin r) = f_finite (r * s)"
| "f_scaled s x = x"

fun f_round :: "f64 \<Rightarrow> f64" where
  "f_round (Fin r) = Fin (of_int (round_away r))"
| "f_round x = x"

fun f_quotient :: "f64 \<Rightarrow> rat \<Rightarrow> f64" where
  "f_quotient (Fin r) s = f_finite (r / s)"
| "f_quotient x s = x"

definition public_area_coordinate :: "f64 option \<Rightarrow> f64 option" where
  "public_area_coordinate v = map_option (\<lambda>x. f_quotient (f_round (f_scaled 1000 x)) 1000) v"

definition incident_location_of :: "location_report \<Rightarrow> incident_location" where
  "incident_location_of r =
     (if is_area r
      then \<lparr>il_kind = ''area'', il_lat = public_area_coordinate (lr_lat r),
            il_lng = public_area_coordinate (lr_lng r),
            il_radius = (if lr_radius r < 250 then 250 else lr_radius r), il_desc = []\<rparr>
      else \<lparr>il_kind = location_incident_scope r, il_lat = lr_lat r, il_lng = lr_lng r,
            il_radius = lr_radius r, il_desc = trim_space (lr_desc r)\<rparr>)"

definition train_signal_label :: "string \<Rightarrow> string" where
  "train_signal_label signal =
     (if signal = signal_started then ''Inspection started''
      else if signal = signal_in_car then ''Inspection in carriage''
      else if signal = signal_ended then ''Inspection ended''
      else trim_space signal)"

definition vote_event_label :: "string \<Rightarrow> string" where
  "vote_event_label value =
     (if value = vote_ongoing then ''Still there''
      else if value = vote_cleared then ''Not present'' else ''Vote'')"

end
