(* ===== verification/TbBundles.thy ===== *)
theory TbBundles
  imports TbIncidents
begin

text \<open>
  train-bot, the bundles of a day's reports by incident (reports/incidents.go,
  collect...IncidentBundles, incidentBundleList, findIncidentBundle). A Go map of bundles is the list
  of its values in the order the keys were first used; \<open>deliver\<close> gives the order in which a range over
  the map delivers them, which may be any permutation. The three collectors share the loop \<open>gather\<close>;
  the locale \<open>incident_source\<close> is what a kind of report owes to it.
\<close>

section \<open>The loop\<close>

text \<open>
  The body of the loops: the bundle of the report's incident, made if it is the first, takes the event
  in. \<open>fresh\<close> is the summary of a bundle this report starts, \<open>newer\<close> what else a report that is newer
  than the last one replaces.
\<close>

definition grow :: "(incident_summary \<Rightarrow> incident_summary) \<Rightarrow> bool \<Rightarrow> incident_event \<Rightarrow> incident_bundle \<Rightarrow> incident_bundle" where
  "grow newer active ev b =
     (let s = ib_summary b;
          s1 = (if is_report_at s < ie_at ev
                then newer (s\<lparr>is_report_name := ie_name ev, is_report_at := ie_at ev,
                              is_reporter := ie_nickname ev, is_active := active\<rparr>) else s);
          s2 = (if is_activity_at s1 < ie_at ev
                then s1\<lparr>is_activity_name := ie_name ev, is_activity_at := ie_at ev,
                         is_activity_actor := ie_nickname ev\<rparr> else s1)
      in \<lparr>ib_summary = s2, ib_events = ib_events b @ [ev]\<rparr>)"

abbreviation ib_id :: "incident_bundle \<Rightarrow> string" where
  "ib_id b \<equiv> is_id (ib_summary b)"

definition absorb :: "(incident_summary \<Rightarrow> incident_summary) \<Rightarrow> incident_summary \<Rightarrow> incident_event \<Rightarrow>
    incident_bundle list \<Rightarrow> incident_bundle list" where
  "absorb newer fresh ev bs =
     (if is_id fresh \<in> set (map ib_id bs)
      then map (\<lambda>b. if ib_id b = is_id fresh then grow newer (is_active fresh) ev b else b) bs
      else bs @ [grow newer (is_active fresh) ev \<lparr>ib_summary = fresh, ib_events = []\<rparr>])"

definition gather :: "('a \<Rightarrow> incident_summary) \<Rightarrow> ('a \<Rightarrow> incident_event) \<Rightarrow>
    ('a \<Rightarrow> incident_summary \<Rightarrow> incident_summary) \<Rightarrow> 'a list \<Rightarrow> incident_bundle list" where
  "gather fresh ev newer xs = foldl (\<lambda>bs x. absorb (newer x) (fresh x) (ev x) bs) [] xs"

locale incident_source =
  fixes fresh :: "'a \<Rightarrow> incident_summary"
    and ev :: "'a \<Rightarrow> incident_event"
    and newer :: "'a \<Rightarrow> incident_summary \<Rightarrow> incident_summary"
  assumes fresh_at: "is_report_at (fresh x) = ie_at (ev x)" "is_activity_at (fresh x) = ie_at (ev x)"
    and fresh_actor: "is_reporter (fresh x) = public_actor" "is_activity_actor (fresh x) = public_actor"
    and ev_actor: "ie_nickname (ev x) = public_actor"
    and newer_id: "is_id (newer x s) = is_id s"
    and newer_at: "is_report_at (newer x s) = is_report_at s" "is_activity_at (newer x s) = is_activity_at s"
    and newer_actor: "is_reporter (newer x s) = is_reporter s"
      "is_activity_actor (newer x s) = is_activity_actor s"
begin

text \<open>What holds of a bundle made from the reports \<open>xs\<close>: it has their events, and the time of the last.\<close>

definition events_of :: "'a list \<Rightarrow> string \<Rightarrow> incident_event list" where
  "events_of xs i = map ev (filter (\<lambda>x. is_id (fresh x) = i) xs)"

definition dated :: "incident_bundle \<Rightarrow> bool" where
  "dated b \<longleftrightarrow>
     is_report_at (ib_summary b) \<in> ie_at ` set (ib_events b) \<and>
     (\<forall>e \<in> set (ib_events b). ie_at e \<le> is_report_at (ib_summary b)) \<and>
     is_activity_at (ib_summary b) = is_report_at (ib_summary b) \<and>
     is_reporter (ib_summary b) = public_actor \<and> is_activity_actor (ib_summary b) = public_actor"

definition good :: "'a list \<Rightarrow> incident_bundle \<Rightarrow> bool" where
  "good xs b \<longleftrightarrow> ib_events b = events_of xs (ib_id b) \<and> dated b"

lemma grow_id [simp]: "ib_id (grow (newer x) a e b) = ib_id b"
  by (simp add: grow_def Let_def newer_id)

lemma grow_times:
  assumes "is_activity_at (ib_summary b) = is_report_at (ib_summary b)"
    and "is_reporter (ib_summary b) = public_actor" "is_activity_actor (ib_summary b) = public_actor"
  shows "is_report_at (ib_summary (grow (newer x) a (ev x) b)) = max (is_report_at (ib_summary b)) (ie_at (ev x))"
    and "is_activity_at (ib_summary (grow (newer x) a (ev x) b)) = max (is_report_at (ib_summary b)) (ie_at (ev x))"
    and "is_reporter (ib_summary (grow (newer x) a (ev x) b)) = public_actor"
    and "is_activity_actor (ib_summary (grow (newer x) a (ev x) b)) = public_actor"
  using assms by (simp_all add: grow_def Let_def newer_at newer_actor ev_actor max_def)

lemma grow_events [simp]: "ib_events (grow n a e b) = ib_events b @ [e]"
  by (simp add: grow_def Let_def)

lemma grow_dated: "dated b \<Longrightarrow> dated (grow (newer x) a (ev x) b)"
  unfolding dated_def using grow_times [of b x a] by (auto simp: max_def)

lemma grow_good: "good xs b \<Longrightarrow> is_id (fresh x) = ib_id b \<Longrightarrow> good (xs @ [x]) (grow (newer x) a (ev x) b)"
  by (simp add: good_def grow_dated) (simp add: events_of_def)

lemma fresh_good:
  assumes "\<forall>y \<in> set xs. is_id (fresh y) \<noteq> is_id (fresh x)"
  shows "good (xs @ [x]) (grow (newer x) a (ev x) \<lparr>ib_summary = fresh x, ib_events = []\<rparr>)"
proof -
  let ?b = "\<lparr>ib_summary = fresh x, ib_events = []\<rparr>"
  have t: "is_report_at (ib_summary (grow (newer x) a (ev x) ?b)) = ie_at (ev x)"
    "is_activity_at (ib_summary (grow (newer x) a (ev x) ?b)) = ie_at (ev x)"
    "is_reporter (ib_summary (grow (newer x) a (ev x) ?b)) = public_actor"
    "is_activity_actor (ib_summary (grow (newer x) a (ev x) ?b)) = public_actor"
    using grow_times [of ?b x a] by (simp_all add: fresh_at fresh_actor)
  have "events_of xs (is_id (fresh x)) = []"
    using assms by (simp add: events_of_def filter_empty_conv)
  then show ?thesis
    unfolding good_def dated_def t by (simp add: events_of_def)
qed

lemma other_good: "good xs b \<Longrightarrow> is_id (fresh x) \<noteq> ib_id b \<Longrightarrow> good (xs @ [x]) b"
  by (simp add: good_def events_of_def)

lemma grown_good:
  "good xs b \<Longrightarrow> good (xs @ [x]) (if ib_id b = is_id (fresh x) then grow (newer x) a (ev x) b else b)"
  by (simp add: grow_good other_good)

lemma gather_good:
  "distinct (map ib_id (gather fresh ev newer xs)) \<and>
   set (map ib_id (gather fresh ev newer xs)) = (is_id \<circ> fresh) ` set xs \<and>
   (\<forall>b \<in> set (gather fresh ev newer xs). good xs b)"
proof (induction xs rule: rev_induct)
  case (snoc x xs)
  let ?bs = "gather fresh ev newer xs"
  have step: "gather fresh ev newer (xs @ [x]) = absorb (newer x) (fresh x) (ev x) ?bs"
    by (simp add: gather_def)
  show ?case
  proof (cases "is_id (fresh x) \<in> set (map ib_id ?bs)")
    case True
    let ?f = "\<lambda>b. if ib_id b = is_id (fresh x) then grow (newer x) (is_active (fresh x)) (ev x) b else b"
    have ids: "map ib_id (map ?f ?bs) = map ib_id ?bs"
      by simp
    have "\<forall>b \<in> set ?bs. good (xs @ [x]) (?f b)"
      using snoc.IH grown_good by blast
    then have good: "\<forall>b \<in> set (map ?f ?bs). good (xs @ [x]) b"
      unfolding set_map by blast
    have sets: "set (map ib_id (map ?f ?bs)) = (is_id \<circ> fresh) ` set (xs @ [x])"
      unfolding ids using snoc.IH True by auto
    have eq: "gather fresh ev newer (xs @ [x]) = map ?f ?bs"
      unfolding step absorb_def using True by simp
    have "distinct (map ib_id (map ?f ?bs))"
      unfolding ids using snoc.IH by blast
    then show ?thesis
      unfolding eq using sets good by blast
  next
    case False
    then have new: "\<forall>y \<in> set xs. is_id (fresh y) \<noteq> is_id (fresh x)"
      using snoc.IH by (metis comp_apply imageI)
    have "good (xs @ [x]) b" if "b \<in> set ?bs" for b
      using snoc.IH that False by (intro other_good) (auto simp del: o_apply)
    then show ?thesis
      using snoc.IH False fresh_good [OF new] unfolding step absorb_def by auto
  qed
qed (simp add: gather_def)

end

section \<open>The three kinds of report\<close>

definition report_occurred :: "string \<Rightarrow> string \<Rightarrow> int \<Rightarrow> incident_event" where
  "report_occurred i name time =
     \<lparr>ie_id = i, ie_kind = ''report'', ie_name = name, ie_detail = [], ie_nickname = public_actor, ie_at = time\<rparr>"

definition opened :: "string \<Rightarrow> string \<Rightarrow> string \<Rightarrow> string \<Rightarrow> incident_location option \<Rightarrow>
    map_target option \<Rightarrow> incident_event \<Rightarrow> bool \<Rightarrow> incident_summary" where
  "opened i scope subject name location target ev active =
     \<lparr>is_id = i, is_scope = scope, is_subject = subject, is_subject_name = name,
      is_location = location, is_target = target, is_report_name = ie_name ev, is_report_at = ie_at ev,
      is_activity_name = ie_name ev, is_activity_at = ie_at ev, is_activity_actor = ie_nickname ev,
      is_reporter = ie_nickname ev, is_comments = 0, is_votes = no_votes, is_active = active\<rparr>"

definition train_event :: "report_event \<Rightarrow> incident_event" where
  "train_event r = report_occurred (re_id r) (train_signal_label (re_signal r)) (re_at r)"

definition train_opened :: "zone \<Rightarrow> lower \<Rightarrow> int \<Rightarrow> train option \<Rightarrow> train_stop list \<Rightarrow> report_event \<Rightarrow> incident_summary" where
  "train_opened z lower now train stops r =
     (let c = resolve_train_incident_context_for_id lower (re_train r) train stops (re_at r) in
      opened (train_incident_id lower (re_train r) (z_day_key z (re_at r)) (fst c)) ''train'' (fst c) (snd c)
        None (train_target (re_train r)) (train_event r) (now - train_active_window < re_at r))"

definition sighting_event :: "sighting \<Rightarrow> incident_event" where
  "sighting_event x = report_occurred (ss_id x) (snd (station_incident_context x)) (ss_at x)"

definition sighting_opened :: "zone \<Rightarrow> lower \<Rightarrow> int \<Rightarrow> sighting \<Rightarrow> incident_summary" where
  "sighting_opened z lower now x =
     opened (station_incident_id lower (ss_station x) (z_day_key z (ss_at x)) (fst (station_incident_context x)))
       ''station'' (ss_station x) (ss_station_name x) None (sighting_map_target x) (sighting_event x)
       (now - station_active_window < ss_at x)"

definition location_event :: "location_report \<Rightarrow> incident_event" where
  "location_event r = report_occurred (lr_id r) (location_report_label r) (lr_at r)"

definition location_opened :: "zone \<Rightarrow> lower \<Rightarrow> int \<Rightarrow> location_report \<Rightarrow> incident_summary" where
  "location_opened z lower now r =
     (let i = location_incident_id lower r (z_day_key z (lr_at r)) in
      opened i (location_incident_scope r) (location_incident_subject_id r) (location_incident_subject_name r)
        (Some (incident_location_of r)) (location_map_target r i) (location_event r)
        (now - station_active_window < lr_at r))"

text \<open>A newer report moves a location incident, and nothing else of the others.\<close>

definition location_moved :: "location_report \<Rightarrow> incident_summary \<Rightarrow> incident_summary" where
  "location_moved r s =
     s\<lparr>is_location := Some (incident_location_of r), is_target := location_map_target r (is_id s)\<rparr>"

definition unmoved :: "'a \<Rightarrow> incident_summary \<Rightarrow> incident_summary" where
  "unmoved x s = s"

lemma opened_simps [simp]:
  "is_id (opened i sc su n l t e a) = i" "is_report_at (opened i sc su n l t e a) = ie_at e"
  "is_activity_at (opened i sc su n l t e a) = ie_at e"
  "is_reporter (opened i sc su n l t e a) = ie_nickname e"
  "is_activity_actor (opened i sc su n l t e a) = ie_nickname e"
  by (simp_all add: opened_def)

lemma report_occurred_simps [simp]:
  "ie_at (report_occurred i n t) = t" "ie_nickname (report_occurred i n t) = public_actor"
  by (simp_all add: report_occurred_def)

interpretation train_source: incident_source
  "\<lambda>r. train_opened z lower now (trains (re_train r)) (stops (re_train r)) r" train_event unmoved
  for z lower now trains stops
  by unfold_locales (simp_all add: train_opened_def train_event_def unmoved_def Let_def)

interpretation sighting_source: incident_source "sighting_opened z lower now" sighting_event unmoved
  for z lower now
  by unfold_locales (simp_all add: sighting_opened_def sighting_event_def unmoved_def)

interpretation location_source: incident_source "location_opened z lower now" location_event location_moved
  for z lower now
  by unfold_locales (simp_all add: location_opened_def location_event_def location_moved_def Let_def)

section \<open>Collecting\<close>

text \<open>
  \<open>cachedTrain\<close>, \<open>cachedTrainStops\<close>: a failed query is not cached. The loop over the reports carries
  both caches.
\<close>

definition cached :: "sql \<Rightarrow> string \<Rightarrow> (string \<Rightarrow> 'a) \<Rightarrow> (string \<Rightarrow> 'a option) \<Rightarrow> string \<Rightarrow>
    string + 'a \<times> (string \<Rightarrow> 'a option)" where
  "cached db name get cache i =
     (case cache i of
        Some x \<Rightarrow> Inr (x, cache)
      | None \<Rightarrow> (case db (name @ i) of Some e \<Rightarrow> Inl e | None \<Rightarrow> Inr (get i, cache(i \<mapsto> get i))))"

fun collect_train_loop :: "sql \<Rightarrow> timetable \<Rightarrow> zone \<Rightarrow> lower \<Rightarrow> int \<Rightarrow> report_event list \<Rightarrow>
    (string \<Rightarrow> train option option) \<Rightarrow> (string \<Rightarrow> train_stop list option) \<Rightarrow> incident_bundle list \<Rightarrow>
    string + incident_bundle list" where
  "collect_train_loop db tt z lower now [] tc sc bs = Inr bs"
| "collect_train_loop db tt z lower now (r # rs) tc sc bs =
     (case cached db ''train '' (tt_train tt) tc (re_train r) of
        Inl e \<Rightarrow> Inl e
      | Inr (train, tc') \<Rightarrow>
          (case cached db ''stops '' (tt_stops tt) sc (re_train r) of
             Inl e \<Rightarrow> Inl e
           | Inr (stops, sc') \<Rightarrow>
               collect_train_loop db tt z lower now rs tc' sc'
                 (absorb (unmoved r) (train_opened z lower now train stops r) (train_event r) bs)))"

definition incident_bundle_list ::
    "(incident_bundle list \<Rightarrow> incident_bundle list) \<Rightarrow> bool \<Rightarrow> incident_bundle list \<Rightarrow> incident_bundle list" where
  "incident_bundle_list deliver active_only items =
     sort_by (\<lambda>a b. is_activity_at (ib_summary b) < is_activity_at (ib_summary a))
       (filter (\<lambda>b. \<not> (active_only \<and> \<not> is_active (ib_summary b))) (deliver items))"

record incident_env =
  ie_db :: sql
  ie_timetable :: timetable
  ie_zone :: zone
  ie_lower :: lower
  ie_deliver :: "incident_bundle list \<Rightarrow> incident_bundle list"

abbreviation day_start :: "incident_env \<Rightarrow> int \<Rightarrow> int" where
  "day_start env now \<equiv> z_day_start (ie_zone env) now"

definition collect_train_bundles ::
    "incident_env \<Rightarrow> int \<Rightarrow> bool \<Rightarrow> tables \<Rightarrow> string + incident_bundle list" where
  "collect_train_bundles env now active_only t =
     (case ie_db env ''reports'' of
        Some e \<Rightarrow> Inl e
      | None \<Rightarrow>
          let rs = list_recent_report_events (day_start env now) 600 t in
          if rs = [] then Inr []
          else (case collect_train_loop (ie_db env) (ie_timetable env) (ie_zone env) (ie_lower env) now rs
                       (\<lambda>_. None) (\<lambda>_. None) [] of
                  Inl e \<Rightarrow> Inl e
                | Inr bs \<Rightarrow> Inr (incident_bundle_list (ie_deliver env) active_only bs)))"

definition collect_station_bundles ::
    "incident_env \<Rightarrow> int \<Rightarrow> bool \<Rightarrow> tables \<Rightarrow> string + incident_bundle list" where
  "collect_station_bundles env now active_only t =
     (case ie_db env ''sightings'' of
        Some e \<Rightarrow> Inl e
      | None \<Rightarrow>
          let xs = list_recent_station_sightings (tt_station (ie_timetable env)) (day_start env now) 600 t in
          if xs = [] then Inr []
          else Inr (incident_bundle_list (ie_deliver env) active_only
            (gather (sighting_opened (ie_zone env) (ie_lower env) now) sighting_event unmoved xs)))"

definition collect_location_bundles ::
    "incident_env \<Rightarrow> int \<Rightarrow> bool \<Rightarrow> tables \<Rightarrow> string + incident_bundle list" where
  "collect_location_bundles env now active_only t =
     (case ie_db env ''locations'' of
        Some e \<Rightarrow> Inl e
      | None \<Rightarrow>
          let xs = list_recent_location_reports (day_start env now) 600 t in
          if xs = [] then Inr []
          else Inr (incident_bundle_list (ie_deliver env) active_only
            (gather (location_opened (ie_zone env) (ie_lower env) now) location_event location_moved xs)))"

end
