(* ===== verification/TbService.thy ===== *)
theory TbService
  imports TbBundles
begin

text \<open>
  train-bot, the incident operations of the reports service (reports/incidents.go): the list of
  incidents, the detail of one, voting and commenting. A query fails by its name, as in the store.
  The workers that enrich the summaries of a list run in parallel: they work on separate entries, so
  the result is that of the sequential loop, except that any of the errors met may be the one
  returned; \<open>pick\<close> chooses it.
\<close>

datatype service_error =
    StoreFailed store_error
  | RateLimited string int
  | Refused string

definition query :: "sql \<Rightarrow> string \<Rightarrow> 'a \<Rightarrow> service_error + 'a" where
  "query db name x = (case db name of Some e \<Rightarrow> Inl (StoreFailed (DbError e)) | None \<Rightarrow> Inr x)"

definition then_do :: "'e + 'a \<Rightarrow> ('a \<Rightarrow> 'e + 'b) \<Rightarrow> 'e + 'b" where
  "then_do m f = (case m of Inl e \<Rightarrow> Inl e | Inr x \<Rightarrow> f x)"

definition as_error :: "string + 'a \<Rightarrow> service_error + 'a" where
  "as_error m = (case m of Inl e \<Rightarrow> Inl (StoreFailed (DbError e)) | Inr x \<Rightarrow> Inr x)"

section \<open>Votes and activity of an incident\<close>

definition max_incident_comments :: int where "max_incident_comments = 100"
definition max_incident_vote_events :: int where "max_incident_vote_events = 100"

definition count_vote :: "int \<Rightarrow> vote_summary \<Rightarrow> incident_vote \<Rightarrow> vote_summary" where
  "count_vote viewer s v =
     (let s1 = (if iv_value v = vote_ongoing then s\<lparr>vs_ongoing := vs_ongoing s + 1\<rparr>
                else if iv_value v = vote_cleared then s\<lparr>vs_cleared := vs_cleared s + 1\<rparr> else s)
      in if 0 < viewer \<and> iv_user v = viewer then s1\<lparr>vs_user_value := iv_value v\<rparr> else s1)"

definition vote_tally :: "int \<Rightarrow> string \<Rightarrow> tables \<Rightarrow> vote_summary" where
  "vote_tally viewer incident t = foldl (count_vote viewer) no_votes (list_incident_votes incident t)"

definition incident_vote_summary :: "sql \<Rightarrow> string \<Rightarrow> string \<Rightarrow> int \<Rightarrow> tables \<Rightarrow> service_error + vote_summary" where
  "incident_vote_summary db name incident viewer t = query db (name @ incident) (vote_tally viewer incident t)"

definition note_comment :: "int \<Rightarrow> incident_summary \<Rightarrow> comment \<Rightarrow> incident_summary" where
  "note_comment since s c =
     (if cm_at c < since then s
      else if is_activity_at s < cm_at c
      then s\<lparr>is_activity_at := cm_at c, is_activity_name := ''Comment'', is_activity_actor := cm_nickname c\<rparr>
      else s)"

definition note_vote :: "incident_summary \<Rightarrow> vote_event \<Rightarrow> incident_summary" where
  "note_vote s v =
     (if ve_value v \<noteq> vote_ongoing then s
      else if is_activity_at s < ve_at v
      then s\<lparr>is_activity_at := ve_at v, is_activity_name := vote_event_label (ve_value v),
             is_activity_actor := ve_nickname v\<rparr>
      else s)"

definition blank :: "string \<Rightarrow> bool" where
  "blank s \<longleftrightarrow> trim_space s = []"

definition enriched :: "vote_summary \<Rightarrow> comment list \<Rightarrow> vote_event list \<Rightarrow> int \<Rightarrow> incident_summary \<Rightarrow> incident_summary" where
  "enriched votes comments vote_events since s0 =
     (let s1 = s0\<lparr>is_votes := votes, is_comments := int (length comments)\<rparr>;
          s2 = (if is_activity_at s1 = zero_time then s1\<lparr>is_activity_at := is_report_at s1\<rparr> else s1);
          s3 = (if blank (is_activity_name s2) then s2\<lparr>is_activity_name := is_report_name s2\<rparr> else s2);
          s4 = (if blank (is_activity_actor s3) then s3\<lparr>is_activity_actor := is_reporter s3\<rparr> else s3);
          s5 = foldl note_vote (foldl (note_comment since) s4 comments) vote_events;
          s6 = (if \<not> blank (is_reporter s5) then s5\<lparr>is_reporter := public_actor\<rparr> else s5)
      in if \<not> blank (is_activity_actor s6) then s6\<lparr>is_activity_actor := public_actor\<rparr> else s6)"

definition enrich_incident_summary ::
    "incident_env \<Rightarrow> int \<Rightarrow> int \<Rightarrow> tables \<Rightarrow> incident_summary \<Rightarrow> service_error + incident_summary" where
  "enrich_incident_summary env viewer since t s =
     then_do (incident_vote_summary (ie_db env) ''votes '' (is_id s) viewer t) (\<lambda>votes.
       then_do (query (ie_db env) (''comments '' @ is_id s)
           (list_incident_comments (is_id s) max_incident_comments t)) (\<lambda>comments.
         then_do (query (ie_db env) (''vote events '' @ is_id s)
             (list_incident_vote_events (is_id s) since max_incident_vote_events t)) (\<lambda>events.
           Inr (enriched votes comments events since s))))"

fun errors_of :: "('e + 'a) list \<Rightarrow> 'e list" where
  "errors_of [] = []"
| "errors_of (Inl e # xs) = e # errors_of xs"
| "errors_of (Inr _ # xs) = errors_of xs"

fun values_of :: "('e + 'a) list \<Rightarrow> 'a list" where
  "values_of [] = []"
| "values_of (Inl _ # xs) = values_of xs"
| "values_of (Inr x # xs) = x # values_of xs"

definition enrich_incident_summaries ::
    "incident_env \<Rightarrow> (service_error list \<Rightarrow> service_error) \<Rightarrow> incident_bundle list \<Rightarrow> int \<Rightarrow> int \<Rightarrow> tables \<Rightarrow>
     service_error + incident_summary list" where
  "enrich_incident_summaries env pick bundles viewer since t =
     (let rs = map (\<lambda>b. enrich_incident_summary env viewer since t (ib_summary b)) bundles in
      if errors_of rs \<noteq> [] then Inl (pick (errors_of rs))
      else Inr (filter (\<lambda>s. \<not> blank (is_id s)) (values_of rs)))"

definition list_active_incidents ::
    "incident_env \<Rightarrow> (service_error list \<Rightarrow> service_error) \<Rightarrow> int \<Rightarrow> int \<Rightarrow> int \<Rightarrow> tables \<Rightarrow>
     service_error + incident_summary list" where
  "list_active_incidents env pick now viewer limit t =
     then_do (as_error (collect_train_bundles env now False t)) (\<lambda>trains.
       then_do (as_error (collect_station_bundles env now False t)) (\<lambda>stations.
         then_do (as_error (collect_location_bundles env now False t)) (\<lambda>locations.
           then_do (enrich_incident_summaries env pick (trains @ stations @ locations) viewer (day_start env now) t)
             (\<lambda>ss.
               let sorted = sort_by (\<lambda>a b. is_activity_at b < is_activity_at a) ss
               in Inr (if 0 < limit then take (nat limit) sorted else sorted)))))"

section \<open>One incident\<close>

text \<open>\<open>strings.SplitN(s, ":", 3)\<close>.\<close>

definition split3 :: "string \<Rightarrow> string list" where
  "split3 s =
     (case split_on (CHR '':'') s of
        a # b # c # rest \<Rightarrow> [a, b, join_with '':'' (c # rest)]
      | parts \<Rightarrow> parts)"

definition bundle_with :: "string \<Rightarrow> incident_bundle list \<Rightarrow> incident_bundle option" where
  "bundle_with i bs = find (\<lambda>b. ib_id b = i) bs"

definition find_incident_bundle ::
    "incident_env \<Rightarrow> string \<Rightarrow> int \<Rightarrow> tables \<Rightarrow> string + incident_bundle option" where
  "find_incident_bundle env incident now t =
     (let parts = split3 (trim_space incident) in
      if length parts < 2 then Inr None
      else if hd parts = ''train'' then
        (if length parts \<noteq> 3 then Inr None
         else then_do (collect_train_bundles env now False t) (\<lambda>bs. Inr (bundle_with incident bs)))
      else if hd parts = ''station'' then
        (if length parts \<noteq> 3 then Inr None
         else then_do (collect_station_bundles env now False t) (\<lambda>bs.
           case bundle_with incident bs of
             Some b \<Rightarrow> Inr (Some b)
           | None \<Rightarrow> then_do (collect_location_bundles env now False t) (\<lambda>ls. Inr (bundle_with incident ls))))
      else if hd parts = ''area'' then
        then_do (collect_location_bundles env now False t) (\<lambda>ls. Inr (bundle_with incident ls))
      else Inr None)"

record incident_detail_view =
  id_summary :: incident_summary
  id_events :: "incident_event list"
  id_comments :: "comment list"

definition comment_event :: "comment \<Rightarrow> incident_event" where
  "comment_event c =
     \<lparr>ie_id = cm_id c, ie_kind = ''comment'', ie_name = ''Comment'', ie_detail = cm_body c,
      ie_nickname = cm_nickname c, ie_at = cm_at c\<rparr>"

definition vote_event_event :: "vote_event \<Rightarrow> incident_event" where
  "vote_event_event v =
     \<lparr>ie_id = ve_id v, ie_kind = ''vote'', ie_name = vote_event_label (ve_value v), ie_detail = [],
      ie_nickname = public_actor, ie_at = ve_at v\<rparr>"

definition incident_detail :: "incident_env \<Rightarrow> string \<Rightarrow> int \<Rightarrow> int \<Rightarrow> tables \<Rightarrow> service_error + incident_detail_view" where
  "incident_detail env raw now viewer t =
     (let incident = trim_space raw; since = day_start env now in
      if incident = [] then Inl (Refused ''incident id is required'')
      else then_do (as_error (find_incident_bundle env incident now t)) (\<lambda>found.
        case found of
          None \<Rightarrow> Inl (Refused ''incident not found'')
        | Some b \<Rightarrow>
            then_do (enrich_incident_summary env viewer since t (ib_summary b)) (\<lambda>s.
            then_do (query (ie_db env) ''detail comments''
                (list_incident_comments incident max_incident_comments t)) (\<lambda>listed.
            then_do (query (ie_db env) ''detail vote events''
                (list_incident_vote_events incident since max_incident_vote_events t)) (\<lambda>votes.
              let comments = map (\<lambda>c. c\<lparr>cm_nickname := public_actor\<rparr>) listed;
                  events = ib_events b @ map comment_event (filter (\<lambda>c. \<not> cm_at c < since) comments) @
                    map vote_event_event (filter (\<lambda>v. ve_value v = vote_ongoing) votes)
              in Inr \<lparr>id_summary = s, id_events = newest_first ie_at events,
                      id_comments = newest_first cm_at comments\<rparr>)))))"

section \<open>Voting and commenting\<close>

fun map_incident_mutation_error :: "store_error \<Rightarrow> service_error" where
  "map_incident_mutation_error (Rejected VoteCooldown r) = RateLimited ''same_vote'' r"
| "map_incident_mutation_error (Rejected VoteActionLimit r) = RateLimited ''vote_action_limit'' hour"
| "map_incident_mutation_error (Rejected CommentActionLimit r) = RateLimited ''comment_action_limit'' hour"
| "map_incident_mutation_error (Rejected IncidentCommentLimit r) = RateLimited ''incident_comment_limit'' hour"
| "map_incident_mutation_error e = StoreFailed e"

text \<open>The result and the tables after it; \<open>i\<close> is the identifier the event gets (\<open>generateID\<close>).\<close>

definition vote_incident ::
    "incident_env \<Rightarrow> string \<Rightarrow> string \<Rightarrow> int \<Rightarrow> string \<Rightarrow> int \<Rightarrow> tables \<Rightarrow> (service_error + vote_summary) \<times> tables" where
  "vote_incident env i incident user value now t =
     (case incident_detail env incident now user t of
        Inl e \<Rightarrow> (Inl e, t)
      | Inr _ \<Rightarrow>
          let v = \<lparr>iv_incident = incident, iv_user = user, iv_nickname = generic_nickname user,
                   iv_value = value, iv_created = now, iv_updated = now\<rparr>;
              ev = \<lparr>ve_id = i, ve_incident = incident, ve_user = user, ve_nickname = generic_nickname user,
                    ve_value = value, ve_at = now\<rparr>
          in case submit_incident_vote (ie_db env) vote_mutation_policy v ev t of
               Inl e \<Rightarrow> (Inl (map_incident_mutation_error e), t)
             | Inr t' \<Rightarrow> (incident_vote_summary (ie_db env) ''tally '' incident user t', t'))"

definition add_incident_comment ::
    "incident_env \<Rightarrow> string \<Rightarrow> string \<Rightarrow> int \<Rightarrow> string \<Rightarrow> int \<Rightarrow> tables \<Rightarrow> (service_error + comment) \<times> tables" where
  "add_incident_comment env i incident user raw now t =
     (case incident_detail env incident now user t of
        Inl e \<Rightarrow> (Inl e, t)
      | Inr _ \<Rightarrow>
          let body = trim_space raw in
          if body = [] then (Inl (Refused ''comment is required''), t)
          else if 280 < rune_count body then (Inl (Refused ''comment is too long''), t)
          else
            let c = \<lparr>cm_id = i, cm_incident = incident, cm_user = user, cm_nickname = generic_nickname user,
                     cm_body = body, cm_at = now\<rparr>
            in case submit_incident_comment (ie_db env) comment_mutation_policy c t of
                 Inl e \<Rightarrow> (Inl (map_incident_mutation_error e), t)
               | Inr t' \<Rightarrow> (Inr (c\<lparr>cm_nickname := public_actor\<rparr>), t'))"

end
