(* ===== verification/TbReports.thy ===== *)
theory TbReports
  imports TbService
begin

text \<open>
  train-bot, the report operations of the reports service (reports/service.go): submitting a report of
  a train, a sighting at a station, a report of a station or of an area, and the status and timeline of
  a train. \<open>i\<close> is the identifier the event gets (\<open>generateID\<close>); the day of a new incident is that of the
  request's instant in its location.
\<close>

record 'e submit_result =
  su_accepted :: bool
  su_deduped :: bool
  su_cooldown :: int
  su_incident :: string
  su_event :: "'e option"

definition not_accepted :: "bool \<Rightarrow> int \<Rightarrow> 'e submit_result" where
  "not_accepted deduped cooldown =
     \<lparr>su_accepted = False, su_deduped = deduped, su_cooldown = cooldown, su_incident = [], su_event = None\<rparr>"

definition accepted :: "string \<Rightarrow> 'e \<Rightarrow> 'e submit_result" where
  "accepted incident e =
     \<lparr>su_accepted = True, su_deduped = False, su_cooldown = 0, su_incident = incident, su_event = Some e\<rparr>"

section \<open>Submitting\<close>

fun map_report_mutation_error :: "store_error \<Rightarrow> service_error + bool \<times> int" where
  "map_report_mutation_error (Rejected ReportDuplicate r) = Inr (True, 0)"
| "map_report_mutation_error (Rejected ReportCooldown r) = Inr (False, r)"
| "map_report_mutation_error (Rejected ReportActionLimit r) = Inl (RateLimited ''map_report_limit'' (30 * minute))"
| "map_report_mutation_error e = Inl (StoreFailed e)"

definition rejected_submit :: "store_error \<Rightarrow> service_error + 'e submit_result" where
  "rejected_submit e = then_do (map_report_mutation_error e) (\<lambda>(d, c). Inr (not_accepted d c))"

record report_settings =
  rs_cooldown :: int
  rs_dedupe :: int

abbreviation report_policy_of :: "report_settings \<Rightarrow> report_policy" where
  "report_policy_of s \<equiv> report_mutation_policy (rs_cooldown s) (rs_dedupe s)"

definition submit_report ::
    "incident_env \<Rightarrow> report_settings \<Rightarrow> string \<Rightarrow> int \<Rightarrow> string \<Rightarrow> string \<Rightarrow> int \<Rightarrow> tables \<Rightarrow>
     (service_error + report_event submit_result) \<times> tables" where
  "submit_report env s i user train signal now t =
     (let e = \<lparr>re_id = i, re_train = train, re_user = user, re_signal = signal, re_at = now\<rparr> in
      case submit_report_event (ie_db env) (report_policy_of s) e t of
        Inl err \<Rightarrow> (rejected_submit err, t)
      | Inr t' \<Rightarrow>
          (then_do (query (ie_db env) ''submitted train'' (tt_train (ie_timetable env) train)) (\<lambda>instance.
           then_do (query (ie_db env) ''submitted stops'' (tt_stops (ie_timetable env) train)) (\<lambda>stops.
             let c = resolve_train_incident_context_for_id (ie_lower env) train instance stops now
             in Inr (accepted (train_incident_id (ie_lower env) train (z_day_key (ie_zone env) now) (fst c)) e))), t'))"

definition trim_string_ptr :: "string option \<Rightarrow> string option" where
  "trim_string_ptr v = (case v of None \<Rightarrow> None | Some s \<Rightarrow> if trim_space s = [] then None else Some (trim_space s))"

definition submit_sighting ::
    "incident_env \<Rightarrow> report_settings \<Rightarrow> string \<Rightarrow> int \<Rightarrow> string \<Rightarrow> string option \<Rightarrow> string option \<Rightarrow> int \<Rightarrow>
     tables \<Rightarrow> (service_error + sighting submit_result) \<times> tables" where
  "submit_sighting env s i user station dest train now t =
     (let e = \<lparr>ss_id = i, ss_station = station, ss_station_name = [], ss_dest = trim_string_ptr dest,
               ss_dest_name = [], ss_train = trim_string_ptr train, ss_user = user, ss_at = now\<rparr> in
      case submit_station_sighting (ie_db env) (report_policy_of s) e t of
        Inl err \<Rightarrow> (rejected_submit err, t)
      | Inr t' \<Rightarrow>
          (Inr (accepted (station_incident_id (ie_lower env) station (z_day_key (ie_zone env) now)
                            (fst (station_incident_context e))) e), t'))"

definition submit_location ::
    "incident_env \<Rightarrow> report_settings \<Rightarrow> location_report \<Rightarrow> int \<Rightarrow> tables \<Rightarrow>
     (service_error + location_report submit_result) \<times> tables" where
  "submit_location env s e now t =
     (case submit_location_report (ie_db env) (report_policy_of s) e t of
        Inl err \<Rightarrow> (rejected_submit err, t)
      | Inr t' \<Rightarrow>
          (Inr (accepted (location_incident_id (ie_lower env) e (z_day_key (ie_zone env) now)) e), t'))"

record station =
  sn_id :: string
  sn_name :: string
  sn_lat :: "f64 option"
  sn_lng :: "f64 option"

definition submit_station_report ::
    "incident_env \<Rightarrow> report_settings \<Rightarrow> string \<Rightarrow> int \<Rightarrow> station \<Rightarrow> int \<Rightarrow> tables \<Rightarrow>
     (service_error + location_report submit_result) \<times> tables" where
  "submit_station_report env s i user st now t =
     (let station = trim_space (sn_id st);
          name = (if trim_space (sn_name st) = [] then station else trim_space (sn_name st))
      in if station = [] then (Inl (Refused ''station id is required''), t)
         else submit_location env s
           \<lparr>lr_id = i, lr_scope = ''station'', lr_subject = station, lr_subject_name = name,
            lr_lat = sn_lat st, lr_lng = sn_lng st, lr_radius = 0, lr_desc = ''Inspection here'',
            lr_user = user, lr_at = now\<rparr> now t)"

definition f_between :: "rat \<Rightarrow> rat \<Rightarrow> f64 \<Rightarrow> bool" where
  "f_between lo hi x \<longleftrightarrow> (case x of Fin r \<Rightarrow> lo \<le> r \<and> r \<le> hi | _ \<Rightarrow> False)"

definition valid_latitude :: "f64 \<Rightarrow> bool" where "valid_latitude = f_between (- 90) 90"
definition valid_longitude :: "f64 \<Rightarrow> bool" where "valid_longitude = f_between (- 180) 180"

definition round_coordinate :: "f64 \<Rightarrow> f64" where
  "round_coordinate x = f_quotient (f_round (f_scaled 100000 x)) 100000"

text \<open>The conversion to an integer; only finite values reach it.\<close>

definition f_int :: "f64 \<Rightarrow> int" where
  "f_int x = (case x of Fin r \<Rightarrow> round_away r | _ \<Rightarrow> 0)"

definition normalize_description :: "string \<Rightarrow> string" where
  "normalize_description v = join_with '' '' (split_fields (trim_space v))"

definition area_subject_id :: "lower \<Rightarrow> f64 \<Rightarrow> f64 \<Rightarrow> string \<Rightarrow> string" where
  "area_subject_id lower lat lng description =
     dec (f_int (f_round (f_scaled 100000 lat))) @ '','' @ dec (f_int (f_round (f_scaled 100000 lng))) @ '','' @
     sanitize_incident_key lower description"

definition area_radius :: "int \<Rightarrow> int" where
  "area_radius r = (let r1 = (if r \<le> 0 then 100 else r); r2 = (if r1 < 25 then 25 else r1)
                    in if r2 > 1000 then 1000 else r2)"

definition max_description :: nat where "max_description = 160"

definition submit_area_report ::
    "incident_env \<Rightarrow> report_settings \<Rightarrow> string \<Rightarrow> int \<Rightarrow> f64 \<Rightarrow> f64 \<Rightarrow> int \<Rightarrow> string \<Rightarrow> int \<Rightarrow> tables \<Rightarrow>
     (service_error + location_report submit_result) \<times> tables" where
  "submit_area_report env s i user latitude longitude radius raw now t =
     (if \<not> valid_latitude latitude \<or> \<not> valid_longitude longitude then (Inl (Refused ''invalid coordinates''), t)
      else let description = normalize_description raw in
        if description = [] then (Inl (Refused ''description is required''), t)
        else if max_description < rune_count description then (Inl (Refused ''description is too long''), t)
        else let lat = round_coordinate latitude; lng = round_coordinate longitude in
          submit_location env s
            \<lparr>lr_id = i, lr_scope = ''area'', lr_subject = area_subject_id (ie_lower env) lat lng description,
             lr_subject_name = description, lr_lat = Some lat, lr_lng = Some lng, lr_radius = area_radius radius,
             lr_desc = description, lr_user = user, lr_at = now\<rparr> now t)"

section \<open>Sightings shown\<close>

definition visibility_window :: int where "visibility_window = 30 * minute"

definition recent_station_sightings_by_station ::
    "incident_env \<Rightarrow> string \<Rightarrow> int \<Rightarrow> int \<Rightarrow> tables \<Rightarrow> service_error + sighting list" where
  "recent_station_sightings_by_station env station now limit t =
     query (ie_db env) ''sightings by station''
       (list_recent_station_sightings_by_station (tt_station (ie_timetable env)) station (now - visibility_window) limit t)"

definition station_sightings_by_station_since ::
    "incident_env \<Rightarrow> string \<Rightarrow> int \<Rightarrow> int \<Rightarrow> tables \<Rightarrow> service_error + sighting list" where
  "station_sightings_by_station_since env station since limit t =
     query (ie_db env) ''sightings by station''
       (list_recent_station_sightings_by_station (tt_station (ie_timetable env)) station since limit t)"

definition recent_station_sightings :: "incident_env \<Rightarrow> int \<Rightarrow> int \<Rightarrow> tables \<Rightarrow> service_error + sighting list" where
  "recent_station_sightings env now limit t =
     query (ie_db env) ''sightings''
       (list_recent_station_sightings (tt_station (ie_timetable env)) (now - visibility_window) limit t)"

definition station_sightings_since :: "incident_env \<Rightarrow> int \<Rightarrow> int \<Rightarrow> tables \<Rightarrow> service_error + sighting list" where
  "station_sightings_since env since limit t =
     query (ie_db env) ''sightings'' (list_recent_station_sightings (tt_station (ie_timetable env)) since limit t)"

definition recent_station_sightings_by_train ::
    "incident_env \<Rightarrow> string \<Rightarrow> int \<Rightarrow> int \<Rightarrow> tables \<Rightarrow> service_error + sighting list" where
  "recent_station_sightings_by_train env train now limit t =
     query (ie_db env) ''sightings by train''
       (list_recent_station_sightings_by_train (tt_station (ie_timetable env)) train (now - visibility_window) limit t)"

section \<open>Status and timeline of a train\<close>

datatype confidence = Low | Medium | High

record train_status =
  ts_state :: string
  ts_last :: "int option"
  ts_confidence :: confidence
  ts_unique :: nat

definition confidence_from :: "nat \<Rightarrow> bool \<Rightarrow> confidence" where
  "confidence_from unique stale =
     (if stale then Low else if 3 \<le> unique then High else if unique = 2 then Medium else Low)"

definition is_issue_signal :: "string \<Rightarrow> bool" where
  "is_issue_signal s \<longleftrightarrow> s = signal_started \<or> s = signal_in_car"

definition latest_of :: "int \<Rightarrow> report_event list \<Rightarrow> int" where
  "latest_of t0 rs = foldl (\<lambda>l r. if l < re_at r then re_at r else l) t0 rs"

definition status_of :: "report_event list \<Rightarrow> int \<Rightarrow> train_status" where
  "status_of rs now =
     (case rs of
        [] \<Rightarrow> \<lparr>ts_state = ''NO_REPORTS'', ts_last = None, ts_confidence = Low, ts_unique = 0\<rparr>
      | r # others \<Rightarrow>
          let latest = latest_of (re_at r) others;
              recent = filter (\<lambda>r. \<not> re_at r < now - 10 * minute) rs;
              mixed = list_ex (\<lambda>r. is_issue_signal (re_signal r)) recent \<and>
                      list_ex (\<lambda>r. re_signal r = signal_ended) recent;
              unique = length (remdups (map re_user (filter (\<lambda>r. \<not> re_at r < now - 15 * minute) rs)))
          in \<lparr>ts_state = (if mixed then ''MIXED_REPORTS'' else ''LAST_SIGHTING''), ts_last = Some latest,
              ts_confidence = confidence_from unique (15 * minute < time_sub now latest), ts_unique = unique\<rparr>)"

definition build_status :: "sql \<Rightarrow> string \<Rightarrow> int \<Rightarrow> tables \<Rightarrow> service_error + train_status" where
  "build_status db train now t =
     then_do (query db ''reports since'' (list_reports_since train (now - 24 * hour) 500 t)) (\<lambda>rs. Inr (status_of rs now))"

record timeline_event =
  te_at :: int
  te_signal :: string
  te_count :: int

definition minute_of :: "int \<Rightarrow> int" where
  "minute_of t = t div minute * minute"

fun group_report :: "report_event \<Rightarrow> timeline_event list \<Rightarrow> timeline_event list" where
  "group_report r [] = [\<lparr>te_at = minute_of (re_at r), te_signal = re_signal r, te_count = 1\<rparr>]"
| "group_report r (g # gs) =
     (if te_at g = minute_of (re_at r) \<and> te_signal g = re_signal r
      then g\<lparr>te_count := te_count g + 1\<rparr> # gs else g # group_report r gs)"

text \<open>\<open>deliver\<close> is the order in which the range over the map delivers its values.\<close>

definition timeline_of ::
    "(timeline_event list \<Rightarrow> timeline_event list) \<Rightarrow> report_event list \<Rightarrow> int \<Rightarrow> timeline_event list" where
  "timeline_of deliver rs limit =
     (let flat = newest_first te_at (deliver (foldl (\<lambda>gs r. group_report r gs) [] rs));
          n = (if limit \<le> 0 \<or> int (length flat) < limit then length flat else nat limit)
      in take n flat)"

definition recent_timeline ::
    "sql \<Rightarrow> (timeline_event list \<Rightarrow> timeline_event list) \<Rightarrow> string \<Rightarrow> int \<Rightarrow> tables \<Rightarrow>
     service_error + timeline_event list" where
  "recent_timeline db deliver train limit t =
     then_do (query db ''recent reports'' (list_recent_reports train 200 t)) (\<lambda>rs.
       Inr (if rs = [] then [] else timeline_of deliver rs limit))"

end
