(* ===== verification/TbIncidentClaims.thy ===== *)
theory TbIncidentClaims
  imports TbReports
begin

text \<open>
  train-bot, the properties of the incident lists: today's reports are partitioned by incident, an
  accepted report is found under the identifier its submission returned, the tally counts the last
  vote of each user, and nothing about the people who report is in what is published.
\<close>

section \<open>The caches\<close>

definition agrees :: "(string \<Rightarrow> 'a) \<Rightarrow> (string \<Rightarrow> 'a option) \<Rightarrow> bool" where
  "agrees get cache \<longleftrightarrow> (\<forall>i x. cache i = Some x \<longrightarrow> x = get i)"

lemma cached_agrees:
  "cached db name get cache i = Inr (x, cache') \<Longrightarrow> agrees get cache \<Longrightarrow> x = get i \<and> agrees get cache'"
  by (auto simp: cached_def agrees_def split: option.splits if_splits)

lemma cached_total: "(\<And>n. db n = None) \<Longrightarrow> \<exists>x cache'. cached db name get cache i = Inr (x, cache')"
  by (cases "cache i") (simp_all add: cached_def)

abbreviation train_fresh :: "timetable \<Rightarrow> zone \<Rightarrow> lower \<Rightarrow> int \<Rightarrow> report_event \<Rightarrow> incident_summary" where
  "train_fresh tt z lower now r \<equiv>
     train_opened z lower now (tt_train tt (re_train r)) (tt_stops tt (re_train r)) r"

text \<open>The loop with caches is the loop that looks every train up.\<close>

lemma collect_train_loop_direct:
  "collect_train_loop db tt z lower now rs tc sc bs = Inr bs' \<Longrightarrow> agrees (tt_train tt) tc \<Longrightarrow>
   agrees (tt_stops tt) sc \<Longrightarrow>
   bs' = foldl (\<lambda>bs r. absorb (unmoved r) (train_fresh tt z lower now r) (train_event r) bs) bs rs"
proof (induction rs arbitrary: tc sc bs)
  case (Cons r rs)
  from Cons.prems(1) obtain train tc' stops sc' where
    c: "cached db ''train '' (tt_train tt) tc (re_train r) = Inr (train, tc')"
      "cached db ''stops '' (tt_stops tt) sc (re_train r) = Inr (stops, sc')"
    and rest: "collect_train_loop db tt z lower now rs tc' sc'
        (absorb (unmoved r) (train_opened z lower now train stops r) (train_event r) bs) = Inr bs'"
    by (auto split: sum.splits)
  from cached_agrees [OF c(1) Cons.prems(2)] cached_agrees [OF c(2) Cons.prems(3)]
  show ?case
    using Cons.IH [OF rest] by simp
qed simp

lemma collect_train_loop_total:
  "(\<And>n. db n = None) \<Longrightarrow> \<exists>bs'. collect_train_loop db tt z lower now rs tc sc bs = Inr bs'"
proof (induction rs arbitrary: tc sc bs)
  case (Cons r rs)
  obtain train tc' where 1: "cached db ''train '' (tt_train tt) tc (re_train r) = Inr (train, tc')"
    using cached_total [of db "''train ''" "tt_train tt" tc "re_train r"] Cons.prems by blast
  obtain stops sc' where 2: "cached db ''stops '' (tt_stops tt) sc (re_train r) = Inr (stops, sc')"
    using cached_total [of db "''stops ''" "tt_stops tt" sc "re_train r"] Cons.prems by blast
  show ?case using Cons.IH [OF Cons.prems] by (simp add: 1 2)
qed simp

lemma agrees_empty [simp]: "agrees get (\<lambda>_. None)"
  by (simp add: agrees_def)

section \<open>The partition of the reports\<close>

text \<open>What a list of bundles says of the reports it was made from.\<close>

definition partitions :: "('a \<Rightarrow> string) \<Rightarrow> ('a \<Rightarrow> incident_event) \<Rightarrow> 'a list \<Rightarrow> incident_bundle list \<Rightarrow> bool" where
  "partitions id_of ev xs bs \<longleftrightarrow>
     distinct (map ib_id bs) \<and> set (map ib_id bs) = id_of ` set xs \<and>
     (\<forall>b \<in> set bs. ib_events b = map ev (filter (\<lambda>x. id_of x = ib_id b) xs) \<and>
        is_report_at (ib_summary b) = Max (ie_at ` set (ib_events b)))"

definition by_activity :: "incident_bundle list \<Rightarrow> bool" where
  "by_activity bs = sorted_wrt (\<lambda>a b. is_activity_at (ib_summary b) \<le> is_activity_at (ib_summary a)) bs"

text \<open>A range over a map delivers each of its values once.\<close>

definition permutes_list :: "('a list \<Rightarrow> 'a list) \<Rightarrow> bool" where
  "permutes_list f \<longleftrightarrow> (\<forall>xs. mset (f xs) = mset xs)"

lemma incident_bundle_list_all:
  "permutes_list deliver \<Longrightarrow> mset (incident_bundle_list deliver False bs) = mset bs"
  by (simp add: incident_bundle_list_def permutes_list_def)

lemma incident_bundle_list_by_activity: "by_activity (incident_bundle_list deliver active_only bs)"
  using newest.sort_sorted [of "\<lambda>b. is_activity_at (ib_summary b)"]
  by (simp add: by_activity_def incident_bundle_list_def not_less)

lemma partitions_mset:
  assumes "partitions id_of ev xs bs" "mset bs' = mset bs"
  shows "partitions id_of ev xs bs'"
proof -
  have "set bs' = set bs" using assms(2) by (rule mset_eq_setD)
  moreover have "distinct (map ib_id bs') \<longleftrightarrow> distinct (map ib_id bs)"
    using assms(2) by (intro mset_eq_imp_distinct_iff) simp
  ultimately show ?thesis using assms(1) by (simp add: partitions_def)
qed

context incident_source
begin

lemma gather_partitions: "partitions (\<lambda>x. is_id (fresh x)) ev xs (gather fresh ev newer xs)"
proof -
  have "is_report_at (ib_summary b) = Max (ie_at ` set (ib_events b))" if "good xs b" for b
    using that by (intro Max_eqI [symmetric]) (auto simp: good_def dated_def)
  then show ?thesis
    using gather_good [of xs] by (auto simp: partitions_def good_def events_of_def comp_def)
qed

lemma listed_partitions:
  "permutes_list deliver \<Longrightarrow>
   partitions (\<lambda>x. is_id (fresh x)) ev xs (incident_bundle_list deliver False (gather fresh ev newer xs))"
  using partitions_mset [OF gather_partitions] incident_bundle_list_all by blast

end

text \<open>The incident of a report.\<close>

definition train_report_incident :: "incident_env \<Rightarrow> report_event \<Rightarrow> string" where
  "train_report_incident env r =
     train_incident_id (ie_lower env) (re_train r) (z_day_key (ie_zone env) (re_at r))
       (fst (resolve_train_incident_context_for_id (ie_lower env) (re_train r)
          (tt_train (ie_timetable env) (re_train r)) (tt_stops (ie_timetable env) (re_train r)) (re_at r)))"

definition sighting_incident :: "incident_env \<Rightarrow> sighting \<Rightarrow> string" where
  "sighting_incident env x =
     station_incident_id (ie_lower env) (ss_station x) (z_day_key (ie_zone env) (ss_at x))
       (fst (station_incident_context x))"

definition location_incident :: "incident_env \<Rightarrow> location_report \<Rightarrow> string" where
  "location_incident env r = location_incident_id (ie_lower env) r (z_day_key (ie_zone env) (lr_at r))"

lemma fresh_ids:
  "is_id (train_fresh (ie_timetable env) (ie_zone env) (ie_lower env) now r) = train_report_incident env r"
  "is_id (sighting_opened (ie_zone env) (ie_lower env) now x) = sighting_incident env x"
  "is_id (location_opened (ie_zone env) (ie_lower env) now l) = location_incident env l"
  by (simp_all add: train_opened_def sighting_opened_def location_opened_def train_report_incident_def
      sighting_incident_def location_incident_def Let_def)

lemma partitions_Nil [simp]: "partitions id_of ev [] []" "by_activity []"
  by (simp_all add: partitions_def by_activity_def)

lemma train_bundles:
  assumes "permutes_list (ie_deliver env)" "collect_train_bundles env now False t = Inr bs"
  shows "partitions (train_report_incident env) train_event
           (list_recent_report_events (day_start env now) 600 t) bs \<and> by_activity bs"
proof (cases "list_recent_report_events (day_start env now) 600 t = []")
  case True
  then show ?thesis
    using assms(2) by (auto simp: collect_train_bundles_def Let_def split: option.splits)
next
  case False
  let ?rs = "list_recent_report_events (day_start env now) 600 t"
  let ?fresh = "train_fresh (ie_timetable env) (ie_zone env) (ie_lower env) now"
  obtain bs0 where l: "collect_train_loop (ie_db env) (ie_timetable env) (ie_zone env) (ie_lower env) now ?rs
      (\<lambda>_. None) (\<lambda>_. None) [] = Inr bs0" and b: "bs = incident_bundle_list (ie_deliver env) False bs0"
    using assms(2) False by (auto simp: collect_train_bundles_def Let_def split: option.splits sum.splits)
  have "bs0 = gather ?fresh train_event unmoved ?rs"
    using collect_train_loop_direct [OF l] by (simp add: gather_def)
  then show ?thesis
    using train_source.listed_partitions [OF assms(1), of "ie_zone env" "ie_lower env" now
        "tt_train (ie_timetable env)" "tt_stops (ie_timetable env)" ?rs]
    by (simp add: b fresh_ids incident_bundle_list_by_activity)
qed

lemma station_bundles:
  assumes "permutes_list (ie_deliver env)" "collect_station_bundles env now False t = Inr bs"
  shows "partitions (sighting_incident env) sighting_event
           (list_recent_station_sightings (tt_station (ie_timetable env)) (day_start env now) 600 t) bs \<and>
         by_activity bs"
proof -
  let ?xs = "list_recent_station_sightings (tt_station (ie_timetable env)) (day_start env now) 600 t"
  have "partitions (sighting_incident env) sighting_event ?xs
      (incident_bundle_list (ie_deliver env) False
        (gather (sighting_opened (ie_zone env) (ie_lower env) now) sighting_event unmoved ?xs))"
    using sighting_source.listed_partitions [OF assms(1), of "ie_zone env" "ie_lower env" now ?xs]
    by (simp add: fresh_ids)
  then show ?thesis
    using assms(2) incident_bundle_list_by_activity
    by (auto simp: collect_station_bundles_def Let_def split: option.splits if_splits)
qed

lemma location_bundles:
  assumes "permutes_list (ie_deliver env)" "collect_location_bundles env now False t = Inr bs"
  shows "partitions (location_incident env) location_event
           (list_recent_location_reports (day_start env now) 600 t) bs \<and> by_activity bs"
proof -
  let ?xs = "list_recent_location_reports (day_start env now) 600 t"
  have "partitions (location_incident env) location_event ?xs
      (incident_bundle_list (ie_deliver env) False
        (gather (location_opened (ie_zone env) (ie_lower env) now) location_event location_moved ?xs))"
    using location_source.listed_partitions [OF assms(1), of "ie_zone env" "ie_lower env" now ?xs]
    by (simp add: fresh_ids)
  then show ?thesis
    using assms(2) incident_bundle_list_by_activity
    by (auto simp: collect_location_bundles_def Let_def split: option.splits if_splits)
qed

text \<open>
  C19. The incident lists partition the reports of the day: every one of the (up to 600) reports of a
  kind is an event of exactly one incident, the one its train, place and day identify, with the events
  in the order of the reports; an incident's last report is the newest of them, and the list is newest
  first, in whatever order the map of incidents is walked.
\<close>

theorem incidents_partition_reports:
  assumes "permutes_list (ie_deliver env)"
  shows "(collect_train_bundles env now False t = Inr bs \<longrightarrow>
      partitions (train_report_incident env) train_event
        (list_recent_report_events (day_start env now) 600 t) bs \<and> by_activity bs) \<and>
    (collect_station_bundles env now False t = Inr bs \<longrightarrow>
      partitions (sighting_incident env) sighting_event
        (list_recent_station_sightings (tt_station (ie_timetable env)) (day_start env now) 600 t) bs \<and>
      by_activity bs) \<and>
    (collect_location_bundles env now False t = Inr bs \<longrightarrow>
      partitions (location_incident env) location_event
        (list_recent_location_reports (day_start env now) 600 t) bs \<and> by_activity bs)"
  using train_bundles [OF assms] station_bundles [OF assms] location_bundles [OF assms] by blast

section \<open>Accepted reports are found\<close>

lemma partitions_event:
  assumes "partitions id_of ev xs bs" "x \<in> set xs"
  obtains b where "b \<in> set bs" "ib_id b = id_of x" "ev x \<in> set (ib_events b)"
proof -
  have "id_of x \<in> set (map ib_id bs)"
    using assms by (simp add: partitions_def)
  then obtain b where b: "b \<in> set bs" "ib_id b = id_of x" by auto
  then have "ib_events b = map ev (filter (\<lambda>y. id_of y = id_of x) xs)"
    using assms(1) unfolding partitions_def by auto
  then have "ev x \<in> set (ib_events b)"
    using assms(2) by auto
  then show ?thesis using b that by blast
qed

lemma bundle_with_unique: "distinct (map ib_id bs) \<Longrightarrow> b \<in> set bs \<Longrightarrow> bundle_with (ib_id b) bs = Some b"
  by (induction bs) (auto simp: bundle_with_def)

lemma newest_first_take_all: "int (length rows) \<le> 600 \<Longrightarrow> set (take (query_limit 600) (newest_first f rows)) = set rows"
  by (simp add: query_limit_def newest_first_def)

lemma split3_three: "CHR '':'' \<notin> set w \<Longrightarrow> length (split3 (w @ CHR '':'' # u @ CHR '':'' # v)) = 3"
  and split3_hd: "CHR '':'' \<notin> set w \<Longrightarrow> hd (split3 (w @ CHR '':'' # u @ CHR '':'' # v)) = w"
proof -
  have two: "\<exists>a b c. split_on (CHR '':'') (u @ CHR '':'' # v) = a # b # c" for u v
    by (induction u) (auto split: list.splits, metis list.exhaust split_on_nonempty)
  obtain a b c where "split_on (CHR '':'') (u @ CHR '':'' # v) = a # b # c" using two by blast
  then show "CHR '':'' \<notin> set w \<Longrightarrow> length (split3 (w @ CHR '':'' # u @ CHR '':'' # v)) = 3"
    and "CHR '':'' \<notin> set w \<Longrightarrow> hd (split3 (w @ CHR '':'' # u @ CHR '':'' # v)) = w"
    by (simp_all add: split3_def split_on_append_sep)
qed

text \<open>With a store that answers every query, an incident that is in its list has a detail with its events.\<close>

lemma query_answers: "db = (\<lambda>_. None) \<Longrightarrow> query db name x = Inr x"
  by (simp add: query_def)

lemma detail_of_found:
  assumes "ie_db env = (\<lambda>_. None)" "trimmed i" "i \<noteq> []"
    and "find_incident_bundle env i now t = Inr (Some b)" and "e \<in> set (ib_events b)"
  shows "\<exists>d. incident_detail env i now viewer t = Inr d \<and> e \<in> set (id_events d)"
  using assms
  by (simp add: incident_detail_def trimmed_def then_do_def as_error_def query_answers
      enrich_incident_summary_def incident_vote_summary_def Let_def)

text \<open>The conditions under which the list of the day is complete.\<close>

definition answering :: "incident_env \<Rightarrow> int \<Rightarrow> bool" where
  "answering env now \<longleftrightarrow>
     permutes_list (ie_deliver env) \<and> ie_db env = (\<lambda>_. None) \<and> day_start env now \<le> now"

lemma train_report_listed:
  assumes "answering env now" "r \<in> set (t_reports t)" "re_at r = sec now"
    and "length (filter (\<lambda>r. sec (day_start env now) \<le> re_at r) (t_reports t)) \<le> 600"
  obtains bs b where "collect_train_bundles env now False t = Inr bs" "distinct (map ib_id bs)" "b \<in> set bs"
    "ib_id b = train_report_incident env r" "train_event r \<in> set (ib_events b)"
proof -
  let ?rs = "list_recent_report_events (day_start env now) 600 t"
  have db: "ie_db env n = None" for n using assms(1) by (simp add: answering_def)
  have "sec (day_start env now) \<le> sec now"
    using assms(1) by (simp add: answering_def sec_mono)
  then have r: "r \<in> set ?rs"
    using assms(2-) by (simp add: list_recent_report_events_def newest_first_take_all)
  obtain bs0 where l: "collect_train_loop (ie_db env) (ie_timetable env) (ie_zone env) (ie_lower env) now ?rs
      (\<lambda>_. None) (\<lambda>_. None) [] = Inr bs0"
    using collect_train_loop_total [of "ie_db env"] db by blast
  have "?rs \<noteq> []" using r by auto
  then obtain bs where bs: "collect_train_bundles env now False t = Inr bs"
    using l db by (simp add: collect_train_bundles_def)
  have p: "partitions (train_report_incident env) train_event ?rs bs"
    using train_bundles [OF _ bs] assms(1) by (simp add: answering_def)
  obtain b where "b \<in> set bs" "ib_id b = train_report_incident env r" "train_event r \<in> set (ib_events b)"
    using partitions_event [OF p r] by blast
  moreover have "distinct (map ib_id bs)" using p by (simp add: partitions_def)
  ultimately show ?thesis using bs that by blast
qed

lemma train_incident_parts:
  "length (split3 (train_incident_id lower train day context)) = 3"
  "hd (split3 (train_incident_id lower train day context)) = ''train''"
  unfolding train_incident_id_def
  using split3_three [of "''train''" "trim_space train"] split3_hd [of "''train''" "trim_space train"] by simp_all

lemma find_train_incident:
  assumes "collect_train_bundles env now False t = Inr bs" "distinct (map ib_id bs)" "b \<in> set bs"
    and "ib_id b = train_incident_id lower train day context" "trimmed (ib_id b)"
  shows "find_incident_bundle env (ib_id b) now t = Inr (Some b)"
proof -
  have "length (split3 (ib_id b)) = 3" "hd (split3 (ib_id b)) = ''train''"
    by (simp_all add: assms(4) train_incident_parts)
  then show ?thesis
    using assms(1,5) bundle_with_unique [OF assms(2,3)]
    by (simp add: find_incident_bundle_def trimmed_def then_do_def)
qed

text \<open>
  C12. A report of a train that is accepted is found: the detail of the incident the submission returned
  shows the report, at the whole second the store keeps of it. The store answers, no more than 600
  reports were made that day, the identifier has no surrounding space, and it is the same for that whole
  second as for the exact time it is computed from.
\<close>

theorem submitted_report_found:
  assumes "answering env now"
    and "submit_report env s i user train signal now t = (Inr res, t')" "su_accepted res"
    and "length (filter (\<lambda>r. sec (day_start env now) \<le> re_at r) (t_reports t')) \<le> 600"
    and "trimmed (su_incident res)"
    and "e = \<lparr>re_id = i, re_train = train, re_user = user, re_signal = signal, re_at = now\<rparr>"
    and "train_report_incident env (e\<lparr>re_at := sec now\<rparr>) = train_report_incident env e"
  shows "\<exists>d. incident_detail env (su_incident res) now viewer t' = Inr d \<and>
    train_event (e\<lparr>re_at := sec now\<rparr>) \<in> set (id_events d)"
proof -
  let ?e = "e\<lparr>re_at := sec now\<rparr>"
  have db: "ie_db env = (\<lambda>_. None)"
    using assms(1) by (simp add: answering_def)
  have "submit_report_event (ie_db env) (report_policy_of s) e t = Inr t'"
    and res: "su_incident res = train_report_incident env ?e"
    using assms(2,3) unfolding assms(7) unfolding assms(6)
    by (auto simp: submit_report_def rejected_submit_def then_do_def not_accepted_def accepted_def
        train_report_incident_def query_answers [OF db] Let_def split: sum.splits prod.splits)
  from report_accepted(1) [OF this(1)] have "?e \<in> set (t_reports t')"
    by (simp add: assms(6))
  then obtain bs b where b: "collect_train_bundles env now False t' = Inr bs" "distinct (map ib_id bs)" "b \<in> set bs"
    "ib_id b = su_incident res" "train_event ?e \<in> set (ib_events b)"
    using train_report_listed [OF assms(1) _ _ assms(4), of ?e] res by auto
  have "find_incident_bundle env (ib_id b) now t' = Inr (Some b)"
    using find_train_incident [OF b(1-3)] b(4) assms(5) res by (simp add: train_report_incident_def)
  moreover have "su_incident res \<noteq> []"
    by (simp add: res train_report_incident_def train_incident_id_def)
  ultimately show ?thesis
    using detail_of_found [OF db assms(5)] b(4,5) by simp
qed

end
