(* ===== verification/TbTally.thy ===== *)
theory TbTally
  imports TbPublicClaims
begin

text \<open>
  train-bot, votes on an incident: the tally of the table is the count of users by their last vote, and
  the outcomes of voting and commenting.
\<close>

section \<open>The tally\<close>

lemma find_SomeD: "find P xs = Some x \<Longrightarrow> x \<in> set xs \<and> P x"
  by (induction xs) (auto split: if_splits)

lemma no_votes_simps [simp]: "vs_ongoing no_votes = 0" "vs_cleared no_votes = 0" "vs_user_value no_votes = []"
  by (simp_all add: no_votes_def)

lemma foldl_count_vote:
  "vs_ongoing (foldl (count_vote viewer) s vs) = vs_ongoing s + int (length (filter (\<lambda>v. iv_value v = vote_ongoing) vs))"
  "vs_cleared (foldl (count_vote viewer) s vs) = vs_cleared s + int (length (filter (\<lambda>v. iv_value v = vote_cleared) vs))"
  by (induction vs arbitrary: s) (auto simp: count_vote_def Let_def vote_ongoing_def vote_cleared_def)

lemma foldl_user_value:
  "vs_user_value (foldl (count_vote viewer) s vs) =
   (if 0 < viewer then case filter (\<lambda>v. iv_user v = viewer) vs of [] \<Rightarrow> vs_user_value s | v # r \<Rightarrow> iv_value (last (v # r))
    else vs_user_value s)"
  by (induction vs arbitrary: s) (auto simp: count_vote_def Let_def split: list.split)

definition votes_on :: "string \<Rightarrow> tables \<Rightarrow> incident_vote list" where
  "votes_on i t = filter (\<lambda>r. iv_incident r = i) (t_votes t)"

lemma votes_on_users: "distinct (vote_keys t) \<Longrightarrow> distinct (map iv_user (votes_on i t))"
  unfolding vote_keys_def votes_on_def by (induction "t_votes t" arbitrary: t rule: list.induct)
    (auto simp: inj_on_def distinct_map)

lemma vote_map_row:
  assumes "distinct (vote_keys t)"
  shows "vote_map t (i, u) = Some v \<longleftrightarrow> (\<exists>r \<in> set (votes_on i t). iv_user r = u \<and> iv_value r = v)"
proof -
  have "map_option iv_value (find (\<lambda>r. iv_incident r = i \<and> iv_user r = u) rs) = Some v \<longleftrightarrow>
      (\<exists>r \<in> set rs. iv_incident r = i \<and> iv_user r = u \<and> iv_value r = v)"
    if "distinct (map (\<lambda>r. (iv_incident r, iv_user r)) rs)" for rs
    using that by (induction rs) (auto simp: image_iff)
  then show ?thesis
    using assms by (auto simp: vote_map_def votes_on_def vote_keys_def)
qed

lemma count_votes_on:
  assumes "distinct (vote_keys t)"
  shows "length (filter (\<lambda>r. iv_value r = v) (votes_on i t)) = card {u. vote_map t (i, u) = Some v}"
proof -
  let ?rs = "filter (\<lambda>r. iv_value r = v) (votes_on i t)"
  have "distinct (map iv_user ?rs)"
    using votes_on_users [OF assms] by (rule distinct_map_filter)
  then have "length ?rs = card (set (map iv_user ?rs))"
    by (metis distinct_card length_map)
  also have "set (map iv_user ?rs) = {u. vote_map t (i, u) = Some v}"
    by (auto simp: vote_map_row [OF assms])
  finally show ?thesis .
qed

lemma list_incident_votes_mset: "mset (list_incident_votes i t) = mset (votes_on (trim_space i) t)"
  by (simp add: list_incident_votes_def votes_on_def)

lemma own_vote:
  assumes "distinct (map iv_user vs)"
  shows "(case filter (\<lambda>v. iv_user v = u) vs of [] \<Rightarrow> w | v # r \<Rightarrow> iv_value (last (v # r))) =
    (case find (\<lambda>v. iv_user v = u) vs of None \<Rightarrow> w | Some v \<Rightarrow> iv_value v)"
  using assms
proof (induction vs)
  case (Cons v vs)
  then show ?case
    by (cases "iv_user v = u") (auto simp: filter_empty_conv image_iff split: list.split)
qed simp

text \<open>
  C32. In every state the store can reach, the tally of an incident counts the users by their last vote
  on it: the ongoing count is the number of users whose last accepted vote was that it is ongoing, the
  cleared count likewise, and a signed-in visitor is shown his own last vote.
\<close>

theorem tally_counts_users:
  "let t = run_mutations p ms no_tables; s = vote_tally viewer incident t; i = trim_space incident in
   vs_ongoing s = int (card {u. vote_map t (i, u) = Some vote_ongoing}) \<and>
   vs_cleared s = int (card {u. vote_map t (i, u) = Some vote_cleared}) \<and>
   vs_user_value s =
     (if viewer \<le> 0 then [] else case vote_map t (i, viewer) of None \<Rightarrow> [] | Some v \<Rightarrow> v)"
proof -
  define t where "t = run_mutations p ms no_tables"
  define i where "i = trim_space incident"
  let ?vs = "list_incident_votes incident t"
  have d: "distinct (vote_keys t)" unfolding t_def by (rule vote_keys_distinct)
  have m: "mset ?vs = mset (votes_on i t)" by (simp add: i_def list_incident_votes_mset)
  have count: "length (filter (\<lambda>r. iv_value r = v) ?vs) = card {u. vote_map t (i, u) = Some v}" for v
    using count_votes_on [OF d] m by (metis mset_filter size_mset)
  have users: "distinct (map iv_user ?vs)"
    using votes_on_users [OF d, of i] m by (metis mset_eq_imp_distinct_iff mset_map)
  have rows: "set ?vs = set (votes_on i t)" using m by (rule mset_eq_setD)
  have own: "(case find (\<lambda>v. iv_user v = viewer) ?vs of None \<Rightarrow> [] | Some v \<Rightarrow> iv_value v) =
      (case vote_map t (i, viewer) of None \<Rightarrow> [] | Some v \<Rightarrow> v)"
  proof (cases "find (\<lambda>v. iv_user v = viewer) ?vs")
    case None
    then have "vote_map t (i, viewer) \<noteq> Some v" for v
      by (auto simp: vote_map_row [OF d] find_None_iff rows)
    then have "vote_map t (i, viewer) = None" by (cases "vote_map t (i, viewer)") auto
    then show ?thesis using None by simp
  next
    case (Some v)
    have "v \<in> set ?vs" "iv_user v = viewer"
      using find_SomeD [OF Some] by simp_all
    then have "vote_map t (i, viewer) = Some (iv_value v)"
      unfolding vote_map_row [OF d] rows by blast
    then show ?thesis using Some by simp
  qed
  have "vs_ongoing (vote_tally viewer incident t) = int (card {u. vote_map t (i, u) = Some vote_ongoing})"
    "vs_cleared (vote_tally viewer incident t) = int (card {u. vote_map t (i, u) = Some vote_cleared})"
    by (simp_all add: vote_tally_def foldl_count_vote count)
  moreover have "vs_user_value (vote_tally viewer incident t) =
      (if viewer \<le> 0 then [] else case vote_map t (i, viewer) of None \<Rightarrow> [] | Some v \<Rightarrow> v)"
    using own_vote [OF users] own by (simp add: vote_tally_def foldl_user_value cong: option.case_cong)
  ultimately show ?thesis by (simp add: t_def i_def Let_def)
qed

section \<open>The outcomes of voting and commenting\<close>

lemma vote_incident_map:
  assumes "vote_incident env i incident user choice now t = (Inr s, t')"
  shows "vote_map t' = (vote_map t)((incident, user) \<mapsto> choice)"
proof -
  let ?v = "\<lparr>iv_incident = incident, iv_user = user, iv_nickname = generic_nickname user,
               iv_value = choice, iv_created = now, iv_updated = now\<rparr>"
  let ?ev = "\<lparr>ve_id = i, ve_incident = incident, ve_user = user, ve_nickname = generic_nickname user,
               ve_value = choice, ve_at = now\<rparr>"
  have "submit_incident_vote (ie_db env) vote_mutation_policy ?v ?ev t = Inr t'"
    using assms by (auto simp: vote_incident_def Let_def split: sum.splits)
  then show ?thesis
    using votes_refine_map_step [of "service_policies 1 1" "SubmitVote (ie_db env) ?v ?ev" t t'] by simp
qed

text \<open>
  A vote on an incident identifier with surrounding white space is accepted, as the incident is looked
  up by the trimmed identifier, and is counted for no incident that is looked up.
\<close>

theorem padded_vote_not_counted:
  assumes "vote_incident env i incident user choice now t = (Inr s, t')" "\<not> trimmed incident"
  shows "vote_map t' (trim_space incident, u) = vote_map t (trim_space incident, u)"
  using vote_incident_map [OF assms(1)] assms(2) by (auto simp: trimmed_def)

text \<open>
  A vote or a comment that is refused, because its incident is not found, it comes too soon or too
  often, it is empty or too long, or the store fails, leaves every table as it was; only when the tally
  cannot be read back afterwards is an error returned for a vote that was recorded. A vote that returns
  a tally has set the user's value on that incident, and the tally is that of the tables after it.
\<close>

theorem refused_changes_nothing:
  "(case vote_incident env i incident user choice now t of
      (Inl e, t') \<Rightarrow> t' = t \<or> ie_db env (''tally '' @ incident) \<noteq> None
    | (Inr s, t') \<Rightarrow> s = vote_tally user incident t' \<and>
        vote_map t' = (vote_map t)((incident, user) \<mapsto> choice)) \<and>
   (case add_incident_comment env i incident user body now t of
      (Inl e, t') \<Rightarrow> t' = t
    | (Inr c, t') \<Rightarrow> t_votes t' = t_votes t \<and> cm_body c = trim_space body \<and> cm_body c \<noteq> [] \<and>
        rune_count (cm_body c) \<le> 280 \<and> cm_nickname c = public_actor)"
proof (rule conjI)
  show "case vote_incident env i incident user choice now t of
      (Inl e, t') \<Rightarrow> t' = t \<or> ie_db env (''tally '' @ incident) \<noteq> None
    | (Inr s, t') \<Rightarrow> s = vote_tally user incident t' \<and> vote_map t' = (vote_map t)((incident, user) \<mapsto> choice)"
  proof (cases "incident_detail env incident now user t")
    case (Inr d)
    show ?thesis
    proof (cases "vote_incident env i incident user choice now t")
      case (Pair r t')
      show ?thesis
      proof (cases r)
        case (Inr s)
        then show ?thesis
          using Pair vote_incident_map [of env i incident user choice now t s t']
          by (auto simp: vote_incident_def incident_vote_summary_def query_def Let_def split: sum.splits option.splits)
      next
        case (Inl e)
        then show ?thesis
          using Pair \<open>incident_detail env incident now user t = Inr d\<close>
          by (auto simp: vote_incident_def incident_vote_summary_def query_def Let_def split: sum.splits option.splits)
      qed
    qed
  qed (simp add: vote_incident_def)
  show "case add_incident_comment env i incident user body now t of
      (Inl e, t') \<Rightarrow> t' = t
    | (Inr c, t') \<Rightarrow> t_votes t' = t_votes t \<and> cm_body c = trim_space body \<and> cm_body c \<noteq> [] \<and>
        rune_count (cm_body c) \<le> 280 \<and> cm_nickname c = public_actor"
    by (auto simp: add_incident_comment_def Let_def dest: comment_accepted(1) split: sum.split)
qed

end
