(* ===== verification/TbPrivacy.thy ===== *)
theory TbPrivacy
  imports TbTally
begin

text \<open>
  train-bot, noninterference: what a visitor without a session is shown is a function of the tables
  without the people in them. \<open>anonymous\<close> takes out of every table the user and the nickname (all that
  is left of a nickname is whether it is blank), and out of an area report everything its author wrote,
  the exact place and the subject key made of both; of that key only the hashed identifier stays.
\<close>

section \<open>The tables without people\<close>

definition label :: "string \<Rightarrow> string" where
  "label nickname = (if blank nickname then nickname else public_actor)"

definition anon_report :: "report_event \<Rightarrow> report_event" where
  "anon_report r = r\<lparr>re_user := 0\<rparr>"

definition anon_sighting :: "sighting \<Rightarrow> sighting" where
  "anon_sighting r = r\<lparr>ss_user := 0\<rparr>"

definition anon_vote :: "incident_vote \<Rightarrow> incident_vote" where
  "anon_vote v = v\<lparr>iv_user := 0, iv_nickname := []\<rparr>"

definition anon_vote_event :: "vote_event \<Rightarrow> vote_event" where
  "anon_vote_event v = v\<lparr>ve_user := 0, ve_nickname := label (ve_nickname v)\<rparr>"

definition anon_comment :: "comment \<Rightarrow> comment" where
  "anon_comment c = c\<lparr>cm_user := 0, cm_nickname := label (cm_nickname c)\<rparr>"

definition nameless :: "tables \<Rightarrow> tables" where
  "nameless t =
     \<lparr>t_reports = map anon_report (t_reports t), t_sightings = map anon_sighting (t_sightings t),
      t_locations = t_locations t, t_votes = map anon_vote (t_votes t),
      t_vote_events = map anon_vote_event (t_vote_events t), t_comments = map anon_comment (t_comments t)\<rparr>"

text \<open>A location report as a visitor may know it: for an area its rounded place, and its hashed identifier.\<close>

definition anon_location :: "location_report \<Rightarrow> location_report" where
  "anon_location r =
     (if is_area r
      then r\<lparr>lr_user := 0, lr_subject := [], lr_subject_name := [], lr_desc := [],
        lr_lat := public_area_coordinate (lr_lat r), lr_lng := public_area_coordinate (lr_lng r),
        lr_radius := (if lr_radius r < 250 then 250 else lr_radius r)\<rparr>
      else r\<lparr>lr_user := 0\<rparr>)"

definition seen_location :: "incident_env \<Rightarrow> location_report \<Rightarrow> string \<times> location_report" where
  "seen_location env r = (location_incident_id (ie_lower env) r (z_day_key (ie_zone env) (lr_at r)), anon_location r)"

definition anonymous :: "incident_env \<Rightarrow> tables \<Rightarrow> tables \<times> (string \<times> location_report) list" where
  "anonymous env t = (nameless (t\<lparr>t_locations := []\<rparr>), map (seen_location env) (t_locations t))"

text \<open>What JSON leaves of a detail: the user of a comment is not encoded.\<close>

definition encoded :: "incident_detail_view \<Rightarrow> incident_detail_view" where
  "encoded d = d\<lparr>id_comments := map (\<lambda>c. c\<lparr>cm_user := 0\<rparr>) (id_comments d)\<rparr>"

section \<open>Queries\<close>

lemma insort_by_map:
  "(\<And>a b. lt (f a) (f b) \<longleftrightarrow> lt' a b) \<Longrightarrow> insort_by lt (f x) (map f xs) = map f (insort_by lt' x xs)"
  by (induction xs) simp_all

lemma sort_by_map: "(\<And>a b. lt (f a) (f b) \<longleftrightarrow> lt' a b) \<Longrightarrow> sort_by lt (map f xs) = map f (sort_by lt' xs)"
  by (induction xs) (simp_all add: insort_by_map)

lemma newest_first_map: "(\<And>x. g (f x) = h x) \<Longrightarrow> newest_first g (map f xs) = map f (newest_first h xs)"
  unfolding newest_first_def by (rule sort_by_map) simp

lemma filter_map_pred: "(\<And>x. P (f x) \<longleftrightarrow> Q x) \<Longrightarrow> filter P (map f xs) = map f (filter Q xs)"
  by (induction xs) simp_all

lemma anon_simps [simp]:
  "re_at (anon_report r) = re_at r" "ss_at (anon_sighting x) = ss_at x"
  "ss_station (anon_sighting x) = ss_station x" "ss_dest (anon_sighting x) = ss_dest x"
  "iv_incident (anon_vote v) = iv_incident v" "iv_value (anon_vote v) = iv_value v"
  "ve_at (anon_vote_event e) = ve_at e" "ve_id (anon_vote_event e) = ve_id e"
  "ve_incident (anon_vote_event e) = ve_incident e" "ve_value (anon_vote_event e) = ve_value e"
  "ve_nickname (anon_vote_event e) = label (ve_nickname e)"
  "cm_at (anon_comment c) = cm_at c" "cm_id (anon_comment c) = cm_id c" "cm_body (anon_comment c) = cm_body c"
  "cm_incident (anon_comment c) = cm_incident c" "cm_nickname (anon_comment c) = label (cm_nickname c)"
  by (simp_all add: anon_report_def anon_sighting_def anon_vote_def anon_vote_event_def
      anon_comment_def)

lemma queries_anonymous:
  "list_recent_report_events since limit (nameless t) = map anon_report (list_recent_report_events since limit t)"
  "list_recent_location_reports since limit (nameless t) = list_recent_location_reports since limit t"
  "list_incident_comments i limit (nameless t) = map anon_comment (list_incident_comments i limit t)"
  "list_incident_vote_events i since limit (nameless t) = map anon_vote_event (list_incident_vote_events i since limit t)"
proof -
  show "list_recent_report_events since limit (nameless t) = map anon_report (list_recent_report_events since limit t)"
    by (simp add: list_recent_report_events_def nameless_def take_map
        filter_map_pred [of _ anon_report "\<lambda>r. sec since \<le> re_at r"] newest_first_map [of _ anon_report re_at]
        del: filter_map)
  show "list_recent_location_reports since limit (nameless t) = list_recent_location_reports since limit t"
    by (simp add: list_recent_location_reports_def nameless_def)
  show "list_incident_comments i limit (nameless t) = map anon_comment (list_incident_comments i limit t)"
    unfolding list_incident_comments_def nameless_def tables.simps
    by (subst filter_map_pred [of _ _ "\<lambda>r. cm_incident r = trim_space i"], simp, subst sort_by_map)
       (simp_all add: take_map)
  show "list_incident_vote_events i since limit (nameless t) = map anon_vote_event (list_incident_vote_events i since limit t)"
    unfolding list_incident_vote_events_def nameless_def tables.simps
    by (subst filter_map_pred [of _ _ "\<lambda>r. ve_incident r = trim_space i \<and> sec since \<le> ve_at r"], simp,
        subst sort_by_map)
       (simp_all add: take_map)
qed

lemma list_sightings_anonymous:
  "list_recent_station_sightings name since limit (nameless t) =
   map anon_sighting (list_recent_station_sightings name since limit t)"
  unfolding list_recent_station_sightings_def nameless_def tables.simps
  by (subst filter_map_pred [of _ _ "\<lambda>r. name (ss_station r) \<noteq> None \<and> sec since \<le> ss_at r"], simp,
      subst newest_first_map [of _ _ ss_at], simp)
     (simp add: take_map comp_def, simp add: anon_sighting_def)

lemma vote_tally_anonymous: "vote_tally 0 i (nameless t) = vote_tally 0 i t"
proof -
  have count: "length (filter (\<lambda>r. iv_value r = v) (list_incident_votes i t)) =
      length (filter (\<lambda>r. iv_value r = v) (votes_on (trim_space i) t))" for v t
    using list_incident_votes_mset by (metis mset_filter size_mset)
  have "length (filter (\<lambda>r. iv_value r = v) (votes_on j (nameless t))) =
      length (filter (\<lambda>r. iv_value r = v) (votes_on j t))" for v j
    by (simp add: votes_on_def nameless_def comp_def)
  then show ?thesis
    by (intro vote_summary.equality) (simp_all add: vote_tally_def foldl_count_vote foldl_user_value count)
qed

section \<open>Collecting\<close>

lemma train_anonymous:
  "train_event (anon_report r) = train_event r" "re_train (anon_report r) = re_train r"
  "train_opened z lower now train stops (anon_report r) = train_opened z lower now train stops r"
  by (simp_all add: train_event_def anon_report_def train_opened_def)

lemma unmoved_id: "unmoved x = (\<lambda>s. s)"
  by (simp add: unmoved_def fun_eq_iff)

lemma collect_train_loop_anonymous:
  "collect_train_loop db tt z lower now (map anon_report rs) tc sc bs = collect_train_loop db tt z lower now rs tc sc bs"
  by (induction rs arbitrary: tc sc bs)
     (simp_all add: train_anonymous unmoved_id split: sum.split)

lemma gather_map:
  "(\<And>x. fresh (f x) = fresh x) \<Longrightarrow> (\<And>x. ev (f x) = ev x) \<Longrightarrow> (\<And>x s. newer (f x) s = newer x s) \<Longrightarrow>
   gather fresh ev newer (map f xs) = gather fresh ev newer xs"
proof (induction xs rule: rev_induct)
  case (snoc x xs)
  have "newer (f x) = newer x" by (rule ext) (rule snoc.prems(3))
  then show ?case using snoc by (simp add: gather_def)
qed (simp add: gather_def)

lemma sighting_anonymous:
  "sighting_event (anon_sighting x) = sighting_event x"
  "sighting_opened z lower now (anon_sighting x) = sighting_opened z lower now x"
proof -
  have c: "station_incident_context (anon_sighting x) = station_incident_context x"
    by (simp add: station_incident_context_def anon_sighting_def)
  have m: "sighting_map_target (anon_sighting x) = sighting_map_target x"
    by (simp add: sighting_map_target_def anon_sighting_def split: option.split)
  have n: "ss_id (anon_sighting x) = ss_id x" "ss_station_name (anon_sighting x) = ss_station_name x"
    by (simp_all add: anon_sighting_def)
  show e: "sighting_event (anon_sighting x) = sighting_event x"
    by (simp add: sighting_event_def c n)
  show "sighting_opened z lower now (anon_sighting x) = sighting_opened z lower now x"
    by (simp add: sighting_opened_def c m n e)
qed

lemma collect_anonymous:
  "collect_train_bundles env now a (nameless t) = collect_train_bundles env now a t"
  "collect_station_bundles env now a (nameless t) = collect_station_bundles env now a t"
  "collect_location_bundles env now a (nameless t) = collect_location_bundles env now a t"
  by (simp_all add: collect_train_bundles_def collect_station_bundles_def collect_location_bundles_def
      queries_anonymous list_sightings_anonymous collect_train_loop_anonymous gather_map sighting_anonymous
      unmoved_def Let_def split: option.split)

lemma find_anonymous: "find_incident_bundle env i now (nameless t) = find_incident_bundle env i now t"
  unfolding find_incident_bundle_def collect_anonymous ..

section \<open>Enriching\<close>

lemma label_label [simp]: "label (label n) = label n" and blank_label [simp]: "blank (label n) = blank n"
proof -
  have "trim_space public_actor = public_actor"
    by (rule trim_space_plain) (simp_all add: public_actor_def plain_char_def less_char_def)
  then have b: "\<not> blank public_actor"
    by (simp add: blank_def public_actor_def)
  then show "blank (label n) = blank n" and "label (label n) = label n"
    by (simp_all add: label_def)
qed

text \<open>
  The actor of the last activity is replaced by its label at the end, so that the loops need to agree on
  the label only.
\<close>

definition labelled :: "incident_summary \<Rightarrow> incident_summary" where
  "labelled s = s\<lparr>is_activity_actor := label (is_activity_actor s)\<rparr>"

lemma labelled_update:
  "labelled (s\<lparr>is_activity_at := a, is_activity_name := n, is_activity_actor := x\<rparr>) =
   (labelled s)\<lparr>is_activity_at := a, is_activity_name := n, is_activity_actor := label x\<rparr>"
  by (simp add: labelled_def)

lemma labelled_at: "labelled s = labelled s' \<Longrightarrow> is_activity_at s = is_activity_at s'"
  by (drule arg_cong [where f = is_activity_at]) (simp add: labelled_def)

lemma note_comment_labelled:
  "labelled s = labelled s' \<Longrightarrow> labelled (note_comment since s (anon_comment c)) = labelled (note_comment since s' c)"
  using labelled_at [of s s'] by (simp add: note_comment_def labelled_update)

lemma note_vote_labelled:
  "labelled s = labelled s' \<Longrightarrow> labelled (note_vote s (anon_vote_event v)) = labelled (note_vote s' v)"
  using labelled_at [of s s'] by (simp add: note_vote_def labelled_update)

lemma foldl_labelled:
  assumes step: "\<And>s s' x. labelled s = labelled s' \<Longrightarrow> labelled (note s (anon x)) = labelled (note s' x)"
  shows "labelled s = labelled s' \<Longrightarrow> labelled (foldl note s (map anon xs)) = labelled (foldl note s' xs)"
proof (induction xs arbitrary: s s')
  case (Cons x xs)
  then show ?case using step [of s s' x] by simp
qed simp

lemma enriched_labelled:
  "\<exists>s0. enriched votes comments events since s =
     (let l = labelled (foldl note_vote (foldl (note_comment since) s0 comments) events)
      in l\<lparr>is_reporter := label (is_reporter l)\<rparr>) \<and>
    (\<forall>cs es. enriched votes cs es since s =
     (let l = labelled (foldl note_vote (foldl (note_comment since) s0 cs) es)
      in l\<lparr>is_reporter := label (is_reporter l)\<rparr>) \<or> length cs \<noteq> length comments)"
proof -
  define s1 where "s1 = s\<lparr>is_votes := votes, is_comments := int (length comments)\<rparr>"
  define s2 where "s2 = (if is_activity_at s1 = zero_time then s1\<lparr>is_activity_at := is_report_at s1\<rparr> else s1)"
  define s3 where "s3 = (if blank (is_activity_name s2) then s2\<lparr>is_activity_name := is_report_name s2\<rparr> else s2)"
  define s4 where "s4 = (if blank (is_activity_actor s3) then s3\<lparr>is_activity_actor := is_reporter s3\<rparr> else s3)"
  have "enriched votes cs es since s =
     (let l = labelled (foldl note_vote (foldl (note_comment since) s4 cs) es)
      in l\<lparr>is_reporter := label (is_reporter l)\<rparr>)" if "length cs = length comments" for cs es
    unfolding enriched_def that Let_def s1_def [symmetric] s2_def [symmetric] s3_def [symmetric] s4_def [symmetric]
    by (simp add: labelled_def label_def)
  then show ?thesis by blast
qed

lemma enriched_anonymous:
  "enriched votes (map anon_comment comments) (map anon_vote_event events) since s = enriched votes comments events since s"
proof -
  obtain s0 where s0: "\<And>cs es. length cs = length comments \<Longrightarrow> enriched votes cs es since s =
      (let l = labelled (foldl note_vote (foldl (note_comment since) s0 cs) es)
       in l\<lparr>is_reporter := label (is_reporter l)\<rparr>)"
    using enriched_labelled by metis
  have "labelled (foldl (note_comment since) s0 (map anon_comment comments)) =
      labelled (foldl (note_comment since) s0 comments)"
    by (rule foldl_labelled) (erule note_comment_labelled, rule refl)
  then have "labelled (foldl note_vote (foldl (note_comment since) s0 (map anon_comment comments)) (map anon_vote_event events)) =
      labelled (foldl note_vote (foldl (note_comment since) s0 comments) events)"
    by (rule foldl_labelled [rotated]) (erule note_vote_labelled)
  then show ?thesis by (simp add: s0)
qed

lemma enrich_anonymous: "enrich_incident_summary env 0 since (nameless t) s = enrich_incident_summary env 0 since t s"
  by (simp add: enrich_incident_summary_def incident_vote_summary_def queries_anonymous vote_tally_anonymous
      then_do_def query_def enriched_anonymous split: option.split sum.split)

section \<open>What a visitor sees\<close>

lemma list_anonymous: "list_active_incidents env pick now 0 limit (nameless t) = list_active_incidents env pick now 0 limit t"
  unfolding list_active_incidents_def enrich_incident_summaries_def collect_anonymous enrich_anonymous ..

lemma then_do_simps: "then_do (Inl e) f = Inl e" "then_do (Inr x) f = f x"
  by (simp_all add: then_do_def)

lemma as_error_simps: "as_error (Inl e) = Inl (StoreFailed (DbError e))" "as_error (Inr x) = Inr x"
  by (simp_all add: as_error_def)

lemma comments_anonymous:
  "map comment_event (filter (\<lambda>c. \<not> cm_at c < since) (map (\<lambda>c. c\<lparr>cm_nickname := public_actor\<rparr>) (map anon_comment cs))) =
   map comment_event (filter (\<lambda>c. \<not> cm_at c < since) (map (\<lambda>c. c\<lparr>cm_nickname := public_actor\<rparr>) cs))"
  "map (\<lambda>c. c\<lparr>cm_user := 0\<rparr>) (newest_first cm_at (map (\<lambda>c. c\<lparr>cm_nickname := public_actor\<rparr>) (map anon_comment cs))) =
   map (\<lambda>c. c\<lparr>cm_user := 0\<rparr>) (newest_first cm_at (map (\<lambda>c. c\<lparr>cm_nickname := public_actor\<rparr>) cs))"
  "map vote_event_event (filter (\<lambda>v. ve_value v = vote_ongoing) (map anon_vote_event vs)) =
   map vote_event_event (filter (\<lambda>v. ve_value v = vote_ongoing) vs)"
proof -
  show "map comment_event (filter (\<lambda>c. \<not> cm_at c < since) (map (\<lambda>c. c\<lparr>cm_nickname := public_actor\<rparr>) (map anon_comment cs))) =
   map comment_event (filter (\<lambda>c. \<not> cm_at c < since) (map (\<lambda>c. c\<lparr>cm_nickname := public_actor\<rparr>) cs))"
    by (induction cs) (simp_all add: comment_event_def)
  show "map vote_event_event (filter (\<lambda>v. ve_value v = vote_ongoing) (map anon_vote_event vs)) =
   map vote_event_event (filter (\<lambda>v. ve_value v = vote_ongoing) vs)"
    by (induction vs) (simp_all add: vote_event_event_def)
  let ?p = "\<lambda>c. c\<lparr>cm_nickname := public_actor\<rparr>" and ?u = "\<lambda>c. c\<lparr>cm_user := 0\<rparr>"
  have n: "newest_first cm_at (map ?p (map anon_comment cs)) = map ?p (map anon_comment (newest_first cm_at cs))"
    "newest_first cm_at (map ?p cs) = map ?p (newest_first cm_at cs)"
    using newest_first_map [of cm_at "?p \<circ> anon_comment" cm_at cs] newest_first_map [of cm_at ?p cm_at cs]
    by (simp_all add: comp_def)
  show "map ?u (newest_first cm_at (map ?p (map anon_comment cs))) = map ?u (newest_first cm_at (map ?p cs))"
    unfolding n by (simp add: anon_comment_def)
qed

lemma detail_anonymous:
  "map_sum id encoded (incident_detail env i now 0 (nameless t)) = map_sum id encoded (incident_detail env i now 0 t)"
proof -
  have inner: "map_sum id encoded
      (then_do (query db n1 (map anon_comment cs)) (\<lambda>listed. then_do (query db n2 (map anon_vote_event vs)) (\<lambda>votes.
         let comments = map (\<lambda>c. c\<lparr>cm_nickname := public_actor\<rparr>) listed;
             events = evs @ map comment_event (filter (\<lambda>c. \<not> cm_at c < since) comments) @
               map vote_event_event (filter (\<lambda>v. ve_value v = vote_ongoing) votes)
         in Inr \<lparr>id_summary = s, id_events = newest_first ie_at events, id_comments = newest_first cm_at comments\<rparr>))) =
    map_sum id encoded
      (then_do (query db n1 cs) (\<lambda>listed. then_do (query db n2 vs) (\<lambda>votes.
         let comments = map (\<lambda>c. c\<lparr>cm_nickname := public_actor\<rparr>) listed;
             events = evs @ map comment_event (filter (\<lambda>c. \<not> cm_at c < since) comments) @
               map vote_event_event (filter (\<lambda>v. ve_value v = vote_ongoing) votes)
         in Inr \<lparr>id_summary = s, id_events = newest_first ie_at events, id_comments = newest_first cm_at comments\<rparr>)))"
    for db n1 n2 cs vs evs since s
    by (simp only: query_def then_do_def Let_def encoded_def comments_anonymous sum.case map_sum.simps
        split: option.split) (simp add: comments_anonymous [unfolded map_map])
  note d = incident_detail_def find_anonymous enrich_anonymous queries_anonymous
  show ?thesis
  proof (cases "find_incident_bundle env (trim_space i) now t")
    case (Inr found)
    show ?thesis
    proof (cases found)
      case (Some b)
      show ?thesis
      proof (cases "enrich_incident_summary env 0 (day_start env now) t (ib_summary b)")
        case e: (Inr s)
        show ?thesis
          using inner by (simp only: d Inr Some e as_error_simps then_do_simps option.case Let_def split: if_split) simp
      qed (simp add: d Inr Some as_error_simps then_do_simps Let_def)
    qed (simp add: d Inr as_error_simps then_do_simps Let_def)
  qed (simp add: d as_error_simps then_do_simps Let_def)
qed

section \<open>Locations\<close>

text \<open>What a location report contributes is read off what may be seen of it.\<close>

lemma seen_location_same:
  assumes "seen_location env r = seen_location env r'"
  shows "lr_at r = lr_at r'" "location_event r = location_event r'"
    "location_opened (ie_zone env) (ie_lower env) now r = location_opened (ie_zone env) (ie_lower env) now r'"
    "location_moved r s = location_moved r' s"
proof -
  have same: "anon_location r = anon_location r'"
    and i: "location_incident_id (ie_lower env) r (z_day_key (ie_zone env) (lr_at r)) =
      location_incident_id (ie_lower env) r' (z_day_key (ie_zone env) (lr_at r'))"
    using assms by (simp_all add: seen_location_def)
  have field: "f (anon_location r) = f (anon_location r')" for f :: "location_report \<Rightarrow> 'b" by (simp add: same)
  have area: "is_area r = is_area r'" and at': "lr_at r = lr_at r'" and "lr_id r = lr_id r'"
    using field [of lr_scope] field [of lr_at] field [of lr_id] by (simp_all add: is_area_def anon_location_def split: if_splits)
  show "lr_at r = lr_at r'" by (rule at')
  have n: "location_incident_subject_name r = location_incident_subject_name r'"
    "location_incident_subject_id r = location_incident_subject_id r'"
    "location_incident_scope r = location_incident_scope r'" "location_report_label r = location_report_label r'"
    "\<And>j. location_map_target r j = location_map_target r' j"
    using area field [of lr_subject] field [of lr_subject_name] field [of lr_desc]
    by (simp_all add: location_incident_subject_name_def location_incident_subject_id_def location_incident_scope_def
        location_report_label_def location_map_target_def anon_location_def split: if_splits)
  have l: "incident_location_of r = incident_location_of r'"
    using area n(3) field [of lr_lat] field [of lr_lng] field [of lr_radius] field [of lr_desc]
    by (simp add: incident_location_of_def anon_location_def split: if_splits)
  show e: "location_event r = location_event r'"
    using \<open>lr_id r = lr_id r'\<close> by (simp add: location_event_def n at')
  show "location_opened (ie_zone env) (ie_lower env) now r = location_opened (ie_zone env) (ie_lower env) now r'"
    using i by (simp add: location_opened_def Let_def n l e at')
  show "location_moved r s = location_moved r' s"
    by (simp add: location_moved_def n l)
qed

lemma gather_seen:
  "map (seen_location env) xs = map (seen_location env) ys \<Longrightarrow>
   gather (location_opened (ie_zone env) (ie_lower env) now) location_event location_moved xs =
   gather (location_opened (ie_zone env) (ie_lower env) now) location_event location_moved ys"
proof (induction xs arbitrary: ys rule: rev_induct)
  case (snoc x xs)
  obtain y zs where ys: "ys = zs @ [y]" using snoc.prems by (cases ys rule: rev_exhaust) auto
  then have x: "seen_location env x = seen_location env y" and xs: "map (seen_location env) xs = map (seen_location env) zs"
    using snoc.prems by simp_all
  have "location_moved x = location_moved y" using seen_location_same(4) [OF x] by blast
  with snoc.IH [OF xs] seen_location_same(2) [OF x] seen_location_same(3) [OF x, of now] show ?case
    by (simp add: ys gather_def)
qed simp

lemma list_locations_seen:
  assumes "map (seen_location env) (t_locations t) = map (seen_location env) (t_locations u)"
  shows "map (seen_location env) (list_recent_location_reports since limit t) =
    map (seen_location env) (list_recent_location_reports since limit u)"
proof -
  have at': "lr_at (snd (seen_location env r)) = lr_at r" for r by (simp add: seen_location_def anon_location_def)
  have "map (seen_location env) (list_recent_location_reports since limit v) =
      take (query_limit limit) (newest_first (\<lambda>p. lr_at (snd p))
        (filter (\<lambda>p. sec since \<le> lr_at (snd p)) (map (seen_location env) (t_locations v))))" for v
    by (simp add: list_recent_location_reports_def take_map at'
        filter_map_pred [of _ "seen_location env" "\<lambda>r. sec since \<le> lr_at r"]
        newest_first_map [of _ "seen_location env" lr_at] del: filter_map)
  then show ?thesis by (simp add: assms)
qed

lemma collect_locations_seen:
  assumes "map (seen_location env) (t_locations t) = map (seen_location env) (t_locations u)"
  shows "collect_location_bundles env now a t = collect_location_bundles env now a u"
proof -
  have m: "map (seen_location env) (list_recent_location_reports (day_start env now) 600 t) =
    map (seen_location env) (list_recent_location_reports (day_start env now) 600 u)"
    by (rule list_locations_seen [OF assms])
  then have "list_recent_location_reports (day_start env now) 600 t = [] \<longleftrightarrow>
      list_recent_location_reports (day_start env now) 600 u = []"
    by (metis map_is_Nil_conv)
  with gather_seen [OF m] show ?thesis by (simp add: collect_location_bundles_def Let_def split: option.split)
qed

text \<open>Replacing the locations by others that look the same changes nothing that is shown.\<close>

lemma moved_locations:
  assumes "map (seen_location env) (t_locations t) = map (seen_location env) L"
  shows "list_active_incidents env pick now 0 limit (t\<lparr>t_locations := L\<rparr>) = list_active_incidents env pick now 0 limit t"
    and "incident_detail env i now 0 (t\<lparr>t_locations := L\<rparr>) = incident_detail env i now 0 t"
proof -
  let ?u = "t\<lparr>t_locations := L\<rparr>"
  have r: "list_recent_report_events since n ?u = list_recent_report_events since n t"
    "list_recent_station_sightings f since n ?u = list_recent_station_sightings f since n t" for since n f
    by (simp_all add: list_recent_report_events_def list_recent_station_sightings_def)
  have c: "collect_train_bundles env now a ?u = collect_train_bundles env now a t"
    "collect_station_bundles env now a ?u = collect_station_bundles env now a t"
    "collect_location_bundles env now a ?u = collect_location_bundles env now a t" for a now
  proof -
    show "collect_train_bundles env now a ?u = collect_train_bundles env now a t"
      "collect_station_bundles env now a ?u = collect_station_bundles env now a t"
      by (simp_all only: collect_train_bundles_def collect_station_bundles_def r)
    show "collect_location_bundles env now a ?u = collect_location_bundles env now a t"
      by (rule collect_locations_seen) (simp add: assms)
  qed
  have q: "list_incident_comments j n ?u = list_incident_comments j n t"
    "list_incident_vote_events j since n ?u = list_incident_vote_events j since n t"
    "vote_tally 0 j ?u = vote_tally 0 j t" for j n since
    by (simp_all add: list_incident_comments_def list_incident_vote_events_def vote_tally_def list_incident_votes_def)
  have e: "enrich_incident_summary env 0 since ?u = enrich_incident_summary env 0 since t" for since
    by (simp add: fun_eq_iff enrich_incident_summary_def incident_vote_summary_def q)
  show "list_active_incidents env pick now 0 limit ?u = list_active_incidents env pick now 0 limit t"
    by (simp only: list_active_incidents_def enrich_incident_summaries_def c e)
  show "incident_detail env i now 0 ?u = incident_detail env i now 0 t"
    by (simp only: incident_detail_def find_incident_bundle_def c e q)
qed

text \<open>
  C13. Nobody is in what a visitor sees: two states of the tables that differ only in who reported, voted
  and commented, under which nicknames, and in what an area report says and exactly where it lies, give
  a visitor without a session the same list of incidents and the same encoded detail of every incident.
  Of an area report only its public place (rounded coordinates and radius) and its identifier, a hash of
  its subject, day and kind, have to agree.
\<close>

theorem visitor_sees_no_people:
  assumes "anonymous env t = anonymous env t'"
  shows "list_active_incidents env pick now 0 limit t = list_active_incidents env pick now 0 limit t' \<and>
    map_sum id encoded (incident_detail env i now 0 t) = map_sum id encoded (incident_detail env i now 0 t')"
proof -
  let ?u = "t\<lparr>t_locations := t_locations t'\<rparr>"
  have "map (seen_location env) (t_locations t) = map (seen_location env) (t_locations t')"
    using assms by (simp add: anonymous_def)
  note moved = moved_locations [OF this]
  have "nameless ?u = nameless t'"
    using assms by (simp add: anonymous_def nameless_def)
  then have "list_active_incidents env pick now 0 limit ?u = list_active_incidents env pick now 0 limit t'"
    "map_sum id encoded (incident_detail env i now 0 ?u) = map_sum id encoded (incident_detail env i now 0 t')"
    using list_anonymous detail_anonymous by metis+
  then show ?thesis by (simp add: moved)
qed

end
