(* ===== verification/TbStatus.thy ===== *)
theory TbStatus
  imports TbPrivacy
begin

text \<open>
  train-bot, the status and the timeline of a train (reports/service.go, BuildStatus and
  RecentTimeline): the status is what its reports say, and the timeline groups them by minute and signal.
\<close>

section \<open>Status\<close>

lemma latest_of_Max: "latest_of l rs = Max (insert l (re_at ` set rs))"
  unfolding latest_of_def
proof (induction rs arbitrary: l)
  case (Cons r rs)
  have m: "(if l < re_at r then re_at r else l) = max l (re_at r)" by simp
  have "Max (insert (max l (re_at r)) (re_at ` set rs)) = Max (insert l (re_at ` set (r # rs)))"
    by (cases "set rs = {}") (auto simp: max.assoc max.left_commute)
  then show ?case using Cons.IH unfolding m by (simp add: m)
qed simp

text \<open>The users who reported within the last quarter of an hour.\<close>

definition recent_users :: "report_event list \<Rightarrow> int \<Rightarrow> int set" where
  "recent_users rs now = {re_user r |r. r \<in> set rs \<and> now - 15 * minute \<le> re_at r}"

lemma stale_no_users:
  assumes "rs \<noteq> []" "15 * minute < time_sub now (Max (re_at ` set rs))"
  shows "recent_users rs now = {}"
proof -
  have "15 * minute < now - Max (re_at ` set rs)"
    using assms(2) by (auto simp: time_sub_def i64_min_def i64_max_def duration_defs)
  then have "re_at r < now - 15 * minute" if "r \<in> set rs" for r
  proof -
    have "re_at r \<le> Max (re_at ` set rs)" using that by (intro Max_ge) simp_all
    then show ?thesis using \<open>15 * minute < now - Max (re_at ` set rs)\<close> by linarith
  qed
  then show ?thesis by (auto simp: recent_users_def not_less [symmetric])
qed

lemma unique_reporters:
  "length (remdups (map re_user (filter (\<lambda>r. \<not> re_at r < now - 15 * minute) rs))) = card (recent_users rs now)"
  by (simp add: length_remdups_card_conv recent_users_def)
     (rule arg_cong [where f = card], auto simp: not_less)

text \<open>
  The status of a train says of its reports of the last day: the time of the newest; as unique
  reporters the number of users who reported in the last fifteen minutes, with medium confidence for two
  of them and high for three or more; and mixed exactly when the last ten minutes have both a report of
  an inspection and one of its end. Without reports it says so.
\<close>

theorem status_exact:
  assumes "build_status db train now t = Inr s"
    and "rs = list_reports_since train (now - 24 * hour) 500 t"
  shows "ts_unique s = card (recent_users rs now) \<and>
    ts_last s = (if rs = [] then None else Some (Max (re_at ` set rs))) \<and>
    ts_confidence s = (if 3 \<le> card (recent_users rs now) then High
       else if card (recent_users rs now) = 2 then Medium else Low) \<and>
    (ts_state s = ''NO_REPORTS'' \<longleftrightarrow> rs = []) \<and>
    (ts_state s = ''MIXED_REPORTS'' \<longleftrightarrow>
      (\<exists>r \<in> set rs. now - 10 * minute \<le> re_at r \<and> is_issue_signal (re_signal r)) \<and>
      (\<exists>r \<in> set rs. now - 10 * minute \<le> re_at r \<and> re_signal r = signal_ended))"
proof -
  have s: "s = status_of rs now"
    using assms by (simp add: build_status_def then_do_def query_def split: option.splits)
  show ?thesis
  proof (cases rs)
    case Nil
    then show ?thesis by (simp add: s status_of_def recent_users_def)
  next
    case (Cons r others)
    have l: "latest_of (re_at r) others = Max (re_at ` set rs)"
      by (simp add: Cons latest_of_Max)
    have u: "ts_unique s = card (recent_users rs now)"
      by (simp add: s status_of_def Cons Let_def unique_reporters [symmetric])
    have "ts_confidence s = confidence_from (card (recent_users rs now)) (15 * minute < time_sub now (Max (re_at ` set rs)))"
      using unique_reporters [of now rs] l by (simp add: s status_of_def Cons Let_def)
    then have c: "ts_confidence s = (if 3 \<le> card (recent_users rs now) then High
        else if card (recent_users rs now) = 2 then Medium else Low)"
      using stale_no_users [of rs now] Cons by (auto simp: confidence_from_def)
    have "ts_last s = Some (Max (re_at ` set rs))" "ts_state s \<noteq> ''NO_REPORTS''"
      using l by (simp_all add: s status_of_def Cons Let_def)
    moreover have "ts_state s = ''MIXED_REPORTS'' \<longleftrightarrow>
        list_ex (\<lambda>r. is_issue_signal (re_signal r)) (filter (\<lambda>r. \<not> re_at r < now - 10 * minute) rs) \<and>
        list_ex (\<lambda>r. re_signal r = signal_ended) (filter (\<lambda>r. \<not> re_at r < now - 10 * minute) rs)"
      by (simp add: s status_of_def Cons Let_def)
    ultimately show ?thesis
      using u c Cons by (auto simp: list_ex_iff not_less)
  qed
qed

section \<open>Timeline\<close>

abbreviation te_key :: "timeline_event \<Rightarrow> int \<times> string" where
  "te_key g \<equiv> (te_at g, te_signal g)"

abbreviation re_key :: "report_event \<Rightarrow> int \<times> string" where
  "re_key r \<equiv> (minute_of (re_at r), re_signal r)"

text \<open>Groups with distinct keys and the exact counts.\<close>

definition groups_of :: "report_event list \<Rightarrow> timeline_event list \<Rightarrow> bool" where
  "groups_of rs gs \<longleftrightarrow> distinct (map te_key gs) \<and> te_key ` set gs = re_key ` set rs \<and>
     (\<forall>g \<in> set gs. te_count g = int (length (filter (\<lambda>r. re_key r = te_key g) rs)))"

lemma group_report_keys:
  "te_key ` set (group_report r gs) = insert (re_key r) (te_key ` set gs)"
  by (induction r gs rule: group_report.induct) auto

lemma group_report_distinct:
  "distinct (map te_key gs) \<Longrightarrow> distinct (map te_key (group_report r gs))"
proof (induction r gs rule: group_report.induct)
  case (2 r g gs)
  have "te_key ` set (group_report r gs) = insert (re_key r) (te_key ` set gs)"
    by (rule group_report_keys)
  with 2 show ?case by auto
qed simp

definition count_of :: "int \<times> string \<Rightarrow> timeline_event list \<Rightarrow> int" where
  "count_of k gs = sum_list (map te_count (filter (\<lambda>g. te_key g = k) gs))"

lemma count_of_group_report: "count_of k (group_report r gs) = count_of k gs + (if re_key r = k then 1 else 0)"
  unfolding count_of_def by (induction r gs rule: group_report.induct) auto

lemma count_of_distinct: "distinct (map te_key gs) \<Longrightarrow> g \<in> set gs \<Longrightarrow> count_of (te_key g) gs = te_count g"
proof (induction gs)
  case (Cons h gs)
  have "filter (\<lambda>x. te_key x = te_key h) gs = []"
    using Cons.prems(1) by (auto simp: filter_empty_conv image_iff)
  moreover have "te_key h \<noteq> te_key g" if "g \<in> set gs"
    using Cons.prems(1) that by auto
  ultimately show ?case
    using Cons by (cases "g = h") (auto simp: count_of_def)
qed simp

lemma grouped: "groups_of rs (foldl (\<lambda>gs r. group_report r gs) [] rs)"
proof -
  let ?gs = "\<lambda>rs. foldl (\<lambda>gs r. group_report r gs) [] rs"
  have d: "distinct (map te_key (?gs rs))"
    by (induction rs rule: rev_induct) (simp_all add: group_report_distinct)
  have k: "te_key ` set (?gs rs) = re_key ` set rs"
    by (induction rs rule: rev_induct) (simp_all add: group_report_keys)
  have "count_of k (?gs rs) = int (length (filter (\<lambda>r. re_key r = k) rs))" for k
    by (induction rs rule: rev_induct) (simp_all add: count_of_group_report, simp add: count_of_def)
  then show ?thesis
    unfolding groups_of_def using d k count_of_distinct [OF d] by metis
qed

lemma groups_of_mset: "groups_of rs gs \<Longrightarrow> mset gs' = mset gs \<Longrightarrow> groups_of rs gs'"
proof -
  assume g: "groups_of rs gs" and m: "mset gs' = mset gs"
  have "set gs' = set gs" using m by (rule mset_eq_setD)
  moreover have "distinct (map te_key gs') \<longleftrightarrow> distinct (map te_key gs)"
    using m by (intro mset_eq_imp_distinct_iff) simp
  ultimately show ?thesis using g by (simp add: groups_of_def)
qed

lemma groups_total: "groups_of rs gs \<Longrightarrow> sum_list (map te_count gs) = int (length rs)"
proof -
  assume g: "groups_of rs gs"
  then have d: "distinct (map te_key gs)" "distinct gs"
    by (simp_all add: groups_of_def distinct_map)
  have "sum_list (map te_count gs) = (\<Sum>g\<in>set gs. int (length (filter (\<lambda>r. re_key r = te_key g) rs)))"
    using g d(2) by (simp add: sum_list_distinct_conv_sum_set groups_of_def)
  also have "\<dots> = (\<Sum>k\<in>te_key ` set gs. int (length (filter (\<lambda>r. re_key r = k) rs)))"
    using d(1) by (subst sum.reindex) (simp_all add: distinct_map)
  also have "\<dots> = int (\<Sum>k\<in>set (map re_key rs). count_list (map re_key rs) k)"
    using g by (simp add: groups_of_def count_list_eq_length_filter filter_map comp_def eq_commute)
  also have "\<dots> = int (length rs)"
    by (subst sum_count_set) simp_all
  finally show ?thesis .
qed

text \<open>
  The timeline of a train, when it is not cut off, has one entry for each minute and signal that was
  reported, with the number of its reports, newest minute first; the counts add up to the number of
  reports, in whatever order the map of groups is walked.
\<close>

theorem timeline_exact:
  assumes "permutes_list deliver" "recent_timeline db deliver train limit t = Inr gs" "limit \<le> 0"
    and "rs = list_recent_reports train 200 t"
  shows "groups_of rs gs \<and> sorted_wrt (\<lambda>a b. te_at b \<le> te_at a) gs \<and> sum_list (map te_count gs) = int (length rs)"
proof -
  let ?flat = "newest_first te_at (deliver (foldl (\<lambda>gs r. group_report r gs) [] rs))"
  have gs: "gs = (if rs = [] then [] else ?flat)"
    using assms by (auto simp: recent_timeline_def timeline_of_def then_do_def query_def Let_def split: option.splits)
  have "groups_of rs ?flat"
    using groups_of_mset [OF grouped, of ?flat rs] assms(1) by (simp add: permutes_list_def)
  then have "groups_of rs gs"
    by (simp add: gs groups_of_def)
  moreover have "sorted_wrt (\<lambda>a b. te_at b \<le> te_at a) gs"
    by (simp add: gs newest_first_sorted)
  ultimately show ?thesis using groups_total by blast
qed

end
