(* ===== verification/TbExample.thy ===== *)
theory TbExample
  imports TbStatus
begin

text \<open>
  train-bot, concrete runs: six reports of one user of which the store accepts five, a vote and its
  change of mind too soon, a report and an area report that are looked up, and a timeline.
\<close>

section \<open>A small world\<close>

definition ex_db :: sql where "ex_db = (\<lambda>_. None)"

definition ex_env :: incident_env where
  "ex_env = \<lparr>ie_db = ex_db,
     ie_timetable = \<lparr>tt_train = (\<lambda>_. None), tt_stops = (\<lambda>_. []), tt_station = (\<lambda>s. Some s)\<rparr>,
     ie_zone = \<lparr>z_day_key = (\<lambda>_. ''d1''), z_day_start = (\<lambda>_. 0)\<rparr>,
     ie_lower = to_lower, ie_deliver = (\<lambda>bs. bs)\<rparr>"

definition ex_now :: int where "ex_now = 7200 * second"

definition ex_settings :: report_settings where
  "ex_settings = \<lparr>rs_cooldown = 60 * second, rs_dedupe = 90 * second\<rparr>"

definition ex_report :: "string \<Rightarrow> int \<Rightarrow> report_event" where
  "ex_report train at' = \<lparr>re_id = ''r'', re_train = train, re_user = 7, re_signal = signal_started, re_at = at'\<rparr>"

definition ex_ms :: "mutation list" where
  "ex_ms = map (\<lambda>(train, s). SubmitReportEvent ex_db (ex_report train (s * second)))
     [(''a'', 0), (''a'', 30), (''a'', 120), (''b'', 130), (''c'', 140), (''d'', 150), (''e'', 160), (''e'', 2000)]"

definition ex_run :: tables where
  "ex_run = run_mutations (service_policies (60 * second) (90 * second)) ex_ms no_tables"

lemma ex_run_reports:
  "map (\<lambda>r. (re_train r, re_at r div second)) (t_reports ex_run) =
   [(''a'', 0), (''a'', 120), (''b'', 130), (''c'', 140), (''d'', 150), (''e'', 2000)]"
  by code_simp

lemma ex_ms_proper: "\<forall>m \<in> set ex_ms. proper m" and ex_ms_dated: "\<forall>m \<in> set ex_ms. dated m"
  by code_simp+

text \<open>The third minute is within the first half hour, which has five reports.\<close>

theorem store_limits_witness:
  "recorded 7 0 (30 * minute) (actions ex_run) \<le> 5 \<and> recorded 7 0 (30 * minute) (actions ex_run) = 5"
proof -
  have "recorded 7 0 (30 * minute) (actions ex_run) = 5"
    by code_simp
  moreover have "recorded 7 0 (0 + 30 * minute) (actions ex_run) \<le> 5"
    using store_limits [OF ex_ms_dated, of "60 * second" "90 * second" 7 0 "''i''"]
    unfolding ex_run_def [symmetric] Let_def by blast
  ultimately show ?thesis by simp
qed

theorem reports_spaced_witness:
  "re_at (t_reports ex_run ! 0) + 60 * second \<le> re_at (t_reports ex_run ! 1)"
proof -
  have "sec (60 * second) = 60 * second" "length (t_reports ex_run) = 6"
    "re_train (t_reports ex_run ! 0) = re_train (t_reports ex_run ! 1)"
    "re_user (t_reports ex_run ! 0) = re_user (t_reports ex_run ! 1)"
    by code_simp+
  moreover from reports_spaced [OF ex_ms_proper ex_run_def]
  have "sorted_wrt (\<lambda>r r'. re_user r = re_user r' \<and> re_train r = re_train r' \<longrightarrow>
      re_at r + sec (60 * second) \<le> re_at r') (t_reports ex_run)"
    by blast
  ultimately show ?thesis
    unfolding sorted_wrt_iff_nth_less by simp
qed

section \<open>Votes\<close>

definition ex_vote :: "string \<Rightarrow> int \<Rightarrow> mutation" where
  "ex_vote value at' = SubmitVote ex_db
     \<lparr>iv_incident = ''i'', iv_user = 7, iv_nickname = ''n'', iv_value = value, iv_created = at', iv_updated = at'\<rparr>
     \<lparr>ve_id = ''v'', ve_incident = ''i'', ve_user = 7, ve_nickname = ''n'', ve_value = value, ve_at = at'\<rparr>"

definition ex_voted :: tables where
  "ex_voted = after (service_policies 1 1) no_tables (ex_vote vote_ongoing ex_now)"

text \<open>A change of mind within half an hour is refused, one after it is taken.\<close>

lemma ex_vote_too_soon: "after (service_policies 1 1) ex_voted (ex_vote vote_cleared (ex_now + 29 * minute)) = ex_voted"
  by code_simp

theorem votes_refine_map_witness:
  "vote_map (after (service_policies 1 1) ex_voted (ex_vote vote_cleared (ex_now + 30 * minute))) =
   (vote_map ex_voted)((''i'', 7) \<mapsto> vote_cleared) \<and> vote_map ex_voted (''i'', 7) = Some vote_ongoing"
proof -
  let ?t = "after (service_policies 1 1) ex_voted (ex_vote vote_cleared (ex_now + 30 * minute))"
  have "mutate (service_policies 1 1) (ex_vote vote_cleared (ex_now + 30 * minute)) ex_voted = Inr ?t"
    by code_simp
  from votes_refine_map [OF this] have "vote_map ?t = (vote_map ex_voted)((''i'', 7) \<mapsto> vote_cleared)"
    by (simp add: ex_vote_def)
  moreover have "vote_map ex_voted (''i'', 7) = Some vote_ongoing"
    by code_simp
  ultimately show ?thesis by blast
qed

section \<open>Incidents\<close>

lemma ex_env_permutes: "permutes_list (ie_deliver ex_env)"
  by (simp add: ex_env_def permutes_list_def)

lemma ex_env_answering: "answering ex_env ex_now"
  by (simp add: answering_def ex_env_permutes)
     (simp add: ex_env_def ex_db_def ex_now_def sec_def duration_defs)

lemma ex_now_whole: "whole ex_now"
  by (simp add: whole_def ex_now_def sec_def duration_defs)

definition ex_incident :: string where "ex_incident = ''train:t1:d1-train-t1''"

definition ex_submitted :: "(service_error + report_event submit_result) \<times> tables" where
  "ex_submitted = submit_report ex_env ex_settings ''r1'' 7 ''t1'' signal_started ex_now no_tables"

definition ex_tables :: tables where "ex_tables = snd ex_submitted"

definition ex_result :: "report_event submit_result" where
  "ex_result = accepted ex_incident
     \<lparr>re_id = ''r1'', re_train = ''t1'', re_user = 7, re_signal = signal_started, re_at = ex_now\<rparr>"

lemma ex_submit: "submit_report ex_env ex_settings ''r1'' 7 ''t1'' signal_started ex_now no_tables = (Inr ex_result, ex_tables)"
  by code_simp

theorem submitted_report_found_witness:
  "\<exists>d. incident_detail ex_env ex_incident ex_now 0 ex_tables = Inr d \<and>
     train_event \<lparr>re_id = ''r1'', re_train = ''t1'', re_user = 7, re_signal = signal_started, re_at = ex_now\<rparr> \<in> set (id_events d)"
proof -
  have "su_accepted ex_result" "su_incident ex_result = ex_incident"
    "length (filter (\<lambda>r. sec (day_start ex_env ex_now) \<le> re_at r) (t_reports ex_tables)) \<le> 600"
    "trimmed ex_incident"
    by code_simp+
  then show ?thesis
    using submitted_report_found [OF ex_env_answering ex_submit _ _ _ HOL.refl] ex_now_whole by (simp add: whole_def)
qed

theorem incidents_partition_reports_witness:
  "\<exists>bs. collect_train_bundles ex_env ex_now False ex_tables = Inr bs \<and>
     partitions (train_report_incident ex_env) train_event
       (list_recent_report_events (day_start ex_env ex_now) 600 ex_tables) bs \<and> map ib_id bs = [ex_incident]"
proof -
  have "(case collect_train_bundles ex_env ex_now False ex_tables of Inl _ \<Rightarrow> False | Inr bs \<Rightarrow> map ib_id bs = [ex_incident])"
    by code_simp
  then obtain bs where "collect_train_bundles ex_env ex_now False ex_tables = Inr bs" "map ib_id bs = [ex_incident]"
    by (auto split: sum.splits)
  then show ?thesis
    using incidents_partition_reports [OF ex_env_permutes, of ex_now ex_tables bs]
    by (intro exI [of _ bs]) simp
qed

text \<open>An area report; what its coordinates are rounded to does not matter for finding it.\<close>

definition ex_area :: "(service_error + location_report submit_result) \<times> tables" where
  "ex_area = submit_area_report ex_env ex_settings ''l1'' 7 (Fin 57) (Fin 24) 0 ''two  inspectors'' ex_now no_tables"

lemma ex_description: "normalize_description ''two  inspectors'' = ''two inspectors''"
  "rune_count ''two inspectors'' = 14"
  by code_simp+

lemma submit_location_first:
  "submit_location env s e now no_tables =
     (Inr (accepted (location_incident_id (ie_lower env) e (z_day_key (ie_zone env) now)) e),
      no_tables\<lparr>t_locations := [stored_location e]\<rparr>)"
  if "ie_db env = (\<lambda>_. None)" "0 < rs_cooldown s" "0 < rs_dedupe s" for e
proof -
  have "validate_report_policy (report_policy_of s)" "enforce_limit (report_policy_of s) u now' no_tables = None" for u now'
    using that by (simp_all add: validate_report_policy_def report_mutation_policy_def enforce_limit_def
        count_actions_def duration_defs)
  then have "submit_location_report (ie_db env) (report_policy_of s) e no_tables =
      Inr (no_tables\<lparr>t_locations := [stored_location e]\<rparr>)"
    by (simp add: submit_location_report_def that exec_def reject_or_def no_tables_def newest_first_def)
  then show ?thesis by (simp add: submit_location_def)
qed

lemma ex_area_accepted:
  "\<exists>res t'. ex_area = (Inr res, t') \<and> su_accepted res \<and> length (t_locations t') = 1"
  unfolding ex_area_def submit_area_report_def ex_description Let_def
  by (simp add: valid_latitude_def valid_longitude_def f_between_def ex_description max_description_def
      submit_location_first ex_env_def ex_db_def ex_settings_def duration_defs accepted_def)

theorem submitted_area_found_witness:
  "\<exists>res t' d. ex_area = (Inr res, t') \<and> incident_detail ex_env (su_incident res) ex_now 0 t' = Inr d \<and>
     report_occurred ''l1'' ''Inspection near this location'' ex_now \<in> set (id_events d)"
proof -
  obtain res t' where a: "ex_area = (Inr res, t')" "su_accepted res" "length (t_locations t') = 1"
    using ex_area_accepted by blast
  have "length (filter P (t_locations t')) \<le> 600" for P
    using length_filter_le [of P "t_locations t'"] a(3) by simp
  then show ?thesis
    using submitted_area_found [OF ex_env_answering ex_now_whole a(1) [unfolded ex_area_def] a(2)] a(1) by blast
qed

section \<open>Outcomes\<close>

text \<open>A visitor without an incident to vote on is refused.\<close>

theorem refused_changes_nothing_witness:
  "snd (vote_incident ex_env ''v1'' ''train:t2:x'' 7 vote_ongoing ex_now ex_tables) = ex_tables \<and>
   vote_map (snd (vote_incident ex_env ''v1'' ex_incident 7 vote_ongoing ex_now ex_tables)) (ex_incident, 7) = Some vote_ongoing"
proof -
  let ?bad = "vote_incident ex_env ''v1'' ''train:t2:x'' 7 vote_ongoing ex_now ex_tables"
  let ?good = "vote_incident ex_env ''v1'' ex_incident 7 vote_ongoing ex_now ex_tables"
  have d: "\<not> isl (incident_detail ex_env ex_incident ex_now 7 ex_tables)" and bad: "isl (fst ?bad)"
    by code_simp+
  have "t_votes ex_tables = []" "t_vote_events ex_tables = []" "\<not> ex_now = zero_time"
    by code_simp+
  moreover obtain dd where "incident_detail ex_env ex_incident ex_now 7 ex_tables = Inr dd"
    using d by (cases "incident_detail ex_env ex_incident ex_now 7 ex_tables") simp_all
  moreover have "ie_db ex_env = (\<lambda>_. None)"
    by (simp add: ex_env_def ex_db_def)
  ultimately have "\<not> isl (fst ?good)"
    by (simp add: vote_incident_def submit_incident_vote_def exec_def reject_or_def
        vote_mutation_policy_def incident_vote_summary_def query_def duration_defs)
  then obtain e b s g where r: "?bad = (Inl e, b)" "?good = (Inr s, g)"
    using bad by (metis isl_def prod.collapse sum.collapse(2))
  show ?thesis
    using refused_changes_nothing [where env = ex_env and i = "''v1''" and incident = "''train:t2:x''" and user = 7 and
        choice = vote_ongoing and now = ex_now and t = ex_tables and body = "''b''"]
      refused_changes_nothing [where env = ex_env and i = "''v1''" and incident = ex_incident and user = 7 and
        choice = vote_ongoing and now = ex_now and t = ex_tables and body = "''b''"]
    by (simp add: r) (simp add: ex_env_def ex_db_def)
qed

theorem visitor_sees_no_people_witness:
  "let t = snd (submit_report ex_env ex_settings ''r1'' 8 ''t1'' signal_started ex_now no_tables) in
   t \<noteq> ex_tables \<and> list_active_incidents ex_env hd ex_now 0 10 t = list_active_incidents ex_env hd ex_now 0 10 ex_tables"
proof -
  let ?t = "snd (submit_report ex_env ex_settings ''r1'' 8 ''t1'' signal_started ex_now no_tables)"
  have "anonymous ex_env ?t = anonymous ex_env ex_tables" "?t \<noteq> ex_tables"
    by code_simp+
  then show ?thesis
    using visitor_sees_no_people [of ex_env ?t ex_tables hd ex_now 10] unfolding Let_def by blast
qed

section \<open>Status and timeline\<close>

theorem status_exact_witness:
  "\<exists>s. build_status ex_db ''t1'' ex_now ex_tables = Inr s \<and> ts_unique s = 1 \<and> ts_confidence s = Low"
proof -
  let ?rs = "list_reports_since ''t1'' (ex_now - 24 * hour) 500 ex_tables"
  obtain s where s: "build_status ex_db ''t1'' ex_now ex_tables = Inr s"
    by (simp add: build_status_def ex_db_def query_def then_do_def)
  have "?rs = [\<lparr>re_id = ''r1'', re_train = ''t1'', re_user = 7, re_signal = signal_started, re_at = ex_now\<rparr>]"
    by code_simp
  then have "recent_users ?rs ex_now = {7}"
    by (simp add: recent_users_def duration_defs)
  then show ?thesis
    using status_exact [OF s refl] s by simp
qed

theorem timeline_exact_witness:
  "\<exists>gs. recent_timeline ex_db (\<lambda>gs. gs) ''a'' 0 ex_run = Inr gs \<and> sum_list (map te_count gs) = 2"
proof -
  obtain gs where gs: "recent_timeline ex_db (\<lambda>gs. gs) ''a'' 0 ex_run = Inr gs"
    by (simp add: recent_timeline_def ex_db_def query_def then_do_def)
  have "length (list_recent_reports ''a'' 200 ex_run) = 2"
    by code_simp
  moreover have "permutes_list (\<lambda>gs :: timeline_event list. gs)"
    by (simp add: permutes_list_def)
  ultimately show ?thesis
    using timeline_exact [OF _ gs _ refl] gs by simp
qed

end
