(* ===== verification/TbRide.thy ===== *)
theory TbRide
  imports TbMutations "HOL-Library.AList"
begin

text \<open>
  train-bot, riding a train (workloads/train-bot/internal/ride/service.go) over the check-ins of the
  SQLite store (internal/store/sqlite.go): one check-in for each user, which ends by itself, by a
  check-out, or by the next check-in, and a check-out that can be undone for ten seconds. Times in the
  table are cut to whole seconds; a statement may fail (\<open>db\<close>).
\<close>

section \<open>State\<close>

record checkin =
  ci_user :: int
  ci_train :: string
  ci_boarding :: "string option"
  ci_at :: int
  ci_auto :: int
  ci_muted :: "int option"
  ci_active :: bool

record undo_record =
  un_train :: string
  un_boarding :: "string option"
  un_at :: int
  un_auto :: int
  un_expires :: int

record rides =
  rd_rows :: "checkin list"
  rd_mutes :: "((int \<times> string) \<times> int) list"
  rd_undo :: "(int \<times> undo_record) list"

definition no_rides :: rides where
  "no_rides = \<lparr>rd_rows = [], rd_mutes = [], rd_undo = []\<rparr>"

section \<open>The table\<close>

text \<open>\<open>INSERT ... ON CONFLICT(user_id) DO UPDATE\<close>: \<open>f\<close> is what the update makes of the row in place.\<close>

definition upsert_row :: "checkin \<Rightarrow> (checkin \<Rightarrow> checkin) \<Rightarrow> checkin list \<Rightarrow> checkin list" where
  "upsert_row new f rows =
     (if ci_user new \<in> set (map ci_user rows)
      then map (\<lambda>r. if ci_user r = ci_user new then f r else r) rows else rows @ [new])"

definition check_in_user_at_station ::
    "sql \<Rightarrow> int \<Rightarrow> string \<Rightarrow> string option \<Rightarrow> int \<Rightarrow> int \<Rightarrow> checkin list \<Rightarrow> string + checkin list" where
  "check_in_user_at_station db user train boarding checked auto rows =
     (case db ''checkin'' of
        Some e \<Rightarrow> Inl e
      | None \<Rightarrow>
          let new = \<lparr>ci_user = user, ci_train = train, ci_boarding = boarding, ci_at = sec checked, ci_auto = sec auto,
                     ci_muted = None, ci_active = True\<rparr>
          in Inr (upsert_row new (\<lambda>_. new) rows))"

text \<open>An empty boarding station is read back as none.\<close>

definition read_row :: "checkin \<Rightarrow> checkin" where
  "read_row r = r\<lparr>ci_boarding := (if ci_boarding r = Some [] then None else ci_boarding r)\<rparr>"

definition riding :: "int \<Rightarrow> checkin \<Rightarrow> bool" where
  "riding now r \<longleftrightarrow> ci_active r \<and> sec now \<le> ci_auto r"

definition get_active_check_in :: "sql \<Rightarrow> int \<Rightarrow> int \<Rightarrow> checkin list \<Rightarrow> string + checkin option" where
  "get_active_check_in db user now rows =
     (case db ''active'' of
        Some e \<Rightarrow> Inl e
      | None \<Rightarrow> Inr (map_option read_row (find (\<lambda>r. ci_user r = user \<and> riding now r) rows)))"

definition checkout_user :: "sql \<Rightarrow> int \<Rightarrow> checkin list \<Rightarrow> string + checkin list" where
  "checkout_user db user rows =
     (case db ''checkout'' of
        Some e \<Rightarrow> Inl e
      | None \<Rightarrow> Inr (map (\<lambda>r. if ci_user r = user then r\<lparr>ci_active := False\<rparr> else r) rows))"

text \<open>The undo leaves the mute of an existing row alone.\<close>

definition undo_checkout_user ::
    "sql \<Rightarrow> int \<Rightarrow> string \<Rightarrow> string option \<Rightarrow> int \<Rightarrow> int \<Rightarrow> checkin list \<Rightarrow> string + checkin list" where
  "undo_checkout_user db user train boarding checked auto rows =
     (case db ''undo'' of
        Some e \<Rightarrow> Inl e
      | None \<Rightarrow> Inr (upsert_row
          \<lparr>ci_user = user, ci_train = train, ci_boarding = boarding, ci_at = sec checked, ci_auto = sec auto,
           ci_muted = None, ci_active = True\<rparr>
          (\<lambda>r. r\<lparr>ci_train := train, ci_boarding := boarding, ci_at := sec checked, ci_auto := sec auto,
             ci_active := True\<rparr>) rows))"

definition set_train_mute :: "sql \<Rightarrow> int \<Rightarrow> string \<Rightarrow> int \<Rightarrow> rides \<Rightarrow> string + rides" where
  "set_train_mute db user train until s =
     (case db ''mute'' of
        Some e \<Rightarrow> Inl e
      | None \<Rightarrow> Inr (s\<lparr>rd_mutes := AList.update (user, train) (sec until) (rd_mutes s)\<rparr>))"

definition is_train_muted :: "sql \<Rightarrow> int \<Rightarrow> string \<Rightarrow> int \<Rightarrow> rides \<Rightarrow> string + bool" where
  "is_train_muted db user train now s =
     (case db ''muted'' of
        Some e \<Rightarrow> Inl e
      | None \<Rightarrow> Inr (list_ex (\<lambda>((u, tr), until). u = user \<and> tr = train \<and> sec now \<le> until) (rd_mutes s)))"

definition list_active_checkin_users :: "sql \<Rightarrow> string \<Rightarrow> int \<Rightarrow> checkin list \<Rightarrow> string + int list" where
  "list_active_checkin_users db train now rows =
     (case db ''users'' of
        Some e \<Rightarrow> Inl e
      | None \<Rightarrow> Inr (map ci_user (filter (\<lambda>r. ci_train r = train \<and> riding now r) rows)))"

definition count_active_checkins :: "sql \<Rightarrow> string \<Rightarrow> int \<Rightarrow> checkin list \<Rightarrow> string + int" where
  "count_active_checkins db train now rows =
     (case db ''count'' of
        Some e \<Rightarrow> Inl e
      | None \<Rightarrow> Inr (int (length (filter (\<lambda>r. ci_train r = train \<and> riding now r) rows))))"

section \<open>The service\<close>

definition store_rows :: "string + checkin list \<Rightarrow> rides \<Rightarrow> rides \<times> string option" where
  "store_rows r s = (case r of Inl e \<Rightarrow> (s, Some e) | Inr rows \<Rightarrow> (s\<lparr>rd_rows := rows\<rparr>, None))"

definition check_in_until_at_station ::
    "sql \<Rightarrow> int \<Rightarrow> string \<Rightarrow> string option \<Rightarrow> int \<Rightarrow> int \<Rightarrow> rides \<Rightarrow> rides \<times> string option" where
  "check_in_until_at_station db user train boarding now auto s =
     store_rows (check_in_user_at_station db user train boarding now auto (rd_rows s)) s"

definition check_in_until :: "sql \<Rightarrow> int \<Rightarrow> string \<Rightarrow> int \<Rightarrow> int \<Rightarrow> rides \<Rightarrow> rides \<times> string option" where
  "check_in_until db user train now auto s = check_in_until_at_station db user train None now auto s"

definition check_in :: "sql \<Rightarrow> int \<Rightarrow> string \<Rightarrow> int \<Rightarrow> int \<Rightarrow> rides \<Rightarrow> rides \<times> string option" where
  "check_in db user train now arrival s = check_in_until db user train now (arrival + 10 * minute) s"

definition check_in_at_station ::
    "sql \<Rightarrow> int \<Rightarrow> string \<Rightarrow> string option \<Rightarrow> int \<Rightarrow> int \<Rightarrow> rides \<Rightarrow> rides \<times> string option" where
  "check_in_at_station db user train boarding now arrival s =
     check_in_until_at_station db user train boarding now (arrival + 10 * minute) s"

definition undo_window :: int where "undo_window = 10 * second"

definition checkout :: "sql \<Rightarrow> int \<Rightarrow> int \<Rightarrow> rides \<Rightarrow> rides \<times> string option" where
  "checkout db user now s =
     (case get_active_check_in db user now (rd_rows s) of
        Inl e \<Rightarrow> (s, Some e)
      | Inr active \<Rightarrow>
          let s1 = (case active of
                      None \<Rightarrow> s
                    | Some c \<Rightarrow> s\<lparr>rd_undo := AList.update user
                        \<lparr>un_train = ci_train c, un_boarding = ci_boarding c, un_at = ci_at c, un_auto = ci_auto c,
                         un_expires = now + undo_window\<rparr> (rd_undo s)\<rparr>)
          in store_rows (checkout_user db user (rd_rows s1)) s1)"

definition undo_checkout :: "sql \<Rightarrow> int \<Rightarrow> int \<Rightarrow> rides \<Rightarrow> rides \<times> (string + bool)" where
  "undo_checkout db user now s =
     (case map_of (rd_undo s) user of
        None \<Rightarrow> (s, Inr False)
      | Some r \<Rightarrow>
          let s1 = s\<lparr>rd_undo := AList.delete user (rd_undo s)\<rparr>
          in if un_expires r < now then (s1, Inr False)
             else case store_rows (undo_checkout_user db user (un_train r) (un_boarding r) (un_at r) (un_auto r) (rd_rows s1)) s1 of
                 (s2, None) \<Rightarrow> (s2, Inr True)
               | (s2, Some e) \<Rightarrow> (s2, Inl e))"

definition mute_for_train :: "sql \<Rightarrow> int \<Rightarrow> string \<Rightarrow> int \<Rightarrow> int \<Rightarrow> rides \<Rightarrow> string + rides" where
  "mute_for_train db user train now d s = set_train_mute db user train (now + d) s"

definition cleanup_undo :: "int \<Rightarrow> rides \<Rightarrow> rides" where
  "cleanup_undo now s = s\<lparr>rd_undo := filter (\<lambda>(_, r). \<not> un_expires r < now) (rd_undo s)\<rparr>"

section \<open>Runs\<close>

datatype ride_event =
    CheckedIn sql int string "string option" int int
  | CheckedOut sql int int
  | Undone sql int int
  | Muted sql int string int int
  | UndoCleaned int

fun ride_step :: "ride_event \<Rightarrow> rides \<Rightarrow> rides" where
  "ride_step (CheckedIn db user train boarding now auto) s = fst (check_in_until_at_station db user train boarding now auto s)"
| "ride_step (CheckedOut db user now) s = fst (checkout db user now s)"
| "ride_step (Undone db user now) s = fst (undo_checkout db user now s)"
| "ride_step (Muted db user train now d) s = (case mute_for_train db user train now d s of Inl _ \<Rightarrow> s | Inr s' \<Rightarrow> s')"
| "ride_step (UndoCleaned now) s = cleanup_undo now s"

definition rides_after :: "ride_event list \<Rightarrow> rides" where
  "rides_after es = fold ride_step es no_rides"

text \<open>One row for each user, one mute for each user and train, and times in whole seconds.\<close>

definition rides_ok :: "rides \<Rightarrow> bool" where
  "rides_ok s \<longleftrightarrow> distinct (map ci_user (rd_rows s)) \<and> (\<forall>r \<in> set (rd_rows s). whole (ci_at r) \<and> whole (ci_auto r)) \<and>
     distinct (map fst (rd_undo s)) \<and> (\<forall>(u, r) \<in> set (rd_undo s). whole (un_at r) \<and> whole (un_auto r)) \<and>
     distinct (map fst (rd_mutes s))"

lemma upsert_users:
  assumes "\<And>r. ci_user (f r) = ci_user r \<or> ci_user (f r) = ci_user new"
  shows "map ci_user (upsert_row new f rows) =
    (if ci_user new \<in> set (map ci_user rows) then map ci_user rows else map ci_user rows @ [ci_user new])"
  using assms by (force simp: upsert_row_def)

lemma upsert_rows: "r \<in> set (upsert_row new f rows) \<Longrightarrow> r = new \<or> r \<in> set rows \<or> (\<exists>q \<in> set rows. r = f q)"
  by (auto simp: upsert_row_def split: if_splits)

lemma find_active: "find (\<lambda>r. ci_user r = user \<and> riding now r) rows = Some c \<Longrightarrow> c \<in> set rows \<and> ci_user c = user \<and> riding now c"
  by (auto simp: find_Some_iff)

lemma store_rows_fields [simp]:
  "rd_undo (fst (store_rows r s)) = rd_undo s" "rd_mutes (fst (store_rows r s)) = rd_mutes s"
  "rd_rows (fst (store_rows r s)) = (case r of Inl e \<Rightarrow> rd_rows s | Inr rows \<Rightarrow> rows)"
  "snd (store_rows r s) = (case r of Inl e \<Rightarrow> Some e | Inr rows \<Rightarrow> None)"
  by (simp_all add: store_rows_def split: sum.split)

definition rows_ok :: "checkin list \<Rightarrow> bool" where
  "rows_ok rows \<longleftrightarrow> distinct (map ci_user rows) \<and> (\<forall>r \<in> set rows. whole (ci_at r) \<and> whole (ci_auto r))"

lemma rows_ok_upsert:
  assumes "rows_ok rows" "\<And>r. ci_user r = ci_user new \<Longrightarrow> ci_user (f r) = ci_user new"
    and "whole (ci_at new)" "whole (ci_auto new)" "\<And>r. whole (ci_at (f r))" "\<And>r. whole (ci_auto (f r))"
  shows "rows_ok (upsert_row new f rows)"
proof -
  have users: "map ci_user (map (\<lambda>r. if ci_user r = ci_user new then f r else r) rows) = map ci_user rows"
    using assms(2) by simp
  show ?thesis
  proof (cases "ci_user new \<in> set (map ci_user rows)")
    case True
    then have up: "upsert_row new f rows = map (\<lambda>r. if ci_user r = ci_user new then f r else r) rows"
      by (simp add: upsert_row_def)
    show ?thesis unfolding rows_ok_def up users using assms(1,5,6) by (auto simp: rows_ok_def)
  next
    case False
    then show ?thesis using assms(1,3,4) by (auto simp: upsert_row_def rows_ok_def)
  qed
qed

lemma rows_ok_store:
  "rows_ok rows \<Longrightarrow> check_in_user_at_station db user train boarding t a rows = Inr rows' \<Longrightarrow> rows_ok rows'"
  "rows_ok rows \<Longrightarrow> undo_checkout_user db user train boarding t a rows = Inr rows' \<Longrightarrow> rows_ok rows'"
  by (auto simp: check_in_user_at_station_def undo_checkout_user_def Let_def split: option.splits intro!: rows_ok_upsert)

lemma rows_ok_checkout: "rows_ok rows \<Longrightarrow> checkout_user db user rows = Inr rows' \<Longrightarrow> rows_ok rows'"
  by (auto simp: checkout_user_def rows_ok_def o_def if_distrib split: option.splits cong: if_cong)

definition undo_ok :: "(int \<times> undo_record) list \<Rightarrow> bool" where
  "undo_ok us \<longleftrightarrow> distinct (map fst us) \<and> (\<forall>u \<in> set us. whole (un_at (snd u)) \<and> whole (un_auto (snd u)))"

lemma rides_ok_parts: "rides_ok s \<longleftrightarrow> rows_ok (rd_rows s) \<and> undo_ok (rd_undo s) \<and> distinct (map fst (rd_mutes s))"
  by (auto simp: rides_ok_def rows_ok_def undo_ok_def)

lemma set_update_subset: "set (AList.update k v xs) \<subseteq> insert (k, v) (set xs)"
  by (induction xs) auto

lemma undo_ok_update: "undo_ok us \<Longrightarrow> whole (un_at r) \<Longrightarrow> whole (un_auto r) \<Longrightarrow> undo_ok (AList.update k r us)"
  using set_update_subset [of k r us] unfolding undo_ok_def by (force simp: distinct_update)

lemma undo_ok_delete: "undo_ok us \<Longrightarrow> undo_ok (AList.delete k us)"
  using distinct_delete [of us k] by (auto simp: undo_ok_def AList.delete_eq)

lemma undo_ok_filter: "undo_ok us \<Longrightarrow> undo_ok (filter P us)"
  by (auto simp: undo_ok_def distinct_map_filter)

lemma get_active_row:
  "get_active_check_in db user now rows = Inr (Some c) \<Longrightarrow> \<exists>r \<in> set rows. c = read_row r \<and> ci_user r = user \<and> riding now r"
  by (auto simp: get_active_check_in_def split: option.splits dest!: find_active)

lemma read_row_fields [simp]:
  "ci_user (read_row r) = ci_user r" "ci_train (read_row r) = ci_train r" "ci_at (read_row r) = ci_at r"
  "ci_auto (read_row r) = ci_auto r" "ci_muted (read_row r) = ci_muted r" "ci_active (read_row r) = ci_active r"
  "read_row (read_row r) = read_row r" "riding now (read_row r) = riding now r"
  by (simp_all add: read_row_def riding_def)

lemma checkout_ok: "rides_ok s \<Longrightarrow> rides_ok (fst (checkout db user now s))"
  using get_active_row [of db user now "rd_rows s"] rows_ok_checkout [of "rd_rows s"]
  by (auto simp: rides_ok_parts checkout_def Let_def rows_ok_def split: sum.split option.split intro!: undo_ok_update)

lemma undo_ok_step: "rides_ok s \<Longrightarrow> rides_ok (fst (undo_checkout db user now s))"
proof -
  assume ok: "rides_ok s"
  show ?thesis
  proof (cases "map_of (rd_undo s) user")
    case (Some r)
    let ?s = "s\<lparr>rd_undo := AList.delete user (rd_undo s)\<rparr>"
    let ?u = "undo_checkout_user db user (un_train r) (un_boarding r) (un_at r) (un_auto r) (rd_rows ?s)"
    have 1: "rides_ok ?s" using ok undo_ok_delete by (simp add: rides_ok_parts)
    have 2: "rides_ok (fst (store_rows ?u ?s))"
      using 1 rows_ok_store(2) [of "rd_rows ?s"] by (auto simp: rides_ok_parts split: sum.split)
    have "fst (undo_checkout db user now s) \<in> {?s, fst (store_rows ?u ?s)}"
      by (simp add: undo_checkout_def Some Let_def split: prod.split option.split)
    with 1 2 show ?thesis by auto
  qed (use ok in \<open>simp add: undo_checkout_def\<close>)
qed

lemma ride_step_ok: "rides_ok s \<Longrightarrow> rides_ok (ride_step e s)"
proof (cases e)
  case (CheckedIn db user train boarding now auto)
  then show "rides_ok s \<Longrightarrow> ?thesis"
    using rows_ok_store(1) [of "rd_rows s"]
    by (simp add: rides_ok_parts check_in_until_at_station_def split: sum.split)
next
  case (Muted db user train now d)
  then show "rides_ok s \<Longrightarrow> ?thesis"
    by (simp add: rides_ok_parts mute_for_train_def set_train_mute_def distinct_update split: option.split)
next
  case (UndoCleaned now)
  then show "rides_ok s \<Longrightarrow> ?thesis"
    by (simp add: rides_ok_parts cleanup_undo_def undo_ok_filter)
qed (simp_all add: checkout_ok undo_ok_step)

lemma rides_after_ok: "rides_ok (rides_after es)"
proof -
  have "rides_ok s \<Longrightarrow> rides_ok (fold ride_step es s)" for s
    by (induction es arbitrary: s) (simp_all add: ride_step_ok)
  moreover have "rides_ok no_rides" by (simp add: rides_ok_def no_rides_def)
  ultimately show ?thesis unfolding rides_after_def .
qed

section \<open>Properties\<close>

lemma find_map_keep:
  fixes g :: "checkin \<Rightarrow> checkin"
  assumes "\<And>r. ci_user (g r) = ci_user r" "\<And>r. riding t (g r) = riding t r" "\<And>r. read_row (g r) = read_row r"
  shows "get_active_check_in db u t (map g rows) = get_active_check_in db u t rows"
proof -
  have "map_option read_row (find (\<lambda>r. ci_user r = u \<and> riding t r) (map g rows)) =
      map_option read_row (find (\<lambda>r. ci_user r = u \<and> riding t r) rows)"
    by (induction rows) (simp_all add: assms)
  then show ?thesis unfolding get_active_check_in_def by (simp only:)
qed

lemma row_unique:
  "rows_ok rows \<Longrightarrow> r \<in> set rows \<Longrightarrow> q \<in> set rows \<Longrightarrow> ci_user r = ci_user q \<Longrightarrow> r = q"
  by (auto simp: rows_ok_def distinct_map dest: inj_onD)

text \<open>The undo of a check-out gives the user's row its old contents.\<close>

lemma undo_restores_rows:
  assumes ok: "rows_ok rows" and c: "get_active_check_in db user now rows = Inr (Some c)"
    and out: "checkout_user db user rows = Inr rows1"
    and undo: "undo_checkout_user db' user (ci_train c) (ci_boarding c) (ci_at c) (ci_auto c) rows1 = Inr rows2"
  shows "rows2 = map (\<lambda>r. if ci_user r = user then read_row r else r) rows"
proof -
  obtain r0 where r0: "r0 \<in> set rows" "c = read_row r0" "ci_user r0 = user" "riding now r0"
    using get_active_row [OF c] by blast
  have w: "sec (ci_at r0) = ci_at r0" "sec (ci_auto r0) = ci_auto r0"
    using ok r0(1) by (auto simp: rows_ok_def whole_def)
  have rows1: "rows1 = map (\<lambda>r. if ci_user r = user then r\<lparr>ci_active := False\<rparr> else r) rows"
    using out by (auto simp: checkout_user_def split: option.splits)
  have users1: "user \<in> set (map ci_user rows1)" using r0(1,3) by (force simp: rows1)
  define f :: "checkin \<Rightarrow> checkin" where "f = (\<lambda>r. r\<lparr>ci_train := ci_train c, ci_boarding := ci_boarding c, ci_at := sec (ci_at c),
    ci_auto := sec (ci_auto c), ci_active := True\<rparr>)"
  have "rows2 = map (\<lambda>r. if ci_user r = user then f r else r) rows1"
    using undo users1 by (auto simp: undo_checkout_user_def upsert_row_def f_def split: option.splits)
  also have "\<dots> = map (\<lambda>r. if ci_user r = user then read_row r else r) rows"
    unfolding rows1 map_map o_def
  proof (rule map_cong [OF HOL.refl])
    fix r
    assume r: "r \<in> set rows"
    show "(if ci_user (if ci_user r = user then r\<lparr>ci_active := False\<rparr> else r) = user
        then f (if ci_user r = user then r\<lparr>ci_active := False\<rparr> else r)
        else if ci_user r = user then r\<lparr>ci_active := False\<rparr> else r) = (if ci_user r = user then read_row r else r)"
    proof (cases "ci_user r = user")
      case True
      then have "r = r0" using row_unique [OF ok r r0(1)] r0(3) by simp
      then show ?thesis using r0 w by (simp add: f_def riding_def read_row_def)
    qed simp
  qed
  finally show ?thesis .
qed

text \<open>
  C23. A check-out that is undone within ten seconds leaves no trace: every user is then on the train,
  with the station, times and mute, that the user was on before, at whatever time it is asked.
\<close>

theorem checkout_undone:
  assumes "s = rides_after es" "get_active_check_in db user now (rd_rows s) = Inr (Some c)"
    and "checkout db user now s = (s1, None)" "now' \<le> now + 10 * second" "undo_checkout db' user now' s1 = (s2, Inr b)"
  shows "b \<and> get_active_check_in db'' u t (rd_rows s2) = get_active_check_in db'' u t (rd_rows s)"
proof -
  have ok: "rows_ok (rd_rows s)" using rides_after_ok [of es] assms(1) by (simp add: rides_ok_parts)
  let ?r = "\<lparr>un_train = ci_train c, un_boarding = ci_boarding c, un_at = ci_at c, un_auto = ci_auto c,
    un_expires = now + undo_window\<rparr>"
  obtain rows1 where out: "checkout_user db user (rd_rows s) = Inr rows1"
    and s1: "s1 = s\<lparr>rd_undo := AList.update user ?r (rd_undo s), rd_rows := rows1\<rparr>"
    using assms(2,3) by (auto simp: checkout_def Let_def store_rows_def split: sum.splits)
  have rec: "map_of (rd_undo s1) user = Some ?r" by (simp add: s1 update_conv')
  obtain rows2 where undo: "undo_checkout_user db' user (ci_train c) (ci_boarding c) (ci_at c) (ci_auto c) rows1 = Inr rows2"
    and s2: "rd_rows s2 = rows2" and b: b
    using assms(4,5) rec by (auto simp: undo_checkout_def Let_def undo_window_def store_rows_def s1 split: sum.splits)
  have "rows2 = map (\<lambda>r. if ci_user r = user then read_row r else r) (rd_rows s)"
    by (rule undo_restores_rows [OF ok assms(2) out undo])
  with b s2 find_map_keep [of "\<lambda>r. if ci_user r = user then read_row r else r" t db'' u "rd_rows s"]
  show ?thesis by simp
qed

text \<open>
  C34. In every state the store's table keeps its type: one row for each user, one undo for each user,
  one mute for each user and train, all times in whole seconds. So a user rides at most one train, and
  the number of riders of a train is the number of users whose active check-in is on it.
\<close>

theorem riders_counted:
  assumes "s = rides_after es" "db ''count'' = None" "db ''active'' = None"
  shows "rides_ok s \<and> count_active_checkins db train now (rd_rows s) =
    Inr (int (card {u. \<exists>c. get_active_check_in db u now (rd_rows s) = Inr (Some c) \<and> ci_train c = train}))"
proof -
  have ok: "rides_ok s" using rides_after_ok assms(1) by simp
  then have rows: "rows_ok (rd_rows s)" by (simp add: rides_ok_parts)
  let ?on = "filter (\<lambda>r. ci_train r = train \<and> riding now r) (rd_rows s)"
  have active: "get_active_check_in db (ci_user r) now (rd_rows s) = Inr (Some (read_row r))"
    if "r \<in> set (rd_rows s)" "riding now r" for r
  proof -
    have "find (\<lambda>q. ci_user q = ci_user r \<and> riding now q) (rd_rows s) \<noteq> None"
      using that by (auto simp: find_None_iff)
    then obtain q where q: "find (\<lambda>q. ci_user q = ci_user r \<and> riding now q) (rd_rows s) = Some q" by blast
    then have "q = r" using find_active [OF q] row_unique [OF rows _ that(1)] by blast
    with q show ?thesis by (simp add: get_active_check_in_def assms(3))
  qed
  have "{u. \<exists>c. get_active_check_in db u now (rd_rows s) = Inr (Some c) \<and> ci_train c = train} = set (map ci_user ?on)"
  proof (intro equalityI subsetI; clarsimp)
    fix u c
    assume "get_active_check_in db u now (rd_rows s) = Inr (Some c)" "train = ci_train c"
    then show "u \<in> ci_user ` {x \<in> set (rd_rows s). ci_train x = ci_train c \<and> riding now x}"
      using get_active_row [of db u now "rd_rows s" c] by force
  next
    fix r
    assume "r \<in> set (rd_rows s)" "riding now r" "train = ci_train r"
    then show "\<exists>c. get_active_check_in db (ci_user r) now (rd_rows s) = Inr (Some c) \<and> ci_train c = ci_train r"
      using active by (metis read_row_fields(2))
  qed
  moreover have "distinct (map ci_user ?on)" using rows by (auto simp: rows_ok_def distinct_map_filter)
  ultimately show ?thesis
    using ok distinct_card [of "map ci_user ?on"] by (simp add: count_active_checkins_def assms(2))
qed

text \<open>An undo is spent by its use, whether it succeeds, comes too late or fails.\<close>

theorem undo_spent:
  "undo_checkout db' user now' (fst (undo_checkout db user now s)) = (fst (undo_checkout db user now s), Inr False)"
proof (cases "map_of (rd_undo s) user")
  case (Some r)
  have "map_of (rd_undo (fst (undo_checkout db user now s))) user = None"
    by (simp add: undo_checkout_def Some Let_def delete_conv' store_rows_def split: prod.split option.split sum.split)
  then show ?thesis by (simp add: undo_checkout_def)
qed (simp add: undo_checkout_def)

section \<open>Runs\<close>

definition calm :: sql where "calm = (\<lambda>_. None)"

definition boarding_run :: "ride_event list" where
  "boarding_run = [CheckedIn calm 7 ''t1'' (Some ''riga'') (5 * second) (100 * second)]"

theorem checkout_undone_witness:
  "get_active_check_in calm 7 (20 * second)
     (rd_rows (fst (undo_checkout calm 7 (15 * second) (fst (checkout calm 7 (10 * second) (rides_after boarding_run)))))) =
   get_active_check_in calm 7 (20 * second) (rd_rows (rides_after boarding_run))"
proof -
  have run: "get_active_check_in calm 7 (10 * second) (rd_rows (rides_after boarding_run)) =
      Inr (Some \<lparr>ci_user = 7, ci_train = ''t1'', ci_boarding = Some ''riga'', ci_at = 5 * second, ci_auto = 100 * second,
        ci_muted = None, ci_active = True\<rparr>)"
    "snd (checkout calm 7 (10 * second) (rides_after boarding_run)) = None"
    "snd (undo_checkout calm 7 (15 * second) (fst (checkout calm 7 (10 * second) (rides_after boarding_run)))) = Inr True"
    by code_simp+
  have out: "checkout calm 7 (10 * second) (rides_after boarding_run) =
      (fst (checkout calm 7 (10 * second) (rides_after boarding_run)), None)"
    using run(2) by (metis prod.collapse)
  have undo: "undo_checkout calm 7 (15 * second) (fst (checkout calm 7 (10 * second) (rides_after boarding_run))) =
      (fst (undo_checkout calm 7 (15 * second) (fst (checkout calm 7 (10 * second) (rides_after boarding_run)))), Inr True)"
    using run(3) by (metis prod.collapse)
  from checkout_undone [OF HOL.refl run(1) out _ undo] show ?thesis by (simp add: second_def)
qed

theorem riders_counted_witness:
  "count_active_checkins calm ''t1'' (10 * second) (rd_rows (rides_after boarding_run)) = Inr 1 \<and>
   card {u. \<exists>c. get_active_check_in calm u (10 * second) (rd_rows (rides_after boarding_run)) = Inr (Some c) \<and>
     ci_train c = ''t1''} = 1"
proof -
  have "count_active_checkins calm ''t1'' (10 * second) (rd_rows (rides_after boarding_run)) = Inr 1" by code_simp
  with riders_counted [where s = "rides_after boarding_run" and es = boarding_run and db = calm and
    train = "''t1''" and now = "10 * second"] show ?thesis
    by (simp add: calm_def)
qed

text \<open>
  The undo does not look at what happened since: a check-in after the check-out is replaced by the ride
  that was left before it.
\<close>

theorem stale_undo_replaces_check_in:
  "let s = rides_after (boarding_run @ [CheckedOut calm 7 (10 * second),
       CheckedIn calm 7 ''t2'' None (12 * second) (200 * second), Undone calm 7 (15 * second)])
   in map_option ci_train (case get_active_check_in calm 7 (16 * second) (rd_rows s) of Inr c \<Rightarrow> c | Inl _ \<Rightarrow> None) = Some ''t1''"
  by code_simp

end
