(* ===== verification/GoTime.thy ===== *)
theory GoTime
  imports GoText
begin

text \<open>
  Go's civil time (package \<open>time\<close>): the proleptic Gregorian calendar, times in a location, and the
  texts \<open>2006-01-02\<close> and RFC 3339. An instant is nanoseconds since the Unix epoch; the time zone
  database is a parameter, as the answer of \<open>Location.lookup\<close>.
\<close>

section \<open>Numbers of a fixed width\<close>

definition digit :: "int \<Rightarrow> char" where
  "digit n = char_of (48 + n mod 10)"

fun digits :: "nat \<Rightarrow> int \<Rightarrow> string" where
  "digits 0 _ = []"
| "digits (Suc w) n = digits w (n div 10) @ [digit n]"

lemma length_digits [simp]: "length (digits w n) = w"
  by (induction w arbitrary: n) simp_all

text \<open>\<open>appendInt\<close>, and \<open>%0<w>d\<close> of a number that is not negative: at least \<open>w\<close> digits.\<close>

definition pad :: "nat \<Rightarrow> int \<Rightarrow> string" where
  "pad w x = (if x < 0 then ''-'' else []) @ (if \<bar>x\<bar> < 10 ^ w then digits w \<bar>x\<bar> else dec_digits (nat \<bar>x\<bar>))"

lemma pad_digits: "0 \<le> x \<Longrightarrow> x < 10 ^ w \<Longrightarrow> pad w x = digits w x"
  by (simp add: pad_def)

definition is_digit :: "char \<Rightarrow> bool" where
  "is_digit c \<longleftrightarrow> 48 \<le> (of_char c :: int) \<and> (of_char c :: int) \<le> 57"

definition digits_value :: "string \<Rightarrow> int" where
  "digits_value = foldl (\<lambda>x c. 10 * x + (of_char c - 48)) 0"

lemma of_char_digit [simp]: "(of_char (digit n) :: int) = 48 + n mod 10"
  by (simp add: digit_def of_char_of)

lemma is_digit_digit [simp]: "is_digit (digit n)"
  using pos_mod_bound [of 10 n] by (simp add: is_digit_def)

lemma list_all_digits [simp]: "list_all is_digit (digits w n)"
  by (induction w arbitrary: n) simp_all

lemma digits_value_digits: "0 \<le> n \<Longrightarrow> n < 10 ^ w \<Longrightarrow> digits_value (digits w n) = n"
proof (induction w arbitrary: n)
  case (Suc w)
  have "0 \<le> n div 10" "n div 10 < 10 ^ w" using Suc.prems by (simp_all add: div_less_iff_less_mult mult.commute)
  from Suc.IH [OF this] show ?case by (simp add: digits_value_def)
qed (simp add: digits_value_def)

lemma dec_digit_is: "n < 10 \<Longrightarrow> char_of (48 + n) = digit (int n)" for n :: nat
  using char_of_nat [where ?'a = int, of "48 + n"] by (simp add: digit_def)

lemma list_all_dec_digits [simp]: "list_all is_digit (dec_digits n)"
proof (induction n rule: dec_digits.induct)
  case (1 n)
  then show ?case by (subst dec_digits.simps) (simp add: dec_digit_is)
qed

lemma digits_value_dec_digits: "digits_value (dec_digits n) = int n"
proof (induction n rule: dec_digits.induct)
  case (1 n)
  then show ?case by (subst dec_digits.simps) (simp add: dec_digit_is digits_value_def zdiv_int zmod_int)
qed

lemma list_all_pad: "0 \<le> x \<Longrightarrow> list_all is_digit (pad w x)"
  by (simp add: pad_def)

lemma digits_value_pad: "0 \<le> x \<Longrightarrow> digits_value (pad w x) = x"
  by (simp add: pad_def digits_value_digits digits_value_dec_digits)

section \<open>The calendar\<close>

definition leap :: "int \<Rightarrow> bool" where
  "leap y \<longleftrightarrow> y mod 4 = 0 \<and> (y mod 100 \<noteq> 0 \<or> y mod 400 = 0)"

text \<open>Days from 1 January of year 1 to 1 January of year \<open>y\<close>, and of its months.\<close>

definition days_before_year :: "int \<Rightarrow> int" where
  "days_before_year y = (let p = y - 1 in 365 * p + p div 4 - p div 100 + p div 400)"

fun days_before_month :: "bool \<Rightarrow> int \<Rightarrow> int" where
  "days_before_month l m = [0, 31, 59, 90, 120, 151, 181, 212, 243, 273, 304, 334, 365] ! nat (m - 1)
     + (if l \<and> 2 < m then 1 else 0)"

definition days_in :: "bool \<Rightarrow> int \<Rightarrow> int" where
  "days_in l m = days_before_month l (m + 1) - days_before_month l m"

text \<open>The year of a day, by cycles of 400, 100, 4 and 1 years; the last of a cycle is the long one.\<close>

definition year_of_day :: "int \<Rightarrow> int" where
  "year_of_day n =
     (let c400 = n div 146097; d = n mod 146097; c100 = min 3 (d div 36524); d = d - 36524 * c100;
          c4 = d div 1461; d = d - 1461 * c4; c1 = min 3 (d div 365)
      in 400 * c400 + 100 * c100 + 4 * c4 + c1 + 1)"

definition month_of_yday :: "bool \<Rightarrow> int \<Rightarrow> int" where
  "month_of_yday l d =
     (let k = (if l then 1 else 0) in
      if d < 31 then 1 else if d < 59 + k then 2 else if d < 90 + k then 3 else if d < 120 + k then 4
      else if d < 151 + k then 5 else if d < 181 + k then 6 else if d < 212 + k then 7
      else if d < 243 + k then 8 else if d < 273 + k then 9 else if d < 304 + k then 10
      else if d < 334 + k then 11 else 12)"

text \<open>Days are counted from the Unix epoch.\<close>

definition epoch_days :: int where "epoch_days = 719162"

definition days_of_civil :: "int \<Rightarrow> int \<Rightarrow> int \<Rightarrow> int" where
  "days_of_civil y m d = days_before_year y + days_before_month (leap y) m + d - 1 - epoch_days"

definition civil_of_days :: "int \<Rightarrow> int \<times> int \<times> int" where
  "civil_of_days n =
     (let y = year_of_day (n + epoch_days); r = n + epoch_days - days_before_year y; m = month_of_yday (leap y) r
      in (y, m, r - days_before_month (leap y) m + 1))"

definition valid_civil :: "int \<Rightarrow> int \<Rightarrow> int \<Rightarrow> bool" where
  "valid_civil y m d \<longleftrightarrow> 1 \<le> m \<and> m \<le> 12 \<and> 1 \<le> d \<and> d \<le> days_in (leap y) m"

lemma div_is: "x = k * q + r \<Longrightarrow> 0 \<le> r \<Longrightarrow> r < k \<Longrightarrow> x div k = q" for x :: int
  by (simp add: div_add1_eq)

lemma year_of_day_spec:
  "days_before_year (year_of_day n) \<le> n \<and> n < days_before_year (year_of_day n + 1)"
proof -
  define c d where "c = n div 146097" and "d = n mod 146097"
  have n: "n = 146097 * c + d" "0 \<le> d" "d < 146097" by (simp_all add: c_def d_def)
  define c1 where "c1 = min 3 (d div 36524)"
  have c1: "0 \<le> c1" "c1 \<le> 3" "36524 * c1 \<le> d" "c1 < 3 \<Longrightarrow> d - 36524 * c1 < 36524"
    "d - 36524 * c1 < 36525"
    using n by (auto simp: c1_def min_def)
  define e where "e = d - 36524 * c1"
  have e: "0 \<le> e" "e < 36525" "c1 < 3 \<Longrightarrow> e < 36524" using c1 by (simp_all add: e_def)
  define c4 f where "c4 = e div 1461" and "f = e - 1461 * c4"
  have f: "e = 1461 * c4 + f" "0 \<le> f" "f < 1461" by (simp_all add: c4_def f_def minus_mult_div_eq_mod)
  then have c4: "0 \<le> c4" "c4 \<le> 24" "c1 < 3 \<Longrightarrow> c4 = 24 \<Longrightarrow> f < 1460" using e by linarith+
  define y1 where "y1 = min 3 (f div 365)"
  have y1: "0 \<le> y1" "y1 \<le> 3" "365 * y1 \<le> f" "y1 < 3 \<Longrightarrow> f < 365 * (y1 + 1)" "f < 1461"
    using f by (auto simp: y1_def min_def)
  have y: "year_of_day n = 400 * c + 100 * c1 + 4 * c4 + y1 + 1"
    unfolding year_of_day_def Let_def y1_def f_def c4_def e_def c1_def d_def c_def
    by (rule HOL.refl)
  have "(400 * c + 100 * c1 + 4 * c4 + y1) div 4 = 100 * c + 25 * c1 + c4"
        by (rule div_is [of _ _ _ "y1"]; use y1 in \<open>simp add: algebra_simps\<close>)
  moreover have "(400 * c + 100 * c1 + 4 * c4 + y1) div 100 = 4 * c + c1"
        by (rule div_is [of _ _ _ "4 * c4 + y1"]; use y1 c4 in \<open>simp add: algebra_simps\<close>)
  moreover have "(400 * c + 100 * c1 + 4 * c4 + y1) div 400 = c"
        by (rule div_is [of _ _ _ "100 * c1 + 4 * c4 + y1"]; use y1 c4 c1 in \<open>simp add: algebra_simps\<close>)
  ultimately have lo: "days_before_year (year_of_day n) = 146097 * c + 36524 * c1 + 1461 * c4 + 365 * y1"
    by (simp add: y days_before_year_def Let_def)
  have hi: "n < days_before_year (year_of_day n + 1)"
  proof (cases "y1 = 3")
    case False
    have "(400 * c + 100 * c1 + 4 * c4 + y1 + 1) div 4 = 100 * c + 25 * c1 + c4"
        by (rule div_is [of _ _ _ "y1 + 1"]; use y1 False in \<open>simp add: algebra_simps\<close>)
    moreover have "(400 * c + 100 * c1 + 4 * c4 + y1 + 1) div 100 = 4 * c + c1"
        by (rule div_is [of _ _ _ "4 * c4 + y1 + 1"]; use y1 c4 False in \<open>simp add: algebra_simps\<close>)
    moreover have "(400 * c + 100 * c1 + 4 * c4 + y1 + 1) div 400 = c"
        by (rule div_is [of _ _ _ "100 * c1 + 4 * c4 + y1 + 1"]; use y1 c4 c1 False in \<open>simp add: algebra_simps\<close>)
    ultimately have "days_before_year (year_of_day n + 1) = 146097 * c + 36524 * c1 + 1461 * c4 + 365 * (y1 + 1)"
      by (simp add: y days_before_year_def Let_def algebra_simps)
    then show ?thesis using y1 False n f e_def by simp
  next
    case True
    have 4: "(400 * c + 100 * c1 + 4 * c4 + 4) div 4 = 100 * c + 25 * c1 + c4 + 1"
        by (rule div_is [of _ _ _ "0"]; simp add: algebra_simps)
    show ?thesis
    proof (cases "c4 = 24")
      case False
      have "(400 * c + 100 * c1 + 4 * c4 + 4) div 100 = 4 * c + c1"
        by (rule div_is [of _ _ _ "4 * c4 + 4"]; use c4 False in \<open>simp add: algebra_simps\<close>)
      moreover have "(400 * c + 100 * c1 + 4 * c4 + 4) div 400 = c"
        by (rule div_is [of _ _ _ "100 * c1 + 4 * c4 + 4"]; use c1 c4 False in \<open>simp add: algebra_simps\<close>)
      ultimately have "days_before_year (year_of_day n + 1) = 146097 * c + 36524 * c1 + 1461 * (c4 + 1)"
        using 4 True by (simp add: y days_before_year_def Let_def algebra_simps)
      then show ?thesis using n f e_def by simp
    next
      case last: True
      have "(400 * c + 100 * c1 + 100) div 100 = 4 * c + c1 + 1"
        by (rule div_is [of _ _ _ "0"]; simp add: algebra_simps)
      moreover have "(400 * c + 100 * c1 + 100) div 400 = (if c1 = 3 then c + 1 else c)"
        using c1 div_is [of "400 * c + 100 * c1 + 100" 400 c "100 * c1 + 100"] by simp
      ultimately have "days_before_year (year_of_day n + 1) =
          146097 * c + 36524 * (c1 + 1) + (if c1 = 3 then 1 else 0)"
        using 4 True last by (simp add: y days_before_year_def Let_def algebra_simps)
      then show ?thesis using n e e_def c1 by (cases "c1 = 3") simp_all
    qed
  qed
  show ?thesis using lo hi n f y1 e_def by simp
qed

text \<open>A step of the division by \<open>k\<close>, and with it the length of a year.\<close>

lemma div_step: "0 < k \<Longrightarrow> (p + 1) div k = p div k + (if (p + 1) mod k = 0 then 1 else 0)" for p :: int
proof -
  assume k: "0 < k"
  define q r where "q = p div k" and "r = p mod k"
  have p: "p = k * q + r" and r: "0 \<le> r" "r < k" using k by (simp_all add: q_def r_def)
  show ?thesis
  proof (cases "r = k - 1")
    case True
    then have "p + 1 = k * (q + 1)" using p by (simp add: algebra_simps)
    then show ?thesis using k by (simp add: q_def [symmetric])
  next
    case False
    then have r1: "0 \<le> r + 1" "r + 1 < k" using r by simp_all
    have e: "p + 1 = k * q + (r + 1)" using p by simp
    have "(p + 1) div k = q" using div_is [OF e r1] .
    moreover have "(p + 1) mod k = r + 1" using r1 by (simp add: e)
    ultimately show ?thesis using r by (simp add: q_def)
  qed
qed

lemma year_length: "days_before_year (y + 1) = days_before_year y + (if leap y then 366 else 365)"
proof -
  have 1: "y mod 100 = 0 \<Longrightarrow> y mod 4 = 0" using mod_mod_cancel [of 4 100 y] by simp
  have 2: "y mod 400 = 0 \<Longrightarrow> y mod 100 = 0" using mod_mod_cancel [of 100 400 y] by simp
  have step: "y div k = (y - 1) div k + (if y mod k = 0 then 1 else 0)" if "0 < k" for k
    using div_step [OF that, of "y - 1"] by simp
  have "days_before_year (y + 1) = days_before_year y + 365 + (if y mod 4 = 0 then 1 else 0)
      - (if y mod 100 = 0 then 1 else 0) + (if y mod 400 = 0 then 1 else 0)"
    unfolding days_before_year_def Let_def
    by (simp add: step [of 4] step [of 100] step [of 400])
  also have "\<dots> = days_before_year y + (if leap y then 366 else 365)"
    unfolding leap_def using 1 2 by (cases "y mod 4 = 0"; cases "y mod 100 = 0"; cases "y mod 400 = 0") simp_all
  finally show ?thesis .
qed

lemma days_before_months:
  "days_before_month l 1 = 0" "days_before_month l 2 = 31"
  "days_before_month l 3 = 59 + (if l then 1 else 0)" "days_before_month l 4 = 90 + (if l then 1 else 0)"
  "days_before_month l 5 = 120 + (if l then 1 else 0)" "days_before_month l 6 = 151 + (if l then 1 else 0)"
  "days_before_month l 7 = 181 + (if l then 1 else 0)" "days_before_month l 8 = 212 + (if l then 1 else 0)"
  "days_before_month l 9 = 243 + (if l then 1 else 0)" "days_before_month l 10 = 273 + (if l then 1 else 0)"
  "days_before_month l 11 = 304 + (if l then 1 else 0)" "days_before_month l 12 = 334 + (if l then 1 else 0)"
  "days_before_month l 13 = 365 + (if l then 1 else 0)"
  by simp_all

declare days_before_month.simps [simp del]

lemma month_of_yday_spec:
  assumes "0 \<le> d" "d < (if l then 366 else 365)"
  shows "1 \<le> month_of_yday l d \<and> month_of_yday l d \<le> 12 \<and> days_before_month l (month_of_yday l d) \<le> d \<and>
    d < days_before_month l (month_of_yday l d + 1)"
proof -
  have "l \<and> d < 366 \<or> \<not> l \<and> d < 365" using assms(2) by (cases l) simp_all
  then show ?thesis
    using assms(1) by (elim disjE) (simp_all add: month_of_yday_def Let_def days_before_months)
qed

lemma civil_of_days_spec:
  assumes "civil_of_days n = (y, m, d)"
  shows "valid_civil y m d \<and> days_of_civil y m d = n"
proof -
  let ?r = "n + epoch_days - days_before_year y"
  have y: "y = year_of_day (n + epoch_days)" and m: "m = month_of_yday (leap y) ?r"
    and d: "d = ?r - days_before_month (leap y) m + 1"
    using assms by (auto simp: civil_of_days_def Let_def)
  have "0 \<le> ?r" "?r < (if leap y then 366 else 365)"
    using year_of_day_spec [of "n + epoch_days"] year_length [of y] by (simp_all add: y [symmetric])
  from month_of_yday_spec [OF this, folded m]
  have spec: "1 \<le> m" "m \<le> 12" "days_before_month (leap y) m \<le> ?r" "?r < days_before_month (leap y) (m + 1)"
    by simp_all
  show ?thesis using spec by (auto simp: valid_civil_def days_in_def days_of_civil_def d)
qed

section \<open>Times in a location\<close>

text \<open>
  \<open>Location.lookup\<close>: the offset in seconds at a Unix second, and from when to when it holds. A time
  that is built from civil fields is looked up twice when the first guess is outside the zone it found.
\<close>

type_synonym location = "int \<Rightarrow> int \<times> int \<times> int"

definition utc :: location where "utc = (\<lambda>_. (0, i64_min, i64_max))"

definition local_seconds :: "location \<Rightarrow> int \<Rightarrow> int" where
  "local_seconds loc t = t div second + fst (loc (t div second))"

definition local_civil :: "location \<Rightarrow> int \<Rightarrow> int \<times> int \<times> int" where
  "local_civil loc t = civil_of_days (local_seconds loc t div 86400)"

definition in_location :: "location \<Rightarrow> int \<Rightarrow> int" where
  "in_location loc unix =
     (let (offset, start, stop) = loc unix in
      if offset = 0 then unix
      else if unix - offset < start \<or> stop \<le> unix - offset then unix - fst (loc (unix - offset))
      else unix - offset)"

definition date_at :: "location \<Rightarrow> int \<times> int \<times> int \<Rightarrow> int \<Rightarrow> int \<Rightarrow> int" where
  "date_at loc c secs ns = (case c of (y, m, d) \<Rightarrow> in_location loc (days_of_civil y m d * 86400 + secs) * second + ns)"

definition local_clock :: "location \<Rightarrow> int \<Rightarrow> int" where
  "local_clock loc t = local_seconds loc t mod 86400"

definition add_days :: "location \<Rightarrow> int \<Rightarrow> int \<Rightarrow> int" where
  "add_days loc k t = (case local_civil loc t of (y, m, d) \<Rightarrow>
     date_at loc (y, m, d + k) (local_clock loc t) (t mod second))"

text \<open>\<open>t.In(loc).Format("2006-01-02")\<close>\<close>

definition format_date :: "int \<times> int \<times> int \<Rightarrow> string" where
  "format_date c = (case c of (y, m, d) \<Rightarrow> pad 4 y @ ''-'' @ pad 2 m @ ''-'' @ pad 2 d)"

definition date_text :: "location \<Rightarrow> int \<Rightarrow> string" where
  "date_text loc t = format_date (local_civil loc t)"

section \<open>RFC 3339\<close>

text \<open>\<open>Format(time.RFC3339)\<close> of an instant in a zone of the given offset.\<close>

definition clock_text :: "int \<Rightarrow> string" where
  "clock_text r = pad 2 (r div 3600) @ '':'' @ pad 2 (r mod 3600 div 60) @ '':'' @ pad 2 (r mod 60)"

definition offset_text :: "int \<Rightarrow> string" where
  "offset_text off =
     (if off = 0 then ''Z''
      else let z = \<bar>off\<bar> div 60 in
        (if off \<le> -60 then ''-'' else ''+'') @ pad 2 (z div 60) @ '':'' @ pad 2 (z mod 60))"

definition rfc3339 :: "int \<Rightarrow> int \<Rightarrow> string" where
  "rfc3339 off t = (let l = t div second + off in
     format_date (civil_of_days (l div 86400)) @ ''T'' @ clock_text (l mod 86400) @ offset_text off)"

text \<open>
  \<open>time.Parse(time.RFC3339, s)\<close>, the parser for this layout (\<open>parseStrictRFC3339\<close> aside, the generic
  parser behind it takes a few more spellings, such as an hour of one digit, which are errors here).
\<close>

definition parse_uint :: "string \<Rightarrow> int \<Rightarrow> int \<Rightarrow> int option" where
  "parse_uint s lo hi = (let v = digits_value s in
     if list_all is_digit s \<and> lo \<le> v \<and> v \<le> hi then Some v else None)"

definition slice :: "nat \<Rightarrow> nat \<Rightarrow> string \<Rightarrow> string" where
  "slice i j s = take (j - i) (drop i s)"

definition parse_clock :: "string \<Rightarrow> int option" where
  "parse_clock s =
     (case (parse_uint (slice 0 2 s) 0 23, parse_uint (slice 3 5 s) 0 59, parse_uint (slice 6 8 s) 0 59) of
        (Some h, Some mi, Some se) \<Rightarrow>
          if slice 2 3 s = '':'' \<and> slice 5 6 s = '':'' then Some (h * 3600 + mi * 60 + se) else None
      | _ \<Rightarrow> None)"

definition parse_day :: "string \<Rightarrow> int option" where
  "parse_day s =
     (case (parse_uint (slice 0 4 s) 0 9999, parse_uint (slice 5 7 s) 1 12) of
        (Some y, Some m) \<Rightarrow>
          (case parse_uint (slice 8 10 s) 1 (days_in (leap y) m) of
             Some d \<Rightarrow> if slice 4 5 s = ''-'' \<and> slice 7 8 s = ''-'' then Some (days_of_civil y m d) else None
           | None \<Rightarrow> None)
      | _ \<Rightarrow> None)"

definition split_fraction :: "string \<Rightarrow> int \<times> string" where
  "split_fraction s =
     (case s of
        CHR ''.'' # c # rest \<Rightarrow>
          if is_digit c
          then let f = takeWhile is_digit (c # rest); g = take 9 f
               in (digits_value g * 10 ^ (9 - length g), drop (length f) (c # rest))
          else (0, s)
      | _ \<Rightarrow> (0, s))"

definition parse_offset :: "string \<Rightarrow> int option" where
  "parse_offset s =
     (if s = ''Z'' then Some 0
      else if length s \<noteq> 6 then None
      else case (parse_uint (slice 1 3 s) 0 23, parse_uint (slice 4 6 s) 0 59) of
        (Some h, Some mi) \<Rightarrow>
          if hd s \<in> {CHR ''-'', CHR ''+''} \<and> slice 3 4 s = '':''
          then Some ((if hd s = CHR ''-'' then -1 else 1) * ((h * 60 + mi) * 60)) else None
      | _ \<Rightarrow> None)"

definition parse_rfc3339 :: "string \<Rightarrow> int option" where
  "parse_rfc3339 s =
     (if length s < 19 then None
      else case (parse_day (slice 0 10 s), parse_clock (slice 11 19 s)) of
        (Some day, Some r) \<Rightarrow>
          let (ns, rest) = split_fraction (drop 19 s) in
          if slice 10 11 s = ''T'' then
            (case parse_offset rest of
               Some off \<Rightarrow> Some ((day * 86400 + r - off) * second + ns) | None \<Rightarrow> None)
          else None
      | _ \<Rightarrow> None)"

text \<open>What is written is read back, cut to whole seconds.\<close>

lemma slice_append1: "j \<le> length a \<Longrightarrow> slice i j (a @ b) = slice i j a"
  by (cases "i \<le> j") (auto simp: slice_def)

lemma slice_append2: "length a \<le> i \<Longrightarrow> slice i j (a @ b) = slice (i - length a) (j - length a) b"
  by (auto simp: slice_def)

lemma slice_all: "length a = j \<Longrightarrow> slice 0 j a = a"
  by (simp add: slice_def)

lemma slice_Cons: "slice i j (c # s) = (if j = 0 then [] else if i = 0 then c # slice 0 (j - 1) s else slice (i - 1) (j - 1) s)"
  by (cases i; cases j) (simp_all add: slice_def)

lemma slice_none: "slice i 0 s = []"
  by (simp add: slice_def)

lemmas slice_simps = slice_append1 slice_append2 slice_all slice_Cons slice_none

lemma parse_uint_pad: "0 \<le> x \<Longrightarrow> lo \<le> x \<Longrightarrow> x \<le> hi \<Longrightarrow> parse_uint (pad w x) lo hi = Some x"
  by (simp add: parse_uint_def digits_value_pad list_all_pad)

lemma length_pad [simp]: "0 \<le> x \<Longrightarrow> x < 10 ^ w \<Longrightarrow> length (pad w x) = w"
  by (simp add: pad_digits)

lemma days_in_range: "1 \<le> m \<Longrightarrow> m \<le> 12 \<Longrightarrow> 28 \<le> days_in l m \<and> days_in l m \<le> 31"
proof -
  assume "1 \<le> m" "m \<le> 12"
  then have "m = 1 \<or> m = 2 \<or> m = 3 \<or> m = 4 \<or> m = 5 \<or> m = 6 \<or> m = 7 \<or> m = 8 \<or> m = 9 \<or> m = 10 \<or> m = 11 \<or> m = 12"
    by presburger
  then show ?thesis by (elim disjE) (simp_all add: days_in_def days_before_months)
qed

lemma parse_day_format:
  assumes "valid_civil y m d" "0 \<le> y" "y \<le> 9999"
  shows "length (format_date (y, m, d)) = 10 \<and> parse_day (format_date (y, m, d)) = Some (days_of_civil y m d)"
proof -
  have r: "1 \<le> m" "m \<le> 12" "1 \<le> d" "d \<le> days_in (leap y) m" "d \<le> 31"
    using assms(1) days_in_range [of m "leap y"] by (auto simp: valid_civil_def)
  have len: "length (pad 4 y) = 4" "length (pad 2 m) = 2" "length (pad 2 d) = 2"
    using assms(2,3) r by simp_all
  have parts: "parse_uint (pad 4 y) 0 9999 = Some y" "parse_uint (pad 2 m) 1 12 = Some m"
    "parse_uint (pad 2 d) 1 (days_in (leap y) m) = Some d"
    using assms(2,3) r by (simp_all add: parse_uint_pad)
  show ?thesis
    by (simp add: format_date_def parse_day_def slice_simps len parts [simplified])
qed

lemma parse_clock_text:
  assumes "0 \<le> r" "r < 86400"
  shows "length (clock_text r) = 8 \<and> parse_clock (clock_text r) = Some r"
proof -
  have h: "0 \<le> r div 3600" "r div 3600 < 24" "0 \<le> r mod 3600 div 60" "r mod 3600 div 60 < 60"
    "0 \<le> r mod 60" "r mod 60 < 60"
    using assms by (simp_all add: pos_imp_zdiv_nonneg_iff div_less_iff_less_mult)
  have len: "length (pad 2 (r div 3600)) = 2" "length (pad 2 (r mod 3600 div 60)) = 2" "length (pad 2 (r mod 60)) = 2"
    using h by simp_all
  have parts: "parse_uint (pad 2 (r div 3600)) 0 23 = Some (r div 3600)"
    "parse_uint (pad 2 (r mod 3600 div 60)) 0 59 = Some (r mod 3600 div 60)"
    "parse_uint (pad 2 (r mod 60)) 0 59 = Some (r mod 60)"
    using h by (simp_all add: parse_uint_pad)
  have "r div 3600 * 3600 + r mod 3600 div 60 * 60 + r mod 60 = r"
  proof -
    have "r mod 3600 mod 60 = r mod 60" by (simp add: mod_mod_cancel)
    then show ?thesis
      using div_mult_mod_eq [of "r mod 3600" 60] div_mult_mod_eq [of r 3600] by linarith
  qed
  then show ?thesis
    by (simp add: clock_text_def parse_clock_def slice_simps len parts)
qed

lemma parse_offset_text:
  assumes "\<bar>off\<bar> < 86400" "off mod 60 = 0"
  shows "split_fraction (offset_text off) = (0, offset_text off) \<and> parse_offset (offset_text off) = Some off"
proof (cases "off = 0")
  case False
  define z where "z = \<bar>off\<bar> div 60"
  have d: "\<bar>off\<bar> mod 60 = 0" using assms(2) by (cases "0 \<le> off") (simp_all add: zmod_zminus1_eq_if)
  then have z: "\<bar>off\<bar> = 60 * z" using mult_div_mod_eq [of 60 "\<bar>off\<bar>"] unfolding z_def by linarith
  have h: "0 \<le> z div 60" "z div 60 < 24" "0 \<le> z mod 60" "z mod 60 < 60"
    using assms(1) by (simp_all add: z_def pos_imp_zdiv_nonneg_iff div_less_iff_less_mult zdiv_zmult2_eq [symmetric])
  have len: "length (pad 2 (z div 60)) = 2" "length (pad 2 (z mod 60)) = 2"
    using h by simp_all
  have parts: "parse_uint (pad 2 (z div 60)) 0 23 = Some (z div 60)" "parse_uint (pad 2 (z mod 60)) 0 59 = Some (z mod 60)"
    using h by (simp_all add: parse_uint_pad)
  have "1 \<le> z" using z False by linarith
  then have sign: "off \<le> -60 \<longleftrightarrow> off < 0" using z by linarith
  have back_is: "(z div 60 * 60 + z mod 60) * 60 = \<bar>off\<bar>" using z by simp
  have shown: "offset_text off = (if off < 0 then CHR ''-'' else CHR ''+'') # (pad 2 (z div 60) @ '':'' @ pad 2 (z mod 60))"
    using False by (simp add: offset_text_def sign z_def [symmetric] Let_def)
  have "parse_offset (offset_text off) = Some off"
    using back_is by (auto simp: shown parse_offset_def len parts slice_simps)
  then show ?thesis by (simp add: shown split_fraction_def)
qed (simp add: offset_text_def split_fraction_def parse_offset_def)

theorem rfc3339_roundtrip:
  assumes "0 \<le> fst (civil_of_days ((t div second + off) div 86400))"
    and "fst (civil_of_days ((t div second + off) div 86400)) \<le> 9999" "\<bar>off\<bar> < 86400" "off mod 60 = 0"
  shows "parse_rfc3339 (rfc3339 off t) = Some (t div second * second)"
proof -
  let ?l = "t div second + off"
  obtain y m d where c: "civil_of_days (?l div 86400) = (y, m, d)" by (metis prod_cases3)
  have v: "valid_civil y m d" "days_of_civil y m d = ?l div 86400" using civil_of_days_spec [OF c] by simp_all
  have day: "length (format_date (y, m, d)) = 10" "parse_day (format_date (y, m, d)) = Some (?l div 86400)"
    using parse_day_format [OF v(1)] assms(1,2) v(2) by (simp_all add: c)
  have clock: "length (clock_text (?l mod 86400)) = 8" "parse_clock (clock_text (?l mod 86400)) = Some (?l mod 86400)"
    using parse_clock_text [of "?l mod 86400"] by simp_all
  note off = parse_offset_text [OF assms(3,4)]
  have "(?l div 86400 * 86400 + ?l mod 86400 - off) = t div second" by simp
  then show ?thesis
    using off by (simp add: rfc3339_def c parse_rfc3339_def Let_def slice_simps day clock)
qed

text \<open>Every offset of the time zone database is a whole number of minutes below a day.\<close>

end
