(* ===== verification/TbFeeds.thy ===== *)
theory TbFeeds
  imports TbIncidents GoTime "HOL-Library.AList"
begin

text \<open>
  train-bot, the timetable feeds (workloads/train-bot/internal/scrape): the schedules of the providers
  are merged by train and stop into one snapshot (merge.go), which the orchestrator builds from those
  providers that answered (orchestrator.go) and which is converted into the rows the store imports. A
  \<open>time.Time\<close> of a feed is its instant with the offset its location has then; a Go map is an
  association list, whose order the sorting of the keys makes irrelevant.
\<close>

section \<open>Feeds, snapshots and rows\<close>

type_synonym gotime = "int \<times> int"

record raw_stop =
  rs_name :: string
  rs_seq :: int
  rs_arr :: "gotime option"
  rs_dep :: "gotime option"
  rs_lat :: "f64 option"
  rs_lng :: "f64 option"

record raw_train =
  rt_id :: string
  rt_number :: string
  rt_date :: string
  rt_from :: string
  rt_to :: string
  rt_dep :: gotime
  rt_arr :: gotime
  rt_stops :: "raw_stop list"

record raw_schedule =
  sc_source :: string
  sc_fetched :: int
  sc_trains :: "raw_train list"

record snapshot_stop =
  sp_name :: string
  sp_seq :: int
  sp_arr :: string
  sp_dep :: string
  sp_lat :: "f64 option"
  sp_lng :: "f64 option"

record snapshot_train =
  sx_id :: string
  sx_date :: string
  sx_from :: string
  sx_to :: string
  sx_dep :: string
  sx_arr :: string
  sx_stops :: "snapshot_stop list"

record snapshot_file =
  sf_version :: string
  sf_trains :: "snapshot_train list"

record stats =
  sa_tried :: int
  sa_succeeded :: int
  sa_merged :: int
  sa_dropped :: int
  sa_conflicts :: int
  sa_filled :: int

record train_row =
  in_id :: string
  in_date :: string
  in_from :: string
  in_to :: string
  in_dep :: int
  in_arr :: int
  in_source :: string

record stop_row =
  sr_train :: string
  sr_station :: string
  sr_name :: string
  sr_seq :: int
  sr_arr :: "int option"
  sr_dep :: "int option"
  sr_lat :: "f64 option"
  sr_lng :: "f64 option"

section \<open>Keys\<close>

definition slug_part :: "lower \<Rightarrow> string \<Rightarrow> string" where
  "slug_part low v = (let s = join_with ''-'' (split_fields (replace_chars ''-'' CHR '' '' (low (trim_space v))))
     in if s = [] then ''x'' else s)"

definition hhmm :: "int \<Rightarrow> string" where
  "hhmm t = (let r = t div second mod 86400 in pad 2 (r div 3600) @ pad 2 (r mod 3600 div 60))"

definition train_id :: "lower \<Rightarrow> raw_train \<Rightarrow> string" where
  "train_id low t =
     (if trim_space (rt_id t) \<noteq> [] then trim_space (rt_id t)
      else if trim_space (rt_number t) \<noteq> [] then rt_date t @ ''-train-'' @ slug_part low (rt_number t)
      else rt_date t @ ''-'' @ slug_part low (rt_from t) @ ''-'' @ slug_part low (rt_to t) @ ''-'' @ hhmm (fst (rt_dep t)))"

definition merge_key :: "lower \<Rightarrow> raw_train \<Rightarrow> string" where
  "merge_key low t =
     (if trim_space (rt_date t) = [] then train_id low t
      else if trim_space (rt_number t) \<noteq> []
      then trim_space (rt_date t) @ ''|'' @ low (trim_space (rt_number t))
      else train_id low t)"

definition stop_key :: "lower \<Rightarrow> raw_stop \<Rightarrow> string" where
  "stop_key low s =
     (if trim_space (rs_name s) = [] then []
      else if 0 < rs_seq s then pad 4 (rs_seq s) @ '':'' @ low (trim_space (rs_name s))
      else low (trim_space (rs_name s)))"

section \<open>Merging\<close>

datatype feed_error =
    NoSchedules | DuplicateSequence string int | NoTrains | BadTime string | NoIdentity
  | NoProviders | AllFailed | TooFewTrains int int | WriteFailed string | Cancelled string

text \<open>The first stop whose sequence number was seen before.\<close>

fun duplicate_sequence :: "int set \<Rightarrow> int list \<Rightarrow> int option" where
  "duplicate_sequence seen [] = None"
| "duplicate_sequence seen (q # qs) = (if q \<in> seen then Some q else duplicate_sequence (insert q seen) qs)"

record merged_train =
  mt_train :: raw_train
  mt_stops :: "(string \<times> raw_stop) list"

definition counted :: "bool \<Rightarrow> stats \<Rightarrow> stats" where
  "counted secondary a = (if secondary then a\<lparr>sa_filled := sa_filled a + 1\<rparr> else a)"

definition merge_stop ::
    "lower \<Rightarrow> bool \<Rightarrow> raw_stop \<Rightarrow> (string \<times> raw_stop) list \<times> stats \<Rightarrow> (string \<times> raw_stop) list \<times> stats" where
  "merge_stop low secondary stop ma =
     (let (m, a) = ma; k = stop_key low stop in
      if k = [] then (m, a)
      else case map_of m k of
        None \<Rightarrow> (AList.update k stop m, counted secondary a)
      | Some e \<Rightarrow>
          let arr = rs_arr e = None \<and> rs_arr stop \<noteq> None; dep = rs_dep e = None \<and> rs_dep stop \<noteq> None;
              a1 = (if arr then counted secondary a else a); a2 = (if dep then counted secondary a1 else a1);
              e1 = (if arr then e\<lparr>rs_arr := rs_arr stop\<rparr> else e); e2 = (if dep then e1\<lparr>rs_dep := rs_dep stop\<rparr> else e1);
              e3 = (if rs_lat e2 = None \<and> rs_lat stop \<noteq> None then e2\<lparr>rs_lat := rs_lat stop\<rparr> else e2);
              e4 = (if rs_lng e3 = None \<and> rs_lng stop \<noteq> None then e3\<lparr>rs_lng := rs_lng stop\<rparr> else e3);
              e5 = (if rs_seq e4 = 0 \<and> 0 < rs_seq stop then e4\<lparr>rs_seq := rs_seq stop\<rparr> else e4)
          in (AList.update k e5 m, a2))"

text \<open>A train not seen before; one seen before takes the newer facts of the first schedule.\<close>

definition new_train :: "lower \<Rightarrow> raw_train \<Rightarrow> raw_train" where
  "new_train low t = t\<lparr>rt_id := train_id low t, rt_number := trim_space (rt_number t), rt_stops := []\<rparr>"

definition override :: "lower \<Rightarrow> raw_train \<Rightarrow> raw_train \<Rightarrow> raw_train" where
  "override low t c =
     (let c1 = c\<lparr>rt_dep := rt_dep t, rt_arr := rt_arr t\<rparr>;
          c2 = (if trim_space (rt_number t) \<noteq> [] then c1\<lparr>rt_number := trim_space (rt_number t)\<rparr> else c1);
          c3 = c2\<lparr>rt_id := train_id low c2\<rparr>;
          c4 = (if trim_space (rt_from t) \<noteq> [] then c3\<lparr>rt_from := rt_from t\<rparr> else c3)
      in if trim_space (rt_to t) \<noteq> [] then c4\<lparr>rt_to := rt_to t\<rparr> else c4)"

definition conflict :: "raw_train \<Rightarrow> raw_train \<Rightarrow> bool" where
  "conflict c t \<longleftrightarrow> fst (rt_dep c) \<noteq> fst (rt_dep t) \<or> fst (rt_arr c) \<noteq> fst (rt_arr t)"

definition dropped :: "string \<Rightarrow> raw_train \<Rightarrow> bool" where
  "dropped target t \<longleftrightarrow> rt_date t \<noteq> target \<or> fst (rt_dep t) = zero_time \<or> fst (rt_arr t) = zero_time \<or>
     trim_space (rt_from t) = [] \<or> trim_space (rt_to t) = []"

type_synonym merging = "(string \<times> merged_train) list \<times> stats"

definition merge_train :: "lower \<Rightarrow> string \<Rightarrow> bool \<Rightarrow> raw_train \<Rightarrow> merging \<Rightarrow> (feed_error \<times> stats) + merging" where
  "merge_train low target secondary t ma =
     (let (m, a) = ma in
      case duplicate_sequence {} (map rs_seq (rt_stops t)) of
        Some q \<Rightarrow> Inl (DuplicateSequence (train_id low t) q, a)
      | None \<Rightarrow>
          if dropped target t then Inr (m, a\<lparr>sa_dropped := sa_dropped a + 1\<rparr>)
          else
            let k = merge_key low t;
                (cur, a1) = (case map_of m k of
                    None \<Rightarrow> (\<lparr>mt_train = new_train low t, mt_stops = []\<rparr>, a)
                  | Some c \<Rightarrow>
                      if secondary then (c, a)
                      else (c\<lparr>mt_train := override low t (mt_train c)\<rparr>,
                            if conflict (mt_train c) t then a\<lparr>sa_conflicts := sa_conflicts a + 1\<rparr> else a));
                (stops, a2) = fold (merge_stop low secondary) (rt_stops t) (mt_stops cur, a1)
            in Inr (AList.update k (cur\<lparr>mt_stops := stops\<rparr>) m, a2))"

fun merge_trains :: "lower \<Rightarrow> string \<Rightarrow> bool \<Rightarrow> raw_train list \<Rightarrow> merging \<Rightarrow> (feed_error \<times> stats) + merging" where
  "merge_trains low target secondary [] ma = Inr ma"
| "merge_trains low target secondary (t # ts) ma =
     (case merge_train low target secondary t ma of
        Inl e \<Rightarrow> Inl e | Inr ma' \<Rightarrow> merge_trains low target secondary ts ma')"

text \<open>The schedules in order; \<open>secondary\<close> is \<open>idx > 0\<close>. An empty schedule contributes nothing.\<close>

fun merge_schedules ::
    "lower \<Rightarrow> string \<Rightarrow> bool \<Rightarrow> raw_schedule list \<Rightarrow> merging \<times> string list \<Rightarrow> (feed_error \<times> stats) + merging \<times> string list" where
  "merge_schedules low target secondary [] s = Inr s"
| "merge_schedules low target secondary (c # cs) ((m, a), names) =
     (if sc_trains c = [] then merge_schedules low target True cs ((m, a), names)
      else case merge_trains low target secondary (sc_trains c) (m, a\<lparr>sa_succeeded := sa_succeeded a + 1\<rparr>) of
        Inl e \<Rightarrow> Inl e
      | Inr ma \<Rightarrow> merge_schedules low target True cs (ma, names @ [sc_source c]))"

definition stamp :: "gotime \<Rightarrow> string" where
  "stamp t = rfc3339 (snd t) (fst t)"

definition snapshot_stop_of :: "raw_stop \<Rightarrow> snapshot_stop" where
  "snapshot_stop_of s = \<lparr>sp_name = rs_name s, sp_seq = rs_seq s,
     sp_arr = (case rs_arr s of None \<Rightarrow> [] | Some t \<Rightarrow> stamp t), sp_dep = (case rs_dep s of None \<Rightarrow> [] | Some t \<Rightarrow> stamp t),
     sp_lat = rs_lat s, sp_lng = rs_lng s\<rparr>"

text \<open>The values of a Go map in the order of its sorted keys.\<close>

definition by_key :: "(string \<times> 'a) list \<Rightarrow> 'a list" where
  "by_key m = map (\<lambda>k. the (map_of m k)) (sort (map fst m))"

definition snapshot_train_of :: "merged_train \<Rightarrow> snapshot_train" where
  "snapshot_train_of m = (let t = mt_train m in
     \<lparr>sx_id = rt_id t, sx_date = rt_date t, sx_from = rt_from t, sx_to = rt_to t, sx_dep = stamp (rt_dep t),
      sx_arr = stamp (rt_arr t), sx_stops = map snapshot_stop_of (by_key (mt_stops m))\<rparr>)"

definition no_stats :: "int \<Rightarrow> stats" where
  "no_stats tried = \<lparr>sa_tried = tried, sa_succeeded = 0, sa_merged = 0, sa_dropped = 0, sa_conflicts = 0, sa_filled = 0\<rparr>"

definition build_snapshot_file :: "lower \<Rightarrow> string \<Rightarrow> raw_schedule list \<Rightarrow> stats \<times> (feed_error + snapshot_file)" where
  "build_snapshot_file low target cs =
     (let a = no_stats (int (length cs)) in
      if cs = [] then (a, Inl NoSchedules)
      else case merge_schedules low target False cs (([], a), []) of
        Inl (e, a1) \<Rightarrow> (a1, Inl e)
      | Inr ((m, a1), names) \<Rightarrow>
          let ts = map snapshot_train_of (by_key m); a2 = a1\<lparr>sa_merged := int (length ts)\<rparr>
          in if ts = [] then (a2, Inl NoTrains)
             else (a2, Inr \<lparr>sf_version = ''agg-'' @ target @ ''-'' @ join_with ''+'' names, sf_trains = ts\<rparr>))"

section \<open>Rows\<close>

definition optional_time :: "string \<Rightarrow> string \<Rightarrow> feed_error + int option" where
  "optional_time train s = (if s = [] then Inr None else case parse_rfc3339 s of None \<Rightarrow> Inl (BadTime train) | t \<Rightarrow> Inr t)"

definition domain_stop :: "string \<Rightarrow> snapshot_stop \<Rightarrow> feed_error + stop_row" where
  "domain_stop train s =
     (case optional_time train (sp_arr s) of Inl e \<Rightarrow> Inl e
      | Inr arr \<Rightarrow> (case optional_time train (sp_dep s) of Inl e \<Rightarrow> Inl e
          | Inr dep \<Rightarrow> Inr \<lparr>sr_train = trim_space train, sr_station = [], sr_name = trim_space (sp_name s),
              sr_seq = sp_seq s, sr_arr = arr, sr_dep = dep, sr_lat = sp_lat s, sr_lng = sp_lng s\<rparr>))"

fun domain_stops :: "string \<Rightarrow> int set \<Rightarrow> snapshot_stop list \<Rightarrow> feed_error + stop_row list" where
  "domain_stops train seen [] = Inr []"
| "domain_stops train seen (s # ss) =
     (if trim_space (sp_name s) = [] then domain_stops train seen ss
      else if sp_seq s \<in> seen then Inl (DuplicateSequence train (sp_seq s))
      else case domain_stop train s of Inl e \<Rightarrow> Inl e
        | Inr r \<Rightarrow> map_sum id ((#) r) (domain_stops train (insert (sp_seq s) seen) ss))"

definition domain_train :: "string \<Rightarrow> snapshot_train \<Rightarrow> feed_error + train_row" where
  "domain_train version t =
     (case (parse_rfc3339 (sx_dep t), parse_rfc3339 (sx_arr t)) of
        (Some dep, Some arr) \<Rightarrow>
          if trim_space (sx_id t) = [] \<or> trim_space (sx_date t) = [] then Inl NoIdentity
          else Inr \<lparr>in_id = trim_space (sx_id t), in_date = trim_space (sx_date t), in_from = trim_space (sx_from t),
            in_to = trim_space (sx_to t), in_dep = dep, in_arr = arr, in_source = trim_space version\<rparr>
      | _ \<Rightarrow> Inl (BadTime (sx_id t)))"

fun snapshot_rows ::
    "string \<Rightarrow> snapshot_train list \<Rightarrow> train_row list \<times> (string \<times> stop_row list) list \<Rightarrow>
     feed_error + train_row list \<times> (string \<times> stop_row list) list" where
  "snapshot_rows version [] acc = Inr acc"
| "snapshot_rows version (t # ts) (xs, m) =
     (case domain_train version t of Inl e \<Rightarrow> Inl e
      | Inr x \<Rightarrow> (case domain_stops (sx_id t) {} (sx_stops t) of Inl e \<Rightarrow> Inl e
          | Inr rows \<Rightarrow> snapshot_rows version ts (xs @ [x], AList.update (trim_space (sx_id t)) rows m)))"

definition snapshot_to_domain :: "snapshot_file \<Rightarrow> feed_error + train_row list \<times> (string \<times> stop_row list) list" where
  "snapshot_to_domain f = snapshot_rows (sf_version f) (sf_trains f) ([], [])"

section \<open>The orchestrator\<close>

text \<open>
  \<open>fetch\<close> gives for each configured provider its answer, \<open>write\<close> what writing the file answers (no
  file is written when no directory is configured). A cancelled context ends the loop (\<open>Cancelled\<close>).
\<close>

datatype fetched = Fetched raw_schedule | FetchFailed string | Stopped string

fun fetch_all :: "fetched list \<Rightarrow> feed_error + raw_schedule list" where
  "fetch_all [] = Inr []"
| "fetch_all (Fetched c # fs) = map_sum id ((#) c) (fetch_all fs)"
| "fetch_all (FetchFailed e # fs) = fetch_all fs"
| "fetch_all (Stopped e # fs) = Inl (Cancelled e)"

definition min_trains :: "int \<Rightarrow> int" where
  "min_trains n = (if n < 1 then 1 else n)"

definition orchestrate ::
    "lower \<Rightarrow> string \<Rightarrow> int \<Rightarrow> (snapshot_file \<Rightarrow> string + string) option \<Rightarrow> fetched list \<Rightarrow>
     feed_error + (snapshot_file \<times> string \<times> stats)" where
  "orchestrate low target least write fs =
     (if fs = [] then Inl NoProviders
      else case fetch_all fs of
        Inl e \<Rightarrow> Inl e
      | Inr cs \<Rightarrow>
          if cs = [] then Inl AllFailed
          else case build_snapshot_file low target cs of
            (a, Inl e) \<Rightarrow> Inl e
          | (a, Inr f) \<Rightarrow>
              if sa_merged a < min_trains least then Inl (TooFewTrains (sa_merged a) (min_trains least))
              else case write of
                None \<Rightarrow> Inr (f, [], a)
              | Some w \<Rightarrow> (case w f of Inl e \<Rightarrow> Inl (WriteFailed e) | Inr path \<Rightarrow> Inr (f, path, a)))"

end
