(* ===== verification/TbTimetable.thy ===== *)
theory TbTimetable
  imports TbFeeds TbRide "HOL-Library.Sublist" "HOL-Library.Product_Lexorder"
begin

text \<open>
  train-bot, the timetable in the SQLite store (workloads/train-bot/internal/store/sqlite.go): trains,
  their stops and the stations, as lists of rows with the keys of their tables, the import of a day, the
  queries, and the clean-up. An import is two transactions; \<open>db\<close> is the error of a statement. Foreign
  keys are not enforced (the pragma of the migrations has no effect inside their transactions). Times
  are whole seconds; their texts are compared as the times are.
\<close>

section \<open>Tables\<close>

record stop_entry =
  se_train :: string
  se_station :: string
  se_seq :: int
  se_arr :: "int option"
  se_dep :: "int option"

record station_row =
  sw_id :: string
  sw_name :: string
  sw_key :: string
  sw_lat :: "f64 option"
  sw_lng :: "f64 option"

record day_tables =
  dt_trains :: "train_row list"
  dt_stops :: "stop_entry list"
  dt_stations :: "station_row list"

definition no_days :: day_tables where
  "no_days = \<lparr>dt_trains = [], dt_stops = [], dt_stations = []\<rparr>"

definition normalize_station_key :: "lower \<Rightarrow> string \<Rightarrow> string" where
  "normalize_station_key low v = join_with '' '' (split_fields (replace_chars ''-'' CHR '' '' (low (trim_space v))))"

definition normalize_station_id :: "lower \<Rightarrow> string \<Rightarrow> string" where
  "normalize_station_id low name = replace_chars '' '' CHR ''_'' (normalize_station_key low name)"

section \<open>Importing a day\<close>

definition stored_train :: "string \<Rightarrow> string \<Rightarrow> train_row \<Rightarrow> train_row" where
  "stored_train date version t = t\<lparr>in_date := date, in_dep := sec (in_dep t), in_arr := sec (in_arr t), in_source := version\<rparr>"

text \<open>\<open>INSERT INTO train_instances\<close> fails on an identifier that is taken.\<close>

fun insert_trains :: "train_row list \<Rightarrow> train_row list \<Rightarrow> string + train_row list" where
  "insert_trains [] rows = Inr rows"
| "insert_trains (t # ts) rows =
     (if in_id t \<in> in_id ` set rows then Inl ''UNIQUE train_instances.id'' else insert_trains ts (rows @ [t]))"

definition upsert_train_instances ::
    "sql \<Rightarrow> string \<Rightarrow> string \<Rightarrow> train_row list \<Rightarrow> day_tables \<Rightarrow> string + day_tables" where
  "upsert_train_instances db date version ts d =
     (case db ''trains'' of
        Some e \<Rightarrow> Inl e
      | None \<Rightarrow> map_sum id (\<lambda>rows. d\<lparr>dt_trains := rows\<rparr>)
          (insert_trains (map (stored_train date version) ts) (filter (\<lambda>t. in_date t \<noteq> date) (dt_trains d))))"

text \<open>\<open>COALESCE\<close>\<close>

definition coalesce :: "'a option \<Rightarrow> 'a option \<Rightarrow> 'a option" where
  "coalesce x y = (case x of None \<Rightarrow> y | Some _ \<Rightarrow> x)"

text \<open>A station is inserted, or updated where its key is known; a taken identifier is an error.\<close>

definition upsert_station :: "station_row \<Rightarrow> station_row list \<Rightarrow> string + station_row list" where
  "upsert_station w rows =
     (if sw_key w \<in> sw_key ` set rows
      then Inr (map (\<lambda>r. if sw_key r = sw_key w
        then r\<lparr>sw_name := sw_name w, sw_lat := coalesce (sw_lat w) (sw_lat r), sw_lng := coalesce (sw_lng w) (sw_lng r)\<rparr> else r) rows)
      else if sw_id w \<in> sw_id ` set rows then Inl ''UNIQUE stations.id'' else Inr (rows @ [w]))"

definition same_stop :: "stop_entry \<Rightarrow> stop_entry \<Rightarrow> bool" where
  "same_stop a b \<longleftrightarrow> se_train a = se_train b \<and> se_seq a = se_seq b"

definition upsert_stop :: "stop_entry \<Rightarrow> stop_entry list \<Rightarrow> stop_entry list" where
  "upsert_stop e rows = (if list_ex (same_stop e) rows then map (\<lambda>r. if same_stop e r then e else r) rows else rows @ [e])"

definition station_of :: "lower \<Rightarrow> stop_row \<Rightarrow> station_row" where
  "station_of low s = (let name = trim_space (sr_name s) in
     \<lparr>sw_id = normalize_station_id low name, sw_name = name, sw_key = normalize_station_key low name,
      sw_lat = sr_lat s, sw_lng = sr_lng s\<rparr>)"

definition entry_of :: "lower \<Rightarrow> string \<Rightarrow> stop_row \<Rightarrow> stop_entry" where
  "entry_of low train s = \<lparr>se_train = train, se_station = normalize_station_id low (trim_space (sr_name s)), se_seq = sr_seq s,
     se_arr = map_option sec (sr_arr s), se_dep = map_option sec (sr_dep s)\<rparr>"

definition insert_stop :: "lower \<Rightarrow> string \<Rightarrow> stop_row \<Rightarrow> day_tables \<Rightarrow> string + day_tables" where
  "insert_stop low train s d =
     (if trim_space (sr_name s) = [] then Inr d
      else map_sum id (\<lambda>ws. d\<lparr>dt_stations := ws, dt_stops := upsert_stop (entry_of low train s) (dt_stops d)\<rparr>)
        (upsert_station (station_of low s) (dt_stations d)))"

fun insert_stops :: "lower \<Rightarrow> (string \<times> stop_row) list \<Rightarrow> day_tables \<Rightarrow> string + day_tables" where
  "insert_stops low [] d = Inr d"
| "insert_stops low ((train, s) # ss) d =
     (case insert_stop low train s d of Inl e \<Rightarrow> Inl e | Inr d' \<Rightarrow> insert_stops low ss d')"

text \<open>The map of stops by train, in the order it is walked.\<close>

definition all_stops :: "(string \<times> stop_row list) list \<Rightarrow> (string \<times> stop_row) list" where
  "all_stops m = concat (map (\<lambda>(train, ss). map (Pair train) ss) m)"

definition upsert_train_stops ::
    "lower \<Rightarrow> sql \<Rightarrow> string \<Rightarrow> (string \<times> stop_row list) list \<Rightarrow> day_tables \<Rightarrow> string + day_tables" where
  "upsert_train_stops low db date m d =
     (case db ''stops'' of
        Some e \<Rightarrow> Inl e
      | None \<Rightarrow> insert_stops low (all_stops m)
          (d\<lparr>dt_stops := filter (\<lambda>e. \<not> list_ex (\<lambda>t. in_id t = se_train e \<and> in_date t = date) (dt_trains d)) (dt_stops d)\<rparr>))"

text \<open>\<open>store.ImportTrainData\<close>: the tables keep what the first transaction wrote when the second fails.\<close>

definition import_train_data ::
    "lower \<Rightarrow> sql \<Rightarrow> string \<Rightarrow> string \<Rightarrow> train_row list \<Rightarrow> (string \<times> stop_row list) list \<Rightarrow> day_tables \<Rightarrow>
     day_tables \<times> string option" where
  "import_train_data low db date version ts m d =
     (case upsert_train_instances db date version ts d of
        Inl e \<Rightarrow> (d, Some e)
      | Inr d1 \<Rightarrow> (case upsert_train_stops low db date m d1 of Inl e \<Rightarrow> (d1, Some e) | Inr d2 \<Rightarrow> (d2, None)))"

section \<open>Queries\<close>

definition list_train_instances_by_date :: "string \<Rightarrow> day_tables \<Rightarrow> train_row list" where
  "list_train_instances_by_date date d = sort_key in_dep (filter (\<lambda>t. in_date t = date) (dt_trains d))"

definition list_train_instances_by_window :: "string \<Rightarrow> int \<Rightarrow> int \<Rightarrow> day_tables \<Rightarrow> train_row list" where
  "list_train_instances_by_window date start stop d =
     sort_key in_dep (filter (\<lambda>t. in_date t = date \<and> sec start \<le> in_dep t \<and> in_dep t \<le> sec stop) (dt_trains d))"

definition get_train_instance_by_id :: "string \<Rightarrow> day_tables \<Rightarrow> train_row option" where
  "get_train_instance_by_id i d = find (\<lambda>t. in_id t = i) (dt_trains d)"

definition get_station_by_id :: "string \<Rightarrow> day_tables \<Rightarrow> station_row option" where
  "get_station_by_id i d = find (\<lambda>w. sw_id w = i) (dt_stations d)"

definition train_has_stops :: "string \<Rightarrow> day_tables \<Rightarrow> bool" where
  "train_has_stops i d = list_ex (\<lambda>e. se_train e = i) (dt_stops d)"

definition list_train_stops :: "string \<Rightarrow> day_tables \<Rightarrow> stop_row list" where
  "list_train_stops i d =
     map (\<lambda>(e, w). \<lparr>sr_train = se_train e, sr_station = se_station e, sr_name = sw_name w, sr_seq = se_seq e,
         sr_arr = se_arr e, sr_dep = se_dep e, sr_lat = sw_lat w, sr_lng = sw_lng w\<rparr>)
       (concat (map (\<lambda>e. map (Pair e) (filter (\<lambda>w. sw_id w = se_station e) (dt_stations d)))
         (sort_key se_seq (filter (\<lambda>e. se_train e = i) (dt_stops d)))))"

text \<open>When a train passes a stop, as one boards (\<open>departs\<close>) and as one alights (\<open>arrives\<close>).\<close>

definition departs :: "train_row \<Rightarrow> stop_entry \<Rightarrow> int" where
  "departs t e = (case coalesce (se_dep e) (se_arr e) of None \<Rightarrow> in_dep t | Some x \<Rightarrow> x)"

definition arrives :: "train_row \<Rightarrow> stop_entry \<Rightarrow> int" where
  "arrives t e = (case coalesce (se_arr e) (se_dep e) of None \<Rightarrow> in_arr t | Some x \<Rightarrow> x)"

record station_window_train =
  sv_train :: train_row
  sv_station :: string
  sv_name :: string
  sv_pass :: int

record route_window_train =
  rv_train :: train_row
  rv_from :: string
  rv_from_name :: string
  rv_to :: string
  rv_to_name :: string
  rv_board :: int
  rv_alight :: int

text \<open>The join of the trains of a date with their stops, and of two stops of a train.\<close>

definition day_stops :: "string \<Rightarrow> day_tables \<Rightarrow> (train_row \<times> stop_entry) list" where
  "day_stops date d = concat (map (\<lambda>t. map (Pair t) (filter (\<lambda>e. se_train e = in_id t) (dt_stops d)))
     (filter (\<lambda>t. in_date t = date) (dt_trains d)))"

definition day_legs :: "string \<Rightarrow> string \<Rightarrow> day_tables \<Rightarrow> (train_row \<times> stop_entry \<times> stop_entry) list" where
  "day_legs date board d = concat (map (\<lambda>(t, e). map (\<lambda>e'. (t, e, e')) (filter (\<lambda>e'. se_train e' = in_id t) (dt_stops d)))
     (filter (\<lambda>(t, e). se_station e = board) (day_stops date d)))"

definition stations_at :: "string \<Rightarrow> day_tables \<Rightarrow> station_row list" where
  "stations_at i d = filter (\<lambda>w. sw_id w = i) (dt_stations d)"

definition list_station_window_trains :: "string \<Rightarrow> string \<Rightarrow> int \<Rightarrow> int \<Rightarrow> day_tables \<Rightarrow> station_window_train list" where
  "list_station_window_trains date i start stop d =
     sort_key (\<lambda>v. (sv_pass v, in_dep (sv_train v)))
       (concat (map (\<lambda>(t, e). map (\<lambda>w. \<lparr>sv_train = t, sv_station = se_station e, sv_name = sw_name w, sv_pass = departs t e\<rparr>)
           (stations_at (se_station e) d))
         (filter (\<lambda>(t, e). se_station e = i \<and> sec start \<le> departs t e \<and> departs t e \<le> sec stop) (day_stops date d))))"

definition list_route_window_trains ::
    "string \<Rightarrow> string \<Rightarrow> string \<Rightarrow> int \<Rightarrow> int \<Rightarrow> day_tables \<Rightarrow> route_window_train list" where
  "list_route_window_trains date i j start stop d =
     sort_key (\<lambda>v. (rv_board v, in_dep (rv_train v)))
       (concat (map (\<lambda>(t, e, e'). concat (map (\<lambda>w. map (\<lambda>w'.
             \<lparr>rv_train = t, rv_from = sw_id w, rv_from_name = sw_name w, rv_to = sw_id w', rv_to_name = sw_name w',
              rv_board = departs t e, rv_alight = arrives t e'\<rparr>)
             (stations_at (se_station e') d)) (stations_at (se_station e) d)))
         (filter (\<lambda>(t, e, e'). se_station e' = j \<and> se_seq e < se_seq e' \<and> sec start \<le> departs t e \<and> departs t e \<le> sec stop)
           (day_legs date i d))))"

text \<open>\<open>SELECT DISTINCT\<close> of stations: the rows of the table that the condition selects, by name.\<close>

definition list_stations_by_date :: "string \<Rightarrow> day_tables \<Rightarrow> station_row list" where
  "list_stations_by_date date d =
     sort_key sw_name (filter (\<lambda>w. list_ex (\<lambda>(t, e). se_station e = sw_id w) (day_stops date d)) (dt_stations d))"

definition list_reachable_destinations :: "string \<Rightarrow> string \<Rightarrow> day_tables \<Rightarrow> station_row list" where
  "list_reachable_destinations date i d =
     sort_key sw_name (filter (\<lambda>w. list_ex (\<lambda>(t, e, e'). se_station e' = sw_id w \<and> se_seq e < se_seq e') (day_legs date i d))
       (dt_stations d))"

definition list_terminal_destinations :: "string \<Rightarrow> string \<Rightarrow> day_tables \<Rightarrow> station_row list" where
  "list_terminal_destinations date i d =
     sort_key sw_name (filter (\<lambda>w. list_ex (\<lambda>(t, e, e'). se_station e' = sw_id w \<and> se_seq e < se_seq e' \<and>
         list_all (\<lambda>e2. se_train e2 = in_id t \<and> se_seq e < se_seq e2 \<longrightarrow> se_seq e2 \<le> se_seq e') (dt_stops d))
       (day_legs date i d)) (dt_stations d))"

section \<open>Deleting\<close>

text \<open>Stops whose train is gone are deleted with it.\<close>

definition drop_orphans :: "day_tables \<Rightarrow> day_tables" where
  "drop_orphans d = d\<lparr>dt_stops := filter (\<lambda>e. list_ex (\<lambda>t. in_id t = se_train e) (dt_trains d)) (dt_stops d)\<rparr>"

definition delete_train_data_by_service_date :: "sql \<Rightarrow> string \<Rightarrow> day_tables \<Rightarrow> day_tables \<times> string option" where
  "delete_train_data_by_service_date db date d =
     (if trim_space date = [] then (d, None)
      else case db ''delete trains'' of
        Some e \<Rightarrow> (d, Some e)
      | None \<Rightarrow>
          let d1 = d\<lparr>dt_trains := filter (\<lambda>t. in_date t \<noteq> trim_space date) (dt_trains d)\<rparr>
          in (case db ''delete stops'' of Some e \<Rightarrow> (d1, Some e) | None \<Rightarrow> (drop_orphans d1, None)))"

text \<open>
  \<open>CleanupExpired\<close> over the tables of the model: the first statements ignore their errors, the others
  stop at the first. Route check-ins and subscriptions are not in the model; their statements may fail.
\<close>

record bot_store =
  bs_days :: day_tables
  bs_rides :: rides
  bs_tables :: tables

record cleanup_result =
  cr_checkins :: nat
  cr_reports :: nat
  cr_sightings :: nat
  cr_stops :: nat
  cr_trains :: nat

definition expire_rides :: "sql \<Rightarrow> int \<Rightarrow> rides \<Rightarrow> rides" where
  "expire_rides db now s =
     (let s1 = (if db ''expire check-ins'' = None
          then s\<lparr>rd_rows := map (\<lambda>r. if ci_active r \<and> ci_auto r < sec now then r\<lparr>ci_active := False\<rparr> else r) (rd_rows s)\<rparr> else s)
      in if db ''delete mutes'' = None then s1\<lparr>rd_mutes := filter (\<lambda>(_, until). \<not> until < sec now) (rd_mutes s1)\<rparr> else s1)"

definition deleting :: "sql \<Rightarrow> string \<Rightarrow> (bot_store \<Rightarrow> bot_store) \<Rightarrow> bot_store \<times> string option \<Rightarrow> bot_store \<times> string option" where
  "deleting db name f r = (case r of (b, Some e) \<Rightarrow> (b, Some e) | (b, None) \<Rightarrow> (case db name of Some e \<Rightarrow> (b, Some e) | None \<Rightarrow> (f b, None)))"

definition oldest_kept :: "location \<Rightarrow> int \<Rightarrow> string" where
  "oldest_kept loc now = date_text loc (add_days loc (-1) now)"

definition prune_rides :: "int \<Rightarrow> bot_store \<Rightarrow> bot_store" where
  "prune_rides horizon b = b\<lparr>bs_rides := (bs_rides b)\<lparr>rd_rows := filter (\<lambda>r. \<not> ci_auto r < sec horizon) (rd_rows (bs_rides b))\<rparr>\<rparr>"

definition prune_reports :: "int \<Rightarrow> bot_store \<Rightarrow> bot_store" where
  "prune_reports horizon b = b\<lparr>bs_tables := (bs_tables b)\<lparr>t_reports := filter (\<lambda>r. \<not> re_at r < sec horizon) (t_reports (bs_tables b))\<rparr>\<rparr>"

definition prune_sightings :: "int \<Rightarrow> bot_store \<Rightarrow> bot_store" where
  "prune_sightings horizon b = b\<lparr>bs_tables := (bs_tables b)\<lparr>t_sightings := filter (\<lambda>r. \<not> ss_at r < sec horizon) (t_sightings (bs_tables b))\<rparr>\<rparr>"

definition prune_locations :: "int \<Rightarrow> bot_store \<Rightarrow> bot_store" where
  "prune_locations horizon b = b\<lparr>bs_tables := (bs_tables b)\<lparr>t_locations := filter (\<lambda>r. \<not> lr_at r < sec horizon) (t_locations (bs_tables b))\<rparr>\<rparr>"

definition prune_trains :: "string \<Rightarrow> bot_store \<Rightarrow> bot_store" where
  "prune_trains oldest b = b\<lparr>bs_days := (bs_days b)\<lparr>dt_trains := filter (\<lambda>t. \<not> in_date t < oldest) (dt_trains (bs_days b))\<rparr>\<rparr>"

definition prune_stops :: "bot_store \<Rightarrow> bot_store" where
  "prune_stops b = b\<lparr>bs_days := drop_orphans (bs_days b)\<rparr>"

definition cleanup_expired ::
    "sql \<Rightarrow> location \<Rightarrow> int \<Rightarrow> int \<Rightarrow> bot_store \<Rightarrow> bot_store \<times> (string + cleanup_result)" where
  "cleanup_expired db loc now retention b =
     (let horizon = now - retention; b0 = b\<lparr>bs_rides := expire_rides db now (bs_rides b)\<rparr>;
          r1 = deleting db ''delete check-ins'' (prune_rides horizon) (b0, None);
          r2 = deleting db ''delete route check-ins'' id r1;
          r3 = deleting db ''delete subscriptions'' id r2;
          r4 = deleting db ''delete reports'' (prune_reports horizon) r3;
          r5 = deleting db ''delete sightings'' (prune_sightings horizon) r4;
          r6 = deleting db ''delete locations'' (prune_locations horizon) r5;
          r7 = deleting db ''delete old trains'' (prune_trains (oldest_kept loc now)) r6;
          r8 = deleting db ''delete old stops'' prune_stops r7
      in (fst r8, case snd r8 of Some e \<Rightarrow> Inl e
          | None \<Rightarrow> Inr \<lparr>cr_checkins = length (rd_rows (bs_rides b0)) - length (rd_rows (bs_rides (fst r8))),
              cr_reports = length (t_reports (bs_tables b)) - length (t_reports (bs_tables (fst r8)))
                + (length (t_locations (bs_tables b)) - length (t_locations (bs_tables (fst r8)))),
              cr_sightings = length (t_sightings (bs_tables b)) - length (t_sightings (bs_tables (fst r8))),
              cr_stops = length (dt_stops (bs_days b)) - length (dt_stops (bs_days (fst r8))),
              cr_trains = length (dt_trains (bs_days b)) - length (dt_trains (bs_days (fst r8)))\<rparr>))"

end
