(* ===== verification/TbFeedClaims.thy ===== *)
theory TbFeedClaims
  imports TbFeeds
begin

text \<open>
  train-bot, what a feed becomes: a schedule whose trains have keys of their own is imported train by
  train and stop by stop; trains that share a key make a snapshot that cannot be imported.
\<close>

section \<open>Association lists as maps\<close>

lemma update_fresh: "k \<notin> fst ` set m \<Longrightarrow> AList.update k v m = m @ [(k, v)]"
  by (induction m) auto

lemma map_of_keyed: "distinct (map f xs) \<Longrightarrow> x \<in> set xs \<Longrightarrow> map_of (map (\<lambda>x. (f x, g x)) xs) (f x) = Some (g x)"
  by (rule map_of_is_SomeI) (auto simp: o_def)

lemma insort_map: "insort (f x) (map f ys) = map f (insort_key f x ys)" for f :: "'a \<Rightarrow> 'b::linorder"
  by (induction ys) simp_all

lemma sort_map_key: "sort (map f xs) = map f (sort_key f xs)" for f :: "'a \<Rightarrow> 'b::linorder"
  by (induction xs) (simp_all add: insort_map)

lemma by_key_keyed: "distinct (map f xs) \<Longrightarrow> by_key (map (\<lambda>x. (f x, g x)) xs) = map g (sort_key f xs)"
  by (simp add: by_key_def o_def sort_map_key map_of_keyed)

lemma duplicate_sequence_None: "duplicate_sequence seen qs = None \<longleftrightarrow> distinct qs \<and> set qs \<inter> seen = {}"
  by (induction qs arbitrary: seen) auto

section \<open>Keys of stops\<close>

definition named :: "raw_stop \<Rightarrow> bool" where
  "named s \<longleftrightarrow> trim_space (rs_name s) \<noteq> []"

lemma stop_key_sequence:
  assumes "named s" "0 < rs_seq s"
  shows "takeWhile is_digit (stop_key low s) = pad 4 (rs_seq s)" "stop_key low s \<noteq> []"
proof -
  have "list_all is_digit (pad 4 (rs_seq s))" "\<not> is_digit CHR '':''"
    using assms(2) by (simp_all add: list_all_pad is_digit_def)
  then show "takeWhile is_digit (stop_key low s) = pad 4 (rs_seq s)"
    using assms by (simp add: stop_key_def named_def list_all_iff takeWhile_append2 del: takeWhile_append)
  show "stop_key low s \<noteq> []"
    using assms by (simp add: stop_key_def named_def)
qed

lemma stop_key_inj:
  assumes "named s" "named t" "0 < rs_seq s" "0 < rs_seq t" "stop_key low s = stop_key low t"
  shows "rs_seq s = rs_seq t"
proof -
  have "pad 4 (rs_seq s) = pad 4 (rs_seq t)"
    using stop_key_sequence(1) [of s low] stop_key_sequence(1) [of t low] assms by simp
  then have "digits_value (pad 4 (rs_seq s)) = digits_value (pad 4 (rs_seq t))" by (rule arg_cong)
  then show ?thesis using assms(3,4) by (simp add: digits_value_pad)
qed

lemma stop_keys_distinct:
  assumes "distinct (map rs_seq ss)" "\<And>s. s \<in> set ss \<Longrightarrow> 0 < rs_seq s"
  shows "distinct (map (stop_key low) (filter named ss))"
  using assms
proof (induction ss)
  case (Cons s ss)
  have "stop_key low s \<noteq> stop_key low t" if "t \<in> set ss" "named t" "named s" for t
    using stop_key_inj [of s t low] Cons.prems that by force
  with Cons show ?case by auto
qed simp

section \<open>Trains with keys of their own\<close>

text \<open>Stops that are new to a train are kept as they are, in a schedule that is the first.\<close>

lemma merge_stops_fresh:
  assumes "distinct (map (stop_key low) (filter named ss))"
    and "\<And>s. s \<in> set ss \<Longrightarrow> named s \<Longrightarrow> stop_key low s \<notin> fst ` set m \<and> stop_key low s \<noteq> []"
  shows "fold (merge_stop low False) ss (m, a) = (m @ map (\<lambda>s. (stop_key low s, s)) (filter named ss), a)"
  using assms
proof (induction ss arbitrary: m)
  case (Cons s ss)
  show ?case
  proof (cases "named s")
    case False
    then have "merge_stop low False s (m, a) = (m, a)"
      by (simp add: merge_stop_def stop_key_def named_def Let_def)
    with Cons False show ?thesis by simp
  next
    case True
    have k: "stop_key low s \<notin> fst ` set m" "stop_key low s \<noteq> []" using Cons.prems(2) [of s] True by simp_all
    then have "map_of m (stop_key low s) = None" by (simp add: map_of_eq_None_iff)
    then have step: "merge_stop low False s (m, a) = (m @ [(stop_key low s, s)], a)"
      using k by (simp add: merge_stop_def Let_def counted_def update_fresh)
    have "fold (merge_stop low False) ss (m @ [(stop_key low s, s)], a) =
        ((m @ [(stop_key low s, s)]) @ map (\<lambda>s. (stop_key low s, s)) (filter named ss), a)"
    proof (rule Cons.IH)
      show "distinct (map (stop_key low) (filter named ss))" using Cons.prems(1) True by simp
      show "stop_key low t \<notin> fst ` set (m @ [(stop_key low s, s)]) \<and> stop_key low t \<noteq> []"
        if t: "t \<in> set ss" "named t" for t
        using Cons.prems(1) Cons.prems(2) [of t] True t by (auto simp: image_iff)
    qed
    then show ?thesis using True step by simp
  qed
qed simp

definition fresh_train :: "lower \<Rightarrow> raw_train \<Rightarrow> merged_train" where
  "fresh_train low t = \<lparr>mt_train = new_train low t, mt_stops = map (\<lambda>s. (stop_key low s, s)) (filter named (rt_stops t))\<rparr>"

text \<open>What a train of the feed must be like: its stops are numbered from 1, and its times can be written.\<close>

definition printable :: "gotime \<Rightarrow> bool" where
  "printable t \<longleftrightarrow> (let y = fst (civil_of_days ((fst t div second + snd t) div 86400)) in 0 \<le> y \<and> y \<le> 9999) \<and>
     \<bar>snd t\<bar> < 86400 \<and> snd t mod 60 = 0"

definition regular_stop :: "raw_stop \<Rightarrow> bool" where
  "regular_stop s \<longleftrightarrow> 0 < rs_seq s \<and> (case rs_arr s of None \<Rightarrow> True | Some t \<Rightarrow> printable t) \<and>
     (case rs_dep s of None \<Rightarrow> True | Some t \<Rightarrow> printable t)"

definition regular_train :: "raw_train \<Rightarrow> bool" where
  "regular_train t \<longleftrightarrow> list_all regular_stop (rt_stops t) \<and> printable (rt_dep t) \<and> printable (rt_arr t)"

lemma regular_stop_keys:
  "regular_train t \<Longrightarrow> distinct (map rs_seq (rt_stops t)) \<Longrightarrow> distinct (map (stop_key low) (filter named (rt_stops t)))"
  by (rule stop_keys_distinct) (auto simp: regular_train_def regular_stop_def list_all_iff)

lemma merge_train_fresh:
  assumes "distinct (map rs_seq (rt_stops t))" "\<not> dropped target t" "regular_train t"
    and "merge_key low t \<notin> fst ` set m"
  shows "merge_train low target False t (m, a) = Inr (m @ [(merge_key low t, fresh_train low t)], a)"
proof -
  have "duplicate_sequence {} (map rs_seq (rt_stops t)) = None"
    using assms(1) by (simp add: duplicate_sequence_None)
  moreover have "map_of m (merge_key low t) = None" using assms(4) by (simp add: map_of_eq_None_iff)
  moreover have "fold (merge_stop low False) (rt_stops t) ([], a) =
      (map (\<lambda>s. (stop_key low s, s)) (filter named (rt_stops t)), a)"
    using merge_stops_fresh [OF regular_stop_keys [OF assms(3,1)], of low "[]" a] stop_key_sequence(2) assms(3)
    by (auto simp: regular_train_def regular_stop_def list_all_iff)
  ultimately show ?thesis
    using assms(2,4) by (simp add: merge_train_def Let_def fresh_train_def update_fresh)
qed

lemma merge_trains_fresh:
  assumes "\<And>t. t \<in> set ts \<Longrightarrow> distinct (map rs_seq (rt_stops t))"
    and "\<And>t. t \<in> set ts \<Longrightarrow> \<not> dropped target t \<Longrightarrow> regular_train t \<and> merge_key low t \<notin> fst ` set m"
    and "distinct (map (merge_key low) (filter (\<lambda>t. \<not> dropped target t) ts))"
  shows "\<exists>a'. merge_trains low target False ts (m, a) =
    Inr (m @ map (\<lambda>t. (merge_key low t, fresh_train low t)) (filter (\<lambda>t. \<not> dropped target t) ts), a')"
  using assms
proof (induction ts arbitrary: m a)
  case (Cons t ts)
  show ?case
  proof (cases "dropped target t")
    case True
    then have "merge_train low target False t (m, a) = Inr (m, a\<lparr>sa_dropped := sa_dropped a + 1\<rparr>)"
      using Cons.prems(1) [of t] duplicate_sequence_None [of "{}" "map rs_seq (rt_stops t)"] by (simp add: merge_train_def)
    with Cons True show ?thesis by simp
  next
    case False
    then have step: "merge_train low target False t (m, a) = Inr (m @ [(merge_key low t, fresh_train low t)], a)"
      using merge_train_fresh [of t target low m a] Cons.prems(1,2) [of t] by simp
    have "\<exists>a'. merge_trains low target False ts (m @ [(merge_key low t, fresh_train low t)], a) =
        Inr ((m @ [(merge_key low t, fresh_train low t)]) @
          map (\<lambda>t. (merge_key low t, fresh_train low t)) (filter (\<lambda>t. \<not> dropped target t) ts), a')"
    proof (rule Cons.IH)
      show "distinct (map rs_seq (rt_stops u))" if "u \<in> set ts" for u using Cons.prems(1) that by simp
      show "regular_train u \<and> merge_key low u \<notin> fst ` set (m @ [(merge_key low t, fresh_train low t)])"
        if u: "u \<in> set ts" "\<not> dropped target u" for u
        using Cons.prems(2) [of u] Cons.prems(3) u False by (auto simp: image_iff)
      show "distinct (map (merge_key low) (filter (\<lambda>t. \<not> dropped target t) ts))" using Cons.prems(3) False by simp
    qed
    then show ?thesis using False step by simp
  qed
qed simp

section \<open>Rows\<close>

lemma stamp_nonempty: "stamp t \<noteq> []"
  by (simp add: stamp_def rfc3339_def Let_def)

lemma parse_stamp: "printable t \<Longrightarrow> parse_rfc3339 (stamp t) = Some (sec (fst t))"
  using rfc3339_roundtrip [of "fst t" "snd t"] by (simp add: printable_def Let_def stamp_def sec_def second_def)

lemma optional_time_stamp:
  "(case t of None \<Rightarrow> True | Some t \<Rightarrow> printable t) \<Longrightarrow>
    optional_time x (case t of None \<Rightarrow> [] | Some t \<Rightarrow> stamp t) = Inr (map_option (\<lambda>t. sec (fst t)) t)"
  by (cases t) (simp_all add: optional_time_def stamp_nonempty parse_stamp)

definition imported_stop :: "string \<Rightarrow> raw_stop \<Rightarrow> stop_row" where
  "imported_stop train s = \<lparr>sr_train = trim_space train, sr_station = [], sr_name = trim_space (rs_name s), sr_seq = rs_seq s,
     sr_arr = map_option (\<lambda>t. sec (fst t)) (rs_arr s), sr_dep = map_option (\<lambda>t. sec (fst t)) (rs_dep s),
     sr_lat = rs_lat s, sr_lng = rs_lng s\<rparr>"

lemma domain_stop_of: "regular_stop s \<Longrightarrow> domain_stop train (snapshot_stop_of s) = Inr (imported_stop train s)"
  by (simp add: domain_stop_def snapshot_stop_of_def regular_stop_def optional_time_stamp imported_stop_def)

lemma domain_stops_of:
  "list_all regular_stop ss \<Longrightarrow> list_all named ss \<Longrightarrow> distinct (map rs_seq ss) \<Longrightarrow> set (map rs_seq ss) \<inter> seen = {} \<Longrightarrow>
    domain_stops train seen (map snapshot_stop_of ss) = Inr (map (imported_stop train) ss)"
proof (induction ss arbitrary: seen)
  case (Cons s ss)
  have "sp_name (snapshot_stop_of s) = rs_name s" "sp_seq (snapshot_stop_of s) = rs_seq s"
    by (simp_all add: snapshot_stop_of_def)
  with Cons show ?case by (simp add: named_def domain_stop_of)
qed simp

definition imported_stops :: "lower \<Rightarrow> raw_train \<Rightarrow> stop_row list" where
  "imported_stops low t = map (imported_stop (train_id low t)) (sort_key (stop_key low) (filter named (rt_stops t)))"

definition imported_train :: "lower \<Rightarrow> string \<Rightarrow> raw_train \<Rightarrow> train_row" where
  "imported_train low version t = \<lparr>in_id = trim_space (train_id low t), in_date = trim_space (rt_date t),
     in_from = trim_space (rt_from t), in_to = trim_space (rt_to t), in_dep = sec (fst (rt_dep t)),
     in_arr = sec (fst (rt_arr t)), in_source = trim_space version\<rparr>"

lemma train_id_nonempty: "trim_space (train_id low t) \<noteq> []"
proof (cases "trim_space (rt_id t) = []")
  case True
  then have "CHR ''-'' \<in> set (train_id low t)" by (simp add: train_id_def)
  then show ?thesis by (rule trim_space_nonempty) (simp add: plain_char_def less_char_def)
qed (simp add: train_id_def)

lemma domain_train_of:
  assumes "regular_train t" "trim_space (rt_date t) \<noteq> []"
  shows "domain_train version (snapshot_train_of (fresh_train low t)) = Inr (imported_train low version t)"
  using assms train_id_nonempty [of low t]
  by (simp add: domain_train_def snapshot_train_of_def fresh_train_def Let_def new_train_def regular_train_def parse_stamp
      imported_train_def)

lemma domain_stops_train:
  assumes "regular_train t" "distinct (map rs_seq (rt_stops t))"
  shows "domain_stops (train_id low t) {} (sx_stops (snapshot_train_of (fresh_train low t))) = Inr (imported_stops low t)"
proof -
  have "by_key (mt_stops (fresh_train low t)) = sort_key (stop_key low) (filter named (rt_stops t))"
    using by_key_keyed [OF regular_stop_keys [OF assms, of low], of "\<lambda>s. s"] by (simp add: fresh_train_def)
  moreover have "domain_stops (train_id low t) {} (map snapshot_stop_of (sort_key (stop_key low) (filter named (rt_stops t)))) =
      Inr (imported_stops low t)"
    unfolding imported_stops_def using assms
    by (intro domain_stops_of) (auto simp: list_all_iff regular_train_def distinct_map inj_on_def)
  ultimately show ?thesis by (simp add: snapshot_train_of_def Let_def)
qed

definition row_id :: "lower \<Rightarrow> raw_train \<Rightarrow> string" where
  "row_id low t = trim_space (train_id low t)"

lemma snapshot_rows_of:
  assumes "\<And>t. t \<in> set ts \<Longrightarrow> regular_train t \<and> trim_space (rt_date t) \<noteq> [] \<and> distinct (map rs_seq (rt_stops t))"
    and "distinct (map (row_id low) ts)" "\<And>t. t \<in> set ts \<Longrightarrow> row_id low t \<notin> fst ` set m"
  shows "snapshot_rows version (map (\<lambda>t. snapshot_train_of (fresh_train low t)) ts) (xs, m) =
      Inr (xs @ map (imported_train low version) ts, m @ map (\<lambda>t. (row_id low t, imported_stops low t)) ts)"
  using assms
proof (induction ts arbitrary: xs m)
  case (Cons t ts)
  have id: "sx_id (snapshot_train_of (fresh_train low t)) = train_id low t"
    by (simp add: snapshot_train_of_def fresh_train_def Let_def new_train_def)
  have m: "AList.update (row_id low t) (imported_stops low t) m = m @ [(row_id low t, imported_stops low t)]"
    using Cons.prems(3) [of t] by (simp add: update_fresh)
  have "row_id low u \<notin> fst ` set (m @ [(row_id low t, imported_stops low t)])" if "u \<in> set ts" for u
    using Cons.prems(2) Cons.prems(3) [of u] that by (auto simp: image_iff)
  with Cons.IH [of "m @ [(row_id low t, imported_stops low t)]" "xs @ [imported_train low version t]"] Cons.prems
  show ?case
    by (simp add: id domain_train_of domain_stops_train m row_id_def [symmetric])
qed simp

section \<open>Properties\<close>

text \<open>
  A feed is imported as it is: when the trains that are kept have merge keys and identifiers of
  their own and regular stops, the snapshot of the feed converts without error into exactly one row for
  each of them, in the order of the keys, with its times cut to whole seconds, and for each its named
  stops in the order of their sequence keys.
\<close>

theorem feed_imported:
  assumes "kept = filter (\<lambda>t. \<not> dropped target t) (sc_trains c)" "kept \<noteq> []" "trim_space target \<noteq> []"
    and "\<forall>t \<in> set (sc_trains c). distinct (map rs_seq (rt_stops t))" "\<forall>t \<in> set kept. regular_train t"
    and "distinct (map (merge_key low) kept)" "distinct (map (row_id low) kept)"
  shows "\<exists>a f. build_snapshot_file low target [c] = (a, Inr f) \<and> sf_version f = ''agg-'' @ target @ ''-'' @ sc_source c \<and>
    sa_merged a = int (length kept) \<and> snapshot_to_domain f = Inr (map (imported_train low (sf_version f)) (sort_key (merge_key low) kept),
      map (\<lambda>t. (row_id low t, imported_stops low t)) (sort_key (merge_key low) kept))"
proof -
  let ?ts = "sort_key (merge_key low) kept" and ?f = "\<lambda>t. snapshot_train_of (fresh_train low t)"
  let ?a = "(no_stats (int (length [c])))\<lparr>sa_succeeded := sa_succeeded (no_stats (int (length [c]))) + 1\<rparr>"
  have ne: "sc_trains c \<noteq> []" using assms(1,2) by auto
  obtain a' where merged: "merge_trains low target False (sc_trains c) ([], ?a) =
      Inr (map (\<lambda>t. (merge_key low t, fresh_train low t)) kept, a')"
    using merge_trains_fresh [of "sc_trains c" target low "[]" ?a] assms by auto
  have trains: "by_key (map (\<lambda>t. (merge_key low t, fresh_train low t)) kept) = map (fresh_train low) ?ts"
    by (rule by_key_keyed [OF assms(6)])
  have "length ?ts = length kept" by simp
  then have some: "map ?f ?ts \<noteq> []" using assms(2) by (metis length_0_conv map_is_Nil_conv)
  have date: "rt_date t = target" if "t \<in> set kept" for t using that assms(1) by (auto simp: dropped_def)
  have rows: "snapshot_rows v (map ?f ?ts) ([], []) =
      Inr ([] @ map (imported_train low v) ?ts, [] @ map (\<lambda>t. (row_id low t, imported_stops low t)) ?ts)" for v
    using assms date by (intro snapshot_rows_of) (auto simp: distinct_map inj_on_def)
  show ?thesis
    using ne merged some rows
    by (simp add: build_snapshot_file_def Let_def trains snapshot_to_domain_def o_def)
qed

section \<open>Runs\<close>

definition feed_stop :: "string \<Rightarrow> int \<Rightarrow> int \<Rightarrow> raw_stop" where
  "feed_stop name q t = \<lparr>rs_name = name, rs_seq = q, rs_arr = Some (t * minute, 7200), rs_dep = Some (t * minute, 7200),
     rs_lat = None, rs_lng = None\<rparr>"

definition feed_train :: "string \<Rightarrow> raw_stop list \<Rightarrow> raw_train" where
  "feed_train number stops = \<lparr>rt_id = [], rt_number = number, rt_date = ''2026-03-01'', rt_from = ''Riga'', rt_to = ''Sloka'',
     rt_dep = (29539080 * minute, 7200), rt_arr = (29539140 * minute, 7200), rt_stops = stops\<rparr>"

definition feed :: "raw_train list \<Rightarrow> raw_schedule" where
  "feed ts = \<lparr>sc_source = ''gtfs'', sc_fetched = 0, sc_trains = ts\<rparr>"

definition two_trains :: "raw_train list" where
  "two_trains = [feed_train ''6502'' [feed_stop ''Riga'' 1 29539080, feed_stop ''Sloka'' 2 29539140],
     feed_train ''6501'' [feed_stop ''Sloka'' 1 29539080]]"

theorem feed_imported_witness:
  "\<exists>a f. build_snapshot_file (\<lambda>s. s) ''2026-03-01'' [feed two_trains] = (a, Inr f) \<and>
    snapshot_to_domain f = Inr (map (imported_train (\<lambda>s. s) (sf_version f)) (rev two_trains),
      map (\<lambda>t. (row_id (\<lambda>s. s) t, imported_stops (\<lambda>s. s) t)) (rev two_trains))"
proof -
  have "two_trains = filter (\<lambda>t. \<not> dropped ''2026-03-01'' t) (sc_trains (feed two_trains))" by code_simp
  moreover have "two_trains \<noteq> []" "trim_space ''2026-03-01'' \<noteq> []" by code_simp+
  moreover have "\<forall>t \<in> set (sc_trains (feed two_trains)). distinct (map rs_seq (rt_stops t))"
    "\<forall>t \<in> set two_trains. regular_train t" by code_simp+
  moreover have "distinct (map (merge_key (\<lambda>s. s)) two_trains)" "distinct (map (row_id (\<lambda>s. s)) two_trains)"
    by code_simp+
  moreover have "sort_key (merge_key (\<lambda>s. s)) two_trains = rev two_trains" by code_simp
  ultimately show ?thesis
    using feed_imported [of two_trains "''2026-03-01''" "feed two_trains" "\<lambda>s. s"] by auto
qed

text \<open>
  Trip numbers that differ only in case share a merge key: the stops of both trains are collected under
  one, two of them with one sequence number, and the snapshot that was built without error cannot be
  imported, so that one such pair keeps every other train of the day out.
\<close>

theorem case_variants_block_import:
  "\<exists>a f. build_snapshot_file to_lower ''2026-03-01''
       [feed (feed_train ''A1'' [feed_stop ''Riga'' 1 29539080] # feed_train ''a1'' [feed_stop ''Ogre'' 1 29539080] # two_trains)] =
     (a, Inr f) \<and> snapshot_to_domain f = Inl (DuplicateSequence ''2026-03-01-train-a1'' 1)"
proof -
  let ?b = "build_snapshot_file to_lower ''2026-03-01''
       [feed (feed_train ''A1'' [feed_stop ''Riga'' 1 29539080] # feed_train ''a1'' [feed_stop ''Ogre'' 1 29539080] # two_trains)]"
  have "(case snd ?b of Inl _ \<Rightarrow> False
     | Inr f \<Rightarrow> snapshot_to_domain f = Inl (DuplicateSequence ''2026-03-01-train-a1'' 1))" by code_simp
  then show ?thesis by (cases ?b) (auto split: sum.splits)
qed

end
