(* ===== verification/TbTimetableClaims.thy ===== *)
theory TbTimetableClaims
  imports TbTimetable TbFeedClaims
begin

text \<open>
  train-bot, the timetable: the type of its tables and that every operation keeps it, what an import
  leaves in them, down from the feed, and that the two ways to ask where one can go agree.
\<close>

section \<open>The type of the tables\<close>

text \<open>
  The keys of the tables are unique, a station's identifier is its key with underscores, and every stop
  is at a station of the table.
\<close>

definition id_of_key :: "station_row \<Rightarrow> bool" where
  "id_of_key w \<longleftrightarrow> sw_id w = replace_chars '' '' CHR ''_'' (sw_key w)"

definition days_ok :: "day_tables \<Rightarrow> bool" where
  "days_ok d \<longleftrightarrow> distinct (map in_id (dt_trains d)) \<and> distinct (map (\<lambda>e. (se_train e, se_seq e)) (dt_stops d)) \<and>
     distinct (map sw_key (dt_stations d)) \<and> distinct (map sw_id (dt_stations d)) \<and>
     (\<forall>w \<in> set (dt_stations d). id_of_key w) \<and>
     (\<forall>e \<in> set (dt_stops d). se_station e \<in> sw_id ` set (dt_stations d))"

lemma days_okD:
  assumes "days_ok d"
  shows "distinct (map in_id (dt_trains d))" "distinct (map (\<lambda>e. (se_train e, se_seq e)) (dt_stops d))"
    "distinct (map sw_key (dt_stations d))" "distinct (map sw_id (dt_stations d))"
    "\<forall>w \<in> set (dt_stations d). id_of_key w"
    "e \<in> set (dt_stops d) \<Longrightarrow> se_station e \<in> sw_id ` set (dt_stations d)"
  using assms by (auto simp: days_ok_def)

lemma insert_trains_spec:
  "insert_trains ts rows = Inr rows' \<Longrightarrow> distinct (map in_id rows) \<Longrightarrow>
    rows' = rows @ ts \<and> distinct (map in_id rows')"
  by (induction ts arbitrary: rows) (fastforce split: if_splits)+

lemma insert_trains_rows: "insert_trains ts rows = Inr rows' \<Longrightarrow> rows' = rows @ ts"
  by (induction ts arbitrary: rows) (fastforce split: if_splits)+

lemma upsert_train_instances_rows:
  "upsert_train_instances db date version ts d = Inr d' \<Longrightarrow>
    d' = d\<lparr>dt_trains := filter (\<lambda>t. in_date t \<noteq> date) (dt_trains d) @ map (stored_train date version) ts\<rparr>"
  by (auto simp: upsert_train_instances_def map_sum_def dest!: insert_trains_rows split: option.splits sum.splits)

lemma upsert_train_instances_ok:
  assumes "upsert_train_instances db date version ts d = Inr d'" "days_ok d"
  shows "days_ok d'"
proof -
  obtain rows where r: "insert_trains (map (stored_train date version) ts) (filter (\<lambda>t. in_date t \<noteq> date) (dt_trains d)) = Inr rows"
    and d': "d' = d\<lparr>dt_trains := rows\<rparr>"
    using assms(1) by (auto simp: upsert_train_instances_def map_sum_def split: option.splits sum.splits)
  show ?thesis
    using insert_trains_spec [OF r distinct_map_filter [OF days_okD(1) [OF assms(2)]], THEN conjunct2] assms(2)
    by (simp add: d' days_ok_def)
qed

lemma upsert_station_ok:
  assumes "upsert_station w rows = Inr rows'" "distinct (map sw_key rows)" "distinct (map sw_id rows)"
    and "\<forall>r \<in> set rows. id_of_key r" "id_of_key w"
  shows "distinct (map sw_key rows') \<and> distinct (map sw_id rows') \<and>
    (\<forall>r \<in> set rows'. id_of_key r) \<and>
    sw_id ` set rows \<subseteq> sw_id ` set rows' \<and> sw_id w \<in> sw_id ` set rows'"
proof (cases "sw_key w \<in> sw_key ` set rows")
  case True
  let ?f = "\<lambda>r. if sw_key r = sw_key w
        then r\<lparr>sw_name := sw_name w, sw_lat := coalesce (sw_lat w) (sw_lat r), sw_lng := coalesce (sw_lng w) (sw_lng r)\<rparr> else r"
  have rows': "rows' = map ?f rows" using assms(1) True by (simp add: upsert_station_def)
  have f: "sw_key (?f r) = sw_key r" "sw_id (?f r) = sw_id r" for r by simp_all
  have keys: "map sw_key rows' = map sw_key rows" and ids: "map sw_id rows' = map sw_id rows"
    by (simp_all add: rows' o_def f)
  then have "sw_id ` set rows' = sw_id ` set rows" by (metis list.set_map)
  moreover have fine: "\<forall>r \<in> set rows'. id_of_key r" using assms(4) by (auto simp: rows' id_of_key_def)
  moreover obtain r where "r \<in> set rows" "sw_key r = sw_key w" using True by force
  then have "sw_id w = sw_id r \<and> r \<in> set rows" using assms(4,5) by (simp add: id_of_key_def)
  then have "sw_id w \<in> sw_id ` set rows" by simp
  ultimately show ?thesis
    using assms(2,3) fine by (simp add: keys ids)
next
  case False
  then have "rows' = rows @ [w]" "sw_id w \<notin> sw_id ` set rows"
    using assms(1) by (auto simp: upsert_station_def split: if_splits)
  with False assms(2-5) show ?thesis by auto
qed

lemma upsert_stop_keys:
  "distinct (map (\<lambda>e. (se_train e, se_seq e)) rows) \<Longrightarrow> distinct (map (\<lambda>e. (se_train e, se_seq e)) (upsert_stop e rows))"
proof (cases "list_ex (same_stop e) rows")
  case True
  have "map (\<lambda>e. (se_train e, se_seq e)) (upsert_stop e rows) = map (\<lambda>e. (se_train e, se_seq e)) rows"
    using True by (auto simp: upsert_stop_def same_stop_def)
  then show "distinct (map (\<lambda>e. (se_train e, se_seq e)) rows) \<Longrightarrow> ?thesis" by simp
qed (auto simp: upsert_stop_def same_stop_def list_ex_iff)

lemma upsert_stop_set: "x \<in> set (upsert_stop e rows) \<Longrightarrow> x = e \<or> x \<in> set rows"
  by (auto simp: upsert_stop_def split: if_splits)

lemma insert_stop_ok:
  assumes "insert_stop low train s d = Inr d'" "days_ok d"
  shows "days_ok d' \<and> dt_trains d' = dt_trains d"
proof (cases "trim_space (sr_name s) = []")
  case False
  then obtain ws where ws: "upsert_station (station_of low s) (dt_stations d) = Inr ws"
    and d': "d' = d\<lparr>dt_stations := ws, dt_stops := upsert_stop (entry_of low train s) (dt_stops d)\<rparr>"
    using assms(1) by (auto simp: insert_stop_def map_sum_def split: sum.splits)
  have "id_of_key (station_of low s)"
    by (simp add: id_of_key_def station_of_def Let_def normalize_station_id_def)
  note st = upsert_station_ok [OF ws days_okD(3,4,5) [OF assms(2)] this]
  have "se_station (entry_of low train s) = sw_id (station_of low s)"
    by (simp add: entry_of_def station_of_def Let_def)
  then have "se_station e \<in> sw_id ` set ws" if "e \<in> set (upsert_stop (entry_of low train s) (dt_stops d))" for e
    using upsert_stop_set [OF that] st days_okD(6) [OF assms(2), of e] by auto
  then show ?thesis
    using st assms(2) upsert_stop_keys [of "dt_stops d" "entry_of low train s"] by (simp add: days_ok_def d')
qed (use assms in \<open>simp add: insert_stop_def\<close>)

lemma insert_stops_ok:
  "insert_stops low ss d = Inr d' \<Longrightarrow> days_ok d \<Longrightarrow> days_ok d' \<and> dt_trains d' = dt_trains d"
proof (induction ss arbitrary: d)
  case (Cons x ss)
  obtain train s where x: "x = (train, s)" by (cases x)
  with Cons show ?case by (auto split: sum.splits dest!: insert_stop_ok)
qed simp

lemma days_ok_subset:
  "days_ok d \<Longrightarrow> days_ok (d\<lparr>dt_stops := filter P (dt_stops d)\<rparr>)"
  "days_ok d \<Longrightarrow> days_ok (d\<lparr>dt_trains := filter Q (dt_trains d)\<rparr>)"
  by (auto simp: days_ok_def distinct_map_filter)

lemma upsert_train_stops_ok:
  "upsert_train_stops low db date m d = Inr d' \<Longrightarrow> days_ok d \<Longrightarrow> days_ok d' \<and> dt_trains d' = dt_trains d"
  using days_ok_subset(1) by (auto simp: upsert_train_stops_def split: option.splits dest!: insert_stops_ok)

lemma import_train_data_ok: "days_ok d \<Longrightarrow> days_ok (fst (import_train_data low db date version ts m d))"
  by (auto simp: import_train_data_def split: sum.split dest: upsert_train_instances_ok upsert_train_stops_ok)

lemma drop_orphans_ok: "days_ok d \<Longrightarrow> days_ok (drop_orphans d)"
  by (simp add: drop_orphans_def days_ok_subset)

lemma delete_train_data_ok: "days_ok d \<Longrightarrow> days_ok (fst (delete_train_data_by_service_date db date d))"
  by (simp add: delete_train_data_by_service_date_def Let_def days_ok_subset drop_orphans_ok split: option.split)

lemma deleting_days_ok:
  "(\<And>b. days_ok (bs_days b) \<Longrightarrow> days_ok (bs_days (f b))) \<Longrightarrow> days_ok (bs_days (fst r)) \<Longrightarrow> days_ok (bs_days (fst (deleting db name f r)))"
  by (cases r; cases "snd r"; cases "db name") (simp_all add: deleting_def)

lemma prune_days_ok:
  "days_ok (bs_days b) \<Longrightarrow> days_ok (bs_days (prune_trains x b))" "days_ok (bs_days b) \<Longrightarrow> days_ok (bs_days (prune_stops b))"
  by (simp_all add: prune_trains_def prune_stops_def days_ok_subset drop_orphans_ok)

lemma cleanup_days_ok: "days_ok (bs_days b) \<Longrightarrow> days_ok (bs_days (fst (cleanup_expired db loc now retention b)))"
  unfolding cleanup_expired_def Let_def fst_conv
  by (intro deleting_days_ok prune_days_ok)
    (simp_all add: prune_rides_def prune_reports_def prune_sightings_def prune_locations_def)

section \<open>What an import leaves\<close>

definition stops_for :: "string \<Rightarrow> (string \<times> stop_row) list \<Rightarrow> stop_row list" where
  "stops_for i ss = filter (\<lambda>s. trim_space (sr_name s) \<noteq> []) (map snd (filter (\<lambda>x. fst x = i) ss))"

lemma stops_for_Cons:
  "stops_for i ((train, s) # ss) = (if train = i \<and> trim_space (sr_name s) \<noteq> [] then s # stops_for i ss else stops_for i ss)"
  by (simp add: stops_for_def)

lemma stops_for_map:
  "distinct (map fst m) \<Longrightarrow> map_of m i = Some ss \<Longrightarrow> stops_for i (all_stops m) = filter (\<lambda>s. trim_space (sr_name s) \<noteq> []) ss"
proof (induction m)
  case (Cons x m)
  obtain k ks where x: "x = (k, ks)" by (cases x)
  have all: "all_stops (x # m) = map (Pair k) ks @ all_stops m" by (simp add: all_stops_def x)
  have none: "filter (\<lambda>x. fst x = i) (all_stops m) = []" if "i \<notin> fst ` set m"
    using that by (auto simp: all_stops_def filter_empty_conv image_iff)
  show ?case
  proof (cases "k = i")
    case True
    then have "filter (\<lambda>x. fst x = i) (all_stops m) = []" using Cons.prems(1) none by (simp add: x)
    then have "stops_for i (all_stops (x # m)) = filter (\<lambda>s. trim_space (sr_name s) \<noteq> []) ks"
      unfolding stops_for_def all using True by (simp add: filter_map o_def)
    with Cons.prems True show ?thesis by (simp add: x)
  next
    case False
    then have "stops_for i (all_stops (x # m)) = stops_for i (all_stops m)"
      by (simp add: stops_for_def all filter_map o_def)
    with Cons False show ?thesis by (simp add: x)
  qed
qed simp

lemma upsert_stop_train:
  "se_train e \<noteq> i \<Longrightarrow> filter (\<lambda>r. se_train r = i) (upsert_stop e rows) = filter (\<lambda>r. se_train r = i) rows"
  "\<not> list_ex (same_stop e) rows \<Longrightarrow> upsert_stop e rows = rows @ [e]"
proof -
  have "filter (\<lambda>r. se_train r = i) (map (\<lambda>r. if same_stop e r then e else r) rows) = filter (\<lambda>r. se_train r = i) rows"
    if "se_train e \<noteq> i" using that by (induction rows) (auto simp: same_stop_def)
  then show "se_train e \<noteq> i \<Longrightarrow> filter (\<lambda>r. se_train r = i) (upsert_stop e rows) = filter (\<lambda>r. se_train r = i) rows"
    by (simp add: upsert_stop_def)
qed (simp add: upsert_stop_def)

lemma insert_stop_stops:
  assumes "insert_stop low train s d = Inr d'"
  shows "dt_stops d' = (if trim_space (sr_name s) = [] then dt_stops d else upsert_stop (entry_of low train s) (dt_stops d))"
  using assms by (auto simp: insert_stop_def map_sum_def split: sum.splits if_splits)

lemma entry_of_fields [simp]: "se_train (entry_of low train s) = train" "se_seq (entry_of low train s) = sr_seq s"
  by (simp_all add: entry_of_def)

text \<open>The stops of one train, when its sequence numbers are its own: they are appended in order.\<close>

lemma insert_stops_train:
  assumes "insert_stops low ss d = Inr d'" "distinct (map sr_seq (stops_for i ss))"
    and "\<And>e. e \<in> set (dt_stops d) \<Longrightarrow> se_train e = i \<Longrightarrow> se_seq e \<notin> set (map sr_seq (stops_for i ss))"
  shows "filter (\<lambda>e. se_train e = i) (dt_stops d') =
    filter (\<lambda>e. se_train e = i) (dt_stops d) @ map (entry_of low i) (stops_for i ss)"
  using assms
proof (induction ss arbitrary: d)
  case (Cons x ss)
  obtain train s where x: "x = (train, s)" by (cases x)
  obtain d1 where d1: "insert_stop low train s d = Inr d1" "insert_stops low ss d1 = Inr d'"
    using Cons.prems(1) by (auto simp: x split: sum.splits)
  note stops = insert_stop_stops [OF d1(1)]
  show ?case
  proof (cases "trim_space (sr_name s) = [] \<or> train \<noteq> i")
    case True
    then have rest: "stops_for i (x # ss) = stops_for i ss" by (auto simp: x stops_for_Cons)
    have same: "filter (\<lambda>e. se_train e = i) (dt_stops d1) = filter (\<lambda>e. se_train e = i) (dt_stops d)"
      using True upsert_stop_train(1) [of "entry_of low train s" i] by (auto simp: stops)
    have "se_seq e \<notin> set (map sr_seq (stops_for i ss))" if "e \<in> set (dt_stops d1)" "se_train e = i" for e
    proof -
      have "e \<in> set (filter (\<lambda>e. se_train e = i) (dt_stops d1))" using that by simp
      then show ?thesis using Cons.prems(3) [of e] unfolding same rest by simp
    qed
    with Cons.IH [OF d1(2)] Cons.prems(2) show ?thesis by (simp add: rest same)
  next
    case False
    then have rest: "stops_for i (x # ss) = s # stops_for i ss" and i: "train = i" by (auto simp: x stops_for_Cons)
    have "\<not> list_ex (same_stop (entry_of low train s)) (dt_stops d)"
    proof -
      have "\<forall>e \<in> set (dt_stops d). se_train e = i \<longrightarrow> se_seq e \<noteq> sr_seq s"
        using Cons.prems(3) by (simp add: rest)
      then show ?thesis by (auto simp: list_ex_iff same_stop_def entry_of_def i)
    qed
    then have st: "dt_stops d1 = dt_stops d @ [entry_of low train s]"
      using False upsert_stop_train(2) by (simp add: stops)
    have "filter (\<lambda>e. se_train e = i) (dt_stops d') =
        filter (\<lambda>e. se_train e = i) (dt_stops d1) @ map (entry_of low i) (stops_for i ss)"
      using Cons.prems(2,3) by (intro Cons.IH [OF d1(2)]) (auto simp: rest st)
    then show ?thesis by (simp add: rest st i)
  qed
qed (simp add: stops_for_def)

lemma sort_key_map: "sort_key f (map g xs) = map g (sort_key (\<lambda>x. f (g x)) xs)" for f :: "'b \<Rightarrow> 'c::linorder"
proof -
  have "insort_key f (g x) (map g ys) = map g (insort_key (\<lambda>x. f (g x)) x ys)" for x ys by (induction ys) simp_all
  then show ?thesis by (induction xs) simp_all
qed

lemma one_station:
  assumes "days_ok d" "i \<in> sw_id ` set (dt_stations d)"
  shows "\<exists>w. filter (\<lambda>w. sw_id w = i) (dt_stations d) = [w] \<and> w \<in> set (dt_stations d) \<and> sw_id w = i"
proof -
  have "length (filter (\<lambda>w. sw_id w = i) ws) = 1" if "distinct (map sw_id ws)" "i \<in> sw_id ` set ws" for ws
    using that by (induction ws) (auto simp: filter_empty_conv image_iff)
  from this [OF days_okD(4) [OF assms(1)] assms(2)]
  obtain w where "filter (\<lambda>w. sw_id w = i) (dt_stations d) = [w]" by (auto simp: length_Suc_conv)
  moreover have "w \<in> set (filter (\<lambda>w. sw_id w = i) (dt_stations d))" using calculation by simp
  then have "w \<in> set (dt_stations d) \<and> sw_id w = i" by (simp only: set_filter mem_Collect_eq)
  ultimately show ?thesis by blast
qed

text \<open>What a query shows of a stop, apart from the station's name and coordinates.\<close>

definition stop_facts :: "stop_row \<Rightarrow> int \<times> string \<times> int option \<times> int option" where
  "stop_facts s = (sr_seq s, sr_station s, sr_arr s, sr_dep s)"

definition entry_facts :: "stop_entry \<Rightarrow> int \<times> string \<times> int option \<times> int option" where
  "entry_facts e = (se_seq e, se_station e, se_arr e, se_dep e)"

lemma list_train_stops_facts:
  assumes "days_ok d"
  shows "map stop_facts (list_train_stops i d) =
    map entry_facts (sort_key se_seq (filter (\<lambda>e. se_train e = i) (dt_stops d)))"
proof -
  let ?show = "\<lambda>(e, w). \<lparr>sr_train = se_train e, sr_station = se_station e, sr_name = sw_name w, sr_seq = se_seq e,
         sr_arr = se_arr e, sr_dep = se_dep e, sr_lat = sw_lat w, sr_lng = sw_lng w\<rparr>"
  have "map stop_facts (map ?show (concat (map (\<lambda>e. map (Pair e) (filter (\<lambda>w. sw_id w = se_station e) (dt_stations d))) es))) =
      map entry_facts es" if "set es \<subseteq> set (dt_stops d)" for es
    using that
  proof (induction es)
    case (Cons e es)
    obtain w where "filter (\<lambda>w. sw_id w = se_station e) (dt_stations d) = [w]"
      using one_station [OF assms, of "se_station e"] days_okD(6) [OF assms, of e] Cons.prems by auto
    with Cons show ?case by (simp add: stop_facts_def entry_facts_def)
  qed simp
  then show ?thesis unfolding list_train_stops_def by auto
qed

section \<open>Runs\<close>

datatype store_event =
    Imported sql string string "train_row list" "(string \<times> stop_row list) list"
  | DayDeleted sql string
  | CleanedUp sql location int int

fun store_step :: "lower \<Rightarrow> store_event \<Rightarrow> bot_store \<Rightarrow> bot_store" where
  "store_step low (Imported db date version ts m) b =
     b\<lparr>bs_days := fst (import_train_data low db date version ts m (bs_days b))\<rparr>"
| "store_step low (DayDeleted db date) b = b\<lparr>bs_days := fst (delete_train_data_by_service_date db date (bs_days b))\<rparr>"
| "store_step low (CleanedUp db loc now retention) b = fst (cleanup_expired db loc now retention b)"

definition store_after :: "lower \<Rightarrow> store_event list \<Rightarrow> bot_store" where
  "store_after low es = fold (store_step low) es \<lparr>bs_days = no_days, bs_rides = no_rides, bs_tables = no_tables\<rparr>"

lemma store_step_ok: "days_ok (bs_days b) \<Longrightarrow> days_ok (bs_days (store_step low e b))"
  by (cases e) (simp_all add: import_train_data_ok delete_train_data_ok cleanup_days_ok)

lemma store_after_ok: "days_ok (bs_days (store_after low es))"
proof -
  have "days_ok (bs_days b) \<Longrightarrow> days_ok (bs_days (fold (store_step low) es b))" for b
    by (induction es arbitrary: b) (simp_all add: store_step_ok)
  moreover have "days_ok no_days" by (simp add: days_ok_def no_days_def)
  ultimately show ?thesis unfolding store_after_def by simp
qed

section \<open>Properties\<close>

lemma sec_of_sec [simp]: "sec (sec t) = sec t"
  by (simp add: sec_def)

text \<open>What the tables hold of a train's stops after an import without error.\<close>

lemma import_train_data_parts:
  assumes "import_train_data low db date version ts m d = (d', None)"
  obtains d1 where "upsert_train_instances db date version ts d = Inr d1" "upsert_train_stops low db date m d1 = Inr d'"
  using assms by (auto simp: import_train_data_def split: sum.splits)

lemma imported_entries:
  assumes "import_train_data low db date version ts m d = (d', None)" "t \<in> set ts"
    and "distinct (map fst m)" "map_of m (in_id t) = Some ss" "list_all (\<lambda>s. trim_space (sr_name s) \<noteq> []) ss"
    and "distinct (map sr_seq ss)"
  shows "filter (\<lambda>e. se_train e = in_id t) (dt_stops d') = map (entry_of low (in_id t)) ss"
proof -
  obtain d1 where d1: "upsert_train_instances db date version ts d = Inr d1" "upsert_train_stops low db date m d1 = Inr d'"
    using import_train_data_parts [OF assms(1)] .
  let ?d = "d1\<lparr>dt_stops := filter (\<lambda>e. \<not> list_ex (\<lambda>t. in_id t = se_train e \<and> in_date t = date) (dt_trains d1)) (dt_stops d1)\<rparr>"
  have ins: "insert_stops low (all_stops m) ?d = Inr d'"
    using d1(2) by (auto simp: upsert_train_stops_def split: option.splits)
  have ss: "stops_for (in_id t) (all_stops m) = ss"
    using stops_for_map [OF assms(3,4)] assms(5) by (simp add: list_all_iff)
  have "stored_train date version t \<in> set (dt_trains d1)"
    using upsert_train_instances_rows [OF d1(1)] assms(2) by simp
  then have none: "filter (\<lambda>e. se_train e = in_id t) (dt_stops ?d) = []"
    by (force simp: filter_empty_conv list_ex_iff stored_train_def)
  have "filter (\<lambda>e. se_train e = in_id t) (dt_stops d') =
      filter (\<lambda>e. se_train e = in_id t) (dt_stops ?d) @ map (entry_of low (in_id t)) (stops_for (in_id t) (all_stops m))"
  proof (rule insert_stops_train [OF ins])
    show "distinct (map sr_seq (stops_for (in_id t) (all_stops m)))" using assms(6) by (simp add: ss)
    show "se_seq e \<notin> set (map sr_seq (stops_for (in_id t) (all_stops m)))"
      if "e \<in> set (dt_stops ?d)" "se_train e = in_id t" for e
      using none that by (auto simp: filter_empty_conv)
  qed
  with none ss show ?thesis by simp
qed

lemma insert_stops_trains: "insert_stops low ss d = Inr d' \<Longrightarrow> dt_trains d' = dt_trains d"
proof (induction ss arbitrary: d)
  case (Cons x ss)
  obtain train s where "x = (train, s)" by (cases x)
  with Cons show ?case by (auto simp: insert_stop_def map_sum_def split: sum.splits if_splits)
qed simp

lemma upsert_train_stops_trains: "upsert_train_stops low db date m d = Inr d' \<Longrightarrow> dt_trains d' = dt_trains d"
  by (auto simp: upsert_train_stops_def dest!: insert_stops_trains split: option.splits)

lemma imported_trains:
  assumes "import_train_data low db date version ts m d = (d', None)"
  shows "dt_trains d' = filter (\<lambda>t. in_date t \<noteq> date) (dt_trains d) @ map (stored_train date version) ts"
proof -
  obtain d1 where d1: "upsert_train_instances db date version ts d = Inr d1" "upsert_train_stops low db date m d1 = Inr d'"
    using import_train_data_parts [OF assms] .
  with upsert_train_instances_rows [OF d1(1)] upsert_train_stops_trains [OF d1(2)] show ?thesis by simp
qed

text \<open>Whatever an import does, it keeps the trains of other dates.\<close>

lemma import_keeps_others:
  "t \<in> set (dt_trains d) \<Longrightarrow> in_date t \<noteq> date \<Longrightarrow> t \<in> set (dt_trains (fst (import_train_data low db date version ts m d)))"
  by (auto simp: import_train_data_def upsert_train_stops_trains dest!: upsert_train_instances_rows split: sum.split)

text \<open>
  An import without error is what the queries then show: the trains of the date are exactly the
  imported ones, in the order of departure, with the date and version of the import and whole seconds;
  other dates are untouched; and each train whose stops came with names and sequence numbers of their
  own has exactly these stops, in sequence, at the stations their names normalize to.
\<close>

theorem imported_day_listed:
  assumes "days_ok d" "import_train_data low db date version ts m d = (d', None)"
  shows "list_train_instances_by_date date d' = sort_key in_dep (map (stored_train date version) ts) \<and>
    (other \<noteq> date \<longrightarrow> list_train_instances_by_date other d' = list_train_instances_by_date other d) \<and>
    (t \<in> set ts \<and> distinct (map fst m) \<and> map_of m (in_id t) = Some ss \<and>
       list_all (\<lambda>s. trim_space (sr_name s) \<noteq> []) ss \<and> distinct (map sr_seq ss) \<longrightarrow>
     map stop_facts (list_train_stops (in_id t) d') =
       map (\<lambda>s. (sr_seq s, normalize_station_id low (trim_space (sr_name s)), map_option sec (sr_arr s), map_option sec (sr_dep s)))
         (sort_key sr_seq ss))"
proof -
  have ok: "days_ok d'" using import_train_data_ok [of d low db date version ts m] assms by simp
  note trains = imported_trains [OF assms(2)]
  have date: "in_date (stored_train date version t) = date" for t by (simp add: stored_train_def)
  have "filter (\<lambda>t. in_date t = date) (dt_trains d') = map (stored_train date version) ts"
    by (simp add: trains filter_map o_def date)
  then have 1: "list_train_instances_by_date date d' = sort_key in_dep (map (stored_train date version) ts)"
    by (simp add: list_train_instances_by_date_def)
  have 2: "list_train_instances_by_date other d' = list_train_instances_by_date other d" if "other \<noteq> date"
    using that by (auto simp: list_train_instances_by_date_def trains filter_map o_def date
        intro!: arg_cong [where f = "sort_key in_dep"] filter_cong)
  have 3: "map stop_facts (list_train_stops (in_id t) d') =
      map (\<lambda>s. (sr_seq s, normalize_station_id low (trim_space (sr_name s)), map_option sec (sr_arr s), map_option sec (sr_dep s)))
        (sort_key sr_seq ss)"
    if "t \<in> set ts" "distinct (map fst m)" "map_of m (in_id t) = Some ss"
      "list_all (\<lambda>s. trim_space (sr_name s) \<noteq> []) ss" "distinct (map sr_seq ss)"
    using imported_entries [OF assms(2) that]
    by (simp add: list_train_stops_facts [OF ok] sort_key_map o_def entry_facts_def) (simp add: entry_of_def)
  show ?thesis
    by (intro conjI impI; (elim conjE)?) (rule 1, erule 2, rule 3)
qed

lemma legs_mem:
  "(t, e, e') \<in> set (day_legs date i d) \<longleftrightarrow> t \<in> set (dt_trains d) \<and> in_date t = date \<and> e \<in> set (dt_stops d) \<and>
     se_train e = in_id t \<and> se_station e = i \<and> e' \<in> set (dt_stops d) \<and> se_train e' = in_id t"
  by (auto simp: day_legs_def day_stops_def)

lemma sort_key_Nil: "sort_key f xs = [] \<longleftrightarrow> xs = []"
  by (metis length_0_conv length_sort)

lemma route_rows:
  "list_route_window_trains date i j start stop d \<noteq> [] \<longleftrightarrow>
    (\<exists>t e e'. (t, e, e') \<in> set (day_legs date i d) \<and> se_station e' = j \<and> se_seq e < se_seq e' \<and>
      sec start \<le> departs t e \<and> departs t e \<le> sec stop \<and> stations_at (se_station e) d \<noteq> [] \<and> stations_at (se_station e') d \<noteq> [])"
  by (fastforce simp: list_route_window_trains_def sort_key_Nil)

text \<open>
  C35. A station is offered as a destination from another exactly when it is in the table and some window
  of time shows a train of the date that is boarded at the one and left at the other.
\<close>

theorem reachable_iff_route:
  "w \<in> set (list_reachable_destinations date i (bs_days (store_after low es))) \<longleftrightarrow>
    w \<in> set (dt_stations (bs_days (store_after low es))) \<and>
    (\<exists>start stop. list_route_window_trains date i (sw_id w) start stop (bs_days (store_after low es)) \<noteq> [])"
proof -
  define d where "d = bs_days (store_after low es)"
  have ok: "days_ok d" using store_after_ok by (simp add: d_def)
  have at: "stations_at (se_station e) d \<noteq> []" if "e \<in> set (dt_stops d)" for e
    using one_station [OF ok days_okD(6) [OF ok that]] by (auto simp: stations_at_def)
  have window: "sec x \<le> x \<and> x \<le> sec (x + 1000000000)" for x
  proof -
    have "sec x = x - x mod 1000000000" "sec (x + 1000000000) = sec x + 1000000000"
      by (simp_all add: sec_def minus_mod_eq_div_mult)
    moreover have "0 \<le> x mod 1000000000" "x mod 1000000000 < 1000000000" by simp_all
    ultimately show ?thesis by linarith
  qed
  have "(\<exists>start stop. list_route_window_trains date i j start stop d \<noteq> []) \<longleftrightarrow>
      (\<exists>t e e'. (t, e, e') \<in> set (day_legs date i d) \<and> se_station e' = j \<and> se_seq e < se_seq e')" for j
  proof
    assume "\<exists>t e e'. (t, e, e') \<in> set (day_legs date i d) \<and> se_station e' = j \<and> se_seq e < se_seq e'"
    then obtain t e e' where l: "(t, e, e') \<in> set (day_legs date i d)" "se_station e' = j" "se_seq e < se_seq e'" by blast
    then have "stations_at (se_station e) d \<noteq> []" "stations_at (se_station e') d \<noteq> []" using at by (auto simp: legs_mem)
    with l window [of "departs t e"]
    have "list_route_window_trains date i j (departs t e) (departs t e + 1000000000) d \<noteq> []"
      unfolding route_rows by blast
    then show "\<exists>start stop. list_route_window_trains date i j start stop d \<noteq> []" by blast
  next
    assume "\<exists>start stop. list_route_window_trains date i j start stop d \<noteq> []"
    then obtain start stop where "list_route_window_trains date i j start stop d \<noteq> []" by blast
    then show "\<exists>t e e'. (t, e, e') \<in> set (day_legs date i d) \<and> se_station e' = j \<and> se_seq e < se_seq e'"
      unfolding route_rows by blast
  qed
  then show ?thesis
    unfolding d_def [symmetric] by (auto simp: list_reachable_destinations_def list_ex_iff)
qed

definition published_train :: "lower \<Rightarrow> string \<Rightarrow> string \<Rightarrow> raw_train \<Rightarrow> train_row" where
  "published_train low date version t = \<lparr>in_id = row_id low t, in_date = date, in_from = trim_space (rt_from t),
     in_to = trim_space (rt_to t), in_dep = sec (fst (rt_dep t)), in_arr = sec (fst (rt_arr t)), in_source = version\<rparr>"

lemma stored_imported: "stored_train date version (imported_train low v t) = published_train low date version t"
  by (simp add: stored_train_def imported_train_def published_train_def row_id_def)

definition published_stop :: "lower \<Rightarrow> raw_stop \<Rightarrow> int \<times> string \<times> int option \<times> int option" where
  "published_stop low s = (rs_seq s, normalize_station_id low (trim_space (rs_name s)),
     map_option (\<lambda>t. sec (fst t)) (rs_arr s), map_option (\<lambda>t. sec (fst t)) (rs_dep s))"

lemma sort_key_permuted: "inj_on f (set xs) \<Longrightarrow> sort_key f (sort_key g xs) = sort_key f xs"
  by (rule sort_key_inj_key_eq) simp_all

lemma published_stops:
  assumes "distinct (map rs_seq (rt_stops t))"
  shows "map (\<lambda>s. (sr_seq s, normalize_station_id low (trim_space (sr_name s)), map_option sec (sr_arr s), map_option sec (sr_dep s)))
      (sort_key sr_seq (imported_stops low t)) = map (published_stop low) (sort_key rs_seq (filter named (rt_stops t)))"
proof -
  have "inj_on rs_seq (set (filter named (rt_stops t)))"
    using assms by (auto simp: distinct_map inj_on_def)
  then have "sort_key rs_seq (sort_key (stop_key low) (filter named (rt_stops t))) = sort_key rs_seq (filter named (rt_stops t))"
    by (rule sort_key_permuted)
  then show ?thesis
    by (simp add: imported_stops_def sort_key_map o_def imported_stop_def published_stop_def option.map_comp)
qed

lemma imported_stops_fit:
  assumes "distinct (map rs_seq (rt_stops t))"
  shows "list_all (\<lambda>s. trim_space (sr_name s) \<noteq> []) (imported_stops low t) \<and> distinct (map sr_seq (imported_stops low t))"
  using assms by (auto simp: imported_stops_def imported_stop_def list_all_iff named_def o_def distinct_map inj_on_def)

lemma scraped_day:
  assumes "kept = filter (\<lambda>t. \<not> dropped target t) (sc_trains c)" "kept \<noteq> []" "trim_space target \<noteq> []"
    and "\<forall>t \<in> set (sc_trains c). distinct (map rs_seq (rt_stops t))" "\<forall>t \<in> set kept. regular_train t"
    and "distinct (map (merge_key low) kept)" "distinct (map (row_id low) kept)"
    and "fetch_all fs = Inr [c]" "orchestrate low target least write fs = Inr (f, path, a)" "snapshot_to_domain f = Inr (ts, m)"
    and "days_ok d" "import_train_data low db target (sf_version f) ts m d = (d', None)"
  shows "list_train_instances_by_date target d' =
      sort_key in_dep (map (published_train low target (sf_version f)) (sort_key (merge_key low) kept)) \<and>
    (t \<in> set kept \<longrightarrow> map stop_facts (list_train_stops (row_id low t) d') =
      map (published_stop low) (sort_key rs_seq (filter named (rt_stops t))))"
proof -
  let ?ks = "sort_key (merge_key low) kept"
  obtain a1 f1 where f1: "build_snapshot_file low target [c] = (a1, Inr f1)"
    "snapshot_to_domain f1 = Inr (map (imported_train low (sf_version f1)) ?ks, map (\<lambda>t. (row_id low t, imported_stops low t)) ?ks)"
    using feed_imported [OF assms(1-7)] by blast
  have "f1 = f" using assms(8,9) f1(1) by (auto simp: orchestrate_def split: if_splits option.splits sum.splits)
  then have ts: "ts = map (imported_train low (sf_version f)) ?ks" and m: "m = map (\<lambda>t. (row_id low t, imported_stops low t)) ?ks"
    using f1(2) assms(10) by simp_all
  have ids: "distinct (map fst m)" using assms(7) by (simp add: m o_def distinct_map inj_on_def)
  have "list_train_instances_by_date target d' = sort_key in_dep (map (published_train low target (sf_version f)) ?ks)"
    using imported_day_listed [OF assms(11,12)] by (simp add: ts o_def stored_imported)
  moreover have "map stop_facts (list_train_stops (row_id low t) d') =
      map (published_stop low) (sort_key rs_seq (filter named (rt_stops t)))" if t: "t \<in> set kept"
  proof -
    have seqs: "distinct (map rs_seq (rt_stops t))" using t assms(1,4) by auto
    have id: "in_id (imported_train low (sf_version f) t) = row_id low t" by (simp add: imported_train_def row_id_def)
    have "map_of m (row_id low t) = Some (imported_stops low t)"
      using map_of_keyed [of "row_id low" ?ks t "imported_stops low"] assms(7) t by (simp add: m distinct_map inj_on_def)
    then show ?thesis
      using imported_day_listed [OF assms(11,12), where t = "imported_train low (sf_version f) t" and ss = "imported_stops low t"] t ids imported_stops_fit [OF seqs]
      by (simp add: ts id published_stops [OF seqs])
  qed
  ultimately show ?thesis by blast
qed

text \<open>
  From the feed to the query: when the one configured provider delivers a regular feed and the
  import of what the orchestrator made of it succeeds, the trains listed for the date are exactly those
  the feed has for it, by departure, and the stops listed for a train are its named stops in sequence,
  with every time cut to whole seconds.
\<close>

theorem scraped_day_listed:
  assumes "kept = filter (\<lambda>t. \<not> dropped target t) (sc_trains c)" "kept \<noteq> []" "trim_space target \<noteq> []"
    and "\<forall>t \<in> set (sc_trains c). distinct (map rs_seq (rt_stops t))" "\<forall>t \<in> set kept. regular_train t"
    and "distinct (map (merge_key low) kept)" "distinct (map (row_id low) kept)"
    and "orchestrate low target least None [Fetched c] = Inr (f, path, a)" "snapshot_to_domain f = Inr (ts, m)"
    and "d = bs_days (store_after low es)" "import_train_data low db target (sf_version f) ts m d = (d', None)"
  shows "list_train_instances_by_date target d' =
      sort_key in_dep (map (published_train low target (sf_version f)) (sort_key (merge_key low) kept)) \<and>
    (t \<in> set kept \<longrightarrow> map stop_facts (list_train_stops (row_id low t) d') =
      map (published_stop low) (sort_key rs_seq (filter named (rt_stops t))))"
  using assms(10) store_after_ok [of low es] by (intro scraped_day [OF assms(1-7) _ assms(8,9) _ assms(11)]) simp_all

section \<open>A run\<close>

definition plain :: lower where "plain s = s"

definition sample_scrape :: "snapshot_file \<times> string \<times> stats" where
  "sample_scrape = (case orchestrate plain ''2026-03-01'' 1 None [Fetched (feed two_trains)] of Inr x \<Rightarrow> x | Inl _ \<Rightarrow> undefined)"

definition sample_rows :: "train_row list \<times> (string \<times> stop_row list) list" where
  "sample_rows = (case snapshot_to_domain (fst sample_scrape) of Inr x \<Rightarrow> x | Inl _ \<Rightarrow> undefined)"

definition sample_import :: "day_tables \<times> string option" where
  "sample_import = import_train_data plain calm ''2026-03-01'' (sf_version (fst sample_scrape)) (fst sample_rows) (snd sample_rows)
     (bs_days (store_after plain []))"

lemma sample_ok:
  "orchestrate plain ''2026-03-01'' 1 None [Fetched (feed two_trains)] = Inr sample_scrape"
  "snapshot_to_domain (fst sample_scrape) = Inr sample_rows"
  "snd sample_import = None"
  by code_simp+

theorem scraped_day_listed_witness:
  "list_train_instances_by_date ''2026-03-01'' (fst sample_import) =
     sort_key in_dep (map (published_train plain ''2026-03-01'' (sf_version (fst sample_scrape))) (rev two_trains)) \<and>
   map stop_facts (list_train_stops ''2026-03-01-train-6502'' (fst sample_import)) =
     [(1, ''Riga'', Some (29539080 * minute), Some (29539080 * minute)), (2, ''Sloka'', Some (29539140 * minute), Some (29539140 * minute))]"
proof -
  let ?t = "hd two_trains"
  obtain f path a where scrape: "sample_scrape = (f, path, a)" by (metis prod_cases3)
  obtain ts m where rows: "sample_rows = (ts, m)" by fastforce
  have imported: "import_train_data plain calm ''2026-03-01'' (sf_version f) ts m (bs_days (store_after plain [])) = (fst sample_import, None)"
    using sample_ok(3) by (simp add: sample_import_def scrape rows prod_eq_iff)
  have kept: "two_trains = filter (\<lambda>t. \<not> dropped ''2026-03-01'' t) (sc_trains (feed two_trains))" by code_simp
  have regular: "two_trains \<noteq> []" "trim_space ''2026-03-01'' \<noteq> []"
    "\<forall>t \<in> set (sc_trains (feed two_trains)). distinct (map rs_seq (rt_stops t))" "\<forall>t \<in> set two_trains. regular_train t"
    "distinct (map (merge_key plain) two_trains)" "distinct (map (row_id plain) two_trains)" by code_simp+
  have "orchestrate plain ''2026-03-01'' 1 None [Fetched (feed two_trains)] = Inr (f, path, a)" "snapshot_to_domain f = Inr (ts, m)"
    using sample_ok(1,2) by (simp_all add: scrape rows)
  note listed = scraped_day_listed [OF kept regular this HOL.refl imported, of ?t]
  moreover have "sort_key (merge_key plain) two_trains = rev two_trains" "?t \<in> set two_trains"
    "row_id plain ?t = ''2026-03-01-train-6502''" by code_simp+
  moreover have "map (published_stop plain) (sort_key rs_seq (filter named (rt_stops ?t))) =
     [(1, ''Riga'', Some (29539080 * minute), Some (29539080 * minute)), (2, ''Sloka'', Some (29539140 * minute), Some (29539140 * minute))]"
    by code_simp
  ultimately show ?thesis by (simp add: scrape)
qed

end
