(* ===== verification/TbSchedule.thy ===== *)
theory TbSchedule
  imports TbTimetableClaims
begin

text \<open>
  train-bot, which day's timetable is served (workloads/train-bot/internal/schedule/manager.go,
  snapshot.go; store/routed.go for the import): the manager loads today's day from the store or from
  its snapshot file, falls back to yesterday's before the hour of the daily scrape, and answers queries
  only for the day it loaded. The store is the routed one: an import goes to the state store first,
  whose answer is a parameter, then to the timetable of the model, which answers every query. \<open>db\<close> gives
  the errors of the store's statements; the first and the second listing of one load fail apart.
\<close>

section \<open>State and surroundings\<close>

record manager =
  mg_available :: bool
  mg_error :: "string option"
  mg_loaded_at :: int
  mg_date :: string

definition new_manager :: manager where
  "new_manager = \<lparr>mg_available = False, mg_error = None, mg_loaded_at = zero_time, mg_date = []\<rparr>"

definition scraper_hour :: "int \<Rightarrow> int" where
  "scraper_hour h = (if h < 0 \<or> 23 < h then 3 else h)"

text \<open>
  What a load meets: the errors of the store, the state store's answer to an import, and the decoded
  file of a date.
\<close>

record surroundings =
  su_lower :: lower
  su_db :: sql
  su_state :: "string \<Rightarrow> string option"
  su_file :: "string \<Rightarrow> string + snapshot_file"

datatype load_error =
    ReadFailed string | RetiredSource | WrongDate string string | Unconvertible feed_error | ImportFailed string

definition contains_text :: "string \<Rightarrow> string \<Rightarrow> bool" where
  "contains_text w s \<longleftrightarrow> list_ex (prefix w) (suffixes s)"

section \<open>Loading\<close>

definition usable_cached_schedule :: "train_row list \<Rightarrow> bool" where
  "usable_cached_schedule ts \<longleftrightarrow> list_all (\<lambda>t. \<not> contains_text ''vivi_pdf'' (in_source t)) ts \<and> ts \<noteq> []"

definition load_snapshot_file ::
    "string + snapshot_file \<Rightarrow> string \<Rightarrow> load_error + string \<times> train_row list \<times> (string \<times> stop_row list) list" where
  "load_snapshot_file file expected =
     (case file of
        Inl e \<Rightarrow> Inl (ReadFailed e)
      | Inr f \<Rightarrow>
          if contains_text ''vivi_pdf'' (sf_version f) then Inl RetiredSource
          else
            let g = (if sf_version f = [] then f\<lparr>sf_version := ''snapshot-unknown''\<rparr> else f) in
            case (if expected = [] then None else find (\<lambda>t. sx_date t \<noteq> expected) (sf_trains g)) of
              Some t \<Rightarrow> Inl (WrongDate (sx_id t) (sx_date t))
            | None \<Rightarrow> (case snapshot_to_domain g of
                Inl e \<Rightarrow> Inl (Unconvertible e) | Inr (ts, m) \<Rightarrow> Inr (sf_version g, ts, m)))"

definition routed_import ::
    "surroundings \<Rightarrow> string \<Rightarrow> string \<Rightarrow> train_row list \<Rightarrow> (string \<times> stop_row list) list \<Rightarrow> day_tables \<Rightarrow>
     day_tables \<times> string option" where
  "routed_import su date version ts m d =
     (case su_state su date of
        Some e \<Rightarrow> (d, Some e)
      | None \<Rightarrow> import_train_data (su_lower su) (su_db su) date version ts m d)"

definition list_by_date :: "sql \<Rightarrow> string \<Rightarrow> string \<Rightarrow> day_tables \<Rightarrow> string + train_row list" where
  "list_by_date db statement date d =
     (case db statement of Some e \<Rightarrow> Inl e | None \<Rightarrow> Inr (list_train_instances_by_date date d))"

definition usable_listing :: "string + train_row list \<Rightarrow> bool" where
  "usable_listing r \<longleftrightarrow> (case r of Inl _ \<Rightarrow> False | Inr ts \<Rightarrow> usable_cached_schedule ts)"

definition loaded :: "int \<Rightarrow> string \<Rightarrow> string option \<Rightarrow> manager" where
  "loaded clock date cause = \<lparr>mg_available = True, mg_error = cause, mg_loaded_at = clock, mg_date = date\<rparr>"

definition unavailable :: "string \<Rightarrow> manager \<Rightarrow> manager" where
  "unavailable e m = m\<lparr>mg_available := False, mg_error := Some e, mg_date := []\<rparr>"

text \<open>The text of an error, as far as the model needs it.\<close>

fun error_text :: "load_error \<Rightarrow> string" where
  "error_text (ReadFailed e) = ''read snapshot: '' @ e"
| "error_text RetiredSource = ''schedule uses retired PDF source''"
| "error_text (WrongDate i date) = ''train '' @ i @ '' has service_date '' @ date"
| "error_text (Unconvertible e) = ''convert snapshot''"
| "error_text (ImportFailed e) = e"

text \<open>A load that failed may still find a usable day in the store.\<close>

definition use_existing :: "surroundings \<Rightarrow> int \<Rightarrow> string \<Rightarrow> load_error \<Rightarrow> manager \<times> day_tables \<Rightarrow>
    (manager \<times> day_tables) \<times> load_error option" where
  "use_existing su clock date e s =
     (case s of (m, d) \<Rightarrow>
        if usable_listing (list_by_date (su_db su) ''existing'' date d)
        then ((loaded clock date (Some (error_text e)), d), None)
        else ((unavailable (error_text e) m, d), Some e))"

definition load_service_date ::
    "surroundings \<Rightarrow> int \<Rightarrow> string \<Rightarrow> manager \<times> day_tables \<Rightarrow> (manager \<times> day_tables) \<times> load_error option" where
  "load_service_date su clock date s =
     (case s of (m, d) \<Rightarrow>
        if usable_listing (list_by_date (su_db su) ''cached'' date d) then ((loaded clock date None, d), None)
        else case load_snapshot_file (su_file su date) date of
          Inl e \<Rightarrow> use_existing su clock date e (m, d)
        | Inr (version, ts, ss) \<Rightarrow>
            (case routed_import su date version ts ss d of
               (d1, Some e) \<Rightarrow> use_existing su clock date (ImportFailed e) (m, d1)
             | (d1, None) \<Rightarrow> ((loaded clock date None, d1), None)))"

section \<open>Today and yesterday\<close>

definition requested_date :: "location \<Rightarrow> int \<Rightarrow> string" where
  "requested_date loc now = date_text loc now"

definition previous_date :: "location \<Rightarrow> int \<Rightarrow> string" where
  "previous_date loc now = date_text loc (add_days loc (-1) now)"

definition daily_cutoff :: "location \<Rightarrow> int \<Rightarrow> int \<Rightarrow> int" where
  "daily_cutoff loc h now = date_at loc (local_civil loc now) (h * 3600) 0"

text \<open>\<open>su2\<close> is what the second load meets.\<close>

definition load_for_access ::
    "surroundings \<Rightarrow> surroundings \<Rightarrow> location \<Rightarrow> int \<Rightarrow> int \<Rightarrow> int \<Rightarrow> manager \<times> day_tables \<Rightarrow>
     (manager \<times> day_tables) \<times> load_error option" where
  "load_for_access su su2 loc h clock now s =
     (case load_service_date su clock (requested_date loc now) s of
        (s1, None) \<Rightarrow> (s1, None)
      | (s1, Some e) \<Rightarrow>
          if \<not> now < daily_cutoff loc h now then (s1, Some e)
          else if previous_date loc now = requested_date loc now then (s1, Some e)
          else case load_service_date su2 clock (previous_date loc now) s1 of
            ((m, d), None) \<Rightarrow>
              ((if mg_available m \<and> mg_date m = previous_date loc now then m\<lparr>mg_error := Some (error_text e)\<rparr> else m, d), None)
          | (s2, Some _) \<Rightarrow> (s2, Some e))"

definition load_today :: "surroundings \<Rightarrow> location \<Rightarrow> int \<Rightarrow> int \<Rightarrow> manager \<times> day_tables \<Rightarrow>
    (manager \<times> day_tables) \<times> load_error option" where
  "load_today su loc clock now s = load_service_date su clock (requested_date loc now) s"

section \<open>Access\<close>

record access_context =
  ac_requested :: string
  ac_effective :: string
  ac_loaded :: string
  ac_fallback :: bool
  ac_cutoff :: int
  ac_available :: bool
  ac_fresh :: bool

definition access_context_of :: "location \<Rightarrow> int \<Rightarrow> int \<Rightarrow> manager \<Rightarrow> access_context" where
  "access_context_of loc h now m =
     (let a = \<lparr>ac_requested = requested_date loc now, ac_effective = [], ac_loaded = mg_date m, ac_fallback = False,
            ac_cutoff = h, ac_available = False, ac_fresh = False\<rparr> in
      if \<not> mg_available m then a
      else if mg_date m = requested_date loc now
      then a\<lparr>ac_available := True, ac_fresh := True, ac_effective := requested_date loc now\<rparr>
      else if now < daily_cutoff loc h now \<and> mg_date m = previous_date loc now
      then a\<lparr>ac_available := True, ac_fallback := True, ac_effective := previous_date loc now\<rparr>
      else a)"

definition is_fresh_for :: "location \<Rightarrow> int \<Rightarrow> int \<Rightarrow> manager \<Rightarrow> bool" where
  "is_fresh_for loc h now m = ac_fresh (access_context_of loc h now m)"

definition require_service_date :: "location \<Rightarrow> int \<Rightarrow> int \<Rightarrow> manager \<Rightarrow> string option" where
  "require_service_date loc h now m =
     (let a = access_context_of loc h now m in
      if \<not> ac_available a \<or> trim_space (ac_effective a) = [] then None else Some (ac_effective a))"

section \<open>Queries\<close>

datatype query_error = NotServed | BadWindow string | QueryFailed string

definition on_service_date ::
    "location \<Rightarrow> int \<Rightarrow> int \<Rightarrow> manager \<Rightarrow> (string \<Rightarrow> query_error + 'a) \<Rightarrow> query_error + 'a" where
  "on_service_date loc h now m f = (case require_service_date loc h now m of None \<Rightarrow> Inl NotServed | Some date \<Rightarrow> f date)"

definition queried :: "sql \<Rightarrow> string \<Rightarrow> 'a \<Rightarrow> query_error + 'a" where
  "queried db statement x = (case db statement of Some e \<Rightarrow> Inl (QueryFailed e) | None \<Rightarrow> Inr x)"

definition list_by_window ::
    "sql \<Rightarrow> location \<Rightarrow> int \<Rightarrow> int \<Rightarrow> string \<Rightarrow> manager \<Rightarrow> day_tables \<Rightarrow> query_error + train_row list" where
  "list_by_window db loc h now window m d = on_service_date loc h now m (\<lambda>date.
     let ask = (\<lambda>start stop. queried db ''window'' (list_train_instances_by_window date start stop d)) in
     if window = ''now'' then ask (now - 15 * minute) (now + 15 * minute)
     else if window = ''next_hour'' then ask now (now + 1 * hour)
     else if window = ''today'' then ask (now - 30 * minute) (date_at loc (local_civil loc now) (23 * 3600 + 59 * 60 + 59) 0)
     else Inl (BadWindow window))"

definition list_all_trains :: "sql \<Rightarrow> location \<Rightarrow> int \<Rightarrow> int \<Rightarrow> manager \<Rightarrow> day_tables \<Rightarrow> query_error + train_row list" where
  "list_all_trains db loc h now m d = on_service_date loc h now m (\<lambda>date.
     queried db ''day'' (list_train_instances_by_date date d))"

text \<open>The stops of every train; a listing of stops may fail for some trains.\<close>

fun stops_of_all :: "(string \<Rightarrow> string option) \<Rightarrow> train_row list \<Rightarrow> day_tables \<Rightarrow> query_error + stop_row list" where
  "stops_of_all fails [] d = Inr []"
| "stops_of_all fails (t # ts) d =
     (case fails (in_id t) of
        Some e \<Rightarrow> Inl (QueryFailed e)
      | None \<Rightarrow> map_sum id ((@) (list_train_stops (in_id t) d)) (stops_of_all fails ts d))"

definition list_all_stops ::
    "sql \<Rightarrow> (string \<Rightarrow> string option) \<Rightarrow> location \<Rightarrow> int \<Rightarrow> int \<Rightarrow> manager \<Rightarrow> day_tables \<Rightarrow> query_error + stop_row list" where
  "list_all_stops db fails loc h now m d =
     (case list_all_trains db loc h now m d of Inl e \<Rightarrow> Inl e | Inr ts \<Rightarrow> stops_of_all fails ts d)"

definition get_station ::
    "sql \<Rightarrow> location \<Rightarrow> int \<Rightarrow> int \<Rightarrow> string \<Rightarrow> manager \<Rightarrow> day_tables \<Rightarrow> query_error + station_row option" where
  "get_station db loc h now i m d = on_service_date loc h now m (\<lambda>_. queried db ''station'' (get_station_by_id i d))"

definition list_stations ::
    "sql \<Rightarrow> location \<Rightarrow> int \<Rightarrow> int \<Rightarrow> manager \<Rightarrow> day_tables \<Rightarrow> query_error + station_row list" where
  "list_stations db loc h now m d = on_service_date loc h now m (\<lambda>date. queried db ''stations'' (list_stations_by_date date d))"

definition list_by_station_range ::
    "sql \<Rightarrow> location \<Rightarrow> int \<Rightarrow> int \<Rightarrow> string \<Rightarrow> int \<Rightarrow> int \<Rightarrow> manager \<Rightarrow> day_tables \<Rightarrow>
     query_error + station_window_train list" where
  "list_by_station_range db loc h now i start stop m d = on_service_date loc h now m (\<lambda>date.
     if stop < start then Inr [] else queried db ''station window'' (list_station_window_trains date i start stop d))"

definition list_by_station_window ::
    "sql \<Rightarrow> location \<Rightarrow> int \<Rightarrow> int \<Rightarrow> string \<Rightarrow> int \<Rightarrow> manager \<Rightarrow> day_tables \<Rightarrow>
     query_error + station_window_train list" where
  "list_by_station_window db loc h now i len m d = on_service_date loc h now m (\<lambda>date.
     let l = (if len \<le> 0 then 3 * hour else len)
     in queried db ''station window'' (list_station_window_trains date i now (now + l) d))"

definition reachable_destinations ::
    "sql \<Rightarrow> location \<Rightarrow> int \<Rightarrow> int \<Rightarrow> string \<Rightarrow> manager \<Rightarrow> day_tables \<Rightarrow> query_error + station_row list" where
  "reachable_destinations db loc h now i m d = on_service_date loc h now m (\<lambda>date.
     queried db ''reachable'' (list_reachable_destinations date i d))"

definition terminal_destinations ::
    "sql \<Rightarrow> location \<Rightarrow> int \<Rightarrow> int \<Rightarrow> string \<Rightarrow> manager \<Rightarrow> day_tables \<Rightarrow> query_error + station_row list" where
  "terminal_destinations db loc h now i m d = on_service_date loc h now m (\<lambda>date.
     queried db ''terminal'' (list_terminal_destinations date i d))"

definition route_window_trains ::
    "sql \<Rightarrow> location \<Rightarrow> int \<Rightarrow> int \<Rightarrow> string \<Rightarrow> string \<Rightarrow> int \<Rightarrow> manager \<Rightarrow> day_tables \<Rightarrow>
     query_error + route_window_train list" where
  "route_window_trains db loc h now i j len m d = on_service_date loc h now m (\<lambda>date.
     let l = (if len \<le> 0 then 18 * hour else len)
     in queried db ''route window'' (list_route_window_trains date i j (now - 30 * minute) (now + l) d))"

section \<open>What is served\<close>

lemma load_service_date_ok:
  assumes "load_service_date su clock date (m, d) = ((m', d'), None)"
  shows "mg_available m' \<and> mg_date m' = date"
  using assms
  by (auto simp: load_service_date_def use_existing_def loaded_def split: if_splits sum.splits prod.splits option.splits)

lemma load_service_date_failed:
  assumes "load_service_date su clock date (m, d) = ((m', d'), Some e)"
  shows "\<not> mg_available m'"
  using assms
  by (auto simp: load_service_date_def use_existing_def unavailable_def split: if_splits sum.splits prod.splits option.splits)

lemma date_text_nonempty: "trim_space (date_text loc t) \<noteq> []"
  by (rule trim_space_nonempty [of "CHR ''-''"], cases "local_civil loc t")
    (auto simp: date_text_def format_date_def plain_char_def less_char_def)

text \<open>
  C29. A load for access succeeds exactly when the schedule is served right after it, and the day that
  is served is then today's if today's could be loaded and otherwise, only before the cutoff,
  yesterday's.
\<close>

theorem load_iff_served:
  assumes "load_for_access su su2 loc h clock now (m, d) = ((m', d'), r)"
  shows "(r = None \<longleftrightarrow> require_service_date loc h now m' \<noteq> None) \<and>
    (\<forall>date. require_service_date loc h now m' = Some date \<longrightarrow>
      (if snd (load_service_date su clock (requested_date loc now) (m, d)) = None then date = requested_date loc now
       else date = previous_date loc now \<and> now < daily_cutoff loc h now))"
proof -
  obtain m1 d1 r1 where 1: "load_service_date su clock (requested_date loc now) (m, d) = ((m1, d1), r1)"
    by (metis prod.collapse)
  have texts: "trim_space (requested_date loc now) \<noteq> []" "trim_space (previous_date loc now) \<noteq> []"
    by (simp_all add: requested_date_def previous_date_def date_text_nonempty)
  show ?thesis
  proof (cases r1)
    case None
    then have "m' = m1" "r = None" using assms 1 by (simp_all add: load_for_access_def)
    with load_service_date_ok [of su clock "requested_date loc now" m d m1 d1] 1 None texts show ?thesis
      by (simp add: require_service_date_def access_context_of_def Let_def)
  next
    case (Some e)
    note off = load_service_date_failed [OF 1 [unfolded Some]]
    show ?thesis
    proof (cases "now < daily_cutoff loc h now \<and> previous_date loc now \<noteq> requested_date loc now")
      case False
      then have "m' = m1" "r = Some e" using assms 1 Some by (auto simp: load_for_access_def split: if_splits)
      with off 1 Some show ?thesis by (simp add: require_service_date_def access_context_of_def Let_def)
    next
      case True
      obtain m2 d2 r2 where 2: "load_service_date su2 clock (previous_date loc now) (m1, d1) = ((m2, d2), r2)"
        by (metis prod.collapse)
      show ?thesis
      proof (cases r2)
        case None
        note on = load_service_date_ok [OF 2 [unfolded None]]
        have "m' = m2\<lparr>mg_error := Some (error_text e)\<rparr>" "r = None"
          using assms 1 2 Some None True on by (auto simp: load_for_access_def)
        with on True texts 1 Some show ?thesis
          by (simp add: require_service_date_def access_context_of_def Let_def)
      next
        case (Some e2)
        note off2 = load_service_date_failed [OF 2 [unfolded Some]]
        have "m' = m2" "r = Some e"
          using assms 1 2 \<open>r1 = Some e\<close> Some True by (auto simp: load_for_access_def)
        with off2 1 \<open>r1 = Some e\<close> show ?thesis by (simp add: require_service_date_def access_context_of_def Let_def)
      qed
    qed
  qed
qed

end
