(* ===== verification/TbJobs.thy ===== *)
theory TbJobs
  imports TbSchedule
begin

text \<open>
  train-bot, the periodic jobs (workloads/train-bot/internal/jobs/runner.go): at every minute a tick
  cleans up once an hour and, from the hour of the daily scrape on, scrapes today's timetable until the
  schedule is fresh, with growing pauses after failures; yesterday's trains go when today's are in. The
  read model is the manager of TbSchedule. What the outside answers during a tick is \<open>tick_env\<close>; \<open>fatal\<close>
  says which errors mean an outdated schema, which stop the runner. Metrics are the calls issued.
\<close>

section \<open>State and surroundings\<close>

record job_config =
  jb_location :: location
  jb_hour :: int
  jb_retention :: int
  jb_scraper :: bool
  jb_least :: int
  jb_fatal :: "string \<Rightarrow> bool"

record tick_env =
  te_cleanup :: sql
  te_cleanup_state :: "string + cleanup_result"
  te_fetched :: "fetched list"
  te_write :: "(snapshot_file \<Rightarrow> string + string) option"
  te_import :: surroundings
  te_load :: surroundings
  te_load2 :: surroundings
  te_publish :: "string option"
  te_delete :: sql
  te_delete_state :: "string option"
  te_clock :: int

record jobs =
  jo_attempt_date :: string
  jo_next :: int
  jo_backoff :: int
  jo_warned :: string
  jo_cleaned :: int
  jo_metrics :: "(string \<times> string \<times> int) list"
  jo_manager :: manager
  jo_store :: bot_store

definition initial_backoff :: int where "initial_backoff = 15 * minute"
definition max_backoff :: int where "max_backoff = 60 * minute"
definition cleanup_interval :: int where "cleanup_interval = hour"

definition new_jobs :: "bot_store \<Rightarrow> jobs" where
  "new_jobs b = \<lparr>jo_attempt_date = [], jo_next = zero_time, jo_backoff = 0, jo_warned = [], jo_cleaned = zero_time,
     jo_metrics = [], jo_manager = new_manager, jo_store = b\<rparr>"

definition metric :: "string \<Rightarrow> string \<Rightarrow> int \<Rightarrow> jobs \<Rightarrow> jobs" where
  "metric date key v j = j\<lparr>jo_metrics := (date, key, v) # jo_metrics j\<rparr>"

definition on_days :: "(day_tables \<Rightarrow> day_tables) \<Rightarrow> jobs \<Rightarrow> jobs" where
  "on_days f j = j\<lparr>jo_store := (jo_store j)\<lparr>bs_days := f (bs_days (jo_store j))\<rparr>\<rparr>"

abbreviation days_of :: "jobs \<Rightarrow> day_tables" where
  "days_of j \<equiv> bs_days (jo_store j)"

section \<open>Retries\<close>

definition reset_daily_retry_state :: "jobs \<Rightarrow> jobs" where
  "reset_daily_retry_state j = j\<lparr>jo_attempt_date := [], jo_next := zero_time, jo_backoff := 0\<rparr>"

definition next_backoff :: "int \<Rightarrow> int" where
  "next_backoff b = (if b \<le> 0 then initial_backoff else if max_backoff < b * 2 then max_backoff else b * 2)"

definition schedule_next_daily_retry :: "int \<Rightarrow> jobs \<Rightarrow> jobs" where
  "schedule_next_daily_retry now j = j\<lparr>jo_backoff := next_backoff (jo_backoff j), jo_next := now + next_backoff (jo_backoff j)\<rparr>"

section \<open>Scraping\<close>

definition refresh_read_model :: "job_config \<Rightarrow> tick_env \<Rightarrow> int \<Rightarrow> jobs \<Rightarrow> jobs" where
  "refresh_read_model c te now j =
     (case load_for_access (te_load te) (te_load2 te) (jb_location c) (jb_hour c) (te_clock te) now (jo_manager j, days_of j) of
        ((m, d), _) \<Rightarrow> on_days (\<lambda>_. d) j\<lparr>jo_manager := m\<rparr>)"

text \<open>The state store is told to delete even when the timetable of the model could not.\<close>

definition routed_delete :: "tick_env \<Rightarrow> string \<Rightarrow> day_tables \<Rightarrow> day_tables \<times> string list" where
  "routed_delete te date d =
     (case delete_train_data_by_service_date (te_delete te) date d of
        (d', e) \<Rightarrow> (d', (case e of None \<Rightarrow> [] | Some x \<Rightarrow> [x]) @ (case te_delete_state te of None \<Rightarrow> [] | Some x \<Rightarrow> [x])))"

definition cleanup_previous_service_date :: "job_config \<Rightarrow> tick_env \<Rightarrow> int \<Rightarrow> jobs \<Rightarrow> jobs \<times> string list" where
  "cleanup_previous_service_date c te now j =
     (if now < daily_cutoff (jb_location c) (jb_hour c) now then (j, [])
      else case routed_delete te (previous_date (jb_location c) now) (days_of j) of (d, es) \<Rightarrow> (on_days (\<lambda>_. d) j, es))"

definition scrape_target :: "location \<Rightarrow> int \<Rightarrow> string" where
  "scrape_target loc now = date_text loc (date_at loc (local_civil loc now) 0 0)"

definition scrape_failed :: "string \<Rightarrow> string \<Rightarrow> jobs \<Rightarrow> jobs" where
  "scrape_failed date tag j = metric date ''scrape_warning'' 1 (metric date (tag @ ''_success'') 0 j)"

definition scrape_metrics :: "string \<Rightarrow> string \<Rightarrow> int \<Rightarrow> stats \<Rightarrow> jobs \<Rightarrow> jobs" where
  "scrape_metrics date tag now a j =
     fold (\<lambda>(k, v). metric date k v)
       [(tag @ ''_success'', 1), (''scrape_warning'', 0), (''scrape_providers_tried'', sa_tried a),
        (''scrape_providers_succeeded'', sa_succeeded a), (''scrape_trains_merged'', sa_merged a),
        (''scrape_trains_dropped'', sa_dropped a), (''scrape_conflicts_resolved'', sa_conflicts a),
        (''scrape_stops_filled_from_secondary'', sa_filled a), (''scrape_last_success_unix'', now div second)] j"

definition run_scrape :: "job_config \<Rightarrow> tick_env \<Rightarrow> int \<Rightarrow> string \<Rightarrow> jobs \<Rightarrow> jobs \<times> (string list + bool)" where
  "run_scrape c te now tag j =
     (let date = requested_date (jb_location c) now in
      if \<not> jb_scraper c then (j, Inr False)
      else case orchestrate (su_lower (te_import te)) (scrape_target (jb_location c) now) (jb_least c) (te_write te) (te_fetched te) of
        Inl _ \<Rightarrow> (scrape_failed date tag j, Inr False)
      | Inr (f, path, a) \<Rightarrow>
          (case snapshot_to_domain f of
             Inl _ \<Rightarrow> (scrape_failed date tag j, Inr False)
           | Inr (ts, m) \<Rightarrow>
               (case routed_import (te_import te) date (sf_version f) ts m (days_of j) of
                  (d, Some _) \<Rightarrow> (scrape_failed date tag (on_days (\<lambda>_. d) j), Inr False)
                | (d, None) \<Rightarrow>
                    let j1 = scrape_metrics date tag now a (refresh_read_model c te now (on_days (\<lambda>_. d) j)) in
                    if (case te_publish te of None \<Rightarrow> False | Some e \<Rightarrow> jb_fatal c e)
                    then (j1, Inl [the (te_publish te)])
                    else case cleanup_previous_service_date c te now j1 of
                      (j2, es) \<Rightarrow> if list_ex (jb_fatal c) es then (j2, Inl es) else (j2, Inr True))))"

section \<open>A tick\<close>

text \<open>Whether a tick scrapes.\<close>

definition scrape_due :: "job_config \<Rightarrow> int \<Rightarrow> jobs \<Rightarrow> bool" where
  "scrape_due c now j \<longleftrightarrow> jb_scraper c \<and> \<not> is_fresh_for (jb_location c) (jb_hour c) now (jo_manager j) \<and>
     \<not> now < daily_cutoff (jb_location c) (jb_hour c) now \<and>
     (requested_date (jb_location c) now \<noteq> jo_attempt_date j \<or> (jo_next j \<noteq> zero_time \<and> \<not> now < jo_next j))"

definition ensure_daily_schedule_freshness :: "job_config \<Rightarrow> tick_env \<Rightarrow> int \<Rightarrow> jobs \<Rightarrow> jobs \<times> string list" where
  "ensure_daily_schedule_freshness c te now j =
     (if \<not> jb_scraper c then (j, [])
      else if is_fresh_for (jb_location c) (jb_hour c) now (jo_manager j) then (reset_daily_retry_state j, [])
      else if \<not> scrape_due c now j then (j, [])
      else case run_scrape c te now ''scrape_daily_catchup'' (j\<lparr>jo_attempt_date := requested_date (jb_location c) now\<rparr>) of
        (j1, Inl es) \<Rightarrow> (j1, es)
      | (j1, Inr ok) \<Rightarrow> (if ok then reset_daily_retry_state j1 else schedule_next_daily_retry now j1, []))"

definition cleanup_metrics :: "string \<Rightarrow> cleanup_result \<Rightarrow> jobs \<Rightarrow> jobs" where
  "cleanup_metrics date r j =
     fold (\<lambda>(k, v). metric date k v)
       [(''cleanup_checkins_deleted'', int (cr_checkins r)), (''cleanup_reports_deleted'', int (cr_reports r)),
        (''cleanup_train_stops_deleted'', int (cr_stops r)), (''cleanup_trains_deleted'', int (cr_trains r))] j"

text \<open>
  The routed store cleans both stores; the timetable's error counts before the state store's. The
  counters of tables outside the model are left out. A state store that does not clean at all counts as
  one that removed nothing.
\<close>

definition both_cleaned :: "cleanup_result \<Rightarrow> cleanup_result \<Rightarrow> cleanup_result" where
  "both_cleaned a b = \<lparr>cr_checkins = cr_checkins a + cr_checkins b, cr_reports = cr_reports a + cr_reports b,
     cr_sightings = cr_sightings a + cr_sightings b, cr_stops = cr_stops a + cr_stops b, cr_trains = cr_trains a + cr_trains b\<rparr>"

definition cleanup_step :: "job_config \<Rightarrow> tick_env \<Rightarrow> int \<Rightarrow> jobs \<Rightarrow> jobs \<times> string list" where
  "cleanup_step c te now j =
     (if \<not> (jo_cleaned j = zero_time \<or> cleanup_interval \<le> time_sub now (jo_cleaned j)) then (j, [])
      else case cleanup_expired (te_cleanup te) (jb_location c) now (jb_retention c) (jo_store j) of
        (b, r) \<Rightarrow>
          let j1 = j\<lparr>jo_cleaned := now, jo_store := b\<rparr>
          in case (r, te_cleanup_state te) of
            (Inl e, _) \<Rightarrow> (j1, if jb_fatal c e then [e] else [])
          | (Inr _, Inl e) \<Rightarrow> (j1, if jb_fatal c e then [e] else [])
          | (Inr x, Inr y) \<Rightarrow> (cleanup_metrics (requested_date (jb_location c) now) (both_cleaned x y) j1, []))"

definition freshness_warning :: "job_config \<Rightarrow> int \<Rightarrow> jobs \<Rightarrow> jobs" where
  "freshness_warning c now j =
     (let loc = jb_location c; date = requested_date loc now; r = local_clock loc now in
      if r div 3600 = 4 \<and> r mod 3600 div 60 = 45 \<and> jo_warned j \<noteq> date
      then metric date ''schedule_freshness_warning'' (if is_fresh_for loc (jb_hour c) now (jo_manager j) then 0 else 1)
        (j\<lparr>jo_warned := date\<rparr>)
      else j)"

text \<open>A tick, and the errors that stop the runner.\<close>

definition job_tick :: "job_config \<Rightarrow> tick_env \<Rightarrow> int \<Rightarrow> jobs \<Rightarrow> jobs \<times> string list" where
  "job_tick c te now j =
     (case cleanup_step c te now j of
        (j1, e # es) \<Rightarrow> (j1, e # es)
      | (j1, []) \<Rightarrow> (case ensure_daily_schedule_freshness c te now j1 of
          (j2, e # es) \<Rightarrow> (j2, e # es)
        | (j2, []) \<Rightarrow> (freshness_warning c now j2, [])))"

text \<open>\<open>Run\<close> up to its loop: the read model, a first scrape, and what the start is reported as.\<close>

definition startup :: "job_config \<Rightarrow> tick_env \<Rightarrow> int \<Rightarrow> jobs \<Rightarrow> jobs \<times> string list" where
  "startup c te now j =
     (let date = requested_date (jb_location c) now; j1 = refresh_read_model c te now j in
      case (if jb_scraper c then run_scrape c te now ''scrape_startup'' j1 else (j1, Inr False)) of
        (j2, Inl es) \<Rightarrow> (j2, es)
      | (j2, Inr True) \<Rightarrow> (metric date ''schedule_startup_load_success'' 1 j2, [])
      | (j2, Inr False) \<Rightarrow>
          if mg_error (jo_manager j2) \<noteq> None \<or> \<not> mg_available (jo_manager j2)
          then (metric date ''schedule_startup_load_success'' 0 j2, [])
          else (metric date ''schedule_startup_load_success'' 1 j2, case te_publish te of None \<Rightarrow> [] | Some e \<Rightarrow> [e]))"

text \<open>The loop ends at the first error.\<close>

fun job_loop :: "job_config \<Rightarrow> (tick_env \<times> int) list \<Rightarrow> jobs \<Rightarrow> jobs \<times> string list" where
  "job_loop c [] j = (j, [])"
| "job_loop c ((te, now) # ts) j =
     (case job_tick c te now j of (j1, e # es) \<Rightarrow> (j1, e # es) | (j1, []) \<Rightarrow> job_loop c ts j1)"

end
