(* ===== verification/TbJobClaims.thy ===== *)
theory TbJobClaims
  imports TbJobs
begin

text \<open>
  train-bot, what the jobs guarantee: a served day stays served through a tick, failed scrapes are
  repeated after exactly the backoff, yesterday's trains outlive a failed scrape, and a due scrape of a
  regular feed ends with the feed being served.
\<close>

section \<open>What the parts of a tick leave alone\<close>

lemma metric_same [simp]:
  "jo_manager (metric d k v j) = jo_manager j" "jo_store (metric d k v j) = jo_store j" "jo_next (metric d k v j) = jo_next j"
  "jo_backoff (metric d k v j) = jo_backoff j" "jo_attempt_date (metric d k v j) = jo_attempt_date j"
  by (simp_all add: metric_def)

lemma metrics_same [simp]:
  "jo_manager (fold (\<lambda>(k, v). metric d k v) ks j) = jo_manager j" "jo_store (fold (\<lambda>(k, v). metric d k v) ks j) = jo_store j"
  "jo_next (fold (\<lambda>(k, v). metric d k v) ks j) = jo_next j" "jo_backoff (fold (\<lambda>(k, v). metric d k v) ks j) = jo_backoff j"
  "jo_attempt_date (fold (\<lambda>(k, v). metric d k v) ks j) = jo_attempt_date j"
  by (induction ks arbitrary: j) auto

lemma scrape_reports_same [simp]:
  "jo_manager (scrape_failed d p j) = jo_manager j" "jo_store (scrape_failed d p j) = jo_store j"
  "jo_next (scrape_failed d p j) = jo_next j" "jo_backoff (scrape_failed d p j) = jo_backoff j"
  "jo_attempt_date (scrape_failed d p j) = jo_attempt_date j"
  "jo_manager (scrape_metrics d p t a j) = jo_manager j" "jo_store (scrape_metrics d p t a j) = jo_store j"
  "jo_next (scrape_metrics d p t a j) = jo_next j" "jo_backoff (scrape_metrics d p t a j) = jo_backoff j"
  "jo_attempt_date (scrape_metrics d p t a j) = jo_attempt_date j"
  by (simp_all only: scrape_failed_def scrape_metrics_def metric_same metrics_same)

lemma on_days_same [simp]:
  "jo_manager (on_days f j) = jo_manager j" "jo_next (on_days f j) = jo_next j" "jo_backoff (on_days f j) = jo_backoff j"
  "jo_attempt_date (on_days f j) = jo_attempt_date j" "days_of (on_days f j) = f (days_of j)"
  by (simp_all add: on_days_def)

lemma freshness_warning_same [simp]:
  "jo_manager (freshness_warning c now j) = jo_manager j" "jo_store (freshness_warning c now j) = jo_store j"
  "jo_next (freshness_warning c now j) = jo_next j" "jo_backoff (freshness_warning c now j) = jo_backoff j"
  "jo_attempt_date (freshness_warning c now j) = jo_attempt_date j"
  by (simp_all add: freshness_warning_def Let_def)

lemma reset_same [simp]:
  "jo_manager (reset_daily_retry_state j) = jo_manager j" "jo_store (reset_daily_retry_state j) = jo_store j"
  "jo_manager (schedule_next_daily_retry now j) = jo_manager j" "jo_store (schedule_next_daily_retry now j) = jo_store j"
  "jo_attempt_date (schedule_next_daily_retry now j) = jo_attempt_date j"
  by (simp_all add: reset_daily_retry_state_def schedule_next_daily_retry_def)

lemma cleanup_step_same:
  assumes "cleanup_step c te now j = (j1, es)"
  shows "jo_manager j1 = jo_manager j" "jo_next j1 = jo_next j" "jo_backoff j1 = jo_backoff j"
    "jo_attempt_date j1 = jo_attempt_date j"
    "jo_store j1 = jo_store j \<or> jo_store j1 = fst (cleanup_expired (te_cleanup te) (jb_location c) now (jb_retention c) (jo_store j))"
  using assms
  by (auto simp: cleanup_step_def cleanup_metrics_def Let_def split: if_splits prod.splits sum.splits)

lemma cleanup_step_due: "cleanup_step c te now j = (j1, es) \<Longrightarrow> scrape_due c now j1 = scrape_due c now j"
  by (simp add: scrape_due_def cleanup_step_same)

text \<open>What a clean-up leaves of the timetable: trains of a kept date stay, and so do their stops.\<close>

lemma deleting_days:
  "(\<And>b. R (bs_days b) (bs_days (f b))) \<Longrightarrow> (\<And>x. R x x) \<Longrightarrow> (\<And>x y z. R x y \<Longrightarrow> R y z \<Longrightarrow> R x z) \<Longrightarrow>
    R x (bs_days (fst r)) \<Longrightarrow> R x (bs_days (fst (deleting db name f r)))"
  by (cases r; cases "snd r"; cases "db name") (auto simp: deleting_def)

definition keeps_dates :: "(string \<Rightarrow> bool) \<Rightarrow> day_tables \<Rightarrow> day_tables \<Rightarrow> bool" where
  "keeps_dates kept d d' \<longleftrightarrow> dt_stations d' = dt_stations d \<and>
     filter (\<lambda>t. kept (in_date t)) (dt_trains d') = filter (\<lambda>t. kept (in_date t)) (dt_trains d) \<and>
     (\<forall>i. (\<exists>t \<in> set (dt_trains d). in_id t = i \<and> kept (in_date t)) \<longrightarrow>
       filter (\<lambda>e. se_train e = i) (dt_stops d') = filter (\<lambda>e. se_train e = i) (dt_stops d))"

lemma keeps_dates_refl: "keeps_dates kept d d"
  by (simp add: keeps_dates_def)

lemma keeps_dates_mem:
  "keeps_dates kept d d' \<Longrightarrow> kept (in_date t) \<Longrightarrow> t \<in> set (dt_trains d) \<longleftrightarrow> t \<in> set (dt_trains d')"
proof -
  assume "keeps_dates kept d d'" "kept (in_date t)"
  then have "t \<in> set (filter (\<lambda>t. kept (in_date t)) (dt_trains d)) \<longleftrightarrow> t \<in> set (filter (\<lambda>t. kept (in_date t)) (dt_trains d'))"
    by (simp only: keeps_dates_def)
  with \<open>kept (in_date t)\<close> show ?thesis by simp
qed

lemma keeps_dates_trans: "keeps_dates kept x y \<Longrightarrow> keeps_dates kept y z \<Longrightarrow> keeps_dates kept x z"
  using keeps_dates_mem [of kept x y] unfolding keeps_dates_def by metis

lemma drop_orphans_keeps: "keeps_dates kept d (drop_orphans d)"
  by (auto simp: keeps_dates_def drop_orphans_def list_ex_iff intro!: filter_cong)

lemma cleanup_keeps: "keeps_dates (\<lambda>x. \<not> x < oldest_kept loc now) (bs_days b) (bs_days (fst (cleanup_expired db loc now retention b)))"
proof -
  let ?R = "keeps_dates (\<lambda>x. \<not> x < oldest_kept loc now)"
  have 1: "?R (bs_days b) (bs_days (prune_trains (oldest_kept loc now) b))" for b
    by (auto simp: keeps_dates_def prune_trains_def intro!: filter_cong)
  have 2: "?R (bs_days b) (bs_days (prune_stops b))" for b
    by (simp add: prune_stops_def drop_orphans_keeps)
  show ?thesis
    unfolding cleanup_expired_def Let_def fst_conv
    by (intro deleting_days [where R = ?R] 1 2 keeps_dates_refl)
      (auto intro: keeps_dates_trans simp: prune_rides_def prune_reports_def prune_sightings_def prune_locations_def keeps_dates_refl)
qed

lemma keeps_listing:
  assumes "keeps_dates kept d d'" "kept date"
  shows "list_train_instances_by_date date d' = list_train_instances_by_date date d"
    and "t \<in> set (list_train_instances_by_date date d) \<Longrightarrow> list_train_stops (in_id t) d' = list_train_stops (in_id t) d"
proof -
  have "filter (\<lambda>t. in_date t = date) xs = filter (\<lambda>t. in_date t = date) (filter (\<lambda>t. kept (in_date t)) xs)" for xs
    using assms(2) by (auto intro: filter_cong)
  then show "list_train_instances_by_date date d' = list_train_instances_by_date date d"
    using assms(1) by (metis keeps_dates_def list_train_instances_by_date_def)
  show "t \<in> set (list_train_instances_by_date date d) \<Longrightarrow> list_train_stops (in_id t) d' = list_train_stops (in_id t) d"
    using assms unfolding keeps_dates_def list_train_stops_def list_train_instances_by_date_def by auto
qed

lemma cleanup_step_keeps:
  assumes "cleanup_step c te now j = (j1, es)"
  shows "keeps_dates (\<lambda>x. \<not> x < oldest_kept (jb_location c) now) (days_of j) (days_of j1)"
  using cleanup_step_same(5) [OF assms] cleanup_keeps keeps_dates_refl by metis

section \<open>Serving through a tick\<close>

lemma served_not_due:
  "require_service_date (jb_location c) (jb_hour c) now (jo_manager j) = Some date \<Longrightarrow> \<not> scrape_due c now j"
  by (auto simp: require_service_date_def scrape_due_def is_fresh_for_def access_context_of_def Let_def split: if_splits)

lemma ensure_not_due:
  "\<not> scrape_due c now j \<Longrightarrow> ensure_daily_schedule_freshness c te now j = (j, []) \<or>
    ensure_daily_schedule_freshness c te now j = (reset_daily_retry_state j, [])"
  by (simp add: ensure_daily_schedule_freshness_def)

text \<open>
  C14. A tick never takes a served day away: whatever fails during it, the same day is served after it,
  with the same trains and the same stops (provided the day is not older than yesterday), and nothing is
  scraped.
\<close>

theorem tick_keeps_service:
  assumes "require_service_date (jb_location c) (jb_hour c) now (jo_manager j) = Some date"
    and "job_tick c te now j = (j', es)" "\<not> date < oldest_kept (jb_location c) now"
  shows "require_service_date (jb_location c) (jb_hour c) now (jo_manager j') = Some date \<and> \<not> scrape_due c now j \<and>
    list_train_instances_by_date date (days_of j') = list_train_instances_by_date date (days_of j) \<and>
    list_all (\<lambda>t. list_train_stops (in_id t) (days_of j') = list_train_stops (in_id t) (days_of j))
      (list_train_instances_by_date date (days_of j))"
proof -
  obtain j1 es1 where 1: "cleanup_step c te now j = (j1, es1)" by fastforce
  have nd: "\<not> scrape_due c now j" "\<not> scrape_due c now j1"
    using served_not_due [OF assms(1)] cleanup_step_due [OF 1] by simp_all
  have "jo_manager j' = jo_manager j1 \<and> jo_store j' = jo_store j1"
    using assms(2) ensure_not_due [OF nd(2), of te] by (cases es1) (auto simp: job_tick_def 1)
  then have same: "jo_manager j' = jo_manager j" "keeps_dates (\<lambda>x. \<not> x < oldest_kept (jb_location c) now) (days_of j) (days_of j')"
    using cleanup_step_same(1) [OF 1] cleanup_step_keeps [OF 1] by simp_all
  from keeps_listing [OF same(2) assms(3)] show ?thesis
    using assms(1) nd(1) by (simp add: same(1) list_all_iff)
qed

section \<open>Retries\<close>

text \<open>The retry state and the manager: what a part of a scrape leaves of them.\<close>

definition same_retry :: "jobs \<Rightarrow> jobs \<Rightarrow> bool" where
  "same_retry j j' \<longleftrightarrow> jo_next j' = jo_next j \<and> jo_backoff j' = jo_backoff j \<and> jo_attempt_date j' = jo_attempt_date j"

lemma refresh_retry: "same_retry j (refresh_read_model c te now j)"
  by (simp add: same_retry_def refresh_read_model_def split: prod.split)

lemma cleanup_previous_same:
  "cleanup_previous_service_date c te now j = (j', es) \<Longrightarrow> same_retry j j' \<and> jo_manager j' = jo_manager j"
  by (auto simp: cleanup_previous_service_date_def same_retry_def split: if_splits prod.splits)

text \<open>The ways a scrape ends: it imports nothing, its import fails, or it is imported and published.\<close>

lemma run_scrape_cases:
  assumes run: "run_scrape c te now tag j = (j1, r)" and on: "jb_scraper c"
  obtains (nothing) "j1 = scrape_failed (requested_date (jb_location c) now) tag j" "r = Inr False"
  | (refused) d where "j1 = scrape_failed (requested_date (jb_location c) now) tag (on_days (\<lambda>_. d) j)" "r = Inr False"
    "\<exists>f ts m e. snapshot_to_domain f = Inr (ts, m) \<and>
      routed_import (te_import te) (requested_date (jb_location c) now) (sf_version f) ts m (days_of j) = (d, Some e)"
  | (imported) f path a ts m d j2 es where
    "orchestrate (su_lower (te_import te)) (scrape_target (jb_location c) now) (jb_least c) (te_write te) (te_fetched te) = Inr (f, path, a)"
    "snapshot_to_domain f = Inr (ts, m)"
    "routed_import (te_import te) (requested_date (jb_location c) now) (sf_version f) ts m (days_of j) = (d, None)"
    "j2 = scrape_metrics (requested_date (jb_location c) now) tag now a (refresh_read_model c te now (on_days (\<lambda>_. d) j))"
    "(j1 = j2 \<and> r = Inl es \<and> es \<noteq> [] \<and> te_publish te \<noteq> None \<and> jb_fatal c (the (te_publish te))) \<or>
     (cleanup_previous_service_date c te now j2 = (j1, es) \<and> r = (if list_ex (jb_fatal c) es then Inl es else Inr True))"
proof (cases "orchestrate (su_lower (te_import te)) (scrape_target (jb_location c) now) (jb_least c) (te_write te) (te_fetched te)")
  case (Inl e)
  then have "run_scrape c te now tag j = (scrape_failed (requested_date (jb_location c) now) tag j, Inr False)"
      using run on by (simp add: run_scrape_def Let_def)
    with run that(1) show ?thesis by simp
next
  case o: (Inr x)
  obtain f path a where x: "x = (f, path, a)" by (metis prod_cases3)
  show ?thesis
  proof (cases "snapshot_to_domain f")
    case (Inl e)
    then have "run_scrape c te now tag j = (scrape_failed (requested_date (jb_location c) now) tag j, Inr False)"
      using run on o x by (simp add: run_scrape_def Let_def)
    with run that(1) show ?thesis by simp
  next
    case s: (Inr y)
    obtain ts m where y: "y = (ts, m)" by (cases y)
    define date where "date = requested_date (jb_location c) now"
    obtain d e where i: "routed_import (te_import te) date (sf_version f) ts m (days_of j) = (d, e)"
      by fastforce
    define j2 where "j2 = scrape_metrics date tag now a (refresh_read_model c te now (on_days (\<lambda>_. d) j))"
    obtain j3 es where p: "cleanup_previous_service_date c te now j2 = (j3, es)" by fastforce
    have eq: "run_scrape c te now tag j =
        (case e of Some _ \<Rightarrow> (scrape_failed date tag (on_days (\<lambda>_. d) j), Inr False)
         | None \<Rightarrow> if (case te_publish te of None \<Rightarrow> False | Some e \<Rightarrow> jb_fatal c e) then (j2, Inl [the (te_publish te)])
             else if list_ex (jb_fatal c) es then (j3, Inl es) else (j3, Inr True))"
      unfolding run_scrape_def Let_def o x s y prod.case sum.case date_def [symmetric] i j2_def [symmetric] p
      using on by (simp split: option.split)
    show ?thesis
    proof (cases e)
      case (Some e')
      then show ?thesis using run eq that(2) [of d] s y i by (auto simp: date_def)
    next
      case None
      note imported = that(3) [OF o [unfolded x] s [unfolded y] i [unfolded None date_def] j2_def [unfolded date_def]]
      show ?thesis
      proof (cases "case te_publish te of None \<Rightarrow> False | Some e \<Rightarrow> jb_fatal c e")
        case True
        then have "te_publish te \<noteq> None \<and> jb_fatal c (the (te_publish te))" by (auto split: option.splits)
        then show ?thesis using run eq None True imported [of "[the (te_publish te)]"] by simp
      next
        case False
        then show ?thesis using run eq None p imported [of es] by (cases "list_ex (jb_fatal c) es") simp_all
      qed
    qed
  qed
qed

lemma run_scrape_same:
  assumes "run_scrape c te now tag j = (j1, r)" "jb_scraper c"
  shows "same_retry j j1 \<and> (r = Inr False \<longrightarrow> jo_manager j1 = jo_manager j) \<and> r \<noteq> Inl []"
  using assms
proof (cases rule: run_scrape_cases)
  case (imported f path a ts m d j2 es)
  have "same_retry j j2" using refresh_retry [of "on_days (\<lambda>_. d) j" c te now] by (simp add: imported(4) same_retry_def)
  then show ?thesis
    using imported(5) cleanup_previous_same [of c te now j2 j1 es] by (auto simp: same_retry_def split: if_splits)
qed (simp_all add: same_retry_def)

lemma ensure_due:
  assumes "scrape_due c now j" "ensure_daily_schedule_freshness c te now j = (j2, es)"
  obtains j1 r where "run_scrape c te now ''scrape_daily_catchup'' (j\<lparr>jo_attempt_date := requested_date (jb_location c) now\<rparr>) = (j1, r)"
    "case r of Inl e \<Rightarrow> j2 = j1 \<and> es = e \<and> e \<noteq> [] |
      Inr ok \<Rightarrow> es = [] \<and> j2 = (if ok then reset_daily_retry_state j1 else schedule_next_daily_retry now j1)"
proof -
  have on: "jb_scraper c" "\<not> is_fresh_for (jb_location c) (jb_hour c) now (jo_manager j)"
    using assms(1) by (simp_all add: scrape_due_def)
  obtain j1 r where r: "run_scrape c te now ''scrape_daily_catchup'' (j\<lparr>jo_attempt_date := requested_date (jb_location c) now\<rparr>) = (j1, r)"
    by fastforce
  have "ensure_daily_schedule_freshness c te now j = (case r of Inl es \<Rightarrow> (j1, es) |
      Inr ok \<Rightarrow> (if ok then reset_daily_retry_state j1 else schedule_next_daily_retry now j1, []))"
    using on assms(1) by (simp add: ensure_daily_schedule_freshness_def r split: sum.split)
  then show thesis
    using that [OF r] assms(2) run_scrape_same [OF r on(1)] by (cases r) auto
qed

lemma job_tick_parts:
  assumes "job_tick c te now j = (j', [])"
  obtains j1 j2 where "cleanup_step c te now j = (j1, [])" "ensure_daily_schedule_freshness c te now j1 = (j2, [])"
    "j' = freshness_warning c now j2"
  using assms by (auto simp: job_tick_def split: prod.splits list.splits)

text \<open>The backoff is none, or between a quarter of an hour and an hour.\<close>

definition backoff_ok :: "jobs \<Rightarrow> bool" where
  "backoff_ok j \<longleftrightarrow> jo_backoff j = 0 \<or> (initial_backoff \<le> jo_backoff j \<and> jo_backoff j \<le> max_backoff)"

lemma next_backoff_range:
  "b = 0 \<or> (initial_backoff \<le> b \<and> b \<le> max_backoff) \<Longrightarrow> initial_backoff \<le> next_backoff b \<and> next_backoff b \<le> max_backoff"
  by (auto simp: next_backoff_def initial_backoff_def max_backoff_def minute_def second_def)

lemma job_tick_backoff: "job_tick c te now j = (j', []) \<Longrightarrow> backoff_ok j \<Longrightarrow> backoff_ok j'"
proof -
  assume tick: "job_tick c te now j = (j', [])" and ok: "backoff_ok j"
  obtain j1 j2 where 1: "cleanup_step c te now j = (j1, [])" and 2: "ensure_daily_schedule_freshness c te now j1 = (j2, [])"
    and j': "j' = freshness_warning c now j2" using job_tick_parts [OF tick] .
  have ok1: "backoff_ok j1" using ok cleanup_step_same [OF 1] by (simp add: backoff_ok_def)
  have "backoff_ok j2"
  proof (cases "scrape_due c now j1")
    case True
    then have on: "jb_scraper c" by (simp add: scrape_due_def)
    from True 2 obtain k r where k: "run_scrape c te now ''scrape_daily_catchup'' (j1\<lparr>jo_attempt_date := requested_date (jb_location c) now\<rparr>) = (k, r)"
      "case r of Inl e \<Rightarrow> j2 = k \<and> [] = e \<and> e \<noteq> [] | Inr ok \<Rightarrow> j2 = (if ok then reset_daily_retry_state k else schedule_next_daily_retry now k)"
      by (rule ensure_due) (auto split: sum.splits)
    have "jo_backoff k = jo_backoff j1" using run_scrape_same [OF k(1) on] by (simp add: same_retry_def)
    then show ?thesis
      using k(2) ok1 next_backoff_range [of "jo_backoff j1"]
      by (cases r) (auto simp: backoff_ok_def reset_daily_retry_state_def schedule_next_daily_retry_def)
  next
    case False
    then show ?thesis using ensure_not_due [OF False, of te] 2 ok1 by (auto simp: backoff_ok_def reset_daily_retry_state_def)
  qed
  then show "backoff_ok j'" by (simp add: j' backoff_ok_def)
qed

lemma job_loop_backoff: "job_loop c ts j = (j', []) \<Longrightarrow> backoff_ok j \<Longrightarrow> backoff_ok j'"
proof (induction ts arbitrary: j)
  case (Cons x ts)
  obtain te now where x: "x = (te, now)" by (cases x)
  obtain j1 where "job_tick c te now j = (j1, [])" "job_loop c ts j1 = (j', [])"
    using Cons.prems(1) by (auto simp: x split: prod.splits list.splits)
  with Cons job_tick_backoff show ?case by blast
qed simp

text \<open>Waiting: today's attempt failed and the next is due at \<open>due\<close>.\<close>

definition waiting :: "job_config \<Rightarrow> string \<Rightarrow> int \<Rightarrow> jobs \<Rightarrow> bool" where
  "waiting c date due j \<longleftrightarrow> jb_scraper c \<and> jo_attempt_date j = date \<and> jo_next j = due \<and> due \<noteq> zero_time \<and>
     \<not> (mg_available (jo_manager j) \<and> mg_date (jo_manager j) = date)"

lemma fresh_iff: "is_fresh_for loc h now m \<longleftrightarrow> mg_available m \<and> mg_date m = requested_date loc now"
  by (simp add: is_fresh_for_def access_context_of_def Let_def)

lemma waiting_due:
  "waiting c date due j \<Longrightarrow> requested_date (jb_location c) now = date \<Longrightarrow>
    scrape_due c now j \<longleftrightarrow> due \<le> now \<and> \<not> now < daily_cutoff (jb_location c) (jb_hour c) now"
  by (auto simp: waiting_def scrape_due_def fresh_iff)

lemma waiting_tick:
  assumes "waiting c date due j" "requested_date (jb_location c) now = date" "now < due" "job_tick c te now j = (j', [])"
  shows "waiting c date due j'"
proof -
  obtain j1 j2 where 1: "cleanup_step c te now j = (j1, [])" and 2: "ensure_daily_schedule_freshness c te now j1 = (j2, [])"
    and j': "j' = freshness_warning c now j2" using job_tick_parts [OF assms(4)] .
  have w: "waiting c date due j1" using assms(1) cleanup_step_same [OF 1] by (simp add: waiting_def)
  then have "\<not> scrape_due c now j1" "\<not> is_fresh_for (jb_location c) (jb_hour c) now (jo_manager j1)"
    using waiting_due [OF w assms(2)] assms(2,3) by (auto simp: waiting_def fresh_iff)
  with 2 have "j2 = j1" by (simp add: ensure_daily_schedule_freshness_def split: if_splits)
  with w show ?thesis by (simp add: j' waiting_def)
qed

lemma waiting_loop:
  "job_loop c ts j = (j', []) \<Longrightarrow> waiting c date due j \<Longrightarrow>
    list_all (\<lambda>(te, now). requested_date (jb_location c) now = date \<and> now < due) ts \<Longrightarrow> waiting c date due j'"
proof (induction ts arbitrary: j)
  case (Cons x ts)
  obtain te now where x: "x = (te, now)" by (cases x)
  obtain j1 where 1: "job_tick c te now j = (j1, [])" "job_loop c ts j1 = (j', [])"
    using Cons.prems(1) by (auto simp: x split: prod.splits list.splits)
  with Cons.IH [OF 1(2)] waiting_tick [OF Cons.prems(2) _ _ 1(1)] Cons.prems(3) show ?case by (simp add: x)
qed simp

text \<open>
  C24. After a scrape that failed, on the same day, nothing is scraped until the backoff is over, and the
  first tick from then on scrapes again. The backoff is a quarter of an hour, or twice the previous one,
  and never more than an hour.
\<close>

theorem retries_after_backoff:
  assumes "job_loop c ts0 (new_jobs b) = (j, [])" "scrape_due c t j" "job_tick c te t j = (j1, [])"
    and "snd (run_scrape c te t ''scrape_daily_catchup'' (fst (cleanup_step c te t j)\<lparr>jo_attempt_date := requested_date (jb_location c) t\<rparr>)) = Inr False"
    and "w = next_backoff (jo_backoff j)" "t + w \<noteq> zero_time" "job_loop c ts j1 = (j2, [])"
    and "list_all (\<lambda>(te', t'). requested_date (jb_location c) t' = requested_date (jb_location c) t \<and> t' < t + w) ts"
    and "requested_date (jb_location c) t2 = requested_date (jb_location c) t"
  shows "15 * minute \<le> w \<and> w \<le> 60 * minute \<and>
    (scrape_due c t2 j2 \<longleftrightarrow> t + w \<le> t2 \<and> \<not> t2 < daily_cutoff (jb_location c) (jb_hour c) t2)"
proof -
  have "backoff_ok (new_jobs b)" by (simp add: backoff_ok_def new_jobs_def)
  then have "initial_backoff \<le> w \<and> w \<le> max_backoff"
    using job_loop_backoff [OF assms(1)] next_backoff_range [of "jo_backoff j"] by (simp add: backoff_ok_def assms(5))
  then have range: "15 * minute \<le> w \<and> w \<le> 60 * minute" by (simp add: initial_backoff_def max_backoff_def)
  obtain k1 k2 where 1: "cleanup_step c te t j = (k1, [])" and 2: "ensure_daily_schedule_freshness c te t k1 = (k2, [])"
    and j1: "j1 = freshness_warning c t k2" using job_tick_parts [OF assms(3)] .
  have due: "scrape_due c t k1" using cleanup_step_due [OF 1] assms(2) by simp
  then have on: "jb_scraper c" by (simp add: scrape_due_def)
  from due 2 obtain k3 r where 3: "run_scrape c te t ''scrape_daily_catchup'' (k1\<lparr>jo_attempt_date := requested_date (jb_location c) t\<rparr>) = (k3, r)"
    and r: "case r of Inl e \<Rightarrow> k2 = k3 \<and> [] = e \<and> e \<noteq> [] | Inr ok \<Rightarrow> k2 = (if ok then reset_daily_retry_state k3 else schedule_next_daily_retry t k3)"
    by (rule ensure_due) (auto split: sum.splits)
  have failed: "r = Inr False" using assms(4) by (simp add: 1 3)
  then have k2: "k2 = schedule_next_daily_retry t k3" using r by simp
  have "jo_backoff k3 = jo_backoff j" "jo_manager k3 = jo_manager k1" "jo_attempt_date k3 = requested_date (jb_location c) t"
    using run_scrape_same [OF 3 on] failed cleanup_step_same [OF 1] by (simp_all add: same_retry_def)
  then have "waiting c (requested_date (jb_location c) t) (t + w) j1"
    using due assms(5,6) on
    by (simp add: j1 k2 waiting_def scrape_due_def fresh_iff) (simp add: schedule_next_daily_retry_def)
  from waiting_loop [OF assms(7) this assms(8)] range show ?thesis
    using waiting_due [OF _ assms(9)] by blast
qed

section \<open>Yesterday's trains\<close>

lemma snapshot_rows_length:
  "snapshot_rows v ts (xs, m) = Inr (ys, m') \<Longrightarrow> length ys = length xs + length ts"
  by (induction ts arbitrary: xs m) (auto split: sum.splits)

lemma snapshot_to_domain_length: "snapshot_to_domain f = Inr (ts, m) \<Longrightarrow> length ts = length (sf_trains f)"
  by (auto simp: snapshot_to_domain_def dest: snapshot_rows_length)

lemma orchestrate_trains: "orchestrate low target least write fs = Inr (f, path, a) \<Longrightarrow> sf_trains f \<noteq> []"
  by (auto simp: orchestrate_def build_snapshot_file_def Let_def split: if_splits sum.splits option.splits prod.splits)

lemma routed_import_keeps:
  "t \<in> set (dt_trains d) \<Longrightarrow> in_date t \<noteq> date \<Longrightarrow> t \<in> set (dt_trains (fst (routed_import su date v ts m d)))"
  by (simp add: routed_import_def import_keeps_others split: option.split)

text \<open>
  C18. Yesterday's trains outlive a failed scrape: a tick that loses one of them runs after the cutoff,
  and has imported the timetable, which is not empty, of the snapshot that the orchestrator built in this
  tick for today from what the providers delivered.
\<close>

theorem yesterday_outlives_failure:
  assumes "job_tick c te now j = (j', es)" "t \<in> set (dt_trains (days_of j))" "t \<notin> set (dt_trains (days_of j'))"
    and "in_date t = previous_date (jb_location c) now" "previous_date (jb_location c) now \<noteq> requested_date (jb_location c) now"
  shows "\<not> now < daily_cutoff (jb_location c) (jb_hour c) now \<and>
    (\<exists>f path a ts m.
      orchestrate (su_lower (te_import te)) (scrape_target (jb_location c) now) (jb_least c) (te_write te) (te_fetched te) = Inr (f, path, a) \<and>
      snapshot_to_domain f = Inr (ts, m) \<and> ts \<noteq> [] \<and>
      snd (routed_import (te_import te) (requested_date (jb_location c) now) (sf_version f) ts m
        (days_of (fst (cleanup_step c te now j)))) = None)"
proof -
  obtain j1 es1 where 1: "cleanup_step c te now j = (j1, es1)" by fastforce
  have kept: "t \<in> set (dt_trains (days_of j1))"
    using keeps_dates_mem [OF cleanup_step_keeps [OF 1], of t] assms(2,4) by (simp add: previous_date_def oldest_kept_def)
  obtain j2 es2 where 2: "ensure_daily_schedule_freshness c te now j1 = (j2, es2)" by fastforce
  have lost: "t \<notin> set (dt_trains (days_of j2)) \<and> es1 = []"
    using assms(1,3) kept by (cases es1; cases es2) (auto simp: job_tick_def 1 2)
  have due: "scrape_due c now j1"
  proof (rule ccontr)
    assume "\<not> scrape_due c now j1"
    from ensure_not_due [OF this, of te] 2 lost kept show False by auto
  qed
  then have on: "jb_scraper c" and late: "\<not> now < daily_cutoff (jb_location c) (jb_hour c) now"
    by (simp_all add: scrape_due_def)
  let ?k = "j1\<lparr>jo_attempt_date := requested_date (jb_location c) now\<rparr>"
  from due 2 obtain k r where k: "run_scrape c te now ''scrape_daily_catchup'' ?k = (k, r)" and "days_of j2 = days_of k"
    by (rule ensure_due) (auto split: sum.splits if_splits)
  then have gone: "t \<notin> set (dt_trains (days_of k))" using lost by simp
  from k on show ?thesis
  proof (cases rule: run_scrape_cases)
    case nothing
    then show ?thesis using gone kept by simp
  next
    case (refused d)
    then obtain f :: snapshot_file and ts m e
      where "routed_import (te_import te) (requested_date (jb_location c) now) (sf_version f) ts m (days_of ?k) = (d, Some e)"
      by blast
    with routed_import_keeps [of t "days_of ?k" "requested_date (jb_location c) now" "te_import te" "sf_version f" ts m] kept assms(4,5)
    have "t \<in> set (dt_trains d)" by simp
    then show ?thesis using gone refused(1) by simp
  next
    case (imported f path a ts m d j2 es)
    have "ts \<noteq> []"
      using orchestrate_trains [OF imported(1)] snapshot_to_domain_length [OF imported(2)] by auto
    moreover have "snd (routed_import (te_import te) (requested_date (jb_location c) now) (sf_version f) ts m (days_of j1)) = None"
      using imported(3) by simp
    ultimately show ?thesis using late imported(1,2) 1 by auto
  qed
qed

section \<open>A scrape that is due\<close>

lemma routed_import_ok: "days_ok d \<Longrightarrow> days_ok (fst (routed_import su date v ts m d))"
  by (simp add: routed_import_def import_train_data_ok split: option.split)

lemma use_existing_days: "use_existing su k date e (m, d) = ((m', d'), r) \<Longrightarrow> d' = d"
  by (auto simp: use_existing_def split: if_splits)

lemma load_service_date_days:
  assumes "load_service_date su k date (m, d) = ((m', d'), r)" "days_ok d"
  shows "days_ok d'"
proof -
  have "d' = d \<or> (\<exists>v ts ss. d' = fst (routed_import su date v ts ss d))"
  proof (cases "usable_listing (list_by_date (su_db su) ''cached'' date d)")
    case False
    show ?thesis
    proof (cases "load_snapshot_file (su_file su date) date")
      case (Inl e)
      then show ?thesis using assms(1) False by (auto simp: load_service_date_def dest: use_existing_days)
    next
      case (Inr x)
      obtain v ts ss where x: "x = (v, ts, ss)" by (metis prod_cases3)
      obtain d1 e where i: "routed_import su date v ts ss d = (d1, e)" by fastforce
      have "d' = d1"
        using assms(1) False Inr x i by (cases e) (auto simp: load_service_date_def dest: use_existing_days)
      then show ?thesis using i by (metis fst_conv)
    qed
  qed (use assms in \<open>simp add: load_service_date_def\<close>)
  then show ?thesis using routed_import_ok assms(2) by auto
qed

lemma load_for_access_days:
  assumes "load_for_access su su2 loc h k now (m, d) = ((m', d'), r)" "days_ok d"
  shows "days_ok d'"
proof -
  obtain m1 d1 r1 where 1: "load_service_date su k (requested_date loc now) (m, d) = ((m1, d1), r1)" by (metis prod.collapse)
  obtain m2 d2 r2 where 2: "load_service_date su2 k (previous_date loc now) (m1, d1) = ((m2, d2), r2)" by (metis prod.collapse)
  have "d' = d1 \<or> d' = d2"
    using assms(1) 1 2 by (cases r1; cases r2) (auto simp: load_for_access_def split: if_splits)
  then show ?thesis
    using load_service_date_days [OF 1 assms(2)] load_service_date_days [OF 2] by auto
qed

lemma refresh_days: "days_ok (days_of j) \<Longrightarrow> days_ok (days_of (refresh_read_model c te now j))"
proof -
  assume ok: "days_ok (days_of j)"
  obtain m d r where 1: "load_for_access (te_load te) (te_load2 te) (jb_location c) (jb_hour c) (te_clock te) now (jo_manager j, days_of j) = ((m, d), r)"
    by (metis prod.collapse)
  show ?thesis using load_for_access_days [OF 1 ok] by (simp add: refresh_read_model_def 1)
qed

lemma cleanup_previous_days:
  "cleanup_previous_service_date c te now j = (j', es) \<Longrightarrow> days_ok (days_of j) \<Longrightarrow> days_ok (days_of j')"
  using delete_train_data_ok [of "days_of j" "te_delete te" "previous_date (jb_location c) now"]
  by (auto simp: cleanup_previous_service_date_def routed_delete_def split: if_splits prod.splits)

lemma run_scrape_days:
  assumes "run_scrape c te now tag j = (j1, r)" "jb_scraper c" "days_ok (days_of j)"
  shows "days_ok (days_of j1)"
  using assms(1,2)
proof (cases rule: run_scrape_cases)
  case (refused d)
  then have "days_ok d" using routed_import_ok [OF assms(3)] by (metis fst_conv)
  with refused show ?thesis by simp
next
  case (imported f path a ts m d j2 es)
  have "days_ok d" using routed_import_ok [OF assms(3)] imported(3) by (metis fst_conv)
  then have "days_ok (days_of j2)" using refresh_days [of "on_days (\<lambda>_. d) j"] by (simp add: imported(4))
  with imported(5) cleanup_previous_days show ?thesis by blast
qed (use assms(3) in simp)

lemma job_tick_days:
  assumes "job_tick c te now j = (j', [])" "days_ok (days_of j)"
  shows "days_ok (days_of j')"
proof -
  obtain j1 j2 where 1: "cleanup_step c te now j = (j1, [])" and 2: "ensure_daily_schedule_freshness c te now j1 = (j2, [])"
    and j': "j' = freshness_warning c now j2" using job_tick_parts [OF assms(1)] .
  have ok1: "days_ok (days_of j1)"
    using cleanup_step_same(5) [OF 1] cleanup_days_ok [OF assms(2)] assms(2) by metis
  have "days_ok (days_of j2)"
  proof (cases "scrape_due c now j1")
    case True
    then have on: "jb_scraper c" by (simp add: scrape_due_def)
    from True 2 obtain k r where k: "run_scrape c te now ''scrape_daily_catchup'' (j1\<lparr>jo_attempt_date := requested_date (jb_location c) now\<rparr>) = (k, r)"
      and "days_of j2 = days_of k" by (rule ensure_due) (auto split: sum.splits if_splits)
    with run_scrape_days [OF k on] ok1 show ?thesis by simp
  next
    case False
    then show ?thesis using ensure_not_due [OF False, of te] 2 ok1 by auto
  qed
  then show ?thesis by (simp add: j')
qed

lemma job_loop_days: "job_loop c ts j = (j', []) \<Longrightarrow> days_ok (days_of j) \<Longrightarrow> days_ok (days_of j')"
proof (induction ts arbitrary: j)
  case (Cons x ts)
  obtain te now where x: "x = (te, now)" by (cases x)
  obtain j1 where "job_tick c te now j = (j1, [])" "job_loop c ts j1 = (j', [])"
    using Cons.prems(1) by (auto simp: x split: prod.splits list.splits)
  with Cons job_tick_days show ?case by blast
qed simp

text \<open>A date has no space around it.\<close>

lemma is_digit_plain: "is_digit c \<Longrightarrow> plain_char c"
proof -
  have "(of_char c :: int) = int (of_char c)" by (simp add: of_nat_of_char)
  then show "is_digit c \<Longrightarrow> plain_char c" by (simp add: is_digit_def plain_char_def less_char_def)
qed

lemma pad_plain: "list_all plain_char (pad w x)"
proof -
  have "list_all plain_char (digits w \<bar>x\<bar>)" "list_all plain_char (dec_digits (nat \<bar>x\<bar>))"
    using list_all_digits list_all_dec_digits is_digit_plain by (auto simp: list_all_iff)
  then show ?thesis by (simp add: pad_def plain_char_def less_char_def)
qed

lemma trim_date_text: "trim_space (date_text loc t) = date_text loc t"
proof -
  obtain y m d where "local_civil loc t = (y, m, d)" by (metis prod_cases3)
  then have "list_all plain_char (date_text loc t)" "date_text loc t \<noteq> []"
    using pad_plain by (simp_all add: date_text_def format_date_def) (simp add: plain_char_def less_char_def)
  then show ?thesis by (intro trim_space_plain) (simp_all add: list_all_iff)
qed

lemma delete_keeps:
  "keeps_dates (\<lambda>x. x \<noteq> trim_space date) d (fst (delete_train_data_by_service_date db date d))"
proof -
  let ?d = "d\<lparr>dt_trains := filter (\<lambda>t. in_date t \<noteq> trim_space date) (dt_trains d)\<rparr>"
  have "keeps_dates (\<lambda>x. x \<noteq> trim_space date) d ?d" by (simp add: keeps_dates_def)
  with keeps_dates_trans [OF this drop_orphans_keeps] show ?thesis
    by (auto simp: delete_train_data_by_service_date_def Let_def keeps_dates_refl split: option.split)
qed

lemma cleanup_previous_keeps:
  assumes "cleanup_previous_service_date c te now j = (j', es)"
  shows "keeps_dates (\<lambda>x. x \<noteq> previous_date (jb_location c) now) (days_of j) (days_of j')"
  using assms delete_keeps [of "previous_date (jb_location c) now" "days_of j" "te_delete te"]
  by (auto simp: cleanup_previous_service_date_def routed_delete_def trim_date_text previous_date_def keeps_dates_refl
      split: if_splits prod.splits)

lemma refresh_cached:
  assumes "su_db (te_load te) ''cached'' = None"
    and "usable_cached_schedule (list_train_instances_by_date (requested_date (jb_location c) now) (days_of j))"
  shows "jo_manager (refresh_read_model c te now j) = loaded (te_clock te) (requested_date (jb_location c) now) None \<and>
    days_of (refresh_read_model c te now j) = days_of j"
  using assms by (simp add: refresh_read_model_def load_for_access_def load_service_date_def list_by_date_def usable_listing_def)

lemma fresh_served:
  "mg_available m \<Longrightarrow> mg_date m = requested_date loc now \<Longrightarrow> require_service_date loc h now m = Some (requested_date loc now)"
  using date_text_nonempty [of loc now] by (simp add: require_service_date_def access_context_of_def Let_def requested_date_def)

text \<open>The rows of a snapshot: every stop is named, and no two of a train share a sequence number.\<close>

definition well_stopped :: "stop_row list \<Rightarrow> bool" where
  "well_stopped ss \<longleftrightarrow> list_all (\<lambda>s. trim_space (sr_name s) \<noteq> []) ss \<and> distinct (map sr_seq ss)"

lemma domain_stops_shape:
  "domain_stops train seen ss = Inr rs \<Longrightarrow> well_stopped rs \<and> sr_seq ` set rs \<inter> seen = {}"
proof (induction ss arbitrary: seen rs)
  case (Cons s ss)
  show ?case
  proof (cases "trim_space (sp_name s) = []")
    case True
    then show ?thesis using Cons by simp
  next
    case False
    then obtain r rs' where r: "domain_stop train s = Inr r" "sp_seq s \<notin> seen"
      "domain_stops train (insert (sp_seq s) seen) ss = Inr rs'" "rs = r # rs'"
      using Cons.prems by (auto split: if_splits sum.splits simp: map_sum_def)
    from r(1) have "sr_seq r = sp_seq s" "sr_name r = trim_space (sp_name s)"
      by (auto simp: domain_stop_def split: sum.splits)
    with Cons.IH [OF r(3)] r(2) False show ?thesis by (auto simp: r(4) well_stopped_def trim_space_idem)
  qed
qed (simp add: well_stopped_def)

lemma snapshot_rows_shape:
  "snapshot_rows v ts (xs, m) = Inr (ys, m') \<Longrightarrow> distinct (map fst m) \<Longrightarrow> \<forall>k ss. map_of m k = Some ss \<longrightarrow> well_stopped ss \<Longrightarrow>
    distinct (map fst m') \<and> (\<forall>k ss. map_of m' k = Some ss \<longrightarrow> well_stopped ss)"
proof (induction ts arbitrary: xs m)
  case (Cons t ts)
  obtain x rows where x: "domain_train v t = Inr x" "domain_stops (sx_id t) {} (sx_stops t) = Inr rows"
    "snapshot_rows v ts (xs @ [x], AList.update (trim_space (sx_id t)) rows m) = Inr (ys, m')"
    using Cons.prems(1) by (auto split: sum.splits)
  show ?case
    by (rule Cons.IH [OF x(3)])
      (use Cons.prems(2,3) domain_stops_shape [OF x(2)] in \<open>auto simp: update_conv' distinct_update\<close>)
qed simp

lemma snapshot_shape:
  "snapshot_to_domain f = Inr (ts, m) \<Longrightarrow> distinct (map fst m) \<and> (\<forall>k ss. map_of m k = Some ss \<longrightarrow> well_stopped ss)"
  using snapshot_rows_shape [of "sf_version f" "sf_trains f" "[]" "[]" ts m] by (simp add: snapshot_to_domain_def)

text \<open>A successful scrape: what it built, imported and left.\<close>

lemma scrape_success:
  assumes "run_scrape c te now tag j = (k, Inr True)" "jb_scraper c" "days_ok (days_of j)"
    and "su_db (te_load te) ''cached'' = None" "date = requested_date (jb_location c) now"
  obtains f path a ts m d where
    "orchestrate (su_lower (te_import te)) (scrape_target (jb_location c) now) (jb_least c) (te_write te) (te_fetched te) = Inr (f, path, a)"
    "snapshot_to_domain f = Inr (ts, m)"
    "import_train_data (su_lower (te_import te)) (su_db (te_import te)) date (sf_version f) ts m (days_of j) = (d, None)"
    "\<not> contains_text ''vivi_pdf'' (sf_version f) \<longrightarrow> jo_manager k = loaded (te_clock te) date None \<and>
       keeps_dates (\<lambda>x. x \<noteq> previous_date (jb_location c) now) d (days_of k)"
  using assms(1,2)
proof (cases rule: run_scrape_cases)
  case (imported f path a ts m d j3 es)
  have import': "import_train_data (su_lower (te_import te)) (su_db (te_import te)) date (sf_version f) ts m (days_of j) = (d, None)"
    using imported(3) by (simp add: routed_import_def assms(5) split: option.splits)
  have cleaned: "cleanup_previous_service_date c te now j3 = (k, es)" using imported(5) by auto
  have "jo_manager k = loaded (te_clock te) date None \<and> keeps_dates (\<lambda>x. x \<noteq> previous_date (jb_location c) now) d (days_of k)"
    if current: "\<not> contains_text ''vivi_pdf'' (sf_version f)"
  proof -
    have "ts \<noteq> []" using orchestrate_trains [OF imported(1)] snapshot_to_domain_length [OF imported(2)] by auto
    then have "usable_cached_schedule (list_train_instances_by_date date d)"
      using imported_day_listed [OF assms(3) import'] current
      by (auto simp: usable_cached_schedule_def list_all_iff stored_train_def sort_key_Nil)
    then have "jo_manager j3 = loaded (te_clock te) date None" "days_of j3 = d"
      using refresh_cached [OF assms(4), of c now "on_days (\<lambda>_. d) j"] by (simp_all add: imported(4) assms(5))
    with cleanup_previous_same [OF cleaned] cleanup_previous_keeps [OF cleaned] show ?thesis by simp
  qed
  with that [OF imported(1,2) import'] show thesis by blast
qed simp_all

text \<open>
  A feed of today without surprises: its trains of today have merge keys and row identifiers of their
  own, regular stops and printable times, and no train of it repeats a sequence number.
\<close>

definition todays_trains :: "string \<Rightarrow> raw_schedule \<Rightarrow> raw_train list" where
  "todays_trains date s = filter (\<lambda>t. \<not> dropped date t) (sc_trains s)"

definition regular_feed :: "lower \<Rightarrow> string \<Rightarrow> raw_schedule \<Rightarrow> bool" where
  "regular_feed low date s \<longleftrightarrow> todays_trains date s \<noteq> [] \<and>
     list_all (\<lambda>t. distinct (map rs_seq (rt_stops t))) (sc_trains s) \<and> list_all regular_train (todays_trains date s) \<and>
     distinct (map (merge_key low) (todays_trains date s)) \<and> distinct (map (row_id low) (todays_trains date s))"

text \<open>The stops of a train as they are stored.\<close>

definition stored_stops :: "lower \<Rightarrow> stop_row list \<Rightarrow> (int \<times> string \<times> int option \<times> int option) list" where
  "stored_stops low ss = map (\<lambda>s. (sr_seq s, normalize_station_id low (trim_space (sr_name s)), map_option sec (sr_arr s), map_option sec (sr_dep s)))
     (sort_key sr_seq ss)"

text \<open>What was imported is still listed when the trains of another day have gone.\<close>

lemma imported_stays_listed:
  assumes "days_ok d0" "import_train_data low db date (sf_version f) ts m d0 = (d, None)" "snapshot_to_domain f = Inr (ts, m)"
    and kept: "keeps_dates (\<lambda>x. x \<noteq> other) d d'" "other \<noteq> date"
  shows "list_train_instances_by_date date d' = sort_key in_dep (map (stored_train date (sf_version f)) ts)"
    and "t \<in> set ts \<Longrightarrow> map_of m (in_id t) = Some ss \<Longrightarrow> map stop_facts (list_train_stops (in_id t) d') = stored_stops low ss"
proof -
  note day = imported_day_listed [OF assms(1,2)]
  have listed: "list_train_instances_by_date date d = sort_key in_dep (map (stored_train date (sf_version f)) ts)" using day by blast
  with keeps_listing(1) [OF kept(1)] kept(2)
  show "list_train_instances_by_date date d' = sort_key in_dep (map (stored_train date (sf_version f)) ts)" by simp
  assume t: "t \<in> set ts" "map_of m (in_id t) = Some ss"
  have "stored_train date (sf_version f) t \<in> set (list_train_instances_by_date date d)" using t(1) by (simp add: listed)
  from keeps_listing(2) [OF kept(1) _ this] kept(2)
  have "list_train_stops (in_id t) d' = list_train_stops (in_id t) d" by (simp add: stored_train_def)
  then show "map stop_facts (list_train_stops (in_id t) d') = stored_stops low ss"
    using day t snapshot_shape [OF assms(3)] by (simp add: stored_stops_def well_stopped_def)
qed

lemma feed_stays_listed:
  assumes "days_ok d0" "import_train_data low db date (sf_version f) ts m d0 = (d, None)" "snapshot_to_domain f = Inr (ts, m)"
    and kept: "keeps_dates (\<lambda>x. x \<noteq> other) d d'" "other \<noteq> date"
    and "orchestrate low date least write fs = Inr (f, path, a)" "fetch_all fs = Inr [s]" "regular_feed low date s"
    and "trim_space date \<noteq> []"
  shows "list_train_instances_by_date date d' =
      sort_key in_dep (map (published_train low date (sf_version f)) (sort_key (merge_key low) (todays_trains date s)))"
    and "t \<in> set (todays_trains date s) \<Longrightarrow> map stop_facts (list_train_stops (row_id low t) d') =
      map (published_stop low) (sort_key rs_seq (filter named (rt_stops t)))"
proof -
  have regular: "todays_trains date s \<noteq> []" "\<forall>t \<in> set (sc_trains s). distinct (map rs_seq (rt_stops t))"
    "\<forall>t \<in> set (todays_trains date s). regular_train t" "distinct (map (merge_key low) (todays_trains date s))"
    "distinct (map (row_id low) (todays_trains date s))"
    using assms(8) by (simp_all add: regular_feed_def list_all_iff)
  note day = scraped_day [OF todays_trains_def regular(1) assms(9) regular(2-5) assms(7,6,3,1,2)]
  then have listed: "list_train_instances_by_date date d =
      sort_key in_dep (map (published_train low date (sf_version f)) (sort_key (merge_key low) (todays_trains date s)))" by blast
  with keeps_listing(1) [OF kept(1)] kept(2)
  show "list_train_instances_by_date date d' =
      sort_key in_dep (map (published_train low date (sf_version f)) (sort_key (merge_key low) (todays_trains date s)))" by simp
  assume t: "t \<in> set (todays_trains date s)"
  then have "published_train low date (sf_version f) t \<in> set (list_train_instances_by_date date d)" by (simp add: listed)
  from keeps_listing(2) [OF kept(1) _ this] kept(2)
  have "list_train_stops (row_id low t) d' = list_train_stops (row_id low t) d" by (simp add: published_train_def)
  with day t show "map stop_facts (list_train_stops (row_id low t) d') =
      map (published_stop low) (sort_key rs_seq (filter named (rt_stops t)))" by simp
qed

text \<open>A tick whose scrape is due and succeeds leaves what the scrape leaves.\<close>

lemma successful_tick:
  assumes "job_loop c ts (new_jobs (store_after low es)) = (j, [])" "scrape_due c now j" "job_tick c te now j = (j', [])"
    and "snd (run_scrape c te now ''scrape_daily_catchup'' (fst (cleanup_step c te now j)\<lparr>jo_attempt_date := requested_date (jb_location c) now\<rparr>)) = Inr True"
  obtains j1 k where "run_scrape c te now ''scrape_daily_catchup'' j1 = (k, Inr True)" "jb_scraper c" "days_ok (days_of j1)"
    "jo_manager j' = jo_manager k" "days_of j' = days_of k"
proof -
  obtain j1 j2 where 1: "cleanup_step c te now j = (j1, [])" and 2: "ensure_daily_schedule_freshness c te now j1 = (j2, [])"
    and j': "j' = freshness_warning c now j2" using job_tick_parts [OF assms(3)] .
  have "days_ok (days_of (new_jobs (store_after low es)))" using store_after_ok by (simp add: new_jobs_def)
  from job_loop_days [OF assms(1) this] have ok: "days_ok (days_of j1)"
    using cleanup_step_same(5) [OF 1] cleanup_days_ok by metis
  have due: "scrape_due c now j1" using cleanup_step_due [OF 1] assms(2) by simp
  let ?k = "j1\<lparr>jo_attempt_date := requested_date (jb_location c) now\<rparr>"
  from due 2 obtain k r where k: "run_scrape c te now ''scrape_daily_catchup'' ?k = (k, r)"
    and r: "case r of Inl e \<Rightarrow> j2 = k \<and> [] = e \<and> e \<noteq> [] | Inr ok \<Rightarrow> j2 = (if ok then reset_daily_retry_state k else schedule_next_daily_retry now k)"
    by (rule ensure_due) (auto split: sum.splits)
  have success: "r = Inr True" using assms(4) by (simp add: 1 k)
  show thesis
    by (rule that [OF k [unfolded success]]) (use due ok r success in \<open>simp_all add: scrape_due_def j'\<close>)
qed

text \<open>
  C8. A scrape that is due and succeeds ends with what was scraped being served. After its tick today is
  served; the trains listed for it are those of the snapshot the orchestrator built from the schedules
  the providers delivered in this tick, by departure, and the stops listed for a train are the snapshot's,
  in sequence, whatever failed while yesterday's trains were deleted. When one provider has answered and
  its feed is a regular one of today, these are exactly the trains and the named stops of the feed. The
  read model can list the day, the snapshot is not from the retired source, and yesterday has another
  date than today.
\<close>

theorem successful_scrape_is_served:
  assumes "job_loop c ts0 (new_jobs (store_after low es)) = (j, [])" "scrape_due c now j" "job_tick c te now j = (j', [])"
    and "snd (run_scrape c te now ''scrape_daily_catchup'' (fst (cleanup_step c te now j)\<lparr>jo_attempt_date := requested_date (jb_location c) now\<rparr>)) = Inr True"
    and "su_db (te_load te) ''cached'' = None" "date = requested_date (jb_location c) now" "previous_date (jb_location c) now \<noteq> date"
    and "low' = su_lower (te_import te)"
  shows "\<exists>f path a ts m.
    orchestrate low' (scrape_target (jb_location c) now) (jb_least c) (te_write te) (te_fetched te) = Inr (f, path, a) \<and>
    snapshot_to_domain f = Inr (ts, m) \<and>
    (\<not> contains_text ''vivi_pdf'' (sf_version f) \<longrightarrow>
      require_service_date (jb_location c) (jb_hour c) now (jo_manager j') = Some date \<and>
      list_train_instances_by_date date (days_of j') = sort_key in_dep (map (stored_train date (sf_version f)) ts) \<and>
      (\<forall>t ss. t \<in> set ts \<and> map_of m (in_id t) = Some ss \<longrightarrow>
        map stop_facts (list_train_stops (in_id t) (days_of j')) = stored_stops low' ss) \<and>
      (\<forall>s. fetch_all (te_fetched te) = Inr [s] \<and> regular_feed low' date s \<and> scrape_target (jb_location c) now = date \<longrightarrow>
        list_train_instances_by_date date (days_of j') =
          sort_key in_dep (map (published_train low' date (sf_version f)) (sort_key (merge_key low') (todays_trains date s))) \<and>
        (\<forall>t. t \<in> set (todays_trains date s) \<longrightarrow> map stop_facts (list_train_stops (row_id low' t) (days_of j')) =
          map (published_stop low') (sort_key rs_seq (filter named (rt_stops t))))))"
proof -
  obtain j1 k where k: "run_scrape c te now ''scrape_daily_catchup'' j1 = (k, Inr True)" "jb_scraper c" and ok: "days_ok (days_of j1)"
    and same: "jo_manager j' = jo_manager k" "days_of j' = days_of k"
    using successful_tick [OF assms(1-4)] by metis
  from scrape_success [OF k ok assms(5,6)] obtain f path a ts m d where
    built: "orchestrate low' (scrape_target (jb_location c) now) (jb_least c) (te_write te) (te_fetched te) = Inr (f, path, a)"
    "snapshot_to_domain f = Inr (ts, m)"
    and imp: "import_train_data low' (su_db (te_import te)) date (sf_version f) ts m (days_of j1) = (d, None)"
    and left: "\<not> contains_text ''vivi_pdf'' (sf_version f) \<longrightarrow> jo_manager k = loaded (te_clock te) date None \<and>
       keeps_dates (\<lambda>x. x \<noteq> previous_date (jb_location c) now) d (days_of k)"
    by (simp add: assms(8)) (metis (no_types, lifting))
  note rows = imported_stays_listed [OF ok imp built(2) _ assms(7)]
  have nonblank: "trim_space date \<noteq> []" using date_text_nonempty by (simp add: assms(6) requested_date_def)
  note feed = feed_stays_listed [OF ok imp built(2) _ assms(7) _ _ _ nonblank]
  have served: "require_service_date (jb_location c) (jb_hour c) now (jo_manager k) = Some date" if "jo_manager k = loaded (te_clock te) date None"
    using fresh_served [of "jo_manager k" "jb_location c" now] that by (simp add: loaded_def assms(6))
  show ?thesis
  proof (intro exI conjI impI allI)
    assume "\<not> contains_text ''vivi_pdf'' (sf_version f)"
    with left have k': "jo_manager k = loaded (te_clock te) date None"
      "keeps_dates (\<lambda>x. x \<noteq> previous_date (jb_location c) now) d (days_of k)" by simp_all
    show "require_service_date (jb_location c) (jb_hour c) now (jo_manager j') = Some date" using served [OF k'(1)] by (simp add: same)
    show "list_train_instances_by_date date (days_of j') = sort_key in_dep (map (stored_train date (sf_version f)) ts)"
      unfolding same by (rule rows(1) [OF k'(2)])
    show "map stop_facts (list_train_stops (in_id t) (days_of j')) = stored_stops low' ss"
      if "t \<in> set ts \<and> map_of m (in_id t) = Some ss" for t ss
      unfolding same using that by (intro rows(2) [OF k'(2)]) simp_all
    fix s
    assume "fetch_all (te_fetched te) = Inr [s] \<and> regular_feed low' date s \<and> scrape_target (jb_location c) now = date"
    with built(1) have s: "orchestrate low' date (jb_least c) (te_write te) (te_fetched te) = Inr (f, path, a)"
      "fetch_all (te_fetched te) = Inr [s]" "regular_feed low' date s" by simp_all
    show "list_train_instances_by_date date (days_of j') =
        sort_key in_dep (map (published_train low' date (sf_version f)) (sort_key (merge_key low') (todays_trains date s)))"
      unfolding same by (rule feed(1) [OF k'(2) s])
    show "map stop_facts (list_train_stops (row_id low' t) (days_of j')) =
        map (published_stop low') (sort_key rs_seq (filter named (rt_stops t)))" if "t \<in> set (todays_trains date s)" for t
      unfolding same by (rule feed(2) [OF k'(2) s that])
  qed (rule built)+
qed

end
