(* ===== verification/TbJobRuns.thy ===== *)
theory TbJobRuns
  imports TbJobClaims
begin

text \<open>train-bot, runs of the schedule manager and the jobs on concrete timetables.\<close>

section \<open>Surroundings\<close>

definition at_minute :: "int \<Rightarrow> int" where "at_minute m = m * minute"

definition sample_around :: surroundings where
  "sample_around = \<lparr>su_lower = plain, su_db = calm, su_state = (\<lambda>_. None), su_file = (\<lambda>_. Inl ''no file'')\<rparr>"

definition sample_config :: job_config where
  "sample_config = \<lparr>jb_location = utc, jb_hour = 3, jb_retention = 24 * hour, jb_scraper = True, jb_least = 1, jb_fatal = (\<lambda>_. False)\<rparr>"

definition sample_env :: "fetched list \<Rightarrow> tick_env" where
  "sample_env fs = \<lparr>te_cleanup = calm, te_cleanup_state = Inr \<lparr>cr_checkins = 0, cr_reports = 0, cr_sightings = 0, cr_stops = 0, cr_trains = 0\<rparr>,
     te_fetched = fs, te_write = Some (\<lambda>_. Inr ''2026-03-01.json''), te_import = sample_around, te_load = sample_around, te_load2 = sample_around,
     te_publish = None, te_delete = calm, te_delete_state = None, te_clock = 0\<rparr>"

definition sample_store :: "day_tables \<Rightarrow> bot_store" where
  "sample_store d = (store_after plain [])\<lparr>bs_days := d\<rparr>"

section \<open>The schedule manager\<close>

text \<open>At one in the morning of 2 March only 1 March is in the store: it is served.\<close>

theorem load_iff_served_witness:
  "require_service_date utc 3 (at_minute 29540220)
     (fst (fst (load_for_access sample_around sample_around utc 3 0 (at_minute 29540220) (new_manager, fst sample_import)))) =
   Some ''2026-03-01''"
proof -
  let ?now = "at_minute 29540220"
  obtain m d r where l: "load_for_access sample_around sample_around utc 3 0 ?now (new_manager, fst sample_import) = ((m, d), r)"
    by (metis prod.collapse)
  have "snd (load_for_access sample_around sample_around utc 3 0 ?now (new_manager, fst sample_import)) = None"
    "snd (load_service_date sample_around 0 (requested_date utc ?now) (new_manager, fst sample_import)) \<noteq> None"
    "previous_date utc ?now = ''2026-03-01''" by code_simp+
  with load_iff_served [OF l] show ?thesis by (auto simp: l)
qed

section \<open>Ticks\<close>

definition serving :: jobs where
  "serving = (new_jobs (sample_store (fst sample_import)))\<lparr>jo_manager := loaded 0 ''2026-03-01'' None\<rparr>"

text \<open>At four in the morning the clean-up runs, and 1 March stays served with its two trains.\<close>

theorem tick_keeps_service_witness:
  "require_service_date utc 3 (at_minute 29538960) (jo_manager (fst (job_tick sample_config (sample_env []) (at_minute 29538960) serving))) =
     Some ''2026-03-01'' \<and>
   length (list_train_instances_by_date ''2026-03-01'' (days_of (fst (job_tick sample_config (sample_env []) (at_minute 29538960) serving)))) = 2"
proof -
  let ?now = "at_minute 29538960"
  obtain j es where tick: "job_tick sample_config (sample_env []) ?now serving = (j, es)" by fastforce
  have config: "jb_location sample_config = utc" "jb_hour sample_config = 3" by (simp_all add: sample_config_def)
  have "require_service_date utc 3 ?now (jo_manager serving) = Some ''2026-03-01''"
    "\<not> ''2026-03-01'' < oldest_kept utc ?now"
    "length (list_train_instances_by_date ''2026-03-01'' (days_of serving)) = 2" by code_simp+
  with tick_keeps_service [of sample_config ?now serving "''2026-03-01''", OF _ tick] show ?thesis by (simp add: config tick)
qed

text \<open>A scrape that fails at half past three is repeated at a quarter to four and not before.\<close>

definition half_past_three :: jobs where
  "half_past_three = fst (job_tick sample_config (sample_env [FetchFailed ''down'']) (at_minute 29538930) (new_jobs (sample_store no_days)))"

definition a_minute_later :: jobs where
  "a_minute_later = fst (job_loop sample_config [(sample_env [], at_minute 29538931)] half_past_three)"

theorem retries_after_backoff_witness:
  "15 * minute \<le> next_backoff 0 \<and> scrape_due sample_config (at_minute 29538945) a_minute_later \<and>
   \<not> scrape_due sample_config (at_minute 29538944) a_minute_later"
proof -
  let ?env = "sample_env [FetchFailed ''down'']" and ?t = "at_minute 29538930" and ?j = "new_jobs (sample_store no_days)"
  have start: "job_loop sample_config [] ?j = (?j, [])" by simp
  have due: "scrape_due sample_config ?t ?j" by code_simp
  have "snd (job_tick sample_config ?env ?t ?j) = []" by code_simp
  then have tick: "job_tick sample_config ?env ?t ?j = (half_past_three, [])" by (simp add: half_past_three_def prod_eq_iff)
  have failed: "snd (run_scrape sample_config ?env ?t ''scrape_daily_catchup''
      (fst (cleanup_step sample_config ?env ?t ?j)\<lparr>jo_attempt_date := requested_date (jb_location sample_config) ?t\<rparr>)) = Inr False"
    by code_simp
  have wait: "next_backoff 0 = next_backoff (jo_backoff ?j)" "?t + next_backoff 0 \<noteq> zero_time" by code_simp+
  have "snd (job_loop sample_config [(sample_env [], at_minute 29538931)] half_past_three) = []" by code_simp
  then have later: "job_loop sample_config [(sample_env [], at_minute 29538931)] half_past_three = (a_minute_later, [])"
    by (simp add: a_minute_later_def prod_eq_iff)
  have "requested_date (jb_location sample_config) (at_minute 29538931) = requested_date (jb_location sample_config) ?t"
    "at_minute 29538931 < ?t + next_backoff 0" by code_simp+
  then have before: "list_all (\<lambda>(te, t). requested_date (jb_location sample_config) t = requested_date (jb_location sample_config) ?t \<and>
      t < ?t + next_backoff 0) [(sample_env [], at_minute 29538931)]" by simp
  note retries = retries_after_backoff [OF start due tick failed wait later before]
  have day: "requested_date (jb_location sample_config) (at_minute 29538945) = requested_date (jb_location sample_config) ?t"
    "requested_date (jb_location sample_config) (at_minute 29538944) = requested_date (jb_location sample_config) ?t" by code_simp+
  have "?t + next_backoff 0 \<le> at_minute 29538945" "\<not> ?t + next_backoff 0 \<le> at_minute 29538944"
    "\<not> at_minute 29538945 < daily_cutoff (jb_location sample_config) (jb_hour sample_config) (at_minute 29538945)" by code_simp+
  with retries [OF day(1)] retries [OF day(2)] show ?thesis by blast
qed

section \<open>Yesterday's trains\<close>

definition yesterdays_train :: train_row where
  "yesterdays_train = \<lparr>in_id = ''2026-02-28-train-6502'', in_date = ''2026-02-28'', in_from = ''Riga'', in_to = ''Sloka'',
     in_dep = 29537640 * minute, in_arr = 29537700 * minute, in_source = ''agg-2026-02-28-gtfs''\<rparr>"

definition still_yesterday :: jobs where
  "still_yesterday = new_jobs (sample_store (no_days\<lparr>dt_trains := [yesterdays_train]\<rparr>))"

text \<open>The scrape of 1 March succeeds, and the train of 28 February goes.\<close>

theorem yesterday_outlives_failure_witness:
  "yesterdays_train \<in> set (dt_trains (days_of still_yesterday)) \<and>
   \<not> at_minute 29538930 < daily_cutoff utc 3 (at_minute 29538930) \<and>
   (\<exists>f path a ts m. orchestrate plain (scrape_target utc (at_minute 29538930)) 1 (Some (\<lambda>_. Inr ''2026-03-01.json'')) [Fetched (feed two_trains)] = Inr (f, path, a) \<and>
     snapshot_to_domain f = Inr (ts, m) \<and> ts \<noteq> [] \<and>
     snd (routed_import sample_around ''2026-03-01'' (sf_version f) ts m
       (days_of (fst (cleanup_step sample_config (sample_env [Fetched (feed two_trains)]) (at_minute 29538930) still_yesterday)))) = None)"
proof -
  let ?env = "sample_env [Fetched (feed two_trains)]" and ?t = "at_minute 29538930"
  obtain j es where tick: "job_tick sample_config ?env ?t still_yesterday = (j, es)" by fastforce
  have there: "yesterdays_train \<in> set (dt_trains (days_of still_yesterday))"
    by (simp add: still_yesterday_def new_jobs_def sample_store_def)
  have "yesterdays_train \<notin> set (dt_trains (days_of (fst (job_tick sample_config ?env ?t still_yesterday))))" by code_simp
  then have gone: "yesterdays_train \<notin> set (dt_trains (days_of j))" by (simp add: tick)
  have dates: "in_date yesterdays_train = previous_date (jb_location sample_config) ?t"
    "previous_date (jb_location sample_config) ?t \<noteq> requested_date (jb_location sample_config) ?t" by code_simp+
  have config: "jb_location sample_config = utc" "jb_hour sample_config = 3" "te_import ?env = sample_around"
    "su_lower sample_around = plain" "jb_least sample_config = 1" "te_write ?env = Some (\<lambda>_. Inr ''2026-03-01.json'')"
    "te_fetched ?env = [Fetched (feed two_trains)]"
    by (simp_all add: sample_config_def sample_env_def sample_around_def)
  have "requested_date utc ?t = ''2026-03-01''" by code_simp
  with yesterday_outlives_failure [OF tick there gone dates] there show ?thesis unfolding config by metis
qed

section \<open>From the feed to the reader\<close>

definition scraped_morning :: jobs where
  "scraped_morning = fst (job_tick sample_config (sample_env [Fetched (feed two_trains)]) (at_minute 29538930) (new_jobs (store_after plain [])))"

theorem successful_scrape_is_served_witness:
  "require_service_date utc 3 (at_minute 29538930) (jo_manager scraped_morning) = Some ''2026-03-01'' \<and>
   (\<exists>version. list_train_instances_by_date ''2026-03-01'' (days_of scraped_morning) =
     sort_key in_dep (map (published_train plain ''2026-03-01'' version) (sort_key (merge_key plain) two_trains)))"
proof -
  let ?env = "sample_env [Fetched (feed two_trains)]" and ?t = "at_minute 29538930" and ?j = "new_jobs (store_after plain [])"
  let ?date = "''2026-03-01''"
  have start: "job_loop sample_config [] ?j = (?j, [])" by simp
  have due: "scrape_due sample_config ?t ?j" by code_simp
  have "snd (job_tick sample_config ?env ?t ?j) = []" by code_simp
  then have tick: "job_tick sample_config ?env ?t ?j = (scraped_morning, [])" by (simp add: scraped_morning_def prod_eq_iff)
  have success: "snd (run_scrape sample_config ?env ?t ''scrape_daily_catchup''
      (fst (cleanup_step sample_config ?env ?t ?j)\<lparr>jo_attempt_date := requested_date (jb_location sample_config) ?t\<rparr>)) = Inr True"
    by code_simp
  have env: "su_db (te_load ?env) ''cached'' = None" "plain = su_lower (te_import ?env)"
    by (simp_all add: sample_env_def sample_around_def calm_def)
  have dates: "?date = requested_date (jb_location sample_config) ?t" "previous_date (jb_location sample_config) ?t \<noteq> ?date"
    by code_simp+
  from successful_scrape_is_served [OF start due tick success env(1) dates env(2)] obtain f path a ts m where
    f: "orchestrate plain (scrape_target (jb_location sample_config) ?t) (jb_least sample_config) (te_write ?env) (te_fetched ?env) = Inr (f, path, a)"
    and served: "\<not> contains_text ''vivi_pdf'' (sf_version f) \<longrightarrow>
      require_service_date (jb_location sample_config) (jb_hour sample_config) ?t (jo_manager scraped_morning) = Some ?date"
    "\<not> contains_text ''vivi_pdf'' (sf_version f) \<longrightarrow>
      fetch_all (te_fetched ?env) = Inr [feed two_trains] \<and> regular_feed plain ?date (feed two_trains) \<and>
        scrape_target (jb_location sample_config) ?t = ?date \<longrightarrow>
      list_train_instances_by_date ?date (days_of scraped_morning) =
        sort_key in_dep (map (published_train plain ?date (sf_version f)) (sort_key (merge_key plain) (todays_trains ?date (feed two_trains))))"
    by blast
  have "case orchestrate plain (scrape_target (jb_location sample_config) ?t) (jb_least sample_config) (te_write ?env) (te_fetched ?env) of
      Inl _ \<Rightarrow> False | Inr (f, _) \<Rightarrow> \<not> contains_text ''vivi_pdf'' (sf_version f)" by code_simp
  then have current: "\<not> contains_text ''vivi_pdf'' (sf_version f)" by (simp add: f)
  have "fetch_all (te_fetched ?env) = Inr [feed two_trains]" by (simp add: sample_env_def)
  moreover have "regular_feed plain ?date (feed two_trains)" "scrape_target (jb_location sample_config) ?t = ?date"
    "todays_trains ?date (feed two_trains) = two_trains" by code_simp+
  moreover have "jb_location sample_config = utc" "jb_hour sample_config = 3" by (simp_all add: sample_config_def)
  ultimately show ?thesis using served current by metis
qed

section \<open>A day imported by half\<close>

text \<open>
  The import of a snapshot file writes the trains and fails at their stops. The manager then finds the
  trains it has just written and serves them; the schedule counts as fresh, so that no later tick
  scrapes, although the feed is there, and the day is served without a single stop.
\<close>

definition locked_stops :: surroundings where
  "locked_stops = sample_around\<lparr>su_db := (\<lambda>s. if s = ''stops'' then Some ''locked'' else None),
     su_file := (\<lambda>_. Inr (fst sample_scrape))\<rparr>"

definition half_loaded :: "(manager \<times> day_tables) \<times> load_error option" where
  "half_loaded = load_for_access locked_stops sample_around utc 3 0 (at_minute 29538930) (new_manager, no_days)"

definition half_imported :: jobs where
  "half_imported = (new_jobs (sample_store (snd (fst half_loaded))))\<lparr>jo_manager := fst (fst half_loaded)\<rparr>"

theorem half_import_never_repaired:
  "snd half_loaded = None \<and>
   \<not> scrape_due sample_config (at_minute 29538960) half_imported \<and>
   is_fresh_for utc 3 (at_minute 29538960) (jo_manager (fst (job_tick sample_config (sample_env [Fetched (feed two_trains)]) (at_minute 29538960) half_imported))) \<and>
   length (list_train_instances_by_date ''2026-03-01'' (days_of (fst (job_tick sample_config (sample_env [Fetched (feed two_trains)]) (at_minute 29538960) half_imported)))) = 2 \<and>
   dt_stops (days_of (fst (job_tick sample_config (sample_env [Fetched (feed two_trains)]) (at_minute 29538960) half_imported))) = []"
  by (intro conjI) code_simp+

end
