(* ===== verification/SgLimiter.thy ===== *)
theory SgLimiter
  imports GoText "HOL-Library.AList" "HOL-Library.Signed_Division"
begin

text \<open>
  shared-go, the limiter of login requests per client (workloads/shared-go/telegramweb/rate_limit.go):
  a fixed window per key that opens with the first request, and a cleanup of expired windows once the
  table is large. The cleanup is shown to be invisible, and the limiter to bound every interval.
\<close>

section \<open>The limiter\<close>

text \<open>An entry is the start of its window and the requests let through in it.\<close>

type_synonym entry_list = "(string \<times> int \<times> nat) list"
type_synonym windows = "string \<Rightarrow> (int \<times> nat) option"

record limiter =
  lm_limit :: int
  lm_window :: int
  lm_entries :: entry_list

definition cleanup_threshold :: nat where "cleanup_threshold = 4096"

definition new_limiter :: "int \<Rightarrow> int \<Rightarrow> limiter" where
  "new_limiter limit window = \<lparr>lm_limit = limit, lm_window = window, lm_entries = []\<rparr>"

definition cleanup :: "int \<Rightarrow> limiter \<Rightarrow> limiter" where
  "cleanup now l =
     (if length (lm_entries l) \<le> cleanup_threshold then l
      else l\<lparr>lm_entries := filter (\<lambda>(_, start, _). now < start + lm_window l) (lm_entries l)\<rparr>)"

definition limiter_key :: "string \<Rightarrow> string" where
  "limiter_key key = (if trim_space key = [] then ''unknown'' else trim_space key)"

text \<open>The answer: let through or not, and when to try again.\<close>

definition allow :: "string \<Rightarrow> int \<Rightarrow> limiter \<Rightarrow> limiter \<times> bool \<times> int" where
  "allow raw now l =
     (if lm_limit l \<le> 0 \<or> lm_window l \<le> 0 then (l, True, 0)
      else let key = limiter_key raw;
               (start, used) = (case map_of (lm_entries l) key of None \<Rightarrow> (zero_time, 0) | Some e \<Rightarrow> e)
        in if start = zero_time \<or> \<not> now < start + lm_window l
           then (cleanup now (l\<lparr>lm_entries := AList.update key (now, 1) (lm_entries l)\<rparr>), True, 0)
           else if int used \<ge> lm_limit l then (l, False, time_sub (start + lm_window l) now)
           else (l\<lparr>lm_entries := AList.update key (start, used + 1) (lm_entries l)\<rparr>, True, 0))"

text \<open>\<open>SetRetryAfter\<close>: whole seconds, rounded up, at least one.\<close>

definition retry_after_seconds :: "int \<Rightarrow> int" where
  "retry_after_seconds d =
     (let s = i64 (i64 (d + second) - 1) sdiv second in if s < 1 then 1 else s)"

text \<open>A run of requests gives the decisions in their order.\<close>

fun decisions :: "(string \<times> int) list \<Rightarrow> limiter \<Rightarrow> bool list" where
  "decisions [] l = []"
| "decisions ((key, now) # rs) l = (let (l', ok, _) = allow key now l in ok # decisions rs l')"

text \<open>The times at which requests of a key were let through.\<close>

fun let_through :: "string \<Rightarrow> (string \<times> int) list \<Rightarrow> bool list \<Rightarrow> int list" where
  "let_through key ((k, t) # rs) (ok # oks) =
     (if ok \<and> limiter_key k = key then [t] else []) @ let_through key rs oks"
| "let_through key _ _ = []"

section \<open>A specification without a table\<close>

text \<open>The windows as a map, never cleaned.\<close>

definition spec_allow :: "int \<Rightarrow> int \<Rightarrow> string \<Rightarrow> int \<Rightarrow> windows \<Rightarrow> windows \<times> bool" where
  "spec_allow limit window key now f =
     (case f key of
        None \<Rightarrow> (f(key \<mapsto> (now, 1)), True)
      | Some (start, used) \<Rightarrow>
          if start + window \<le> now then (f(key \<mapsto> (now, 1)), True)
          else if limit \<le> int used then (f, False)
          else (f(key \<mapsto> (start, used + 1)), True))"

fun spec_decisions :: "int \<Rightarrow> int \<Rightarrow> (string \<times> int) list \<Rightarrow> windows \<Rightarrow> bool list" where
  "spec_decisions limit window [] f = []"
| "spec_decisions limit window ((key, now) # rs) f =
     (let (f', ok) = spec_allow limit window (limiter_key key) now f in ok # spec_decisions limit window rs f')"

text \<open>
  The table stands for the map when they agree but for windows that are over at \<open>now\<close>; every window
  began at a real time no later than \<open>now\<close>.
\<close>

definition stands_for :: "int \<Rightarrow> limiter \<Rightarrow> windows \<Rightarrow> bool" where
  "stands_for now l f \<longleftrightarrow> distinct (map fst (lm_entries l)) \<and>
     (\<forall>k. map_of (lm_entries l) k = f k \<or>
        map_of (lm_entries l) k = None \<and> (\<exists>s c. f k = Some (s, c) \<and> s + lm_window l \<le> now)) \<and>
     (\<forall>k s c. f k = Some (s, c) \<longrightarrow> zero_time < s \<and> s \<le> now)"

lemma stands_for_later: "stands_for now l f \<Longrightarrow> now \<le> now' \<Longrightarrow> stands_for now' l f"
  unfolding stands_for_def by (meson order_trans)

lemma stands_for_update:
  assumes "stands_for now l f" "zero_time < s" "s \<le> now"
  shows "stands_for now (l\<lparr>lm_entries := AList.update k (s, c) (lm_entries l)\<rparr>) (f(k \<mapsto> (s, c)))"
  using assms by (auto simp: stands_for_def update_conv' distinct_update)

lemma filtered_entry:
  assumes "distinct (map fst es)"
  shows "map_of (filter keep es) k = Option.bind (map_of es k) (\<lambda>e. if keep (k, e) then Some e else None)"
  using assms by (induction es) (auto split: option.splits bind_splits simp: map_of_eq_None_iff image_iff)

lemma cleanup_forgets:
  "distinct (map fst (lm_entries l)) \<Longrightarrow>
   map_of (lm_entries (cleanup now l)) k = map_of (lm_entries l) k \<or>
   map_of (lm_entries (cleanup now l)) k = None \<and>
     (\<exists>s c. map_of (lm_entries l) k = Some (s, c) \<and> s + lm_window l \<le> now)"
  by (cases "map_of (lm_entries l) k") (auto simp: cleanup_def filtered_entry)

lemma stands_for_cleanup:
  assumes "stands_for now l f"
  shows "stands_for now (cleanup now l) f"
  unfolding stands_for_def
proof (intro conjI allI)
  have l: "distinct (map fst (lm_entries l))" using assms by (simp add: stands_for_def)
  then show "distinct (map fst (lm_entries (cleanup now l)))"
    by (simp add: cleanup_def distinct_map_filter)
  fix k
  have w: "lm_window (cleanup now l) = lm_window l" by (simp add: cleanup_def)
  show "map_of (lm_entries (cleanup now l)) k = f k \<or> map_of (lm_entries (cleanup now l)) k = None \<and>
      (\<exists>s c. f k = Some (s, c) \<and> s + lm_window (cleanup now l) \<le> now)"
    using cleanup_forgets [OF l, of now k] assms unfolding stands_for_def w by metis
qed (use assms in \<open>auto simp: stands_for_def\<close>)

lemma cleanup_const [simp]: "lm_limit (cleanup now l) = lm_limit l" "lm_window (cleanup now l) = lm_window l"
  by (simp_all add: cleanup_def)

text \<open>One request: the table and the map decide alike and stay related.\<close>

lemma allow_simulates:
  assumes rel: "stands_for t l f" and t: "t \<le> now" "zero_time < now"
    and on: "0 < lm_limit l" "0 < lm_window l" and run: "allow raw now l = (l', ok, d)"
  shows "snd (spec_allow (lm_limit l) (lm_window l) (limiter_key raw) now f) = ok \<and>
    stands_for now l' (fst (spec_allow (lm_limit l) (lm_window l) (limiter_key raw) now f)) \<and>
    lm_limit l' = lm_limit l \<and> lm_window l' = lm_window l"
proof -
  have rel': "stands_for now l f"
    using rel t(1) by (rule stands_for_later)
  let ?k = "limiter_key raw"
  consider "f ?k = None" "map_of (lm_entries l) ?k = None"
    | s c where "f ?k = Some (s, c)" "map_of (lm_entries l) ?k = None" "s + lm_window l \<le> now"
    | s c where "f ?k = Some (s, c)" "map_of (lm_entries l) ?k = Some (s, c)" "zero_time < s" "s \<le> now"
    using rel' unfolding stands_for_def by (metis option.exhaust surj_pair)
  then show ?thesis
    using run on rel' t(2)
    by cases (auto simp: allow_def spec_allow_def Let_def not_le intro!: stands_for_cleanup stands_for_update
        split: if_splits)
qed

lemma decisions_simulate:
  assumes "stands_for t l f" "0 < lm_limit l" "0 < lm_window l"
    and "sorted_wrt (\<lambda>a b. snd a \<le> snd b) rs" "\<forall>r \<in> set rs. t \<le> snd r \<and> zero_time < snd r"
  shows "decisions rs l = spec_decisions (lm_limit l) (lm_window l) rs f"
  using assms
proof (induction rs arbitrary: t l f)
  case (Cons r rs)
  obtain raw now where r: "r = (raw, now)" by (cases r)
  obtain l' ok d where run: "allow raw now l = (l', ok, d)" by (metis prod_cases3)
  obtain f' ok' where spec: "spec_allow (lm_limit l) (lm_window l) (limiter_key raw) now f = (f', ok')"
    by (metis surj_pair)
  have "t \<le> now" "zero_time < now"
    using Cons.prems(5) r by auto
  from allow_simulates [OF Cons.prems(1) this Cons.prems(2,3) run]
  have step: "ok' = ok" "stands_for now l' f'" "lm_limit l' = lm_limit l" "lm_window l' = lm_window l"
    by (simp_all add: spec)
  have "decisions rs l' = spec_decisions (lm_limit l') (lm_window l') rs f'"
    using Cons.prems step by (intro Cons.IH [of now]) (auto simp: r)
  then show ?case
    by (simp add: r run spec step)
qed simp


section \<open>How much is let through\<close>

definition in_window :: "int \<Rightarrow> int \<Rightarrow> int list \<Rightarrow> int" where
  "in_window lo window ts = int (length (filter (\<lambda>t. lo \<le> t \<and> t < lo + window) ts))"

lemma in_window_simps [simp]:
  "in_window lo w [] = 0"
  "in_window lo w (t # ts) = (if lo \<le> t \<and> t < lo + w then 1 else 0) + in_window lo w ts"
  by (simp_all add: in_window_def)

text \<open>Every window of the map has let through at least one request and no more than the limit.\<close>

definition fair :: "int \<Rightarrow> windows \<Rightarrow> bool" where
  "fair limit f \<longleftrightarrow> (\<forall>k s c. f k = Some (s, c) \<longrightarrow> 1 \<le> c \<and> int c \<le> limit)"

lemma spec_allow_fair: "fair limit f \<Longrightarrow> 0 < limit \<Longrightarrow> fair limit (fst (spec_allow limit w k now f))"
  by (auto simp: fair_def spec_allow_def split: option.splits)

text \<open>What an interval that has begun can still let through, by the window that is open.\<close>

definition room :: "int \<Rightarrow> int \<Rightarrow> (int \<times> nat) option \<Rightarrow> int" where
  "room limit lo e = (case e of None \<Rightarrow> 2 * limit | Some (s, c) \<Rightarrow> (if s < lo then 2 * limit else limit) - int c)"

lemma fair_room: "fair limit f \<Longrightarrow> 0 < limit \<Longrightarrow> 0 \<le> room limit lo (f k) \<and> room limit lo (f k) \<le> 2 * limit"
  by (cases "f k") (force simp: fair_def room_def)+

lemma spec_allow_room:
  assumes "fair limit f" "0 < limit" "lo \<le> now" "now < lo + w" "spec_allow limit w k now f = (f', ok)"
  shows "(if ok \<and> k = key then 1 else 0) + room limit lo (f' key) \<le> room limit lo (f key)"
proof (cases "k = key")
  case True
  then show ?thesis
    using assms by (cases "f key") (auto simp: spec_allow_def room_def fair_def split: if_splits)
next
  case False
  then have "f' key = f key"
    using assms(5) by (auto simp: spec_allow_def split: option.splits if_splits)
  with False show ?thesis by simp
qed

lemma let_through_late:
  "\<forall>r \<in> set rs. hi \<le> snd r \<Longrightarrow> lo + w \<le> hi \<Longrightarrow> in_window lo w (let_through key rs oks) = 0"
  by (induction key rs oks rule: let_through.induct) auto

lemma spec_bound_begun:
  assumes "fair limit f" "0 < limit" "sorted_wrt (\<lambda>a b. snd a \<le> snd b) rs" "\<forall>r \<in> set rs. lo \<le> snd r"
  shows "in_window lo w (let_through key rs (spec_decisions limit w rs f)) \<le> room limit lo (f key)"
  using assms
proof (induction rs arbitrary: f)
  case (Cons r rs)
  obtain raw now where r: "r = (raw, now)" by (cases r)
  obtain f' ok where spec: "spec_allow limit w (limiter_key raw) now f = (f', ok)" by (metis surj_pair)
  have fair': "fair limit f'" using spec_allow_fair [OF Cons.prems(1,2)] by (metis fst_conv spec)
  show ?case
  proof (cases "now < lo + w")
    case True
    have "in_window lo w (let_through key rs (spec_decisions limit w rs f')) \<le> room limit lo (f' key)"
      using Cons.prems fair' by (intro Cons.IH) auto
    then show ?thesis
      using spec_allow_room [OF Cons.prems(1,2) _ True spec, of key] Cons.prems(4) True
      by (auto simp: r spec split: if_splits)
  next
    case False
    then have "\<forall>r' \<in> set (r # rs). now \<le> snd r'" using Cons.prems(3) r by auto
    then show ?thesis
      using let_through_late [of "r # rs" now lo w key] False fair_room [OF Cons.prems(1,2)] by simp
  qed
qed (simp add: fair_room)

lemma spec_bound:
  assumes "fair limit f" "0 < limit" "sorted_wrt (\<lambda>a b. snd a \<le> snd b) rs"
  shows "in_window lo w (let_through key rs (spec_decisions limit w rs f)) \<le> 2 * limit"
  using assms
proof (induction rs arbitrary: f)
  case (Cons r rs)
  obtain raw now where r: "r = (raw, now)" by (cases r)
  obtain f' ok where spec: "spec_allow limit w (limiter_key raw) now f = (f', ok)" by (metis surj_pair)
  show ?case
  proof (cases "now < lo")
    case True
    have "fair limit f'" using spec_allow_fair [OF Cons.prems(1,2)] by (metis fst_conv spec)
    then have "in_window lo w (let_through key rs (spec_decisions limit w rs f')) \<le> 2 * limit"
      using Cons.prems by (intro Cons.IH) auto
    then show ?thesis using True by (simp add: r spec)
  next
    case False
    then have "\<forall>r' \<in> set (r # rs). lo \<le> snd r'" using Cons.prems(3) r by auto
    with spec_bound_begun [OF Cons.prems(1,2,3) this, of w key] fair_room [OF Cons.prems(1,2), of lo key]
    show ?thesis by linarith
  qed
qed simp

text \<open>A new limiter stands for the map without windows.\<close>

definition proper_requests :: "(string \<times> int) list \<Rightarrow> bool" where
  "proper_requests rs \<longleftrightarrow> sorted_wrt (\<lambda>a b. snd a \<le> snd b) rs \<and> (\<forall>r \<in> set rs. zero_time < snd r)"

lemma new_limiter_const [simp]: "lm_limit (new_limiter limit w) = limit" "lm_window (new_limiter limit w) = w"
  by (simp_all add: new_limiter_def)

lemma new_limiter_stands: "stands_for t (new_limiter limit w) Map.empty"
  by (simp add: stands_for_def new_limiter_def)

lemma new_limiter_decides:
  assumes "0 < limit" "0 < w" "proper_requests rs"
  shows "decisions rs (new_limiter limit w) = spec_decisions limit w rs Map.empty"
proof -
  have "decisions rs (new_limiter limit w) =
      spec_decisions (lm_limit (new_limiter limit w)) (lm_window (new_limiter limit w)) rs Map.empty"
    using assms by (intro decisions_simulate [OF new_limiter_stands [of zero_time]])
      (auto simp: new_limiter_def proper_requests_def)
  then show ?thesis by (simp add: new_limiter_def)
qed

section \<open>When to try again\<close>

text \<open>The limiter after a run of requests.\<close>

definition after_requests :: "(string \<times> int) list \<Rightarrow> limiter \<Rightarrow> limiter" where
  "after_requests rs l = fold (\<lambda>(key, now) l. fst (allow key now l)) rs l"

lemma after_simulates:
  assumes "stands_for t l f" "0 < lm_limit l" "0 < lm_window l"
    and "sorted_wrt (\<lambda>a b. snd a \<le> snd b) rs" "\<forall>r \<in> set rs. t \<le> snd r \<and> zero_time < snd r \<and> snd r \<le> T" "t \<le> T"
  shows "\<exists>f'. stands_for T (after_requests rs l) f' \<and> lm_limit (after_requests rs l) = lm_limit l \<and>
    lm_window (after_requests rs l) = lm_window l \<and>
    (\<forall>k. (\<forall>r \<in> set rs. limiter_key (fst r) \<noteq> k) \<longrightarrow> f' k = f k)"
  using assms
proof (induction rs arbitrary: t l f)
  case Nil
  then show ?case by (auto simp: after_requests_def intro: stands_for_later)
next
  case (Cons r rs)
  obtain raw now where r: "r = (raw, now)" by (cases r)
  obtain l' ok d where run: "allow raw now l = (l', ok, d)" by (metis prod_cases3)
  obtain f' where f': "f' = fst (spec_allow (lm_limit l) (lm_window l) (limiter_key raw) now f)" by simp
  have "t \<le> now" "zero_time < now"
    using Cons.prems(5) r by auto
  from allow_simulates [OF Cons.prems(1) this Cons.prems(2,3) run]
  have step: "stands_for now l' f'" "lm_limit l' = lm_limit l" "lm_window l' = lm_window l"
    by (simp_all add: f')
  have others: "f' k = f k" if "k \<noteq> limiter_key raw" for k
    using that by (auto simp: f' spec_allow_def split: option.splits)
  have "\<exists>g. stands_for T (after_requests rs l') g \<and> lm_limit (after_requests rs l') = lm_limit l' \<and>
      lm_window (after_requests rs l') = lm_window l' \<and>
      (\<forall>k. (\<forall>r \<in> set rs. limiter_key (fst r) \<noteq> k) \<longrightarrow> g k = f' k)"
    using Cons.prems step by (intro Cons.IH [of now]) (auto simp: r)
  moreover have "after_requests (r # rs) l = after_requests rs l'"
    by (simp add: after_requests_def r run)
  ultimately show ?case
    using others step r by auto
qed

text \<open>A refusal comes from an open window, and says when that window ends.\<close>

lemma refused_window:
  assumes "stands_for t l f" "t \<le> now" "in_i64 (lm_window l)" "allow raw now l = (l', False, d)"
  shows "l' = l \<and> 0 < d \<and> d \<le> lm_window l \<and> (\<exists>c. f (limiter_key raw) = Some (now + d - lm_window l, c))"
proof -
  have rel: "stands_for now l f" using assms(1,2) by (rule stands_for_later)
  obtain s c where e: "map_of (lm_entries l) (limiter_key raw) = Some (s, c)"
    and d: "l' = l" "now < s + lm_window l" "d = time_sub (s + lm_window l) now"
    using assms(4) by (auto simp: allow_def Let_def split: if_splits option.splits)
  have fc: "f (limiter_key raw) = Some (s, c)" and "s \<le> now"
    using rel e unfolding stands_for_def by (metis option.distinct(1))+
  have "d = s + lm_window l - now"
    using d \<open>s \<le> now\<close> assms(3) by (simp add: time_sub_small in_i64_def i64_min_def)
  with fc d(1,2) \<open>s \<le> now\<close> show ?thesis by auto
qed

lemma open_window_over:
  assumes "stands_for t l f" "t \<le> now" "f (limiter_key raw) = Some (s, c)" "s + lm_window l \<le> now"
  shows "fst (snd (allow raw now l))"
proof -
  have "map_of (lm_entries l) (limiter_key raw) \<in> {None, Some (s, c)}"
    using assms(1,3) unfolding stands_for_def by (metis insert_iff)
  then show ?thesis
    using assms(4) by (auto simp: allow_def Let_def)
qed

lemma retry_after_covers:
  assumes "0 < d" "in_i64 (d + second)"
  shows "d \<le> retry_after_seconds d * second"
proof -
  have "in_i64 (d + second - 1)"
    using assms by (auto simp: in_i64_def second_def i64_min_def)
  then have "retry_after_seconds d = max 1 ((d + second - 1) sdiv second)"
    using assms(2) by (simp add: retry_after_seconds_def i64_id Let_def max_def)
  also have "(d + second - 1) sdiv second = (d + second - 1) div second"
    using assms(1) by (simp add: signed_divide_int_def second_def sgn_if)
  finally show ?thesis
    using assms(1) by (simp add: second_def)
qed

section \<open>Properties\<close>

text \<open>
  C40. Cleaning the table up is invisible: for requests in the order of their times, the limiter
  decides exactly as fixed windows that are never forgotten.
\<close>

theorem limiter_refines_windows:
  assumes "0 < limit" "0 < window" "proper_requests rs"
  shows "decisions rs (new_limiter limit window) = spec_decisions limit window rs Map.empty"
  using assms by (rule new_limiter_decides)

text \<open>
  C38. In any interval as long as the window, wherever it begins, no client is let through more than
  twice the limit, whatever the other clients do.
\<close>

theorem limiter_bounds_interval:
  assumes "0 < limit" "0 < window" "proper_requests rs"
  shows "in_window lo window (let_through key rs (decisions rs (new_limiter limit window))) \<le> 2 * limit"
  using assms spec_bound [of limit Map.empty rs lo window key]
  by (simp add: new_limiter_decides fair_def proper_requests_def)

text \<open>
  A refused client that comes back after the whole seconds it was told to wait is let through,
  whatever other clients asked for in between; it is never told to wait longer than the window.
\<close>

theorem retry_after_suffices:
  assumes "0 < limit" "0 < window" "in_i64 (window + second)"
    and "proper_requests (rs @ (raw, now) # others @ [(raw, later)])"
    and "allow raw now (after_requests rs (new_limiter limit window)) = (l, False, d)"
    and "\<forall>r \<in> set others. limiter_key (fst r) \<noteq> limiter_key raw"
    and "now + retry_after_seconds d * second \<le> later"
  shows "0 < d \<and> d \<le> window \<and> fst (snd (allow raw later (after_requests others l)))"
proof -
  let ?l = "after_requests rs (new_limiter limit window)"
  have w: "in_i64 window" using assms(2,3) by (auto simp: in_i64_def second_def i64_min_def)
  have rs: "\<forall>r \<in> set rs. zero_time \<le> snd r \<and> zero_time < snd r \<and> snd r \<le> now" "zero_time \<le> now"
    "sorted_wrt (\<lambda>a b. snd a \<le> snd b) rs"
    using assms(4) by (auto simp: proper_requests_def sorted_wrt_append less_imp_le)
  obtain f where f: "stands_for now ?l f" "lm_limit ?l = limit" "lm_window ?l = window"
    using after_simulates [OF new_limiter_stands [of zero_time], of limit window rs now] assms(1,2) rs by auto
  obtain c where c: "l = ?l" "0 < d" "d \<le> window" "f (limiter_key raw) = Some (now + d - window, c)"
    using refused_window [OF f(1) _ _ assms(5)] w f(3) by auto
  obtain g where g: "stands_for later (after_requests others l) g" "lm_window (after_requests others l) = window"
      "g (limiter_key raw) = f (limiter_key raw)"
    using after_simulates [OF f(1), of others later] assms(1,2,4,6) f(2,3) c(1)
    by (auto simp: proper_requests_def sorted_wrt_append)
  have "in_i64 (d + second)" using assms(3) c(2,3) by (auto simp: in_i64_def second_def i64_min_def)
  then have "now + d \<le> later" using retry_after_covers [OF c(2)] assms(7) by linarith
  with g c(4) have "fst (snd (allow raw later (after_requests others l)))"
    by (intro open_window_over [OF g(1)]) auto
  with c show ?thesis by simp
qed

section \<open>A run\<close>

definition two_clients :: "(string \<times> int) list" where
  "two_clients = [('' a'', second), (''b'', second), (''a'', 2 * second), (''a'', 3 * second)]"

theorem limiter_refines_windows_witness:
  "decisions two_clients (new_limiter 2 (60 * second)) = spec_decisions 2 (60 * second) two_clients Map.empty \<and>
   decisions two_clients (new_limiter 2 (60 * second)) = [True, True, True, False]"
proof -
  have "proper_requests two_clients" by code_simp
  then show ?thesis
    using limiter_refines_windows [of 2 "60 * second" two_clients] by (simp add: second_def) code_simp
qed

theorem limiter_bounds_interval_witness:
  "in_window 0 (60 * second) (let_through ''a'' two_clients (decisions two_clients (new_limiter 2 (60 * second)))) \<le> 4"
proof -
  have "proper_requests two_clients" by code_simp
  then show ?thesis
    using limiter_bounds_interval [of 2 "60 * second" two_clients 0 "''a''"] by (simp add: second_def)
qed

theorem retry_after_suffices_witness:
  "fst (snd (allow ''a'' (61 * second) (after_requests [(''b'', 4 * second)]
     (after_requests (take 3 two_clients) (new_limiter 2 (60 * second))))))"
proof -
  have "proper_requests (take 3 two_clients @ (''a'', 3 * second) # [(''b'', 4 * second)] @ [(''a'', 61 * second)])"
    "in_i64 (60 * second + second)"
    "allow ''a'' (3 * second) (after_requests (take 3 two_clients) (new_limiter 2 (60 * second))) =
       (after_requests (take 3 two_clients) (new_limiter 2 (60 * second)), False, 58 * second)"
    "\<forall>r \<in> set [(''b'', 4 * second)]. limiter_key (fst r) \<noteq> limiter_key ''a''"
    "3 * second + retry_after_seconds (58 * second) * second \<le> 61 * second"
    by code_simp+
  from retry_after_suffices [OF _ _ this(2,1,3,4,5)] show ?thesis
    by (simp add: second_def)
qed

end
