(* ===== verification/Spec2Isabelle.thy ===== *)
theory Spec2Isabelle
  imports HkClaims HkClient HkExample TrHubExample TrDemand TrRelayClaims TrWriterExample TrGatewayRuns TbExample
    TbRide TbJobRuns SgLimiter
begin

text \<open>
  A verification library of the Go services of this repository (src/workloads). Three programs are
  modelled, in theories named by a prefix; the prefix Go is the shared model of the Go language and its
  standard library. Every definition is executable, every state change of a modelled part is a
  definition, and everything outside the repository (a server's replies, the clock, the time zone, the
  order in which a map is walked, random identifiers, a failing database) is an argument.

  \<^bold>\<open>The Go library.\<close> GoPrelude: 64-bit integers with wrap-around, strings as bytes, trimming, splitting
  and joining. GoLib: cleaned paths, instants and durations, floats as rationals with the rounding of
  float64, and sorting with a comparison function, whose contract is the locale strict_weak,
  interpreted for every comparison the programs sort by. GoText: hexadecimal and decimal digits, words
  of a text, runes, FNV-1a. GoTime: civil times in a location, dates and the round trip of RFC 3339
  texts. GoSha: SHA-256 and HMAC on bytes. GoEffects: calls of a remote service that may fail, composed in order, with
  compositional rules for the results (yields), the calls issued (emits) and stopping at the first
  failure (fail_stop).

  \<^bold>\<open>qBittorrent housekeeper\<close> (workloads/qbittorrent-housekeeper). A poll lists the torrents, measures the
  disk, normalizes tags, finishes interrupted admissions, deletes what is past retention or admits
  waiting torrents while they fit a byte budget, evicting others under pressure, and publishes a
  snapshot. HkTypes, HkRules: the torrent, the policy and the pure decisions (internal/housekeeper/
  engine.go); HkEngine: normalize, admit and Reconcile over an arbitrary Web API; HkStatus: the status
  store and the health endpoint (status.go); HkConfig, HkClient: used bytes of the filesystem,
  validation, password file, and the client's requests with its one retry (internal/storage,
  internal/config, internal/qbit). HkSafety, HkPoll and HkBudget hold the lemmas on the calls of a poll,
  on its order and on the budget; HkClaims the properties: what may be deleted and started, that
  deletions come last, that admissions respect the budget and go oldest first, that evictions are
  minimal, and that a poll fails closed.

  \<^bold>\<open>ticket-remote\<close> (workloads/ticket-remote). A phone streams its screen to a relay in the server, which
  forwards frames to browsers. TrFrames, TrHub: the TSF3 envelope on bytes, the phone's clock bounded by
  the four timestamps of a probe, and the admission of frames (internal/web/direct_stream.go);
  TrHubClaims and TrHubExample: that a forwarded frame is fresh in true time, in order, of the current
  epoch, and that restamping round-trips. TrDemand: the single opportunity to ask the phone for an
  ordinary capture (capture_demand.go) as a step relation with the sending goroutine and the timer as
  steps. TrRelay, TrRelayInv, TrRelayProbe, TrRelayClaims: the connection of the relay (internal/phone/
  relay.go), every section under its lock as a step: viewers, the idle stop, ownership of the retry
  loop, dials, clock probes, demands; no viewer is stranded without a running loop. TrWriter,
  TrWriterInv, TrWriterRun, TrWriterClaims, TrWriterExample: the writer of a browser's socket
  (video_writer.go), its control queue, its one pending picture, the receipts of the browser and the
  goroutine that writes, as a step relation; the order on the wire, the credit of the browser and that
  the writer does not sleep on work. TrOpening: the opening of a page (event_sink.go) and the texts of
  traces. TrDesired: the desired stream state (stream_control.go), a queue of the newest update with one
  writer and a delayed release, as a step relation; every waiting caller has one owner. TrViewers: the
  viewer registry (relay_viewers.go) over the relay, the hub, the demand and that queue: sockets and
  their limits, references by session, leases with timers, and what a cold restart takes down.
  TrViewersInv and TrLeases: how references and leases move; TrGateway: everything that can happen to
  the registry, in any order, and its balance; TrCold: the loop of a cold restart (cold_restart.go);
  TrGatewayClaims: the relay counts exactly the sessions that hold something and nothing leaks, as long
  as no session is named like the lease of another; a restart keeps everyone off, callers are answered
  once; TrGatewayRuns: runs, three of which show faults, one of them what such a name does.

  \<^bold>\<open>shared-go\<close> (workloads/shared-go/telegramweb). SgLimiter: the limiter of login requests
  (rate_limit.go), its refinement of fixed windows that are never forgotten, the bound on any interval,
  and that the published delay suffices.

  \<^bold>\<open>train-bot\<close> (workloads/train-bot). Passengers report ticket inspections; reports become incidents that
  others vote and comment on. TbTypes: the data (internal/domain); TbStore: the guarded mutations and
  the queries of the SQLite store (internal/store/sqlite.go) on tables as lists of rows, with any
  statement failing; TbIncidents, TbBundles: the identity of an incident and the lists of the day
  (internal/reports/incidents.go); TbService, TbReports: the operations of the service (incidents.go,
  service.go). TbMutations: runs of mutations. TbLimits: two contracts as locales, windowed (a row is
  accepted while its key has room in the window) and spaced (the rows of a key lie apart); TbAccept
  and TbStoreClaims interpret them on the mutations, four and three times, and state the limits, the
  spacing, and that the votes refine a map. TbBundles has the locale incident_source, what a kind of
  report owes to the collecting loop, interpreted for trains, sightings and locations; TbIncidentClaims
  and TbPublicClaims: today's reports are partitioned by incident, and an accepted report is found under
  the identifier its submission returned, when that is also the identifier of the second it is stored with. TbTally: the tally counts users by their last vote.
  TbPrivacy: what a visitor sees does not depend on the people in the tables, nor on the text of an area
  report beyond the identifier hashed from it. TbStatus: the status and
  the timeline of a train are exactly what its reports say. TbExample: concrete runs. TbRide: check-ins,
  check-outs and their undo (internal/ride/service.go): an undone check-out leaves no trace, and the
  riders of a train are the users on it.

  The timetable of train-bot goes from the providers' feeds to the passengers' queries. TbFeeds: the
  feeds are merged into a snapshot and converted into rows (internal/scrape/types.go, merge.go,
  orchestrator.go); TbFeedClaims: a regular feed is imported as it is. TbTimetable: trains, stops and
  stations in the SQLite store, their import, queries, deletion and clean-up (internal/store/sqlite.go,
  store.go); TbTimetableClaims: the keys of the tables, what an import leaves, and that destinations and
  routes agree. TbSchedule: which day is loaded and served (internal/schedule/manager.go, snapshot.go,
  the import of store/routed.go). TbJobs: the clean-up, the daily scrape and its retries (internal/jobs/
  runner.go); TbJobClaims: a tick keeps the served day, a failed scrape is repeated after its backoff and
  costs no train of yesterday, and a successful one ends with the snapshot built from the providers being
  served, which is the feed when one provider answered with a regular one; TbJobRuns: runs, one of which
  shows a fault.

  \<^bold>\<open>Bounds.\<close> No definition needs fuel: the loops are structural, or recursive with a measure. The steps
  of concurrent parts interleave freely; a run is any finite sequence of steps.

  \<^bold>\<open>Not modelled.\<close> HTTP routing, templates, JSON texts (decoded fields enter instead), message texts,
  process wiring, the Unicode tables of lower-casing, and goroutine scheduling inside one locked
  section. Of ticket-remote: the trial meter, page activity and event reports, counters around messages
  and a state package that is not part of the repository. Of train-bot: the decoding of GTFS archives,
  the reader of the projected timetable and the recovery command (outside formats), the Telegram bot and
  the web server (texts and routing), the client of the remote store (its module is TypeScript). Of
  shared-go: sessions and the login widget, comparisons around library cryptography. satiksme-bot repeats
  train-bot's rules for reports, votes and comments in a copy of its own. Rust, TypeScript, Python and
  shell code of the repository is outside the implementation language of this library.
\<close>

end
